(* ===== verification/Prelude.thy ===== *)
theory Prelude
  imports Main "HOL-Library.Sublist" "HOL-Library.Word" "HOL-Library.Char_ord" "HOL-Library.List_Lexorder"
begin

text \<open>
  Shared vocabulary of the development: the model's basic types (identifiers, instants, byte
  strings, JSON values), the Rust string operations the sources use, and the relational operators
  (select, update, delete, order, limit) in which the SQL statements of the repository are
  written. The lemma collections \<open>table_simps\<close> and \<open>result_splits\<close> carry the component proofs.
\<close>

named_theorems table_simps "rewrite rules for table operators"
named_theorems result_splits "case splits for results"

declare sum.splits [result_splits] option.splits [result_splits] prod.splits [result_splits]
  if_splits [result_splits]

section \<open>Basic types\<close>

text \<open>
  A UUID is its 128-bit value read as a number. Instants and intervals count microseconds.
  A \<open>string\<close> is the UTF-8 byte sequence of a Rust \<open>String\<close>, so that \<open>length\<close> is \<open>len()\<close>.
\<close>

type_synonym uuid = nat
type_synonym time = int
type_synonym bytes = "8 word list"

definition secs :: "int \<Rightarrow> time" where
  "secs n = n * 1000000"

definition days :: "int \<Rightarrow> time" where
  "days n = secs (n * 86400)"

section \<open>JSON values\<close>

text \<open>
  \<open>serde_json::Value\<close>. Numbers are integers here; an object is an association list whose first
  entry for a key counts.
\<close>

datatype json =
    JNull
  | JBool bool
  | JNum int
  | JStr string
  | JArr "json list"
  | JObj "(string \<times> json) list"

fun json_get :: "json \<Rightarrow> string \<Rightarrow> json option" where
  "json_get (JObj kvs) k = map_of kvs k"
| "json_get _ k = None"

fun as_str :: "json option \<Rightarrow> string option" where
  "as_str (Some (JStr s)) = Some s"
| "as_str _ = None"

fun as_u64 :: "json option \<Rightarrow> nat option" where
  "as_u64 (Some (JNum n)) = (if 0 \<le> n then Some (nat n) else None)"
| "as_u64 _ = None"

fun as_bool :: "json option \<Rightarrow> bool option" where
  "as_bool (Some (JBool b)) = Some b"
| "as_bool _ = None"

fun assoc_set :: "string \<Rightarrow> 'v \<Rightarrow> (string \<times> 'v) list \<Rightarrow> (string \<times> 'v) list" where
  "assoc_set k v [] = [(k, v)]"
| "assoc_set k v ((k', v') # kvs) = (if k = k' then (k, v) # kvs else (k', v') # assoc_set k v kvs)"

text \<open>
  \<open>value[key] = v\<close>: replaces or adds the member of an object and turns \<open>null\<close> into an object;
  indexing any other value panics, which is \<open>None\<close>.
\<close>

fun json_set :: "json \<Rightarrow> string \<Rightarrow> json \<Rightarrow> json option" where
  "json_set (JObj kvs) k v = Some (JObj (assoc_set k v kvs))"
| "json_set JNull k v = Some (JObj [(k, v)])"
| "json_set _ k v = None"

section \<open>Strings\<close>

definition trim_end_matches :: "char \<Rightarrow> string \<Rightarrow> string" where
  "trim_end_matches c s = rev (dropWhile (\<lambda>x. x = c) (rev s))"

definition trim_start_matches :: "char \<Rightarrow> string \<Rightarrow> string" where
  "trim_start_matches c s = dropWhile (\<lambda>x. x = c) s"

text \<open>
  \<open>str::trim\<close> removes the characters with the Unicode property White\_Space at both ends; here they
  are their UTF-8 sequences.
\<close>

definition white_space :: "string list" where
  "white_space = map (\<lambda>c. [c]) [CHR 0x09, CHR 0x0A, CHR 0x0B, CHR 0x0C, CHR 0x0D, CHR '' ''] @
     [[CHR 0xC2, CHR 0x85], [CHR 0xC2, CHR 0xA0], [CHR 0xE1, CHR 0x9A, CHR 0x80]] @
     map (\<lambda>n. [CHR 0xE2, CHR 0x80, char_of (n::nat)]) ([128..<139] @ [168, 169, 175]) @
     [[CHR 0xE2, CHR 0x81, CHR 0x9F], [CHR 0xE3, CHR 0x80, CHR 0x80]]"

definition leading :: "string list \<Rightarrow> string \<Rightarrow> nat" where
  "leading seqs s = (case find (\<lambda>w. prefix w s) seqs of None \<Rightarrow> 0 | Some w \<Rightarrow> length w)"

function strip :: "string list \<Rightarrow> string \<Rightarrow> string" where
  "strip seqs s = (if s = [] \<or> leading seqs s = 0 then s else strip seqs (drop (leading seqs s) s))"
  by pat_completeness auto
termination by (relation "measure (\<lambda>(seqs, s). length s)") auto

declare strip.simps [simp del]

definition trim :: "string \<Rightarrow> string" where
  "trim s = rev (strip (map rev white_space) (rev (strip white_space s)))"

fun contains_str :: "string \<Rightarrow> string \<Rightarrow> bool" where
  "contains_str p [] = (p = [])"
| "contains_str p (c # cs) = (prefix p (c # cs) \<or> contains_str p cs)"

fun join_str :: "string \<Rightarrow> string list \<Rightarrow> string" where
  "join_str sep [] = []"
| "join_str sep [x] = x"
| "join_str sep (x # y # ys) = x @ sep @ join_str sep (y # ys)"

fun split_on :: "char \<Rightarrow> string \<Rightarrow> string list" where
  "split_on c [] = [[]]"
| "split_on c (x # xs) =
     (if x = c then [] # split_on c xs
      else (case split_on c xs of [] \<Rightarrow> [[x]] | y # ys \<Rightarrow> (x # y) # ys))"

text \<open>\<open>rsplit_once\<close>: the parts before and after the last occurrence of a character.\<close>

definition rsplit_once :: "char \<Rightarrow> string \<Rightarrow> (string \<times> string) option" where
  "rsplit_once c s =
     (if c \<in> set s
      then Some (rev (tl (dropWhile (\<lambda>x. x \<noteq> c) (rev s))), rev (takeWhile (\<lambda>x. x \<noteq> c) (rev s)))
      else None)"

text \<open>A string between single quotes.\<close>

definition sq :: "string \<Rightarrow> string" where
  "sq s = CHR 0x27 # s @ [CHR 0x27]"

definition digit_char :: "nat \<Rightarrow> char" where
  "digit_char d = (if d < 10 then char_of (48 + d) else char_of (87 + d))"

fun nat_str :: "nat \<Rightarrow> string" where
  "nat_str n = (if n < 10 then [digit_char n] else nat_str (n div 10) @ [digit_char (n mod 10)])"

declare nat_str.simps [simp del]

definition int_str :: "int \<Rightarrow> string" where
  "int_str i = (if i < 0 then CHR ''-'' # nat_str (nat (- i)) else nat_str (nat i))"

text \<open>The \<open>k\<close> lowest hexadecimal digits of a number, most significant first.\<close>

fun hex_digits :: "nat \<Rightarrow> nat \<Rightarrow> string" where
  "hex_digits 0 n = []"
| "hex_digits (Suc k) n = hex_digits k (n div 16) @ [digit_char (n mod 16)]"

text \<open>\<open>Uuid::to_string\<close>: 32 lower-case hexadecimal digits in groups of 8, 4, 4, 4 and 12.\<close>

definition uuid_str :: "uuid \<Rightarrow> string" where
  "uuid_str u = (let h = hex_digits 32 u in
     take 8 h @ ''-'' @ take 4 (drop 8 h) @ ''-'' @ take 4 (drop 12 h) @ ''-'' @
     take 4 (drop 16 h) @ ''-'' @ drop 20 h)"

definition is_ascii_hexdigit :: "char \<Rightarrow> bool" where
  "is_ascii_hexdigit c \<longleftrightarrow> (let n = of_char c :: nat in
     48 \<le> n \<and> n \<le> 57 \<or> 65 \<le> n \<and> n \<le> 70 \<or> 97 \<le> n \<and> n \<le> 102)"

definition is_ascii_alphanumeric :: "char \<Rightarrow> bool" where
  "is_ascii_alphanumeric c \<longleftrightarrow> (let n = of_char c :: nat in
     48 \<le> n \<and> n \<le> 57 \<or> 65 \<le> n \<and> n \<le> 90 \<or> 97 \<le> n \<and> n \<le> 122)"

section \<open>Signed 64-bit arithmetic\<close>

definition i64_max :: int where "i64_max = 2 ^ 63 - 1"
definition i64_min :: int where "i64_min = - (2 ^ 63)"

definition is_i64 :: "int \<Rightarrow> bool" where
  "is_i64 x \<longleftrightarrow> i64_min \<le> x \<and> x \<le> i64_max"

definition sat_i64 :: "int \<Rightarrow> int" where
  "sat_i64 x = max i64_min (min i64_max x)"

definition clamp_i64 :: "int \<Rightarrow> int \<Rightarrow> int \<Rightarrow> int" where
  "clamp_i64 lo hi x = (if x < lo then lo else if hi < x then hi else x)"

section \<open>Tables\<close>

text \<open>
  A table is the list of its rows in physical order. A query without \<open>ORDER BY\<close> returns rows in
  that order; \<open>ORDER BY\<close> is a stable sort, and several sort columns are stable sorts applied from
  the last column to the first.
\<close>

definition update_where :: "('r \<Rightarrow> bool) \<Rightarrow> ('r \<Rightarrow> 'r) \<Rightarrow> 'r list \<Rightarrow> 'r list" where
  "update_where P f rows = map (\<lambda>r. if P r then f r else r) rows"

definition delete_where :: "('r \<Rightarrow> bool) \<Rightarrow> 'r list \<Rightarrow> 'r list" where
  "delete_where P rows = filter (\<lambda>r. \<not> P r) rows"

definition order_asc :: "('r \<Rightarrow> int) \<Rightarrow> 'r list \<Rightarrow> 'r list" where
  "order_asc k rows = sort_key k rows"

definition order_desc :: "('r \<Rightarrow> int) \<Rightarrow> 'r list \<Rightarrow> 'r list" where
  "order_desc k rows = sort_key (\<lambda>r. - k r) rows"

definition order_desc_nulls_last :: "('r \<Rightarrow> int option) \<Rightarrow> 'r list \<Rightarrow> 'r list" where
  "order_desc_nulls_last k rows =
     order_desc (\<lambda>r. the (k r)) (filter (\<lambda>r. k r \<noteq> None) rows) @ filter (\<lambda>r. k r = None) rows"

definition order_asc_nulls_first :: "('r \<Rightarrow> int option) \<Rightarrow> 'r list \<Rightarrow> 'r list" where
  "order_asc_nulls_first k rows =
     filter (\<lambda>r. k r = None) rows @ order_asc (\<lambda>r. the (k r)) (filter (\<lambda>r. k r \<noteq> None) rows)"

definition bool_int :: "bool \<Rightarrow> int" where
  "bool_int b = (if b then 1 else 0)"

definition limit_rows :: "int \<Rightarrow> 'r list \<Rightarrow> 'r list" where
  "limit_rows n rows = take (nat n) rows"

definition offset_rows :: "int \<Rightarrow> 'r list \<Rightarrow> 'r list" where
  "offset_rows n rows = drop (nat n) rows"

definition head_opt :: "'r list \<Rightarrow> 'r option" where
  "head_opt rows = (case rows of [] \<Rightarrow> None | r # _ \<Rightarrow> Some r)"

definition count_where :: "('r \<Rightarrow> bool) \<Rightarrow> 'r list \<Rightarrow> int" where
  "count_where P rows = int (length (filter P rows))"

definition ok_or :: "'e \<Rightarrow> 'a option \<Rightarrow> 'e + 'a" where
  "ok_or e x = (case x of None \<Rightarrow> Inl e | Some v \<Rightarrow> Inr v)"

subsection \<open>Lemmas on tables\<close>

lemma set_update_where [table_simps]:
  "set (update_where P f rows) = f ` {r \<in> set rows. P r} \<union> {r \<in> set rows. \<not> P r}"
  by (auto simp: update_where_def)

lemma length_update_where [simp]: "length (update_where P f rows) = length rows"
  by (simp add: update_where_def)

lemma set_delete_where [table_simps]: "set (delete_where P rows) = {r \<in> set rows. \<not> P r}"
  by (auto simp: delete_where_def)

lemma delete_where_append [simp]:
  "delete_where P (xs @ ys) = delete_where P xs @ delete_where P ys"
  by (simp add: delete_where_def)

lemma update_where_append [simp]:
  "update_where P f (xs @ ys) = update_where P f xs @ update_where P f ys"
  by (simp add: update_where_def)

lemma update_where_Nil [simp]: "update_where P f [] = []"
  by (simp add: update_where_def)

lemma delete_where_Nil [simp]: "delete_where P [] = []"
  by (simp add: delete_where_def)

lemma update_where_none: "\<forall>r \<in> set rows. \<not> P r \<Longrightarrow> update_where P f rows = rows"
  by (auto simp: update_where_def intro: map_idI)

lemma update_where_twice:
  assumes "\<And>r. f (f r) = f r" and "\<And>r. P (f r) = P r"
  shows "update_where P f (update_where Q f rows) = update_where (\<lambda>r. P r \<or> Q r) f rows"
  using assms by (auto simp: update_where_def)

lemma update_where_cong:
  "(\<And>r. r \<in> set rows \<Longrightarrow> P r = Q r) \<Longrightarrow> update_where P f rows = update_where Q f rows"
  by (auto simp: update_where_def)

lemma image_memI: "x \<in> S \<Longrightarrow> f x = y \<Longrightarrow> y \<in> f ` S"
  by blast

lemma map_update_where: "(\<And>r. k (f r) = k r) \<Longrightarrow> map k (update_where P f rows) = map k rows"
  by (simp add: update_where_def)

lemma distinct_map_delete_where: "distinct (map k rows) \<Longrightarrow> distinct (map k (delete_where P rows))"
  by (simp add: delete_where_def distinct_map_filter)

lemma set_order_asc [simp]: "set (order_asc k rows) = set rows"
  by (simp add: order_asc_def)

lemma set_order_desc [simp]: "set (order_desc k rows) = set rows"
  by (simp add: order_desc_def)

lemma length_order_desc [simp]: "length (order_desc k rows) = length rows"
  by (simp add: order_desc_def)

lemma length_order_asc [simp]: "length (order_asc k rows) = length rows"
  by (simp add: order_asc_def)

lemma set_order_desc_nulls_last [simp]: "set (order_desc_nulls_last k rows) = set rows"
  by (auto simp: order_desc_nulls_last_def)

lemma set_order_asc_nulls_first [simp]: "set (order_asc_nulls_first k rows) = set rows"
  by (auto simp: order_asc_nulls_first_def)

lemma sorted_order_asc: "sorted (map k (order_asc k rows))"
  by (simp add: order_asc_def)

lemma sorted_order_desc: "sorted (map (\<lambda>r. - k r) (order_desc k rows))"
  by (simp add: order_desc_def)

lemma sorted_desc_take_drop:
  assumes "k1 \<in> set (take n (order_desc k rows))" and "o1 \<in> set (drop n (order_desc k rows))"
  shows "k o1 \<le> k k1"
proof -
  have "sorted (map (\<lambda>r. - k r) (take n (order_desc k rows) @ drop n (order_desc k rows)))" using sorted_order_desc [of k rows] by simp
  then show ?thesis using assms by (simp only: map_append sorted_append set_map) auto
qed

lemma sum_list_order_asc: "(\<Sum>r\<leftarrow>order_asc k rows. g r) = (\<Sum>r\<leftarrow>rows. g r :: int)"
proof -
  have "(\<Sum>r\<leftarrow>insort_key k x rows. g r) = g x + (\<Sum>r\<leftarrow>rows. g r)" for x rows by (induction rows) simp_all
  then show ?thesis unfolding order_asc_def by (induction rows) simp_all
qed

lemma sum_list_order_desc: "(\<Sum>r\<leftarrow>order_desc k rows. g r) = (\<Sum>r\<leftarrow>rows. g r :: int)"
  using sum_list_order_asc [of g "\<lambda>r. - k r" rows] by (simp add: order_asc_def order_desc_def)

text \<open>Two tables without repetition whose rows correspond one to one have the same counts and sums.\<close>

lemma corresponding_rows:
  assumes "distinct xs" and "distinct ys" and "set xs = h ` set ys" and "inj_on h (set ys)"
  shows "length xs = length ys" and "(\<Sum>x\<leftarrow>xs. g x) = (\<Sum>y\<leftarrow>ys. g (h y) :: int)"
proof -
  show "length xs = length ys" using assms by (metis card_image distinct_card)
  have "(\<Sum>x\<leftarrow>xs. g x) = sum g (h ` set ys)" using assms(1,3) by (simp add: sum_list_distinct_conv_sum_set)
  also have "\<dots> = (\<Sum>y\<in>set ys. g (h y))" using assms(4) by (simp add: sum.reindex)
  finally show "(\<Sum>x\<leftarrow>xs. g x) = (\<Sum>y\<leftarrow>ys. g (h y))" using assms(2) by (simp add: sum_list_distinct_conv_sum_set)
qed

text \<open>Sorting commutes with a map that keeps the key.\<close>

lemma insort_key_map: "(\<And>r. k (f r) = k r) \<Longrightarrow> insort_key k (f x) (map f xs) = map f (insort_key k x xs)"
  by (induction xs) simp_all

lemma sort_key_map_keep: "(\<And>r. k (f r) = k r) \<Longrightarrow> sort_key k (map f xs) = map f (sort_key k xs)"
  by (induction xs) (simp_all add: insort_key_map)

lemma distinct_order_desc [simp]: "distinct (order_desc k rows) = distinct rows"
  by (simp add: order_desc_def)

lemma distinct_order_asc [simp]: "distinct (order_asc k rows) = distinct rows"
  by (simp add: order_asc_def)

lemma in_set_limit_rowsD: "r \<in> set (limit_rows n rows) \<Longrightarrow> r \<in> set rows"
  by (auto simp: limit_rows_def dest: in_set_takeD)

lemma length_limit_rows: "0 \<le> n \<Longrightarrow> int (length (limit_rows n rows)) \<le> n"
  by (simp add: limit_rows_def)

lemma head_opt_Some_iff: "head_opt rows = Some r \<longleftrightarrow> (\<exists>rs. rows = r # rs)"
  by (auto simp: head_opt_def split: list.splits)

lemma head_opt_None_iff [simp]: "head_opt rows = None \<longleftrightarrow> rows = []"
  by (auto simp: head_opt_def split: list.splits)

lemma head_opt_in_set: "head_opt rows = Some r \<Longrightarrow> r \<in> set rows"
  by (auto simp: head_opt_Some_iff)

lemma find_Some_in_set: "find P rows = Some r \<Longrightarrow> r \<in> set rows \<and> P r"
  by (auto simp: find_Some_iff)

lemma find_None_all: "find P rows = None \<longleftrightarrow> (\<forall>r \<in> set rows. \<not> P r)"
  by (auto simp: find_None_iff)

lemma find_append: "find P (xs @ ys) = (case find P xs of None \<Rightarrow> find P ys | Some r \<Rightarrow> Some r)"
  by (induction xs) auto

lemma ok_or_Inr [simp]: "ok_or e x = Inr v \<longleftrightarrow> x = Some v"
  by (auto simp: ok_or_def split: option.splits)

lemma ok_or_Inl [simp]: "ok_or e x = Inl e' \<longleftrightarrow> x = None \<and> e' = e"
  by (auto simp: ok_or_def split: option.splits)

text \<open>A row found by a unique key is the row with that key.\<close>

lemma distinct_key_unique:
  "distinct (map k rows) \<Longrightarrow> r \<in> set rows \<Longrightarrow> r' \<in> set rows \<Longrightarrow> k r = k r' \<Longrightarrow> r = r'"
  by (simp add: distinct_map inj_on_def)

lemma find_by_key:
  "distinct (map k rows) \<Longrightarrow> r \<in> set rows \<Longrightarrow> find (\<lambda>x. k x = k r) rows = Some r"
proof -
  assume dist: "distinct (map k rows)" and mem: "r \<in> set rows"
  from mem have "find (\<lambda>x. k x = k r) rows \<noteq> None" by (auto simp: find_None_all)
  then obtain x where x: "find (\<lambda>x. k x = k r) rows = Some x" by auto
  then have "x \<in> set rows" and "k x = k r" using find_Some_in_set by fastforce+
  then have "x = r" using dist mem by (metis distinct_key_unique)
  with x show ?thesis by simp
qed

lemma filter_by_key:
  "distinct (map k rows) \<Longrightarrow> r \<in> set rows \<Longrightarrow> filter (\<lambda>x. k x = k r) rows = [r]"
  by (induction rows) (auto simp: filter_empty_conv image_iff)

section \<open>Lemmas on strings\<close>

lemma trim_end_matches_decomp:
  "\<exists>n. s = trim_end_matches c s @ replicate n c"
proof -
  have "rev s = takeWhile (\<lambda>x. x = c) (rev s) @ dropWhile (\<lambda>x. x = c) (rev s)" by simp
  then have "s = rev (dropWhile (\<lambda>x. x = c) (rev s)) @ rev (takeWhile (\<lambda>x. x = c) (rev s))"
    by (metis rev_append rev_rev_ident)
  moreover have "\<forall>x \<in> set (takeWhile (\<lambda>x. x = c) (rev s)). x = c"
    by (auto dest: set_takeWhileD)
  then have "rev (takeWhile (\<lambda>x. x = c) (rev s)) = replicate (length (takeWhile (\<lambda>x. x = c) (rev s))) c"
    by (metis length_rev replicate_length_same set_rev)
  ultimately show ?thesis unfolding trim_end_matches_def by metis
qed

lemma set_trim_end_matches: "set (trim_end_matches c s) \<subseteq> set s"
  unfolding trim_end_matches_def by (auto dest: set_dropWhileD)

lemma nat_str_not_Nil [simp]: "nat_str n \<noteq> []" "[] \<noteq> nat_str n"
  by (subst nat_str.simps, simp)+

lemma digit_char_inj:
  assumes "m < 10" "n < 10" "digit_char m = digit_char n"
  shows "m = n"
proof -
  have "(of_char (digit_char m) :: nat) = of_char (digit_char n)" using assms(3) by simp
  with assms(1,2) show ?thesis by (simp add: digit_char_def)
qed

lemma nat_str_inj: "nat_str m = nat_str n \<Longrightarrow> m = n"
proof (induction m arbitrary: n rule: less_induct)
  case (less m)
  show ?case
  proof (cases "m < 10 \<or> n < 10")
    case True
    with less.prems have "m < 10" "n < 10"
      by (auto simp: nat_str.simps [of m] nat_str.simps [of n] split: if_splits)
    with less.prems show ?thesis by (simp add: nat_str.simps digit_char_inj)
  next
    case False
    with less.prems have "nat_str (m div 10) = nat_str (n div 10)" "digit_char (m mod 10) = digit_char (n mod 10)"
      by (simp_all add: nat_str.simps [of m] nat_str.simps [of n])
    with less.IH [of "m div 10" "n div 10"] False digit_char_inj [of "m mod 10" "n mod 10"]
    have "m div 10 = n div 10" "m mod 10 = n mod 10" by simp_all
    then show ?thesis by (metis div_mult_mod_eq)
  qed
qed

lemma length_hex_digits [simp]: "length (hex_digits k n) = k"
  by (induction k arbitrary: n) auto

lemma digit_char_no_punctuation: "n < 16 \<Longrightarrow> digit_char n \<notin> {CHR ''.'', CHR '':'', CHR 0x00, CHR ''/'', CHR ''-''}"
proof -
  assume "n < 16"
  then have "(of_char (digit_char n) :: nat) \<in> {48..57} \<union> {97..102}" by (auto simp: digit_char_def)
  then show ?thesis by auto
qed

lemma hex_digits_no_punctuation: "set (hex_digits k n) \<inter> {CHR ''.'', CHR '':'', CHR 0x00, CHR ''/'', CHR ''-''} = {}"
  using digit_char_no_punctuation by (induction k n rule: hex_digits.induct) auto

lemma length_uuid_str [simp]: "length (uuid_str u) = 36"
  by (simp add: uuid_str_def Let_def)

lemma prefix_contains_str: "prefix p s \<Longrightarrow> contains_str p s"
  by (cases s) auto

lemma contains_str_iff: "contains_str p s \<longleftrightarrow> (\<exists>xs ys. s = xs @ p @ ys)"
proof (induction s)
  case Nil
  then show ?case by auto
next
  case (Cons c cs)
  have "(\<exists>xs ys. c # cs = xs @ p @ ys) \<longleftrightarrow> prefix p (c # cs) \<or> (\<exists>xs ys. cs = xs @ p @ ys)"
    by (auto simp: prefix_def Cons_eq_append_conv)
  with Cons show ?case by simp
qed

lemma contains_str_append:
  "contains_str p s \<Longrightarrow> contains_str p (t @ s)" "contains_str p s \<Longrightarrow> contains_str p (s @ t)"
  by (metis append_assoc contains_str_iff)+

lemma assoc_set_lookup: "map_of (assoc_set k v kvs) = (map_of kvs)(k \<mapsto> v)"
  by (induction kvs) (auto simp: fun_eq_iff)

lemma json_set_get: "json_set j k v = Some j' \<Longrightarrow> json_get j' k' = (if k' = k then Some v else json_get j k')"
  by (cases j) (auto simp: assoc_set_lookup)

lemma sat_i64_is_i64: "is_i64 (sat_i64 x)"
  by (simp add: is_i64_def sat_i64_def i64_max_def i64_min_def)

lemma sat_i64_id: "is_i64 x \<Longrightarrow> sat_i64 x = x"
  by (simp add: is_i64_def sat_i64_def)

end
