(* ===== verification/Errors.thy ===== *)
theory Errors
  imports Prelude
begin

text \<open>
  The error type of the application (\<open>src/error.rs\<close>): its variants, HTTP status codes, the
  message a client sees, and the \<open>Display\<close> text the workers store. A database error carries the
  SQLSTATE class the sources distinguish; the text PostgreSQL gives it is the parameter
  \<open>db_msg\<close> of the display function.
\<close>

datatype db_error =
    UniqueViolation
  | ForeignKeyViolation
  | CheckViolation
  | RowNotFound
  | OtherDbError string

datatype app_error =
    NotFound string
  | BadRequest string
  | Unauthorized string
  | Forbidden string
  | Conflict string
  | Internal string
  | Database db_error
  | Io string
  | Config string

type_synonym 'a app_result = "app_error + 'a"

fun db_code :: "db_error \<Rightarrow> string option" where
  "db_code UniqueViolation = Some ''23505''"
| "db_code ForeignKeyViolation = Some ''23503''"
| "db_code CheckViolation = Some ''23514''"
| "db_code RowNotFound = None"
| "db_code (OtherDbError s) = None"

definition is_unique_violation :: "db_error \<Rightarrow> bool" where
  "is_unique_violation e \<longleftrightarrow> db_code e = Some ''23505''"

fun status_code :: "app_error \<Rightarrow> nat" where
  "status_code (NotFound _) = 404"
| "status_code (BadRequest _) = 400"
| "status_code (Unauthorized _) = 401"
| "status_code (Forbidden _) = 403"
| "status_code (Conflict _) = 409"
| "status_code (Internal _) = 500"
| "status_code (Database _) = 500"
| "status_code (Io _) = 500"
| "status_code (Config _) = 500"

text \<open>The \<open>error\<close> and \<open>status\<close> members of the JSON body.\<close>

fun error_response :: "app_error \<Rightarrow> nat \<times> string" where
  "error_response (NotFound msg) = (404, msg)"
| "error_response (BadRequest msg) = (400, msg)"
| "error_response (Unauthorized msg) = (401, msg)"
| "error_response (Forbidden msg) = (403, msg)"
| "error_response (Conflict msg) = (409, msg)"
| "error_response (Internal _) = (500, ''Internal server error'')"
| "error_response (Database _) = (500, ''Internal server error'')"
| "error_response (Io _) = (500, ''Internal server error'')"
| "error_response (Config _) = (500, ''Internal server error'')"

fun display_error :: "(db_error \<Rightarrow> string) \<Rightarrow> app_error \<Rightarrow> string" where
  "display_error db_msg (NotFound s) = ''Not found: '' @ s"
| "display_error db_msg (BadRequest s) = ''Bad request: '' @ s"
| "display_error db_msg (Unauthorized s) = ''Unauthorized: '' @ s"
| "display_error db_msg (Forbidden s) = ''Forbidden: '' @ s"
| "display_error db_msg (Conflict s) = ''Conflict: '' @ s"
| "display_error db_msg (Internal s) = ''Internal error: '' @ s"
| "display_error db_msg (Database e) = ''Database error: '' @ db_msg e"
| "display_error db_msg (Io s) = ''IO error: '' @ s"
| "display_error db_msg (Config s) = ''Configuration error: '' @ s"

lemma is_unique_violation_simps [simp]:
  "is_unique_violation UniqueViolation"
  "\<not> is_unique_violation ForeignKeyViolation"
  "\<not> is_unique_violation CheckViolation"
  "\<not> is_unique_violation RowNotFound"
  "\<not> is_unique_violation (OtherDbError s)"
  by (simp_all add: is_unique_violation_def)

lemma is_unique_violation_iff: "is_unique_violation e \<longleftrightarrow> e = UniqueViolation"
  by (cases e) simp_all

text \<open>
  the status of a response is the status code of the error, and every error with a status of
  500 or more is answered with the same fixed text: no internal, database, I/O or configuration
  detail reaches a client.
\<close>

theorem error_response_hides_internals:
  "fst (error_response e) = status_code e \<and>
   (500 \<le> status_code e \<longrightarrow> error_response e = (500, ''Internal server error'')) \<and>
   (status_code e < 500 \<longrightarrow> (\<exists>msg. e \<in> {NotFound msg, BadRequest msg, Unauthorized msg, Forbidden msg, Conflict msg} \<and>
      snd (error_response e) = msg))"
  by (cases e) auto

theorem error_response_hides_internals_witness:
  "error_response (Database UniqueViolation) = (500, ''Internal server error'') \<and>
   snd (error_response (Forbidden ''no'')) = ''no''"
  using error_response_hides_internals [of "Database UniqueViolation"]
    error_response_hides_internals [of "Forbidden ''no''"] by simp

end
