(* ===== verification/Schema.thy ===== *)
theory Schema
  imports Errors
begin

text \<open>
  The database schema: one record per row type of \<open>src/db/models.rs\<close> (with the constraints the
  files under \<open>migrations/\<close> put on its table) and the database state, a record of tables. The
  state also holds the instant \<open>NOW()\<close> returns and the supply of identifiers
  \<open>uuid_generate_v4()\<close> draws from: an arbitrary sequence \<open>gen\<close> and the position of the next
  draw. Column widths are not modelled. \<open>schema_ok\<close> states the primary keys, unique constraints
  and foreign keys of every table.
\<close>

section \<open>Row types\<close>

record project =
  p_id :: uuid
  p_name :: string
  p_slug :: string
  p_hot_to_cold_days :: "int option"
  p_owner_id :: "uuid option"
  p_created_at :: time
  p_updated_at :: time
  p_deleted_at :: "time option"

record storage =
  s_id :: uuid
  s_name :: string
  s_type :: string
  s_config :: json
  s_is_hot :: bool
  s_project_id :: "uuid option"
  s_enabled :: bool
  s_direct_links :: bool
  s_created_at :: time
  s_updated_at :: time

record file_row =
  f_id :: uuid
  f_hash :: string
  f_size :: int
  f_content_type :: string
  f_created_at :: time

record file_reference =
  r_id :: uuid
  r_file_id :: uuid
  r_project_id :: uuid
  r_original_name :: string
  r_metadata :: json
  r_created_at :: time

record file_location =
  l_id :: uuid
  l_file_id :: uuid
  l_storage_id :: uuid
  l_storage_path :: string
  l_status :: string
  l_synced_at :: "time option"
  l_last_accessed_at :: "time option"
  l_created_at :: time

record sync_task =
  t_id :: uuid
  t_file_id :: uuid
  t_source :: uuid
  t_target :: uuid
  t_status :: string
  t_retries :: int
  t_error_msg :: "string option"
  t_retry_after :: "time option"
  t_project_id :: "uuid option"
  t_created_at :: time
  t_updated_at :: time

record node =
  n_id :: uuid
  n_node_id :: string
  n_address :: string
  n_started_at :: time
  n_last_heartbeat :: time
  n_created_at :: time

record project_storage =
  ps_id :: uuid
  ps_project_id :: uuid
  ps_storage_id :: uuid
  ps_container_override :: "string option"
  ps_prefix_override :: "string option"
  ps_is_active :: bool
  ps_created_at :: time
  ps_updated_at :: time

record user =
  u_id :: uuid
  u_username :: string
  u_password_hash :: string
  u_role :: string
  u_created_at :: time
  u_updated_at :: time

record refresh_token =
  rt_id :: uuid
  rt_user_id :: uuid
  rt_token_hash :: string
  rt_expires_at :: time
  rt_created_at :: time

record user_project =
  up_id :: uuid
  up_user_id :: uuid
  up_project_id :: uuid
  up_role :: string
  up_created_at :: time

record user_storage =
  us_id :: uuid
  us_user_id :: uuid
  us_storage_id :: uuid
  us_created_at :: time

record shared_link =
  sl_id :: uuid
  sl_token :: string
  sl_file_id :: uuid
  sl_project_id :: uuid
  sl_original_name :: string
  sl_created_by :: uuid
  sl_password_hash :: "string option"
  sl_expires_at :: "time option"
  sl_max_downloads :: "int option"
  sl_download_count :: int
  sl_last_accessed_at :: "time option"
  sl_is_active :: bool
  sl_created_at :: time

record upload_session =
  up_sess_id :: uuid
  up_sess_project_id :: uuid
  up_sess_user_id :: uuid
  up_sess_original_name :: string
  up_sess_content_type :: string
  up_sess_total_size :: int
  up_sess_offset :: int
  up_sess_temp_path :: string
  up_sess_metadata :: json
  up_sess_status :: string
  up_sess_created_at :: time
  up_sess_updated_at :: time
  up_sess_expires_at :: time

record access_event =
  ev_id :: uuid
  ev_file_id :: uuid
  ev_project_id :: "uuid option"
  ev_storage_id :: "uuid option"
  ev_access_kind :: string
  ev_user_id :: "uuid option"
  ev_bytes :: "int option"
  ev_created_at :: time

record backup_config =
  bc_id :: uuid
  bc_name :: string
  bc_storage_id :: uuid
  bc_storage_path :: string
  bc_schedule_cron :: string
  bc_retention_count :: int
  bc_enabled :: bool
  bc_created_at :: time
  bc_updated_at :: time

record backup_record =
  br_id :: uuid
  br_config_id :: "uuid option"
  br_config_name :: "string option"
  br_storage_id :: uuid
  br_file_path :: string
  br_file_size_bytes :: int
  br_status :: string
  br_error_message :: "string option"
  br_started_at :: "time option"
  br_completed_at :: "time option"
  br_created_at :: time

section \<open>The database\<close>

record db =
  now :: time
  gen :: "nat \<Rightarrow> uuid"
  gpos :: nat
  projects :: "project list"
  storages :: "storage list"
  project_storages :: "project_storage list"
  files :: "file_row list"
  file_references :: "file_reference list"
  file_locations :: "file_location list"
  sync_tasks :: "sync_task list"
  nodes :: "node list"
  users :: "user list"
  refresh_tokens :: "refresh_token list"
  user_projects :: "user_project list"
  user_storages :: "user_storage list"
  shared_links :: "shared_link list"
  upload_sessions :: "upload_session list"
  file_access_events :: "access_event list"
  backup_configs :: "backup_config list"
  backup_history :: "backup_record list"

definition empty_db :: "time \<Rightarrow> (nat \<Rightarrow> uuid) \<Rightarrow> db" where
  "empty_db t g = \<lparr>now = t, gen = g, gpos = 0, projects = [], storages = [], project_storages = [],
     files = [], file_references = [], file_locations = [], sync_tasks = [], nodes = [], users = [],
     refresh_tokens = [], user_projects = [], user_storages = [], shared_links = [],
     upload_sessions = [], file_access_events = [], backup_configs = [], backup_history = []\<rparr>"

text \<open>One draw from \<open>uuid_generate_v4()\<close>: the identifier and the database after the draw.\<close>

definition fresh_id :: "db \<Rightarrow> uuid" where
  "fresh_id d = gen d (gpos d)"

definition draw :: "db \<Rightarrow> db" where
  "draw d = d\<lparr>gpos := Suc (gpos d)\<rparr>"

section \<open>Constraints\<close>

text \<open>
  Each predicate takes the table it constrains and the tables its foreign keys refer to, so that a
  statement that leaves these tables alone keeps the predicate by rewriting alone.
\<close>

definition projects_ok :: "user list \<Rightarrow> project list \<Rightarrow> bool" where
  "projects_ok us ps \<longleftrightarrow> distinct (map p_id ps) \<and> distinct (map p_slug ps) \<and>
     (\<forall>p \<in> set ps. \<forall>u. p_owner_id p = Some u \<longrightarrow> u \<in> u_id ` set us)"

definition storages_ok :: "project list \<Rightarrow> storage list \<Rightarrow> bool" where
  "storages_ok ps ss \<longleftrightarrow> distinct (map s_id ss) \<and>
     (\<forall>s \<in> set ss. \<forall>p. s_project_id s = Some p \<longrightarrow> p \<in> p_id ` set ps)"

definition project_storages_ok :: "project list \<Rightarrow> storage list \<Rightarrow> project_storage list \<Rightarrow> bool" where
  "project_storages_ok ps ss pss \<longleftrightarrow> distinct (map ps_id pss) \<and>
     distinct (map (\<lambda>x. (ps_project_id x, ps_storage_id x)) pss) \<and>
     (\<forall>x \<in> set pss. ps_project_id x \<in> p_id ` set ps \<and> ps_storage_id x \<in> s_id ` set ss)"

definition files_ok :: "file_row list \<Rightarrow> bool" where
  "files_ok fs \<longleftrightarrow> distinct (map f_id fs) \<and> distinct (map f_hash fs)"

definition file_references_ok :: "file_row list \<Rightarrow> project list \<Rightarrow> file_reference list \<Rightarrow> bool" where
  "file_references_ok fs ps rs \<longleftrightarrow> distinct (map r_id rs) \<and>
     (\<forall>r \<in> set rs. r_file_id r \<in> f_id ` set fs \<and> r_project_id r \<in> p_id ` set ps)"

definition file_locations_ok :: "file_row list \<Rightarrow> storage list \<Rightarrow> file_location list \<Rightarrow> bool" where
  "file_locations_ok fs ss ls \<longleftrightarrow> distinct (map l_id ls) \<and>
     distinct (map (\<lambda>l. (l_file_id l, l_storage_id l)) ls) \<and>
     (\<forall>l \<in> set ls. l_file_id l \<in> f_id ` set fs \<and> l_storage_id l \<in> s_id ` set ss)"

definition sync_tasks_ok :: "file_row list \<Rightarrow> storage list \<Rightarrow> project list \<Rightarrow> sync_task list \<Rightarrow> bool" where
  "sync_tasks_ok fs ss ps ts \<longleftrightarrow> distinct (map t_id ts) \<and>
     (\<forall>t \<in> set ts. t_file_id t \<in> f_id ` set fs \<and> t_source t \<in> s_id ` set ss \<and>
        t_target t \<in> s_id ` set ss \<and>
        (\<forall>p. t_project_id t = Some p \<longrightarrow> p \<in> p_id ` set ps))"

definition nodes_ok :: "node list \<Rightarrow> bool" where
  "nodes_ok ns \<longleftrightarrow> distinct (map n_id ns) \<and> distinct (map n_node_id ns)"

definition users_ok :: "user list \<Rightarrow> bool" where
  "users_ok us \<longleftrightarrow> distinct (map u_id us) \<and> distinct (map u_username us) \<and>
     (\<forall>u \<in> set us. u_role u = ''admin'' \<or> u_role u = ''user'')"

definition refresh_tokens_ok :: "user list \<Rightarrow> refresh_token list \<Rightarrow> bool" where
  "refresh_tokens_ok us rts \<longleftrightarrow> distinct (map rt_id rts) \<and> distinct (map rt_token_hash rts) \<and>
     (\<forall>t \<in> set rts. rt_user_id t \<in> u_id ` set us)"

definition user_projects_ok :: "user list \<Rightarrow> project list \<Rightarrow> user_project list \<Rightarrow> bool" where
  "user_projects_ok us ps ups \<longleftrightarrow> distinct (map up_id ups) \<and>
     distinct (map (\<lambda>x. (up_user_id x, up_project_id x)) ups) \<and>
     (\<forall>x \<in> set ups. up_user_id x \<in> u_id ` set us \<and> up_project_id x \<in> p_id ` set ps)"

definition user_storages_ok :: "user list \<Rightarrow> storage list \<Rightarrow> user_storage list \<Rightarrow> bool" where
  "user_storages_ok us ss uss \<longleftrightarrow> distinct (map us_id uss) \<and>
     distinct (map (\<lambda>x. (us_user_id x, us_storage_id x)) uss) \<and>
     (\<forall>x \<in> set uss. us_user_id x \<in> u_id ` set us \<and> us_storage_id x \<in> s_id ` set ss)"

definition shared_links_ok :: "file_row list \<Rightarrow> project list \<Rightarrow> user list \<Rightarrow> shared_link list \<Rightarrow> bool" where
  "shared_links_ok fs ps us ls \<longleftrightarrow> distinct (map sl_id ls) \<and> distinct (map sl_token ls) \<and>
     (\<forall>l \<in> set ls. sl_file_id l \<in> f_id ` set fs \<and> sl_project_id l \<in> p_id ` set ps \<and>
        sl_created_by l \<in> u_id ` set us)"

definition upload_sessions_ok :: "project list \<Rightarrow> user list \<Rightarrow> upload_session list \<Rightarrow> bool" where
  "upload_sessions_ok ps us ses \<longleftrightarrow> distinct (map up_sess_id ses) \<and>
     (\<forall>s \<in> set ses. up_sess_project_id s \<in> p_id ` set ps \<and> up_sess_user_id s \<in> u_id ` set us)"

definition access_events_ok :: "file_row list \<Rightarrow> storage list \<Rightarrow> user list \<Rightarrow> access_event list \<Rightarrow> bool" where
  "access_events_ok fs ss us evs \<longleftrightarrow> distinct (map ev_id evs) \<and>
     (\<forall>e \<in> set evs. ev_file_id e \<in> f_id ` set fs \<and>
        (\<forall>s. ev_storage_id e = Some s \<longrightarrow> s \<in> s_id ` set ss) \<and>
        (\<forall>u. ev_user_id e = Some u \<longrightarrow> u \<in> u_id ` set us))"

definition backup_configs_ok :: "storage list \<Rightarrow> backup_config list \<Rightarrow> bool" where
  "backup_configs_ok ss bcs \<longleftrightarrow> distinct (map bc_id bcs) \<and>
     (\<forall>c \<in> set bcs. bc_storage_id c \<in> s_id ` set ss)"

definition backup_history_ok :: "backup_config list \<Rightarrow> storage list \<Rightarrow> backup_record list \<Rightarrow> bool" where
  "backup_history_ok bcs ss brs \<longleftrightarrow> distinct (map br_id brs) \<and>
     (\<forall>b \<in> set brs. br_storage_id b \<in> s_id ` set ss \<and>
        (\<forall>c. br_config_id b = Some c \<longrightarrow> c \<in> bc_id ` set bcs))"

definition schema_ok :: "db \<Rightarrow> bool" where
  "schema_ok d \<longleftrightarrow>
     projects_ok (users d) (projects d) \<and>
     storages_ok (projects d) (storages d) \<and>
     project_storages_ok (projects d) (storages d) (project_storages d) \<and>
     files_ok (files d) \<and>
     file_references_ok (files d) (projects d) (file_references d) \<and>
     file_locations_ok (files d) (storages d) (file_locations d) \<and>
     sync_tasks_ok (files d) (storages d) (projects d) (sync_tasks d) \<and>
     nodes_ok (nodes d) \<and>
     users_ok (users d) \<and>
     refresh_tokens_ok (users d) (refresh_tokens d) \<and>
     user_projects_ok (users d) (projects d) (user_projects d) \<and>
     user_storages_ok (users d) (storages d) (user_storages d) \<and>
     shared_links_ok (files d) (projects d) (users d) (shared_links d) \<and>
     upload_sessions_ok (projects d) (users d) (upload_sessions d) \<and>
     access_events_ok (files d) (storages d) (users d) (file_access_events d) \<and>
     backup_configs_ok (storages d) (backup_configs d) \<and>
     backup_history_ok (backup_configs d) (storages d) (backup_history d)"

text \<open>
  The supply is fresh for a set of identifiers: no later draw repeats an earlier one or hits the
  set. This is the documented behaviour of version 4 UUIDs the code relies on.
\<close>

definition supply_fresh :: "db \<Rightarrow> uuid set \<Rightarrow> bool" where
  "supply_fresh d ids \<longleftrightarrow> inj_on (gen d) {gpos d ..} \<and> gen d ` {gpos d ..} \<inter> ids = {}"

lemma schema_ok_empty: "schema_ok (empty_db t g)"
  by (simp add: schema_ok_def empty_db_def projects_ok_def storages_ok_def project_storages_ok_def
      files_ok_def file_references_ok_def file_locations_ok_def sync_tasks_ok_def nodes_ok_def
      users_ok_def refresh_tokens_ok_def user_projects_ok_def user_storages_ok_def
      shared_links_ok_def upload_sessions_ok_def access_events_ok_def backup_configs_ok_def
      backup_history_ok_def)

lemma draw_sel [simp]:
  "now (draw d) = now d" "gen (draw d) = gen d" "gpos (draw d) = Suc (gpos d)"
  "projects (draw d) = projects d" "storages (draw d) = storages d"
  "project_storages (draw d) = project_storages d" "files (draw d) = files d"
  "file_references (draw d) = file_references d" "file_locations (draw d) = file_locations d"
  "sync_tasks (draw d) = sync_tasks d" "nodes (draw d) = nodes d" "users (draw d) = users d"
  "refresh_tokens (draw d) = refresh_tokens d" "user_projects (draw d) = user_projects d"
  "user_storages (draw d) = user_storages d" "shared_links (draw d) = shared_links d"
  "upload_sessions (draw d) = upload_sessions d" "file_access_events (draw d) = file_access_events d"
  "backup_configs (draw d) = backup_configs d" "backup_history (draw d) = backup_history d"
  by (simp_all add: draw_def)

lemma schema_ok_draw [simp]: "schema_ok (draw d) = schema_ok d"
  by (simp add: schema_ok_def)

lemma supply_fresh_notin: "supply_fresh d ids \<Longrightarrow> fresh_id d \<notin> ids"
  by (auto simp: supply_fresh_def fresh_id_def)

lemma supply_fresh_iff:
  "supply_fresh d ids \<longleftrightarrow> (\<forall>i \<ge> gpos d. gen d i \<notin> ids \<and> (\<forall>j \<ge> gpos d. gen d i = gen d j \<longrightarrow> i = j))"
  unfolding supply_fresh_def inj_on_def by blast

lemma supply_fresh_later: "supply_fresh d ids \<Longrightarrow> gpos d \<le> k \<Longrightarrow> gen d k \<notin> ids"
  by (simp add: supply_fresh_iff)

lemma supply_fresh_draw: "supply_fresh d ids \<Longrightarrow> supply_fresh (draw d) (insert (fresh_id d) ids)"
  unfolding supply_fresh_iff fresh_id_def draw_sel by (metis Suc_leD Suc_n_not_le_n insertE order_refl)

lemma supply_fresh_cong:
  "supply_fresh d ids \<Longrightarrow> gen d' = gen d \<Longrightarrow> gpos d \<le> gpos d' \<Longrightarrow> supply_fresh d' ids"
  unfolding supply_fresh_iff by (metis le_trans)

text \<open>Foreign keys survive the growth of the tables they refer to.\<close>

lemma refs_mono:
  "storages_ok ps ss \<Longrightarrow> p_id ` set ps \<subseteq> p_id ` set ps' \<Longrightarrow> storages_ok ps' ss"
  "project_storages_ok ps ss pss \<Longrightarrow> p_id ` set ps \<subseteq> p_id ` set ps' \<Longrightarrow> s_id ` set ss \<subseteq> s_id ` set ss' \<Longrightarrow>
     project_storages_ok ps' ss' pss"
  "file_references_ok fs ps rs \<Longrightarrow> f_id ` set fs \<subseteq> f_id ` set fs' \<Longrightarrow> p_id ` set ps \<subseteq> p_id ` set ps' \<Longrightarrow>
     file_references_ok fs' ps' rs"
  "file_locations_ok fs ss ls \<Longrightarrow> f_id ` set fs \<subseteq> f_id ` set fs' \<Longrightarrow> s_id ` set ss \<subseteq> s_id ` set ss' \<Longrightarrow>
     file_locations_ok fs' ss' ls"
  "sync_tasks_ok fs ss ps ts \<Longrightarrow> f_id ` set fs \<subseteq> f_id ` set fs' \<Longrightarrow> s_id ` set ss \<subseteq> s_id ` set ss' \<Longrightarrow>
     p_id ` set ps \<subseteq> p_id ` set ps' \<Longrightarrow> sync_tasks_ok fs' ss' ps' ts"
  "shared_links_ok fs ps us sls \<Longrightarrow> f_id ` set fs \<subseteq> f_id ` set fs' \<Longrightarrow> p_id ` set ps \<subseteq> p_id ` set ps' \<Longrightarrow>
     shared_links_ok fs' ps' us sls"
  "access_events_ok fs ss us evs \<Longrightarrow> f_id ` set fs \<subseteq> f_id ` set fs' \<Longrightarrow> s_id ` set ss \<subseteq> s_id ` set ss' \<Longrightarrow>
     access_events_ok fs' ss' us evs"
  "user_projects_ok us ps ups \<Longrightarrow> p_id ` set ps \<subseteq> p_id ` set ps' \<Longrightarrow> user_projects_ok us ps' ups"
  "user_storages_ok us ss uss \<Longrightarrow> s_id ` set ss \<subseteq> s_id ` set ss' \<Longrightarrow> user_storages_ok us ss' uss"
  "upload_sessions_ok ps us ses \<Longrightarrow> p_id ` set ps \<subseteq> p_id ` set ps' \<Longrightarrow> upload_sessions_ok ps' us ses"
  "backup_configs_ok ss bcs \<Longrightarrow> s_id ` set ss \<subseteq> s_id ` set ss' \<Longrightarrow> backup_configs_ok ss' bcs"
  "backup_history_ok bcs ss brs \<Longrightarrow> s_id ` set ss \<subseteq> s_id ` set ss' \<Longrightarrow> backup_history_ok bcs ss' brs"
proof (goal_cases)
  case 1 then show ?case unfolding storages_ok_def by blast
next
  case 2 then show ?case unfolding project_storages_ok_def by blast
next
  case 3 then show ?case unfolding file_references_ok_def by blast
next
  case 4 then show ?case unfolding file_locations_ok_def by blast
next
  case 5 then show ?case unfolding sync_tasks_ok_def by blast
next
  case 6 then show ?case unfolding shared_links_ok_def by blast
next
  case 7 then show ?case unfolding access_events_ok_def by blast
next
  case 8 then show ?case unfolding user_projects_ok_def by blast
next
  case 9 then show ?case unfolding user_storages_ok_def by blast
next
  case 10 then show ?case unfolding upload_sessions_ok_def by blast
next
  case 11 then show ?case unfolding backup_configs_ok_def by blast
next
  case 12 then show ?case unfolding backup_history_ok_def by blast
qed

text \<open>Replacing a referenced table by one that keeps the identifiers.\<close>

lemma set_map_eq_image: "map k xs = map k ys \<Longrightarrow> k ` set xs = k ` set ys"
  by (metis list.set_map)

lemma schema_ok_set_projects:
  assumes "schema_ok d" and "p_id ` set (projects d) \<subseteq> p_id ` set ps" and "projects_ok (users d) ps"
  shows "schema_ok (d\<lparr>projects := ps\<rparr>)"
proof -
  note sub = assms(2)
  note mono = refs_mono(1) [OF _ sub] refs_mono(2) [OF _ sub order_refl]
    refs_mono(3) [OF _ order_refl sub] refs_mono(5) [OF _ order_refl order_refl sub]
    refs_mono(6) [OF _ order_refl sub] refs_mono(8) [OF _ sub] refs_mono(10) [OF _ sub]
  show ?thesis using assms(1,3) unfolding schema_ok_def by (simp add: mono)
qed

lemma schema_ok_set_storages:
  assumes "schema_ok d" and "s_id ` set (storages d) \<subseteq> s_id ` set ss" and "storages_ok (projects d) ss"
  shows "schema_ok (d\<lparr>storages := ss\<rparr>)"
proof -
  note sub = assms(2)
  note mono = refs_mono(2) [OF _ order_refl sub] refs_mono(4) [OF _ order_refl sub]
    refs_mono(5) [OF _ order_refl sub order_refl] refs_mono(7) [OF _ order_refl sub]
    refs_mono(9) [OF _ sub] refs_mono(11) [OF _ sub] refs_mono(12) [OF _ sub]
  show ?thesis using assms(1,3) unfolding schema_ok_def by (simp add: mono)
qed

lemma schema_ok_set_files:
  assumes "schema_ok d" and "f_id ` set (files d) \<subseteq> f_id ` set fs" and "files_ok fs"
  shows "schema_ok (d\<lparr>files := fs\<rparr>)"
proof -
  note sub = assms(2)
  note mono = refs_mono(3) [OF _ sub order_refl] refs_mono(4) [OF _ sub order_refl]
    refs_mono(5) [OF _ sub order_refl order_refl] refs_mono(6) [OF _ sub order_refl]
    refs_mono(7) [OF _ sub order_refl]
  show ?thesis using assms(1,3) unfolding schema_ok_def by (simp add: mono)
qed

lemmas schema_ok_update_projects = schema_ok_set_projects [OF _ equalityD2 [OF set_map_eq_image]]
lemmas schema_ok_update_storages = schema_ok_set_storages [OF _ equalityD2 [OF set_map_eq_image]]
lemmas schema_ok_update_files = schema_ok_set_files [OF _ equalityD2 [OF set_map_eq_image]]

text \<open>Replacing a table no other table refers to.\<close>

lemma schema_ok_set_leaf:
  "schema_ok d \<Longrightarrow> project_storages_ok (projects d) (storages d) pss \<Longrightarrow> schema_ok (d\<lparr>project_storages := pss\<rparr>)"
  "schema_ok d \<Longrightarrow> file_references_ok (files d) (projects d) rs \<Longrightarrow> schema_ok (d\<lparr>file_references := rs\<rparr>)"
  "schema_ok d \<Longrightarrow> file_locations_ok (files d) (storages d) ls \<Longrightarrow> schema_ok (d\<lparr>file_locations := ls\<rparr>)"
  "schema_ok d \<Longrightarrow> sync_tasks_ok (files d) (storages d) (projects d) ts \<Longrightarrow> schema_ok (d\<lparr>sync_tasks := ts\<rparr>)"
  "schema_ok d \<Longrightarrow> refresh_tokens_ok (users d) rts \<Longrightarrow> schema_ok (d\<lparr>refresh_tokens := rts\<rparr>)"
  "schema_ok d \<Longrightarrow> user_projects_ok (users d) (projects d) ups \<Longrightarrow> schema_ok (d\<lparr>user_projects := ups\<rparr>)"
  "schema_ok d \<Longrightarrow> user_storages_ok (users d) (storages d) uss \<Longrightarrow> schema_ok (d\<lparr>user_storages := uss\<rparr>)"
  "schema_ok d \<Longrightarrow> shared_links_ok (files d) (projects d) (users d) sls \<Longrightarrow> schema_ok (d\<lparr>shared_links := sls\<rparr>)"
  "schema_ok d \<Longrightarrow> upload_sessions_ok (projects d) (users d) ses \<Longrightarrow> schema_ok (d\<lparr>upload_sessions := ses\<rparr>)"
  "schema_ok d \<Longrightarrow> access_events_ok (files d) (storages d) (users d) evs \<Longrightarrow> schema_ok (d\<lparr>file_access_events := evs\<rparr>)"
  "schema_ok d \<Longrightarrow> backup_history_ok (backup_configs d) (storages d) brs \<Longrightarrow> schema_ok (d\<lparr>backup_history := brs\<rparr>)"
  "schema_ok d \<Longrightarrow> nodes_ok ns \<Longrightarrow> schema_ok (d\<lparr>nodes := ns\<rparr>)"
  by (simp_all add: schema_ok_def)

text \<open>The parts of the constraints, by table.\<close>

lemma schema_okD:
  assumes "schema_ok d"
  shows "projects_ok (users d) (projects d)" "storages_ok (projects d) (storages d)"
    "project_storages_ok (projects d) (storages d) (project_storages d)" "files_ok (files d)"
    "file_references_ok (files d) (projects d) (file_references d)"
    "file_locations_ok (files d) (storages d) (file_locations d)"
    "sync_tasks_ok (files d) (storages d) (projects d) (sync_tasks d)" "nodes_ok (nodes d)"
    "users_ok (users d)" "refresh_tokens_ok (users d) (refresh_tokens d)"
    "user_projects_ok (users d) (projects d) (user_projects d)"
    "user_storages_ok (users d) (storages d) (user_storages d)"
    "shared_links_ok (files d) (projects d) (users d) (shared_links d)"
    "upload_sessions_ok (projects d) (users d) (upload_sessions d)"
    "access_events_ok (files d) (storages d) (users d) (file_access_events d)"
    "backup_configs_ok (storages d) (backup_configs d)"
    "backup_history_ok (backup_configs d) (storages d) (backup_history d)"
  using assms by (simp_all add: schema_ok_def)

section \<open>Statements as clients see them\<close>

text \<open>
  What a component relies on when it runs a statement once per element of a list: every run keeps
  the constraints and leaves the clock alone. A loop of such statements then does as well.
\<close>

locale db_statement =
  fixes stmt :: "'i \<Rightarrow> db \<Rightarrow> 'a app_result \<times> db"
  assumes stmt_schema: "schema_ok d \<Longrightarrow> schema_ok (snd (stmt x d))"
    and stmt_now: "now (snd (stmt x d)) = now d"
begin

lemma fold_schema: "schema_ok d \<Longrightarrow> schema_ok (fold (\<lambda>x d. snd (stmt x d)) xs d)"
  by (induction xs arbitrary: d) (simp_all add: stmt_schema)

lemma fold_now: "now (fold (\<lambda>x d. snd (stmt x d)) xs d) = now d"
  by (induction xs arbitrary: d) (simp_all add: stmt_now)

end

section \<open>A small populated database\<close>

text \<open>
  One owner, one project with two storages (a hot and a cold one), one file with a reference and a
  synced copy on the hot storage. The concrete instances of the properties evaluate on it.
\<close>

definition demo_user :: user where
  "demo_user = \<lparr>u_id = 1, u_username = ''ann'', u_password_hash = ''h'', u_role = ''user'',
     u_created_at = 0, u_updated_at = 0\<rparr>"

definition demo_project :: project where
  "demo_project = \<lparr>p_id = 2, p_name = ''Pictures'', p_slug = ''pics'', p_hot_to_cold_days = Some 30,
     p_owner_id = Some 1, p_created_at = 0, p_updated_at = 0, p_deleted_at = None\<rparr>"

definition demo_storage :: "uuid \<Rightarrow> bool \<Rightarrow> storage" where
  "demo_storage i hot = \<lparr>s_id = i, s_name = ''disk'', s_type = ''local'',
     s_config = JObj [(''path'', JStr ''/data'')], s_is_hot = hot, s_project_id = None,
     s_enabled = True, s_direct_links = False, s_created_at = 0, s_updated_at = 0\<rparr>"

definition demo_assignment :: "uuid \<Rightarrow> uuid \<Rightarrow> project_storage" where
  "demo_assignment i sid = \<lparr>ps_id = i, ps_project_id = 2, ps_storage_id = sid,
     ps_container_override = None, ps_prefix_override = None, ps_is_active = True,
     ps_created_at = 0, ps_updated_at = 0\<rparr>"

definition demo_file :: file_row where
  "demo_file = \<lparr>f_id = 7, f_hash = ''abcdef'', f_size = 3, f_content_type = ''text/plain'', f_created_at = 0\<rparr>"

definition demo_reference :: file_reference where
  "demo_reference = \<lparr>r_id = 8, r_file_id = 7, r_project_id = 2, r_original_name = ''a.txt'',
     r_metadata = JObj [(''env'', JStr ''prod'')], r_created_at = 0\<rparr>"

definition demo_location :: file_location where
  "demo_location = \<lparr>l_id = 9, l_file_id = 7, l_storage_id = 3, l_storage_path = ''ab/cd/abcdef'',
     l_status = ''synced'', l_synced_at = Some 0, l_last_accessed_at = None, l_created_at = 0\<rparr>"

definition demo_db :: db where
  "demo_db = (empty_db 0 (\<lambda>n. n + 100))\<lparr>users := [demo_user], projects := [demo_project],
     storages := [demo_storage 3 True, demo_storage 4 False],
     project_storages := [demo_assignment 5 3, demo_assignment 6 4],
     files := [demo_file], file_references := [demo_reference], file_locations := [demo_location]\<rparr>"

lemmas demo_defs = demo_db_def empty_db_def demo_user_def demo_project_def demo_storage_def
  demo_assignment_def demo_file_def demo_reference_def demo_location_def

lemma schema_ok_demo: "schema_ok demo_db"
  by (simp add: schema_ok_def demo_defs projects_ok_def storages_ok_def project_storages_ok_def
      files_ok_def file_references_ok_def file_locations_ok_def sync_tasks_ok_def nodes_ok_def
      users_ok_def refresh_tokens_ok_def user_projects_ok_def user_storages_ok_def
      shared_links_ok_def upload_sessions_ok_def access_events_ok_def backup_configs_ok_def
      backup_history_ok_def)

lemma supply_fresh_demo: "(\<And>i. i \<in> ids \<Longrightarrow> i < 100) \<Longrightarrow> supply_fresh demo_db ids"
  by (fastforce simp: supply_fresh_def demo_defs inj_on_def)

end
