(* ===== verification/Models_Project.thy ===== *)
theory Models_Project
  imports Schema
begin

text \<open>
  Projects, storages and the assignment of storages to projects (\<open>src/db/models.rs\<close>): every query
  of \<open>Project\<close>, \<open>Storage\<close> and \<open>ProjectStorage\<close> as a function on the database. A statement that
  changes the database returns its result and the new database; a statement that violates a
  constraint returns the error and leaves the tables as they are. Shown: the constraints are kept
  by every operation, a soft-deleted project is invisible, an update of a storage keeps the
  credentials a client cannot see, and a redacted storage shows none of them.
\<close>

named_theorems schema_intros "operations keep the schema constraints"

section \<open>Project\<close>

record create_project =
  cp_name :: string
  cp_slug :: string
  cp_hot_to_cold_days :: "int option"

record update_project_input =
  upd_name :: "string option"
  upd_slug :: "string option"
  upd_hot_to_cold_days :: "int option option"

definition project_create :: "create_project \<Rightarrow> uuid option \<Rightarrow> db \<Rightarrow> project app_result \<times> db" where
  "project_create input owner_id d =
     (let row = \<lparr>p_id = fresh_id d, p_name = cp_name input, p_slug = cp_slug input,
                 p_hot_to_cold_days = cp_hot_to_cold_days input, p_owner_id = owner_id,
                 p_created_at = now d, p_updated_at = now d, p_deleted_at = None\<rparr>
      in if p_id row \<in> p_id ` set (projects d) \<or> p_slug row \<in> p_slug ` set (projects d)
         then (Inl (Database UniqueViolation), draw d)
         else if (case owner_id of None \<Rightarrow> False | Some u \<Rightarrow> u \<notin> u_id ` set (users d))
         then (Inl (Database ForeignKeyViolation), draw d)
         else (Inr row, (draw d)\<lparr>projects := projects d @ [row]\<rparr>))"

definition project_find_by_id :: "uuid \<Rightarrow> db \<Rightarrow> project app_result" where
  "project_find_by_id i d =
     ok_or (NotFound (''Project '' @ uuid_str i @ '' not found''))
       (find (\<lambda>p. p_id p = i \<and> p_deleted_at p = None) (projects d))"

definition project_find_by_slug :: "string \<Rightarrow> db \<Rightarrow> project app_result" where
  "project_find_by_slug slug d =
     ok_or (NotFound (''Project with slug '' @ [CHR 0x27] @ slug @ [CHR 0x27] @ '' not found''))
       (find (\<lambda>p. p_slug p = slug \<and> p_deleted_at p = None) (projects d))"

definition project_list :: "db \<Rightarrow> project list" where
  "project_list d = order_desc p_created_at (filter (\<lambda>p. p_deleted_at p = None) (projects d))"

definition project_list_for_owner :: "uuid \<Rightarrow> db \<Rightarrow> project list" where
  "project_list_for_owner owner d =
     order_desc p_created_at
       (filter (\<lambda>p. p_deleted_at p = None \<and> p_owner_id p = Some owner) (projects d))"

definition project_list_accessible :: "uuid \<Rightarrow> db \<Rightarrow> project list" where
  "project_list_accessible u d =
     order_desc p_created_at
       (filter (\<lambda>p. p_deleted_at p = None \<and>
          (p_owner_id p = Some u \<or>
           list_ex (\<lambda>up. up_project_id up = p_id p \<and> up_user_id up = u) (user_projects d)))
        (projects d))"

definition project_update :: "uuid \<Rightarrow> update_project_input \<Rightarrow> db \<Rightarrow> project app_result \<times> db" where
  "project_update i input d =
     (case project_find_by_id i d of
        Inl e \<Rightarrow> (Inl e, d)
      | Inr current \<Rightarrow>
         (let name = (case upd_name input of Some n \<Rightarrow> n | None \<Rightarrow> p_name current);
              slug = (case upd_slug input of Some s \<Rightarrow> s | None \<Rightarrow> p_slug current);
              htc = (case upd_hot_to_cold_days input of Some v \<Rightarrow> v | None \<Rightarrow> p_hot_to_cold_days current);
              upd = (\<lambda>p. p\<lparr>p_name := name, p_slug := slug, p_hot_to_cold_days := htc, p_updated_at := now d\<rparr>)
          in if slug \<in> p_slug ` {p \<in> set (projects d). p_id p \<noteq> i}
             then (Inl (Database UniqueViolation), d)
             else (Inr (upd current), d\<lparr>projects := update_where (\<lambda>p. p_id p = i) upd (projects d)\<rparr>)))"

definition project_delete :: "uuid \<Rightarrow> db \<Rightarrow> unit app_result \<times> db" where
  "project_delete i d =
     (if list_ex (\<lambda>p. p_id p = i \<and> p_deleted_at p = None) (projects d)
      then (Inr (), d\<lparr>projects := update_where (\<lambda>p. p_id p = i \<and> p_deleted_at p = None)
              (\<lambda>p. p\<lparr>p_deleted_at := Some (now d), p_updated_at := now d\<rparr>) (projects d)\<rparr>)
      else (Inl (NotFound (''Project '' @ uuid_str i @ '' not found'')), d))"

section \<open>Storage\<close>

definition SENSITIVE_CONFIG_KEYS :: "string list" where
  "SENSITIVE_CONFIG_KEYS = [''secret_access_key'', ''account_key'', ''password'', ''private_key_pem'']"

fun redact_keys :: "string list \<Rightarrow> (string \<times> json) list \<Rightarrow> (string \<times> json) list" where
  "redact_keys [] m = m"
| "redact_keys (k # ks) m =
     redact_keys ks (if map_of m k \<noteq> None then assoc_set k (JStr ''***'') m else m)"

definition redacted :: "storage \<Rightarrow> storage" where
  "redacted s = (case s_config s of
       JObj m \<Rightarrow> s\<lparr>s_config := JObj (redact_keys SENSITIVE_CONFIG_KEYS m)\<rparr>
     | _ \<Rightarrow> s)"

record create_storage =
  cs_name :: string
  cs_type :: string
  cs_config :: json
  cs_is_hot :: "bool option"
  cs_project_id :: "uuid option"
  cs_enabled :: "bool option"
  cs_direct_links :: "bool option"

record update_storage_input =
  us_in_name :: "string option"
  us_in_type :: "string option"
  us_in_config :: "json option"
  us_in_is_hot :: "bool option"
  us_in_project_id :: "uuid option option"
  us_in_enabled :: "bool option"
  us_in_direct_links :: "bool option"

definition unwrap_or :: "'a \<Rightarrow> 'a option \<Rightarrow> 'a" where
  "unwrap_or x o1 = (case o1 of Some v \<Rightarrow> v | None \<Rightarrow> x)"

definition storage_create :: "create_storage \<Rightarrow> db \<Rightarrow> storage app_result \<times> db" where
  "storage_create input d =
     (let row = \<lparr>s_id = fresh_id d, s_name = cs_name input, s_type = cs_type input,
                 s_config = cs_config input, s_is_hot = unwrap_or True (cs_is_hot input),
                 s_project_id = cs_project_id input, s_enabled = unwrap_or True (cs_enabled input),
                 s_direct_links = unwrap_or False (cs_direct_links input),
                 s_created_at = now d, s_updated_at = now d\<rparr>
      in if s_id row \<in> s_id ` set (storages d)
         then (Inl (Database UniqueViolation), draw d)
         else if (case s_project_id row of None \<Rightarrow> False | Some p \<Rightarrow> p \<notin> p_id ` set (projects d))
         then (Inl (Database ForeignKeyViolation), draw d)
         else (Inr row, (draw d)\<lparr>storages := storages d @ [row]\<rparr>))"

definition storage_find_by_id :: "uuid \<Rightarrow> db \<Rightarrow> storage app_result" where
  "storage_find_by_id i d =
     ok_or (NotFound (''Storage '' @ uuid_str i @ '' not found'')) (find (\<lambda>s. s_id s = i) (storages d))"

definition storage_list :: "db \<Rightarrow> storage list" where
  "storage_list d = order_desc s_created_at (storages d)"

definition storage_list_enabled :: "db \<Rightarrow> storage list" where
  "storage_list_enabled d = order_desc s_created_at (filter s_enabled (storages d))"

definition storage_list_for_project :: "uuid \<Rightarrow> db \<Rightarrow> storage list" where
  "storage_list_for_project pid d =
     order_desc (\<lambda>s. bool_int (s_is_hot s)) (order_desc s_created_at
       (concat (map (\<lambda>s. map (\<lambda>_. s)
          (filter (\<lambda>ps. ps_storage_id ps = s_id s \<and> ps_project_id ps = pid \<and> ps_is_active ps \<and> s_enabled s)
             (project_storages d))) (storages d))))"

definition storage_update_enabled :: "uuid \<Rightarrow> bool \<Rightarrow> db \<Rightarrow> storage app_result \<times> db" where
  "storage_update_enabled i b d =
     (case find (\<lambda>s. s_id s = i) (storages d) of
        None \<Rightarrow> (Inl (NotFound (''Storage '' @ uuid_str i @ '' not found'')), d)
      | Some s \<Rightarrow>
         (let upd = (\<lambda>s. s\<lparr>s_enabled := b, s_updated_at := now d\<rparr>)
          in (Inr (upd s), d\<lparr>storages := update_where (\<lambda>s. s_id s = i) upd (storages d)\<rparr>)))"

text \<open>The merge of a new configuration with the stored one, key by key.\<close>

definition should_preserve :: "(string \<times> json) list \<Rightarrow> string \<Rightarrow> bool" where
  "should_preserve new_map key \<longleftrightarrow>
     (case map_of new_map key of
        None \<Rightarrow> True
      | Some (JStr val) \<Rightarrow> val = ''***''
      | _ \<Rightarrow> False)"

fun merge_sensitive :: "string list \<Rightarrow> (string \<times> json) list \<Rightarrow> (string \<times> json) list \<Rightarrow> (string \<times> json) list" where
  "merge_sensitive [] cur_map new_map = new_map"
| "merge_sensitive (key # keys) cur_map new_map =
     merge_sensitive keys cur_map
       (if should_preserve new_map key
        then (case map_of cur_map key of Some original \<Rightarrow> assoc_set key original new_map | None \<Rightarrow> new_map)
        else new_map)"

definition merge_config :: "json option \<Rightarrow> json \<Rightarrow> json" where
  "merge_config input current =
     (case input of
        None \<Rightarrow> current
      | Some new_config \<Rightarrow>
         (case (new_config, current) of
            (JObj new_map, JObj cur_map) \<Rightarrow> JObj (merge_sensitive SENSITIVE_CONFIG_KEYS cur_map new_map)
          | _ \<Rightarrow> new_config))"

definition storage_update :: "uuid \<Rightarrow> update_storage_input \<Rightarrow> db \<Rightarrow> storage app_result \<times> db" where
  "storage_update i input d =
     (case storage_find_by_id i d of
        Inl e \<Rightarrow> (Inl e, d)
      | Inr current \<Rightarrow>
         (let name = unwrap_or (s_name current) (us_in_name input);
              stype = unwrap_or (s_type current) (us_in_type input);
              config = merge_config (us_in_config input) (s_config current);
              hot = unwrap_or (s_is_hot current) (us_in_is_hot input);
              pid = unwrap_or (s_project_id current) (us_in_project_id input);
              en = unwrap_or (s_enabled current) (us_in_enabled input);
              dl = unwrap_or (s_direct_links current) (us_in_direct_links input);
              upd = (\<lambda>s. s\<lparr>s_name := name, s_type := stype, s_config := config, s_is_hot := hot,
                            s_project_id := pid, s_enabled := en, s_direct_links := dl, s_updated_at := now d\<rparr>)
          in if (case pid of None \<Rightarrow> False | Some p \<Rightarrow> p \<notin> p_id ` set (projects d))
             then (Inl (Database ForeignKeyViolation), d)
             else (Inr (upd current), d\<lparr>storages := update_where (\<lambda>s. s_id s = i) upd (storages d)\<rparr>)))"

section \<open>ProjectStorage\<close>

record create_project_storage =
  cps_storage_id :: uuid
  cps_container_override :: "string option"
  cps_prefix_override :: "string option"

record update_project_storage_input =
  ups_container_override :: "string option option"
  ups_prefix_override :: "string option option"
  ups_is_active :: "bool option"

definition project_storage_create ::
    "uuid \<Rightarrow> create_project_storage \<Rightarrow> db \<Rightarrow> project_storage app_result \<times> db" where
  "project_storage_create pid input d =
     (let row = \<lparr>ps_id = fresh_id d, ps_project_id = pid, ps_storage_id = cps_storage_id input,
                 ps_container_override = cps_container_override input,
                 ps_prefix_override = cps_prefix_override input, ps_is_active = True,
                 ps_created_at = now d, ps_updated_at = now d\<rparr>
      in if ps_id row \<in> ps_id ` set (project_storages d) \<or>
            (pid, cps_storage_id input) \<in> (\<lambda>x. (ps_project_id x, ps_storage_id x)) ` set (project_storages d)
         then (Inl (Database UniqueViolation), draw d)
         else if pid \<notin> p_id ` set (projects d) \<or> cps_storage_id input \<notin> s_id ` set (storages d)
         then (Inl (Database ForeignKeyViolation), draw d)
         else (Inr row, (draw d)\<lparr>project_storages := project_storages d @ [row]\<rparr>))"

record ps_details =
  psd_row :: project_storage
  psd_storage_name :: string
  psd_storage_type :: string
  psd_is_hot :: bool
  psd_enabled :: bool

definition project_storage_list_for_project :: "uuid \<Rightarrow> db \<Rightarrow> ps_details list" where
  "project_storage_list_for_project pid d =
     order_desc (\<lambda>x. bool_int (psd_is_hot x)) (sort_key psd_storage_name
       (concat (map (\<lambda>ps. map (\<lambda>s. \<lparr>psd_row = ps, psd_storage_name = s_name s, psd_storage_type = s_type s,
                                     psd_is_hot = s_is_hot s, psd_enabled = s_enabled s\<rparr>)
            (filter (\<lambda>s. s_id s = ps_storage_id ps) (storages d)))
          (filter (\<lambda>ps. ps_project_id ps = pid) (project_storages d)))))"

definition project_storage_find_for_project_and_storage :: "uuid \<Rightarrow> uuid \<Rightarrow> db \<Rightarrow> project_storage option" where
  "project_storage_find_for_project_and_storage pid sid d =
     find (\<lambda>x. ps_project_id x = pid \<and> ps_storage_id x = sid) (project_storages d)"

definition project_storage_update ::
    "uuid \<Rightarrow> uuid \<Rightarrow> update_project_storage_input \<Rightarrow> db \<Rightarrow> project_storage app_result \<times> db" where
  "project_storage_update pid sid input d =
     (case find (\<lambda>x. ps_project_id x = pid \<and> ps_storage_id x = sid) (project_storages d) of
        None \<Rightarrow> (Inl (NotFound ''Project storage assignment not found''), d)
      | Some current \<Rightarrow>
         (let co = (case ups_container_override input of Some v \<Rightarrow> v | None \<Rightarrow> ps_container_override current);
              po = (case ups_prefix_override input of Some v \<Rightarrow> v | None \<Rightarrow> ps_prefix_override current);
              act = unwrap_or (ps_is_active current) (ups_is_active input);
              upd = (\<lambda>x. x\<lparr>ps_container_override := co, ps_prefix_override := po, ps_is_active := act,
                            ps_updated_at := now d\<rparr>)
          in (Inr (upd current), d\<lparr>project_storages :=
                update_where (\<lambda>x. ps_project_id x = pid \<and> ps_storage_id x = sid) upd (project_storages d)\<rparr>)))"

definition project_storage_delete :: "uuid \<Rightarrow> uuid \<Rightarrow> db \<Rightarrow> unit app_result \<times> db" where
  "project_storage_delete pid sid d =
     (if list_ex (\<lambda>x. ps_project_id x = pid \<and> ps_storage_id x = sid) (project_storages d)
      then (Inr (), d\<lparr>project_storages :=
              delete_where (\<lambda>x. ps_project_id x = pid \<and> ps_storage_id x = sid) (project_storages d)\<rparr>)
      else (Inl (NotFound ''Project storage assignment not found''), d))"

definition project_storage_list_available_storages :: "uuid \<Rightarrow> db \<Rightarrow> storage list" where
  "project_storage_list_available_storages pid d =
     sort_key s_name (filter (\<lambda>s. s_enabled s \<and>
        \<not> list_ex (\<lambda>x. ps_project_id x = pid \<and> ps_storage_id x = s_id s) (project_storages d)) (storages d))"

section \<open>The schema constraints are kept\<close>

lemma project_create_schema [schema_intros]:
  assumes "schema_ok d"
  shows "schema_ok (snd (project_create input owner d))"
proof -
  have sub: "p_id ` set (projects d) \<subseteq> p_id ` set (projects d @ [r])" for r by auto
  show ?thesis
    using assms schema_ok_set_projects [of "draw d", simplified, OF assms sub]
    by (auto simp: project_create_def Let_def schema_ok_def [of d] projects_ok_def split: option.splits)
qed

lemma distinct_map_update_one:
  assumes "distinct (map k rows)" and "distinct (map q rows)"
    and "\<And>r. r \<in> set rows \<Longrightarrow> k r = i \<Longrightarrow> q (f r) = v" and "v \<notin> q ` {r \<in> set rows. k r \<noteq> i}"
  shows "distinct (map q (update_where (\<lambda>r. k r = i) f rows))"
  using assms
proof (induction rows)
  case (Cons r rows)
  have IH: "distinct (map q (update_where (\<lambda>r. k r = i) f rows))"
    using Cons by auto
  show ?case
  proof (cases "k r = i")
    case True
    with Cons.prems(1) have "\<forall>x \<in> set rows. k x \<noteq> i" by (metis distinct.simps(2) imageI list.set_map list.simps(9))
    moreover from this have "update_where (\<lambda>r. k r = i) f rows = rows" by (simp add: update_where_none)
    ultimately show ?thesis using True Cons.prems by (auto simp: update_where_def)
  next
    case False
    then have "update_where (\<lambda>r. k r = i) f (r # rows) = r # update_where (\<lambda>r. k r = i) f rows"
      by (simp add: update_where_def)
    moreover have "q r \<notin> q ` set (update_where (\<lambda>r. k r = i) f rows)"
      using Cons.prems False by (auto simp: table_simps)
    ultimately show ?thesis using IH by simp
  qed
qed simp

lemma project_update_schema [schema_intros]:
  assumes ok: "schema_ok d"
  shows "schema_ok (snd (project_update i input d))"
proof (cases "project_find_by_id i d")
  case (Inr current)
  define slug where "slug = (case upd_slug input of Some s \<Rightarrow> s | None \<Rightarrow> p_slug current)"
  define name where "name = (case upd_name input of Some n \<Rightarrow> n | None \<Rightarrow> p_name current)"
  define htc where "htc = (case upd_hot_to_cold_days input of Some v \<Rightarrow> v | None \<Rightarrow> p_hot_to_cold_days current)"
  let ?upd = "\<lambda>p. p\<lparr>p_name := name, p_slug := slug, p_hot_to_cold_days := htc, p_updated_at := now d\<rparr>"
  let ?ps = "update_where (\<lambda>p. p_id p = i) ?upd (projects d)"
  from ok have pk: "projects_ok (users d) (projects d)" by (simp add: schema_ok_def)
  show ?thesis
  proof (cases "slug \<in> p_slug ` {p \<in> set (projects d). p_id p \<noteq> i}")
    case False
    have ids: "map p_id ?ps = map p_id (projects d)" by (simp add: map_update_where)
    have "distinct (map p_slug ?ps)"
      by (rule distinct_map_update_one [where v = slug]) (use pk False in \<open>auto simp: projects_ok_def\<close>)
    with pk ids have "projects_ok (users d) ?ps" by (auto simp: projects_ok_def table_simps)
    with ok ids have "schema_ok (d\<lparr>projects := ?ps\<rparr>)" by (rule schema_ok_update_projects)
    with Inr False show ?thesis
      by (simp add: project_update_def Let_def slug_def name_def htc_def)
  qed (use Inr ok in \<open>simp add: project_update_def Let_def slug_def\<close>)
qed (simp add: project_update_def ok)

lemma project_delete_schema [schema_intros]:
  assumes ok: "schema_ok d"
  shows "schema_ok (snd (project_delete i d))"
proof -
  let ?ps = "update_where (\<lambda>p. p_id p = i \<and> p_deleted_at p = None)
      (\<lambda>p. p\<lparr>p_deleted_at := Some (now d), p_updated_at := now d\<rparr>) (projects d)"
  have ids: "map p_id ?ps = map p_id (projects d)" "map p_slug ?ps = map p_slug (projects d)"
    by (simp_all add: map_update_where)
  have "projects_ok (users d) (projects d)" using ok by (simp add: schema_ok_def)
  with ids have "projects_ok (users d) ?ps" by (auto simp: projects_ok_def table_simps)
  with ok ids(1) have "schema_ok (d\<lparr>projects := ?ps\<rparr>)" by (rule schema_ok_update_projects)
  with ok show ?thesis by (simp add: project_delete_def)
qed

lemma storage_create_schema [schema_intros]:
  assumes "schema_ok d"
  shows "schema_ok (snd (storage_create input d))"
proof -
  have sub: "s_id ` set (storages d) \<subseteq> s_id ` set (storages d @ [r])" for r by auto
  show ?thesis
    using assms schema_ok_set_storages [of "draw d", simplified, OF assms sub]
    by (auto simp: storage_create_def Let_def schema_ok_def [of d] storages_ok_def split: option.splits)
qed

lemma storages_ok_update:
  assumes "storages_ok ps ss" and "\<And>s. s_id (f s) = s_id s"
    and "\<And>s p. s \<in> set ss \<Longrightarrow> P s \<Longrightarrow> s_project_id (f s) = Some p \<Longrightarrow> p \<in> p_id ` set ps"
  shows "storages_ok ps (update_where P f ss)"
  using assms by (auto simp: storages_ok_def map_update_where table_simps)

lemma storage_update_enabled_schema [schema_intros]:
  assumes ok: "schema_ok d"
  shows "schema_ok (snd (storage_update_enabled i b d))"
proof -
  let ?ss = "update_where (\<lambda>s. s_id s = i) (\<lambda>s. s\<lparr>s_enabled := b, s_updated_at := now d\<rparr>) (storages d)"
  have st: "storages_ok (projects d) ?ss"
    by (rule storages_ok_update) (use ok in \<open>auto simp: schema_ok_def storages_ok_def\<close>)
  have "map s_id ?ss = map s_id (storages d)" by (simp add: map_update_where)
  from ok this st have "schema_ok (d\<lparr>storages := ?ss\<rparr>)" by (rule schema_ok_update_storages)
  with ok show ?thesis
    by (cases "find (\<lambda>s. s_id s = i) (storages d)") (simp_all add: storage_update_enabled_def Let_def)
qed

lemma storage_update_schema [schema_intros]:
  assumes ok: "schema_ok d"
  shows "schema_ok (snd (storage_update i input d))"
proof (cases "storage_find_by_id i d")
  case (Inr current)
  define pid where "pid = unwrap_or (s_project_id current) (us_in_project_id input)"
  define upd where "upd = (\<lambda>s::storage. s\<lparr>s_name := unwrap_or (s_name current) (us_in_name input),
    s_type := unwrap_or (s_type current) (us_in_type input),
    s_config := merge_config (us_in_config input) (s_config current),
    s_is_hot := unwrap_or (s_is_hot current) (us_in_is_hot input), s_project_id := pid,
    s_enabled := unwrap_or (s_enabled current) (us_in_enabled input),
    s_direct_links := unwrap_or (s_direct_links current) (us_in_direct_links input),
    s_updated_at := now d\<rparr>)"
  let ?ss = "update_where (\<lambda>s. s_id s = i) upd (storages d)"
  show ?thesis
  proof (cases "\<exists>p. pid = Some p \<and> p \<notin> p_id ` set (projects d)")
    case False
    have st: "storages_ok (projects d) ?ss"
      by (rule storages_ok_update) (use ok False in \<open>auto simp: schema_ok_def upd_def\<close>)
    have "map s_id ?ss = map s_id (storages d)" by (simp add: map_update_where upd_def)
    from ok this st have "schema_ok (d\<lparr>storages := ?ss\<rparr>)" by (rule schema_ok_update_storages)
    with Inr False show ?thesis unfolding upd_def
      by (cases pid) (simp_all add: storage_update_def Let_def pid_def [symmetric])
  qed (use Inr ok in \<open>auto simp: storage_update_def Let_def pid_def [symmetric]\<close>)
qed (simp add: storage_update_def ok)

lemma project_storage_create_schema [schema_intros]:
  "schema_ok d \<Longrightarrow> schema_ok (snd (project_storage_create pid input d))"
  by (auto simp: project_storage_create_def Let_def schema_ok_def project_storages_ok_def)

lemma project_storage_update_schema [schema_intros]:
  "schema_ok d \<Longrightarrow> schema_ok (snd (project_storage_update pid sid input d))"
  by (auto simp: project_storage_update_def Let_def schema_ok_def project_storages_ok_def
      map_update_where table_simps split: option.splits)

lemma project_storage_delete_schema [schema_intros]:
  "schema_ok d \<Longrightarrow> schema_ok (snd (project_storage_delete pid sid d))"
  by (auto simp: project_storage_delete_def schema_ok_def project_storages_ok_def
      distinct_map_delete_where table_simps)

section \<open>Sensitive configuration values\<close>

lemma redact_keys_lookup:
  "map_of (redact_keys ks m) k =
     (if k \<in> set ks \<and> map_of m k \<noteq> None then Some (JStr ''***'') else map_of m k)"
  by (induction ks arbitrary: m) (auto simp: assoc_set_lookup)

lemma merge_sensitive_lookup:
  assumes "distinct ks"
  shows "map_of (merge_sensitive ks cur new) k =
     (if k \<in> set ks \<and> should_preserve new k \<and> map_of cur k \<noteq> None then map_of cur k else map_of new k)"
  using assms
proof (induction ks arbitrary: new)
  case (Cons a ks)
  define new' where "new' = (if should_preserve new a
      then (case map_of cur a of Some original \<Rightarrow> assoc_set a original new | None \<Rightarrow> new) else new)"
  have other: "k \<noteq> a \<Longrightarrow> should_preserve new' k = should_preserve new k"
    by (auto simp: new'_def should_preserve_def assoc_set_lookup split: option.splits)
  have look: "map_of new' k = (if k = a \<and> should_preserve new a \<and> map_of cur a \<noteq> None
      then map_of cur a else map_of new k)"
    by (auto simp: new'_def assoc_set_lookup split: option.splits)
  show ?case
    using Cons.IH [of new'] Cons.prems other look by (auto simp: new'_def [symmetric])
qed simp

text \<open>
  a storage as any endpoint returns it shows the placeholder in place of every credential it
  has, every other configuration value unchanged, and redacting is idempotent.
\<close>

theorem redacted_hides_credentials:
  "(\<forall>k. json_get (s_config (redacted s)) k =
      (if k \<in> set SENSITIVE_CONFIG_KEYS \<and> json_get (s_config s) k \<noteq> None
       then Some (JStr ''***'') else json_get (s_config s) k)) \<and>
   (\<forall>k. json_get (s_config (redacted (redacted s))) k = json_get (s_config (redacted s)) k) \<and>
   s_id (redacted s) = s_id s \<and> s_enabled (redacted s) = s_enabled s"
  by (cases "s_config s") (auto simp: redacted_def redact_keys_lookup)

text \<open>
  an update whose configuration is the redacted one a client was shown, possibly with other
  members changed, keeps every stored credential; so does one that leaves the configuration out.
  A credential the client sends in full replaces the stored one.
\<close>

theorem storage_update_keeps_credentials:
  assumes "storage_update i input d = (Inr s', d')" and "storage_find_by_id i d = Inr s"
    and "s_config s = JObj cur"
    and "us_in_config input = None \<or> us_in_config input = Some (JObj new)"
    and "k \<in> set SENSITIVE_CONFIG_KEYS"
  shows "json_get (s_config s') k =
     (if us_in_config input = None \<or> (should_preserve new k \<and> map_of cur k \<noteq> None)
      then map_of cur k else map_of new k)"
proof -
  have "distinct SENSITIVE_CONFIG_KEYS" by (simp add: SENSITIVE_CONFIG_KEYS_def)
  note look = merge_sensitive_lookup [OF this]
  from assms(1,2) have "s_config s' = merge_config (us_in_config input) (s_config s)"
    by (auto simp: storage_update_def Let_def split: option.splits if_splits)
  with assms(3-5) show ?thesis by (auto simp: merge_config_def look)
qed

theorem storage_update_keeps_credentials_witness:
  "\<exists>s' d'. storage_update 3 \<lparr>us_in_name = None, us_in_type = None,
       us_in_config = Some (JObj [(''path'', JStr ''/new''), (''password'', JStr ''***'')]), us_in_is_hot = None,
       us_in_project_id = None, us_in_enabled = None, us_in_direct_links = None\<rparr>
     (demo_db\<lparr>storages := [(demo_storage 3 True)\<lparr>s_config := JObj [(''password'', JStr ''pw'')]\<rparr>]\<rparr>) = (Inr s', d') \<and>
     json_get (s_config s') ''password'' = Some (JStr ''pw'')"
  (is "\<exists>s' d'. storage_update 3 ?in ?d = _ \<and> _")
proof -
  obtain s' d' where upd: "storage_update 3 ?in ?d = (Inr s', d')"
    by (simp add: storage_update_def storage_find_by_id_def ok_or_def demo_defs unwrap_or_def Let_def)
  have "storage_find_by_id 3 ?d = Inr ((demo_storage 3 True)\<lparr>s_config := JObj [(''password'', JStr ''pw'')]\<rparr>)"
    by (simp add: storage_find_by_id_def ok_or_def demo_storage_def)
  from storage_update_keeps_credentials [OF upd this, of "[(''password'', JStr ''pw'')]"
      "[(''path'', JStr ''/new''), (''password'', JStr ''***'')]" "''password''"] upd
  show ?thesis by (auto simp: SENSITIVE_CONFIG_KEYS_def should_preserve_def)
qed

text \<open>
  the storages a project can use are exactly the enabled ones with an active assignment; hot
  storages come first.
\<close>

theorem storage_list_for_project_exact:
  "(s \<in> set (storage_list_for_project pid d) \<longleftrightarrow>
      s \<in> set (storages d) \<and> s_enabled s \<and>
      (\<exists>a \<in> set (project_storages d). ps_storage_id a = s_id s \<and> ps_project_id a = pid \<and> ps_is_active a)) \<and>
   sorted (map (\<lambda>s. - bool_int (s_is_hot s)) (storage_list_for_project pid d))"
proof -
  have "sorted (map (\<lambda>s. - bool_int (s_is_hot s)) (storage_list_for_project pid d))"
    unfolding storage_list_for_project_def by (rule sorted_order_desc)
  then show ?thesis by (auto simp: storage_list_for_project_def)
qed

end
