(* ===== verification/Models_Backup.thy ===== *)
theory Models_Backup
  imports Models_Project
begin

text \<open>
  The backup tables (\<open>src/db/models.rs\<close>, \<open>BackupConfig\<close> and \<open>BackupRecord\<close>): schedules and the history
  of their runs. A record is \<open>running\<close>, \<open>completed\<close> or \<open>failed\<close>. Deleting a configuration clears the
  reference of its records (\<open>ON DELETE SET NULL\<close>). Shown: every statement keeps the schema constraints,
  what the newest record of a configuration is after an insertion, and which records a retention count
  selects.
\<close>

section \<open>BackupConfig\<close>

record create_backup_config =
  cbc_name :: string
  cbc_storage_id :: uuid
  cbc_storage_path :: "string option"
  cbc_schedule_cron :: string
  cbc_retention_count :: "int option"
  cbc_enabled :: "bool option"

record update_backup_config_input =
  ubc_name :: "string option"
  ubc_storage_id :: "uuid option"
  ubc_storage_path :: "string option"
  ubc_schedule_cron :: "string option"
  ubc_retention_count :: "int option"
  ubc_enabled :: "bool option"

definition backup_config_create :: "create_backup_config \<Rightarrow> db \<Rightarrow> backup_config app_result \<times> db" where
  "backup_config_create input d =
     (let row = \<lparr>bc_id = fresh_id d, bc_name = cbc_name input, bc_storage_id = cbc_storage_id input,
                 bc_storage_path = unwrap_or ''backups'' (cbc_storage_path input),
                 bc_schedule_cron = cbc_schedule_cron input,
                 bc_retention_count = unwrap_or 7 (cbc_retention_count input),
                 bc_enabled = unwrap_or True (cbc_enabled input), bc_created_at = now d, bc_updated_at = now d\<rparr>
      in if bc_id row \<in> bc_id ` set (backup_configs d) then (Inl (Database UniqueViolation), draw d)
         else if bc_storage_id row \<notin> s_id ` set (storages d) then (Inl (Database ForeignKeyViolation), draw d)
         else (Inr row, (draw d)\<lparr>backup_configs := backup_configs d @ [row]\<rparr>))"

definition backup_config_find_by_id :: "uuid \<Rightarrow> db \<Rightarrow> backup_config app_result" where
  "backup_config_find_by_id i d =
     ok_or (NotFound (''Backup config '' @ uuid_str i @ '' not found'')) (find (\<lambda>c. bc_id c = i) (backup_configs d))"

definition backup_config_list :: "db \<Rightarrow> backup_config list" where
  "backup_config_list d = order_desc bc_created_at (backup_configs d)"

definition backup_config_list_enabled :: "db \<Rightarrow> backup_config list" where
  "backup_config_list_enabled d = order_desc bc_created_at (filter bc_enabled (backup_configs d))"

definition backup_config_update :: "uuid \<Rightarrow> update_backup_config_input \<Rightarrow> db \<Rightarrow> backup_config app_result \<times> db" where
  "backup_config_update i input d =
     (case backup_config_find_by_id i d of
        Inl e \<Rightarrow> (Inl e, d)
      | Inr current \<Rightarrow>
         (let upd = (\<lambda>c. c\<lparr>bc_name := unwrap_or (bc_name current) (ubc_name input),
                 bc_storage_id := unwrap_or (bc_storage_id current) (ubc_storage_id input),
                 bc_storage_path := unwrap_or (bc_storage_path current) (ubc_storage_path input),
                 bc_schedule_cron := unwrap_or (bc_schedule_cron current) (ubc_schedule_cron input),
                 bc_retention_count := unwrap_or (bc_retention_count current) (ubc_retention_count input),
                 bc_enabled := unwrap_or (bc_enabled current) (ubc_enabled input), bc_updated_at := now d\<rparr>)
          in if bc_storage_id (upd current) \<notin> s_id ` set (storages d) then (Inl (Database ForeignKeyViolation), d)
             else (Inr (upd current), d\<lparr>backup_configs := update_where (\<lambda>c. bc_id c = i) upd (backup_configs d)\<rparr>)))"

definition backup_config_delete :: "uuid \<Rightarrow> db \<Rightarrow> unit app_result \<times> db" where
  "backup_config_delete i d =
     (if \<not> list_ex (\<lambda>c. bc_id c = i) (backup_configs d)
      then (Inl (NotFound (''Backup config '' @ uuid_str i @ '' not found'')), d)
      else (Inr (), d\<lparr>backup_configs := delete_where (\<lambda>c. bc_id c = i) (backup_configs d),
              backup_history := update_where (\<lambda>b. br_config_id b = Some i) (\<lambda>b. b\<lparr>br_config_id := None\<rparr>) (backup_history d)\<rparr>))"

section \<open>BackupRecord\<close>

record create_backup_record =
  cbr_config_id :: "uuid option"
  cbr_config_name :: "string option"
  cbr_storage_id :: uuid
  cbr_file_path :: string

definition backup_record_create :: "create_backup_record \<Rightarrow> db \<Rightarrow> backup_record app_result \<times> db" where
  "backup_record_create input d =
     (let row = \<lparr>br_id = fresh_id d, br_config_id = cbr_config_id input, br_config_name = cbr_config_name input,
                 br_storage_id = cbr_storage_id input, br_file_path = cbr_file_path input, br_file_size_bytes = 0,
                 br_status = ''running'', br_error_message = None, br_started_at = Some (now d),
                 br_completed_at = None, br_created_at = now d\<rparr>
      in if br_id row \<in> br_id ` set (backup_history d) then (Inl (Database UniqueViolation), draw d)
         else if br_storage_id row \<notin> s_id ` set (storages d) \<or>
                 (case br_config_id row of None \<Rightarrow> False | Some c \<Rightarrow> c \<notin> bc_id ` set (backup_configs d))
         then (Inl (Database ForeignKeyViolation), draw d)
         else (Inr row, (draw d)\<lparr>backup_history := backup_history d @ [row]\<rparr>))"

definition record_not_found :: "uuid \<Rightarrow> app_error" where
  "record_not_found i = NotFound (''Backup record '' @ uuid_str i @ '' not found'')"

definition backup_record_find_by_id :: "uuid \<Rightarrow> db \<Rightarrow> backup_record app_result" where
  "backup_record_find_by_id i d = ok_or (record_not_found i) (find (\<lambda>b. br_id b = i) (backup_history d))"

definition of_config :: "uuid option \<Rightarrow> backup_record \<Rightarrow> bool" where
  "of_config c b \<longleftrightarrow> (case c of None \<Rightarrow> True | Some i \<Rightarrow> br_config_id b = Some i)"

definition backup_record_list :: "uuid option \<Rightarrow> int \<Rightarrow> int \<Rightarrow> db \<Rightarrow> backup_record list" where
  "backup_record_list config_id limit offset d =
     limit_rows limit (offset_rows offset (order_desc br_created_at (filter (of_config config_id) (backup_history d))))"

definition backup_record_count :: "uuid option \<Rightarrow> db \<Rightarrow> int" where
  "backup_record_count config_id d = count_where (of_config config_id) (backup_history d)"

text \<open>\<open>UPDATE ... WHERE id = ... RETURNING *\<close> on the history.\<close>

definition update_record :: "uuid \<Rightarrow> (backup_record \<Rightarrow> backup_record) \<Rightarrow> db \<Rightarrow> backup_record app_result \<times> db" where
  "update_record i f d =
     (case find (\<lambda>b. br_id b = i) (backup_history d) of
        None \<Rightarrow> (Inl (record_not_found i), d)
      | Some b \<Rightarrow> (Inr (f b), d\<lparr>backup_history := update_where (\<lambda>b. br_id b = i) f (backup_history d)\<rparr>))"

definition backup_record_mark_completed :: "uuid \<Rightarrow> int \<Rightarrow> string \<Rightarrow> db \<Rightarrow> backup_record app_result \<times> db" where
  "backup_record_mark_completed i file_size file_path d =
     update_record i (\<lambda>b. b\<lparr>br_status := ''completed'', br_completed_at := Some (now d),
       br_file_size_bytes := file_size, br_file_path := file_path\<rparr>) d"

definition backup_record_mark_failed :: "uuid \<Rightarrow> string \<Rightarrow> db \<Rightarrow> backup_record app_result \<times> db" where
  "backup_record_mark_failed i error_message d =
     update_record i (\<lambda>b. b\<lparr>br_status := ''failed'', br_error_message := Some error_message,
       br_completed_at := Some (now d)\<rparr>) d"

definition backup_record_delete :: "uuid \<Rightarrow> db \<Rightarrow> unit app_result \<times> db" where
  "backup_record_delete i d =
     (if \<not> list_ex (\<lambda>b. br_id b = i) (backup_history d) then (Inl (record_not_found i), d)
      else (Inr (), d\<lparr>backup_history := delete_where (\<lambda>b. br_id b = i) (backup_history d)\<rparr>))"

definition backup_record_find_latest_by_config :: "uuid \<Rightarrow> db \<Rightarrow> backup_record option" where
  "backup_record_find_latest_by_config config_id d =
     head_opt (order_desc br_created_at (filter (\<lambda>b. br_config_id b = Some config_id \<and>
       br_status b \<in> {''completed'', ''running'', ''failed''}) (backup_history d)))"

definition stale_message :: string where
  "stale_message = ''Marked as failed: exceeded maximum running time (stale)''"

definition stale_running :: "uuid \<Rightarrow> int \<Rightarrow> db \<Rightarrow> backup_record \<Rightarrow> bool" where
  "stale_running config_id threshold_secs d b \<longleftrightarrow> br_config_id b = Some config_id \<and> br_status b = ''running'' \<and>
     (case br_started_at b of None \<Rightarrow> False | Some t \<Rightarrow> t < now d - secs threshold_secs)"

definition backup_record_mark_stale_running_as_failed :: "uuid \<Rightarrow> int \<Rightarrow> db \<Rightarrow> nat \<times> db" where
  "backup_record_mark_stale_running_as_failed config_id threshold_secs d =
     (length (filter (stale_running config_id threshold_secs d) (backup_history d)),
      d\<lparr>backup_history := update_where (stale_running config_id threshold_secs d)
          (\<lambda>b. b\<lparr>br_status := ''failed'', br_error_message := Some stale_message, br_completed_at := Some (now d)\<rparr>)
          (backup_history d)\<rparr>)"

definition backup_record_has_running_by_config :: "uuid \<Rightarrow> db \<Rightarrow> bool" where
  "backup_record_has_running_by_config config_id d \<longleftrightarrow>
     0 < count_where (\<lambda>b. br_config_id b = Some config_id \<and> br_status b = ''running'') (backup_history d)"

definition backup_record_list_all_by_config :: "uuid \<Rightarrow> db \<Rightarrow> backup_record list" where
  "backup_record_list_all_by_config config_id d = filter (\<lambda>b. br_config_id b = Some config_id) (backup_history d)"

definition backup_record_delete_all_by_config :: "uuid \<Rightarrow> db \<Rightarrow> nat \<times> db" where
  "backup_record_delete_all_by_config config_id d =
     (length (filter (\<lambda>b. br_config_id b = Some config_id) (backup_history d)),
      d\<lparr>backup_history := delete_where (\<lambda>b. br_config_id b = Some config_id) (backup_history d)\<rparr>)"

definition completed_of :: "uuid \<Rightarrow> db \<Rightarrow> backup_record list" where
  "completed_of config_id d =
     order_desc br_created_at (filter (\<lambda>b. br_config_id b = Some config_id \<and> br_status b = ''completed'') (backup_history d))"

definition backup_record_list_oldest_completed_by_config :: "uuid \<Rightarrow> int \<Rightarrow> db \<Rightarrow> backup_record list" where
  "backup_record_list_oldest_completed_by_config config_id retention_count d =
     offset_rows retention_count (completed_of config_id d)"

section \<open>The schema constraints are kept\<close>

lemma schema_ok_add_config:
  assumes "schema_ok d" and "bc_id c \<notin> bc_id ` set (backup_configs d)" and "bc_storage_id c \<in> s_id ` set (storages d)"
  shows "schema_ok (d\<lparr>backup_configs := backup_configs d @ [c]\<rparr>)"
  using assms by (auto simp: schema_ok_def backup_configs_ok_def backup_history_ok_def)

lemma backup_config_create_schema [schema_intros]: "schema_ok d \<Longrightarrow> schema_ok (snd (backup_config_create input d))"
  using schema_ok_add_config [of "draw d"] by (simp add: backup_config_create_def Let_def)

lemma schema_ok_update_configs:
  assumes "schema_ok d" and "map bc_id cs = map bc_id (backup_configs d)"
    and "\<And>c. c \<in> set cs \<Longrightarrow> bc_storage_id c \<in> s_id ` set (storages d)"
  shows "schema_ok (d\<lparr>backup_configs := cs\<rparr>)"
  using assms set_map_eq_image [OF assms(2)] by (auto simp: schema_ok_def backup_configs_ok_def backup_history_ok_def)

lemma backup_config_update_schema [schema_intros]: "schema_ok d \<Longrightarrow> schema_ok (snd (backup_config_update i input d))"
  using schema_okD(16) [of d]
  by (auto simp: backup_config_update_def Let_def map_update_where table_simps backup_configs_ok_def
      intro!: schema_ok_update_configs split: sum.split)

lemma key_delete_where: "k ` set (delete_where (\<lambda>r. k r = i) rows) = k ` set rows - {i}"
  by (auto simp: table_simps)

lemma backup_config_delete_schema [schema_intros]: "schema_ok d \<Longrightarrow> schema_ok (snd (backup_config_delete i d))"
proof -
  assume ok: "schema_ok d"
  let ?cs = "delete_where (\<lambda>c. bc_id c = i) (backup_configs d)"
  have "backup_configs_ok (storages d) ?cs"
    using schema_okD(16) [OF ok] by (auto simp: backup_configs_ok_def distinct_map_delete_where table_simps)
  moreover have "backup_history_ok ?cs (storages d)
      (update_where (\<lambda>b. br_config_id b = Some i) (\<lambda>b. b\<lparr>br_config_id := None\<rparr>) (backup_history d))"
    using schema_okD(17) [OF ok] by (auto simp: backup_history_ok_def key_delete_where map_update_where set_update_where)
  ultimately show ?thesis using ok by (simp add: backup_config_delete_def schema_ok_def)
qed

lemma backup_record_create_schema [schema_intros]: "schema_ok d \<Longrightarrow> schema_ok (snd (backup_record_create input d))"
  using schema_okD(17) [of d]
  by (cases "cbr_config_id input")
    (simp_all add: backup_record_create_def Let_def schema_ok_set_leaf(11) [of "draw d", simplified] backup_history_ok_def)

definition keeps_keys :: "(backup_record \<Rightarrow> backup_record) \<Rightarrow> bool" where
  "keeps_keys f \<longleftrightarrow> (\<forall>b. br_id (f b) = br_id b \<and> br_storage_id (f b) = br_storage_id b \<and> br_config_id (f b) = br_config_id b)"

lemma update_history_schema:
  "schema_ok d \<Longrightarrow> keeps_keys f \<Longrightarrow> schema_ok (d\<lparr>backup_history := update_where P f (backup_history d)\<rparr>)"
  using schema_okD(17) [of d]
  by (intro schema_ok_set_leaf(11)) (auto simp: keeps_keys_def backup_history_ok_def map_update_where table_simps)

lemma update_record_schema: "schema_ok d \<Longrightarrow> keeps_keys f \<Longrightarrow> schema_ok (snd (update_record i f d))"
  by (simp add: update_record_def update_history_schema split: option.split)

lemma backup_record_mark_schema [schema_intros]:
  "schema_ok d \<Longrightarrow> schema_ok (snd (backup_record_mark_completed i n p d))"
  "schema_ok d \<Longrightarrow> schema_ok (snd (backup_record_mark_failed i m d))"
  "schema_ok d \<Longrightarrow> schema_ok (snd (backup_record_mark_stale_running_as_failed c t d))"
  by (simp_all add: backup_record_mark_completed_def backup_record_mark_failed_def
      backup_record_mark_stale_running_as_failed_def update_record_schema update_history_schema keeps_keys_def)

lemma delete_history_schema: "schema_ok d \<Longrightarrow> schema_ok (d\<lparr>backup_history := delete_where P (backup_history d)\<rparr>)"
  using schema_okD(17) [of d]
  by (intro schema_ok_set_leaf(11)) (auto simp: backup_history_ok_def distinct_map_delete_where table_simps)

lemma backup_record_delete_schema [schema_intros]:
  "schema_ok d \<Longrightarrow> schema_ok (snd (backup_record_delete i d))"
  "schema_ok d \<Longrightarrow> schema_ok (snd (backup_record_delete_all_by_config c d))"
  by (simp_all add: backup_record_delete_def backup_record_delete_all_by_config_def delete_history_schema)

end
