(* ===== verification/Models_File.thy ===== *)
theory Models_File
  imports Models_Project
begin

text \<open>
  Deduplicated files, their references from projects and their locations on storages
  (\<open>src/db/models.rs\<close>, \<open>File\<close>, \<open>FileReference\<close> and \<open>FileLocation\<close>). Shown: inserting a file is
  idempotent on its hash, the schema constraints are kept, and the locations a download may use
  are exactly the synced ones on enabled storages, hot storages first.
\<close>

section \<open>File\<close>

record create_file =
  cf_hash :: string
  cf_size :: int
  cf_content_type :: string

definition file_create :: "create_file \<Rightarrow> db \<Rightarrow> file_row app_result \<times> db" where
  "file_create input d =
     (let row = \<lparr>f_id = fresh_id d, f_hash = cf_hash input, f_size = cf_size input,
                 f_content_type = cf_content_type input, f_created_at = now d\<rparr>
      in if f_id row \<in> f_id ` set (files d) \<or> f_hash row \<in> f_hash ` set (files d)
         then (Inl (Database UniqueViolation), draw d)
         else (Inr row, (draw d)\<lparr>files := files d @ [row]\<rparr>))"

definition file_find_by_id :: "uuid \<Rightarrow> db \<Rightarrow> file_row app_result" where
  "file_find_by_id i d =
     ok_or (NotFound (''File '' @ uuid_str i @ '' not found'')) (find (\<lambda>f. f_id f = i) (files d))"

definition file_find_by_hash :: "string \<Rightarrow> db \<Rightarrow> file_row option" where
  "file_find_by_hash h d = find (\<lambda>f. f_hash f = h) (files d)"

definition file_create_or_find :: "create_file \<Rightarrow> db \<Rightarrow> (file_row \<times> bool) app_result \<times> db" where
  "file_create_or_find input d =
     (case file_find_by_hash (cf_hash input) d of
        Some existing \<Rightarrow> (Inr (existing, False), d)
      | None \<Rightarrow>
         (case file_create input d of
            (Inr f, d') \<Rightarrow> (Inr (f, True), d')
          | (Inl (Database e), d') \<Rightarrow>
              (if is_unique_violation e
               then (case file_find_by_hash (cf_hash input) d' of
                       Some f \<Rightarrow> (Inr (f, False), d')
                     | None \<Rightarrow> (Inl (Internal ''File disappeared after conflict''), d'))
               else (Inl (Database e), d'))
          | (Inl e, d') \<Rightarrow> (Inl e, d')))"

definition file_find_orphaned_from_ids :: "uuid list \<Rightarrow> db \<Rightarrow> uuid list" where
  "file_find_orphaned_from_ids ids d =
     (if ids = [] then []
      else map f_id (filter (\<lambda>f. f_id f \<in> set ids \<and>
             \<not> list_ex (\<lambda>r. r_file_id r = f_id f) (file_references d)) (files d)))"

text \<open>
  \<open>DELETE FROM files WHERE id = $1\<close>: the foreign keys of the tables that refer to \<open>files\<close> are all
  declared \<open>ON DELETE CASCADE\<close>.
\<close>

definition delete_file_row :: "uuid \<Rightarrow> db \<Rightarrow> db" where
  "delete_file_row i d = d\<lparr>
     files := delete_where (\<lambda>f. f_id f = i) (files d),
     file_references := delete_where (\<lambda>r. r_file_id r = i) (file_references d),
     file_locations := delete_where (\<lambda>l. l_file_id l = i) (file_locations d),
     sync_tasks := delete_where (\<lambda>t. t_file_id t = i) (sync_tasks d),
     shared_links := delete_where (\<lambda>l. sl_file_id l = i) (shared_links d),
     file_access_events := delete_where (\<lambda>e. ev_file_id e = i) (file_access_events d)\<rparr>"

section \<open>FileReference\<close>

record create_file_reference =
  cr_file_id :: uuid
  cr_project_id :: uuid
  cr_original_name :: string
  cr_metadata :: json

definition file_reference_create :: "create_file_reference \<Rightarrow> db \<Rightarrow> file_reference app_result \<times> db" where
  "file_reference_create input d =
     (let row = \<lparr>r_id = fresh_id d, r_file_id = cr_file_id input, r_project_id = cr_project_id input,
                 r_original_name = cr_original_name input, r_metadata = cr_metadata input,
                 r_created_at = now d\<rparr>
      in if r_id row \<in> r_id ` set (file_references d)
         then (Inl (Database UniqueViolation), draw d)
         else if r_file_id row \<notin> f_id ` set (files d) \<or> r_project_id row \<notin> p_id ` set (projects d)
         then (Inl (Database ForeignKeyViolation), draw d)
         else (Inr row, (draw d)\<lparr>file_references := file_references d @ [row]\<rparr>))"

definition file_reference_create_or_find ::
    "create_file_reference \<Rightarrow> db \<Rightarrow> file_reference app_result \<times> db" where
  "file_reference_create_or_find input d =
     (case file_reference_create input d of
        (Inr row, d') \<Rightarrow> (Inr row, d')
      | (Inl (Database e), d') \<Rightarrow>
          (if is_unique_violation e
           then (case find (\<lambda>r. r_file_id r = cr_file_id input \<and> r_project_id r = cr_project_id input \<and>
                        r_original_name r = cr_original_name input) (file_references d') of
                   Some row \<Rightarrow> (Inr row, d')
                 | None \<Rightarrow> (Inl (Database RowNotFound), d'))
           else (Inl (Database e), d'))
      | (Inl e, d') \<Rightarrow> (Inl e, d'))"

definition file_reference_list_for_project :: "uuid \<Rightarrow> int \<Rightarrow> int \<Rightarrow> db \<Rightarrow> file_reference list" where
  "file_reference_list_for_project pid limit offset d =
     limit_rows limit (offset_rows offset
       (order_desc r_created_at (filter (\<lambda>r. r_project_id r = pid) (file_references d))))"

definition file_reference_delete :: "uuid \<Rightarrow> db \<Rightarrow> unit app_result \<times> db" where
  "file_reference_delete i d =
     (if list_ex (\<lambda>r. r_id r = i) (file_references d)
      then (Inr (), d\<lparr>file_references := delete_where (\<lambda>r. r_id r = i) (file_references d)\<rparr>)
      else (Inl (NotFound (''File reference '' @ uuid_str i @ '' not found'')), d))"

definition file_reference_find_by_file_id :: "uuid \<Rightarrow> db \<Rightarrow> file_reference list" where
  "file_reference_find_by_file_id fid d = filter (\<lambda>r. r_file_id r = fid) (file_references d)"

definition file_reference_find_by_file_and_project :: "uuid \<Rightarrow> uuid \<Rightarrow> db \<Rightarrow> file_reference list" where
  "file_reference_find_by_file_and_project fid pid d =
     filter (\<lambda>r. r_file_id r = fid \<and> r_project_id r = pid) (file_references d)"

definition file_reference_delete_by_file_and_project :: "uuid \<Rightarrow> uuid \<Rightarrow> db \<Rightarrow> unit app_result \<times> db" where
  "file_reference_delete_by_file_and_project fid pid d =
     (if list_ex (\<lambda>r. r_file_id r = fid \<and> r_project_id r = pid) (file_references d)
      then (Inr (), d\<lparr>file_references :=
              delete_where (\<lambda>r. r_file_id r = fid \<and> r_project_id r = pid) (file_references d)\<rparr>)
      else (Inl (NotFound ''File reference not found for this file and project''), d))"

section \<open>FileLocation\<close>

record create_file_location =
  cl_file_id :: uuid
  cl_storage_id :: uuid
  cl_storage_path :: string
  cl_status :: string

definition file_location_create :: "create_file_location \<Rightarrow> db \<Rightarrow> file_location app_result \<times> db" where
  "file_location_create input d =
     (let row = \<lparr>l_id = fresh_id d, l_file_id = cl_file_id input, l_storage_id = cl_storage_id input,
                 l_storage_path = cl_storage_path input, l_status = cl_status input,
                 l_synced_at = (if cl_status input = ''synced'' then Some (now d) else None),
                 l_last_accessed_at = None, l_created_at = now d\<rparr>
      in if l_id row \<in> l_id ` set (file_locations d) \<or>
            (l_file_id row, l_storage_id row) \<in> (\<lambda>l. (l_file_id l, l_storage_id l)) ` set (file_locations d)
         then (Inl (Database UniqueViolation), draw d)
         else if l_file_id row \<notin> f_id ` set (files d) \<or> l_storage_id row \<notin> s_id ` set (storages d)
         then (Inl (Database ForeignKeyViolation), draw d)
         else (Inr row, (draw d)\<lparr>file_locations := file_locations d @ [row]\<rparr>))"

text \<open>The storages a location joins with: by the primary key of \<open>storages\<close> there is at most one.\<close>

definition location_storage :: "file_location \<Rightarrow> db \<Rightarrow> storage option" where
  "location_storage l d = find (\<lambda>s. s_id s = l_storage_id l) (storages d)"

definition location_is_hot :: "db \<Rightarrow> file_location \<Rightarrow> bool" where
  "location_is_hot d l = (case location_storage l d of Some s \<Rightarrow> s_is_hot s | None \<Rightarrow> False)"

definition location_enabled :: "db \<Rightarrow> file_location \<Rightarrow> bool" where
  "location_enabled d l = (case location_storage l d of Some s \<Rightarrow> s_enabled s | None \<Rightarrow> False)"

definition file_location_find_for_file :: "uuid \<Rightarrow> db \<Rightarrow> file_location list" where
  "file_location_find_for_file fid d =
     order_desc (\<lambda>l. bool_int (location_is_hot d l)) (order_desc_nulls_last l_last_accessed_at
       (filter (\<lambda>l. l_file_id l = fid \<and> location_enabled d l \<and> l_status l = ''synced'') (file_locations d)))"

definition file_location_find_all_for_file :: "uuid \<Rightarrow> db \<Rightarrow> file_location list" where
  "file_location_find_all_for_file fid d =
     order_desc l_created_at (filter (\<lambda>l. l_file_id l = fid) (file_locations d))"

definition set_location_status :: "string \<Rightarrow> time \<Rightarrow> file_location \<Rightarrow> file_location" where
  "set_location_status status t l =
     (if status = ''synced'' then l\<lparr>l_status := status, l_synced_at := Some t\<rparr> else l\<lparr>l_status := status\<rparr>)"

definition file_location_update_status :: "uuid \<Rightarrow> string \<Rightarrow> db \<Rightarrow> file_location app_result \<times> db" where
  "file_location_update_status i status d =
     (case find (\<lambda>l. l_id l = i) (file_locations d) of
        None \<Rightarrow> (Inl (NotFound (''File location '' @ uuid_str i @ '' not found'')), d)
      | Some l \<Rightarrow> (Inr (set_location_status status (now d) l),
          d\<lparr>file_locations := update_where (\<lambda>l. l_id l = i) (set_location_status status (now d)) (file_locations d)\<rparr>))"

definition file_location_update_status_by_file_and_storage ::
    "uuid \<Rightarrow> uuid \<Rightarrow> string \<Rightarrow> db \<Rightarrow> file_location app_result \<times> db" where
  "file_location_update_status_by_file_and_storage fid sid status d =
     (case find (\<lambda>l. l_file_id l = fid \<and> l_storage_id l = sid) (file_locations d) of
        None \<Rightarrow> (Inl (NotFound (''File location not found for file '' @ uuid_str fid @ '' on storage '' @ uuid_str sid)), d)
      | Some l \<Rightarrow> (Inr (set_location_status status (now d) l),
          d\<lparr>file_locations := update_where (\<lambda>l. l_file_id l = fid \<and> l_storage_id l = sid)
              (set_location_status status (now d)) (file_locations d)\<rparr>))"

definition file_location_touch_accessed :: "uuid \<Rightarrow> db \<Rightarrow> unit app_result \<times> db" where
  "file_location_touch_accessed i d =
     (Inr (), d\<lparr>file_locations :=
        update_where (\<lambda>l. l_id l = i) (\<lambda>l. l\<lparr>l_last_accessed_at := Some (now d)\<rparr>) (file_locations d)\<rparr>)"

section \<open>The schema constraints are kept\<close>

lemma file_create_schema [schema_intros]:
  assumes "schema_ok d"
  shows "schema_ok (snd (file_create input d))"
proof -
  have sub: "f_id ` set (files d) \<subseteq> f_id ` set (files d @ [r])" for r by auto
  show ?thesis
    using assms schema_ok_set_files [of "draw d", simplified, OF assms sub] schema_okD(4) [OF assms]
    by (simp add: file_create_def Let_def files_ok_def)
qed

lemma file_create_or_find_schema [schema_intros]:
  "schema_ok d \<Longrightarrow> schema_ok (snd (file_create_or_find input d))"
  using file_create_schema [of d input]
  by (auto simp: file_create_or_find_def split: option.splits prod.splits sum.splits app_error.splits)

lemma delete_file_row_schema [schema_intros]:
  assumes ok: "schema_ok d"
  shows "schema_ok (delete_file_row i d)"
proof -
  have f: "files_ok (delete_where (\<lambda>f. f_id f = i) (files d))"
    using schema_okD(4) [OF ok] by (simp add: files_ok_def distinct_map_delete_where)
  have keep: "x \<noteq> i \<Longrightarrow> x \<in> f_id ` set (files d) \<Longrightarrow> x \<in> f_id ` set (delete_where (\<lambda>f. f_id f = i) (files d))" for x
    by (auto simp: table_simps)
  note dd = distinct_map_delete_where table_simps
  show ?thesis
    unfolding schema_ok_def delete_file_row_def
  proof (intro conjI, goal_cases)
    case 4 show ?case using f by simp
  next
    case 5 show ?case using schema_okD(5) [OF ok] keep by (simp add: file_references_ok_def dd)
  next
    case 6 show ?case using schema_okD(6) [OF ok] keep by (simp add: file_locations_ok_def dd)
  next
    case 7 show ?case using schema_okD(7) [OF ok] keep by (auto simp: sync_tasks_ok_def dd)
  next
    case 13 show ?case using schema_okD(13) [OF ok] keep by (simp add: shared_links_ok_def dd)
  next
    case 15 show ?case using schema_okD(15) [OF ok] keep by (auto simp: access_events_ok_def dd)
  qed (use schema_okD [OF ok] in simp_all)
qed

lemma file_reference_create_schema [schema_intros]:
  "schema_ok d \<Longrightarrow> schema_ok (snd (file_reference_create input d))"
  using schema_okD(5) [of d]
  by (simp add: file_reference_create_def Let_def schema_ok_set_leaf(2) [of "draw d", simplified] file_references_ok_def)

lemma file_location_create_schema [schema_intros]:
  "schema_ok d \<Longrightarrow> schema_ok (snd (file_location_create input d))"
  using schema_okD(6) [of d]
  by (simp add: file_location_create_def Let_def schema_ok_set_leaf(3) [of "draw d", simplified] file_locations_ok_def)

lemma file_locations_ok_update:
  assumes "file_locations_ok fs ss ls"
    and "\<And>l. l_id (f l) = l_id l" "\<And>l. l_file_id (f l) = l_file_id l" "\<And>l. l_storage_id (f l) = l_storage_id l"
  shows "file_locations_ok fs ss (update_where P f ls)"
  using assms by (auto simp: file_locations_ok_def map_update_where table_simps)

lemma set_location_status_keys [simp]:
  "l_id (set_location_status st t l) = l_id l" "l_file_id (set_location_status st t l) = l_file_id l"
  "l_storage_id (set_location_status st t l) = l_storage_id l"
  "l_storage_path (set_location_status st t l) = l_storage_path l"
  "l_status (set_location_status st t l) = st"
  by (simp_all add: set_location_status_def)

lemma file_location_update_status_schema [schema_intros]:
  "schema_ok d \<Longrightarrow> schema_ok (snd (file_location_update_status i st d))"
  by (simp add: file_location_update_status_def schema_ok_set_leaf(3) file_locations_ok_update schema_okD
      split: option.split)

lemma file_location_update_status_by_schema [schema_intros]:
  "schema_ok d \<Longrightarrow> schema_ok (snd (file_location_update_status_by_file_and_storage f s st d))"
  by (simp add: file_location_update_status_by_file_and_storage_def schema_ok_set_leaf(3)
      file_locations_ok_update schema_okD split: option.split)

lemma file_location_touch_accessed_schema [schema_intros]:
  "schema_ok d \<Longrightarrow> schema_ok (snd (file_location_touch_accessed i d))"
  by (simp add: file_location_touch_accessed_def schema_ok_set_leaf(3) file_locations_ok_update schema_okD)

lemma file_reference_deletes_schema [schema_intros]:
  "schema_ok d \<Longrightarrow> schema_ok (d\<lparr>file_references := delete_where P (file_references d)\<rparr>)"
  using schema_okD(5) [of d]
  by (simp add: schema_ok_set_leaf(2) file_references_ok_def distinct_map_delete_where table_simps)

section \<open>Files and locations\<close>

lemma file_find_by_hash_Some:
  "file_find_by_hash h d = Some f \<Longrightarrow> f \<in> set (files d) \<and> f_hash f = h"
  using find_Some_in_set by (fastforce simp: file_find_by_hash_def)

lemma file_find_by_hash_None: "file_find_by_hash h d = None \<longleftrightarrow> h \<notin> f_hash ` set (files d)"
  by (auto simp: file_find_by_hash_def find_None_all)

lemma file_create_or_find_cases:
  assumes "file_create_or_find input d = (Inr (f, is_new), d')"
  obtains (old) "\<not> is_new" "f \<in> set (files d)" "f_hash f = cf_hash input" "d' = d"
  | (new) "is_new" "f_id f = fresh_id d" "f_hash f = cf_hash input" "f_size f = cf_size input"
      "f_content_type f = cf_content_type input" "fresh_id d \<notin> f_id ` set (files d)"
      "cf_hash input \<notin> f_hash ` set (files d)" "d' = (draw d)\<lparr>files := files d @ [f]\<rparr>"
proof (cases "file_find_by_hash (cf_hash input) d")
  case (Some e)
  with assms have "\<not> is_new" "f = e" "d' = d" by (auto simp: file_create_or_find_def)
  with Some show ?thesis by (metis old file_find_by_hash_Some)
next
  case None
  then have h: "cf_hash input \<notin> f_hash ` set (files d)" by (simp add: file_find_by_hash_None)
  show ?thesis
  proof (cases "fresh_id d \<in> f_id ` set (files d)")
    case True
    have "file_find_by_hash (cf_hash input) (draw d) = None" using None by (simp add: file_find_by_hash_def)
    with None True assms show ?thesis by (simp add: file_create_or_find_def file_create_def Let_def)
  next
    case False
    with None h assms show ?thesis by (intro new) (auto simp: file_create_or_find_def file_create_def Let_def)
  qed
qed

text \<open>
  deduplication. Creating a file succeeds unless the identifier collides; the row it returns
  has the requested hash; a second request with the same hash returns the very same row and reports
  it as not new, so there is never more than one row per hash.
\<close>

theorem file_create_or_find_idempotent:
  assumes "schema_ok d" and "supply_fresh d (f_id ` set (files d))"
    and "cf_hash input' = cf_hash input"
  shows "\<exists>f is_new d'. file_create_or_find input d = (Inr (f, is_new), d') \<and>
     f_hash f = cf_hash input \<and> (is_new \<longleftrightarrow> cf_hash input \<notin> f_hash ` set (files d)) \<and>
     filter (\<lambda>g. f_hash g = cf_hash input) (files d') = [f] \<and>
     file_create_or_find input' d' = (Inr (f, False), d')"
proof -
  show ?thesis
  proof (cases "file_find_by_hash (cf_hash input) d")
    case (Some e)
    then have "e \<in> set (files d)" "f_hash e = cf_hash input" using file_find_by_hash_Some by auto
    moreover from this have "filter (\<lambda>g. f_hash g = f_hash e) (files d) = [e]"
      using schema_okD(4) [OF assms(1)] by (intro filter_by_key) (simp_all add: files_ok_def)
    moreover from calculation have "cf_hash input \<in> f_hash ` set (files d)" by (metis imageI)
    ultimately show ?thesis
      using Some assms(3) by (intro exI [of _ e] exI [of _ False] exI [of _ d]) (auto simp: file_create_or_find_def)
  next
    case None
    then have h: "cf_hash input \<notin> f_hash ` set (files d)" by (simp add: file_find_by_hash_None)
    moreover have "fresh_id d \<notin> f_id ` set (files d)" using assms(2) by (rule supply_fresh_notin)
    moreover have "filter (\<lambda>g. f_hash g = cf_hash input) (files d) = []"
      using h by (auto simp: filter_empty_conv intro: image_memI)
    moreover have "find (\<lambda>f. f_hash f = cf_hash input) (files d) = None"
      using h by (auto simp: find_None_all intro: image_memI)
    ultimately show ?thesis
      using None assms(3)
      by (simp add: file_create_or_find_def file_create_def Let_def file_find_by_hash_def find_append) blast
  qed
qed

theorem file_create_or_find_idempotent_witness:
  "\<exists>f is_new d'. file_create_or_find \<lparr>cf_hash = ''ab'', cf_size = 3, cf_content_type = ''t''\<rparr> demo_db =
       (Inr (f, is_new), d') \<and> f_hash f = ''ab'' \<and> is_new \<and>
     file_create_or_find \<lparr>cf_hash = ''ab'', cf_size = 3, cf_content_type = ''u''\<rparr> d' = (Inr (f, False), d')"
proof -
  have "supply_fresh demo_db (f_id ` set (files demo_db))" by (rule supply_fresh_demo) (auto simp: demo_defs)
  with file_create_or_find_idempotent [OF schema_ok_demo, of
      "\<lparr>cf_hash = ''ab'', cf_size = 3, cf_content_type = ''u''\<rparr>" "\<lparr>cf_hash = ''ab'', cf_size = 3, cf_content_type = ''t''\<rparr>"]
  show ?thesis by (fastforce simp: demo_defs)
qed

lemma location_enabled_iff:
  assumes "storages_ok ps (storages d)"
  shows "location_enabled d l \<longleftrightarrow> (\<exists>s \<in> set (storages d). s_id s = l_storage_id l \<and> s_enabled s)"
  using assms
  by (auto simp: location_enabled_def location_storage_def find_None_all storages_ok_def
      dest!: find_Some_in_set split: option.splits dest: distinct_key_unique)

text \<open>
  the locations a download may use are exactly the file's synced copies on enabled storages,
  and no cold copy is tried before a hot one.
\<close>

theorem find_for_file_exact:
  assumes "schema_ok d"
  shows "(l \<in> set (file_location_find_for_file fid d) \<longleftrightarrow>
      l \<in> set (file_locations d) \<and> l_file_id l = fid \<and> l_status l = ''synced'' \<and>
      (\<exists>s \<in> set (storages d). s_id s = l_storage_id l \<and> s_enabled s)) \<and>
    sorted (map (\<lambda>l. - bool_int (location_is_hot d l)) (file_location_find_for_file fid d))"
proof -
  have "sorted (map (\<lambda>l. - bool_int (location_is_hot d l)) (file_location_find_for_file fid d))"
    unfolding file_location_find_for_file_def by (rule sorted_order_desc)
  then show ?thesis
    using location_enabled_iff [OF schema_okD(2) [OF assms]] by (auto simp: file_location_find_for_file_def)
qed

theorem find_for_file_exact_witness:
  "demo_location \<in> set (file_location_find_for_file 7 demo_db)"
  using find_for_file_exact [OF schema_ok_demo, of demo_location 7] by (simp add: demo_defs)

end
