(* ===== verification/Local_Disk.thy ===== *)
theory Local_Disk
  imports Errors
begin

text \<open>
  The local disk backend (\<open>src/storage/local.rs\<close>), the trait it implements
  (\<open>src/storage/traits.rs\<close>) as a locale, and the constant-time comparison of \<open>src/lib.rs\<close>.

  A file system is an association list from paths, which are lists of components, to nodes;
  permissions, symbolic links and full disks are not modelled. \<open>create_dir_all\<close> and \<open>write\<close> fail
  where a file stands in the place of a directory or the reverse. The keyed hash is the parameter
  \<open>hmac\<close> and the URL encoding of a path the parameter \<open>urlenc\<close>.

  Shown: an accepted path resolves to a place below the base directory, the backend is a blob store
  in the sense of the trait (what was uploaded is what a download returns, other paths are not
  affected), a signed URL is accepted until it expires, and the comparison of signatures is equality.
\<close>

section \<open>Bytes of strings\<close>

definition str_bytes :: "string \<Rightarrow> bytes" where
  "str_bytes s = map (\<lambda>c. word_of_nat (of_char c)) s"

definition hex_encode :: "bytes \<Rightarrow> string" where
  "hex_encode bs = concat (map (\<lambda>b. hex_digits 2 (unat b)) bs)"

text \<open>\<open>constant_time_eq\<close> of \<open>src/lib.rs\<close>; the loop accumulates the differing bits.\<close>

definition constant_time_eq :: "bytes \<Rightarrow> bytes \<Rightarrow> bool" where
  "constant_time_eq a b =
     (if length a \<noteq> length b then False
      else fold (\<lambda>(x, y) diff. or diff (xor x y)) (zip a b) 0 = 0)"

lemma fold_or_zero_iff:
  "fold (\<lambda>(x, y) diff. or diff (xor x y)) ps acc = (0 :: 'a::len word) \<longleftrightarrow>
     acc = 0 \<and> (\<forall>(x, y) \<in> set ps. x = y)"
proof (induction ps arbitrary: acc)
  case (Cons p ps)
  have "or acc (xor (fst p) (snd p)) = 0 \<longleftrightarrow> acc = 0 \<and> fst p = snd p"
    by (simp add: bit_eq_iff bit_simps) blast
  with Cons show ?case by (auto simp: split_beta)
qed simp

lemma constant_time_eq_iff: "constant_time_eq a b \<longleftrightarrow> a = b"
proof (cases "length a = length b")
  case True
  then have "(\<forall>(x, y) \<in> set (zip a b). x = y) \<longleftrightarrow> a = b"
    by (induction a b rule: list_induct2) auto
  with True show ?thesis by (simp add: constant_time_eq_def fold_or_zero_iff)
qed (auto simp: constant_time_eq_def)

section \<open>The file system\<close>

type_synonym path = "string list"

datatype fs_node = Dir | Contents bytes

type_synonym fs = "(path \<times> fs_node) list"

text \<open>\<open>Path\<close> components: empty components and \<open>.\<close> vanish.\<close>

definition components :: "string \<Rightarrow> path" where
  "components s = filter (\<lambda>c. c \<noteq> [] \<and> c \<noteq> ''.'') (split_on (CHR ''/'') s)"

definition fs_put :: "path \<Rightarrow> fs_node \<Rightarrow> fs \<Rightarrow> fs" where
  "fs_put p n f = (p, n) # filter (\<lambda>x. fst x \<noteq> p) f"

definition fs_del :: "path \<Rightarrow> fs \<Rightarrow> fs" where
  "fs_del p f = filter (\<lambda>x. fst x \<noteq> p) f"

text \<open>\<open>create_dir_all\<close>: every prefix of the path becomes a directory unless a file is in the way.\<close>

fun mkdirs :: "path \<Rightarrow> path \<Rightarrow> fs \<Rightarrow> fs option" where
  "mkdirs done [] f = Some f"
| "mkdirs done (c # cs) f =
     (let p = done @ [c] in
      case map_of f p of
        Some (Contents _) \<Rightarrow> None
      | Some Dir \<Rightarrow> mkdirs p cs f
      | None \<Rightarrow> mkdirs p cs (fs_put p Dir f))"

definition create_dir_all :: "path \<Rightarrow> fs \<Rightarrow> fs option" where
  "create_dir_all p f = mkdirs [] p f"

definition fs_write :: "path \<Rightarrow> bytes \<Rightarrow> fs \<Rightarrow> fs option" where
  "fs_write p data f = (if p = [] \<or> map_of f p = Some Dir then None else Some (fs_put p (Contents data) f))"

definition fs_read :: "path \<Rightarrow> fs \<Rightarrow> bytes option" where
  "fs_read p f = (case map_of f p of Some (Contents x) \<Rightarrow> Some x | _ \<Rightarrow> None)"

definition fs_exists :: "path \<Rightarrow> fs \<Rightarrow> bool" where
  "fs_exists p f \<longleftrightarrow> p = [] \<or> map_of f p \<noteq> None"

text \<open>\<open>remove_dir\<close> fails unless the path is an empty directory.\<close>

definition remove_dir :: "path \<Rightarrow> fs \<Rightarrow> fs option" where
  "remove_dir p f =
     (if map_of f p = Some Dir \<and> \<not> list_ex (\<lambda>x. strict_prefix p (fst x)) f then Some (fs_del p f) else None)"

section \<open>LocalDiskBackend\<close>

record local_backend =
  lb_base :: string
  lb_hmac_secret :: string

definition validate_path :: "string \<Rightarrow> unit app_result" where
  "validate_path path =
     (if path = [] \<or> contains_str ''..'' path \<or> prefix ''/'' path \<or> prefix [CHR 0x5C] path \<or>
         CHR 0x00 \<in> set path \<or> CHR '':'' \<in> set path
      then Inl (BadRequest (''Invalid storage path: '' @ path))
      else Inr ())"

definition resolve_path :: "local_backend \<Rightarrow> string \<Rightarrow> path app_result" where
  "resolve_path b path =
     (case validate_path path of
        Inl e \<Rightarrow> Inl e
      | Inr _ \<Rightarrow>
         (if list_all is_ascii_hexdigit path \<and> 4 \<le> length path
          then Inr (components (lb_base b) @ components (take 2 path) @ components (take 2 (drop 2 path)) @ components path)
          else Inr (components (lb_base b) @ components path)))"

definition sign_token :: "(bytes \<Rightarrow> bytes \<Rightarrow> bytes) \<Rightarrow> local_backend \<Rightarrow> string \<Rightarrow> nat \<Rightarrow> string" where
  "sign_token hmac b path expires_at =
     hex_encode (hmac (str_bytes (lb_hmac_secret b)) (str_bytes (path @ '':'' @ nat_str expires_at)))"

definition verify_temp_url ::
    "(bytes \<Rightarrow> bytes \<Rightarrow> bytes) \<Rightarrow> local_backend \<Rightarrow> nat \<Rightarrow> string \<Rightarrow> nat \<Rightarrow> string \<Rightarrow> bool" where
  "verify_temp_url hmac b now_secs path expires_at signature =
     (if expires_at < now_secs then False
      else constant_time_eq (str_bytes (sign_token hmac b path expires_at)) (str_bytes signature))"

definition local_upload :: "local_backend \<Rightarrow> string \<Rightarrow> bytes \<Rightarrow> fs \<Rightarrow> unit app_result \<times> fs" where
  "local_upload b path data f =
     (case resolve_path b path of
        Inl e \<Rightarrow> (Inl e, f)
      | Inr file_path \<Rightarrow>
         (case create_dir_all (butlast file_path) f of
            None \<Rightarrow> (Inl (Io ''create_dir_all''), f)
          | Some f1 \<Rightarrow>
             (case fs_write file_path data f1 of
                None \<Rightarrow> (Inl (Io ''write''), f1)
              | Some f2 \<Rightarrow> (Inr (), f2))))"

text \<open>
  \<open>upload_from_file\<close>: the source is renamed into place, or copied and removed when the rename fails
  (\<open>rename_ok\<close> is false); either way the source is gone and the target holds its contents.
\<close>

definition local_upload_from_file :: "bool \<Rightarrow> local_backend \<Rightarrow> string \<Rightarrow> path \<Rightarrow> fs \<Rightarrow> unit app_result \<times> fs" where
  "local_upload_from_file rename_ok b path src f =
     (case resolve_path b path of
        Inl e \<Rightarrow> (Inl e, f)
      | Inr file_path \<Rightarrow>
         (case create_dir_all (butlast file_path) f of
            None \<Rightarrow> (Inl (Io ''create_dir_all''), f)
          | Some f1 \<Rightarrow>
             (case fs_read src f1 of
                None \<Rightarrow> (Inl (Internal ''Failed to copy temp file into storage''), f1)
              | Some data \<Rightarrow>
                 (case (if rename_ok then fs_write file_path data (fs_del src f1) else None) of
                    Some f2 \<Rightarrow> (Inr (), f2)
                  | None \<Rightarrow>
                     (case fs_write file_path data f1 of
                        None \<Rightarrow> (Inl (Internal ''Failed to copy temp file into storage''), f1)
                      | Some f2 \<Rightarrow> (Inr (), fs_del src f2))))))"

definition local_download :: "local_backend \<Rightarrow> string \<Rightarrow> fs \<Rightarrow> bytes app_result" where
  "local_download b path f =
     (case resolve_path b path of
        Inl e \<Rightarrow> Inl e
      | Inr file_path \<Rightarrow>
         (if \<not> fs_exists file_path f
          then Inl (NotFound (''File not found in local storage: '' @ path))
          else ok_or (Io ''read'') (fs_read file_path f)))"

definition local_download_to_file :: "local_backend \<Rightarrow> string \<Rightarrow> path \<Rightarrow> fs \<Rightarrow> unit app_result \<times> fs" where
  "local_download_to_file b path dst f =
     (case resolve_path b path of
        Inl e \<Rightarrow> (Inl e, f)
      | Inr src \<Rightarrow>
         (if \<not> fs_exists src f
          then (Inl (NotFound (''File not found in local storage: '' @ path)), f)
          else (case create_dir_all (butlast dst) f of
                  None \<Rightarrow> (Inl (Io ''create_dir_all''), f)
                | Some f1 \<Rightarrow>
                   (case (case fs_read src f1 of None \<Rightarrow> None | Some data \<Rightarrow> fs_write dst data f1) of
                      None \<Rightarrow> (Inl (Internal ''Failed to copy''), f1)
                    | Some f2 \<Rightarrow> (Inr (), f2)))))"

fun cleanup_empty_parents :: "nat \<Rightarrow> path \<Rightarrow> path \<Rightarrow> fs \<Rightarrow> fs" where
  "cleanup_empty_parents 0 dir base f = f"
| "cleanup_empty_parents (Suc n) dir base f =
     (if dir = base then f
      else (case remove_dir dir f of
              None \<Rightarrow> f
            | Some f1 \<Rightarrow> cleanup_empty_parents n (butlast dir) base f1))"

text \<open>The loop climbs one component at a time, so the length of the path bounds it.\<close>

definition local_delete :: "local_backend \<Rightarrow> string \<Rightarrow> fs \<Rightarrow> unit app_result \<times> fs" where
  "local_delete b path f =
     (case resolve_path b path of
        Inl e \<Rightarrow> (Inl e, f)
      | Inr file_path \<Rightarrow>
         (if fs_exists file_path f
          then (case fs_read file_path f of
                  None \<Rightarrow> (Inl (Io ''remove_file''), f)
                | Some _ \<Rightarrow> (Inr (), cleanup_empty_parents (length file_path) (butlast file_path)
                                (components (lb_base b)) (fs_del file_path f)))
          else (Inr (), f)))"

definition local_exists :: "local_backend \<Rightarrow> string \<Rightarrow> fs \<Rightarrow> bool app_result" where
  "local_exists b path f =
     (case resolve_path b path of Inl e \<Rightarrow> Inl e | Inr file_path \<Rightarrow> Inr (fs_exists file_path f))"

definition local_generate_temp_url ::
    "(bytes \<Rightarrow> bytes \<Rightarrow> bytes) \<Rightarrow> (string \<Rightarrow> string) \<Rightarrow> local_backend \<Rightarrow> nat \<Rightarrow> string \<Rightarrow> nat \<Rightarrow> string" where
  "local_generate_temp_url hmac urlenc b now_secs path expires_in =
     (let expires_at = now_secs + expires_in
      in ''/download/local?path='' @ urlenc path @ ''&expires='' @ nat_str expires_at @
         ''&sig='' @ sign_token hmac b path expires_at)"

definition local_list :: "local_backend \<Rightarrow> string \<Rightarrow> fs \<Rightarrow> string list app_result" where
  "local_list b pre f =
     (let base = components (lb_base b);
          search_dir = (if pre = [] then base
                        else if 4 \<le> length pre
                        then base @ components (take 2 pre) @ components (take 2 (drop 2 pre))
                        else if 2 \<le> length pre then base @ components (take 2 pre)
                        else base)
      in if \<not> fs_exists search_dir f then Inr []
         else if fs_read search_dir f \<noteq> None then Inl (Io ''read_dir'')
         else Inr (filter (\<lambda>name. pre = [] \<or> prefix pre name)
                (map (\<lambda>x. last (fst x))
                   (filter (\<lambda>x. strict_prefix search_dir (fst x) \<and> snd x \<noteq> Dir) f))))"

section \<open>Paths stay below the base directory\<close>

lemma split_on_not_Nil [simp]: "split_on c s \<noteq> []"
  by (induction s) (auto split: list.splits)

lemma split_on_append_sep: "split_on c (a @ c # b) = split_on c a @ split_on c b"
  by (induction a) (auto split: list.splits)

lemma split_on_no_sep: "c \<notin> set s \<Longrightarrow> split_on c s = [s]"
  by (induction s) auto

lemma components_slash: "components (a @ ''/'' @ b) = components a @ components b"
  using split_on_append_sep [of "CHR ''/''" a b] by (simp add: components_def)

lemma components_slashes [simp]: "components (replicate n (CHR ''/'')) = []"
  by (induction n) (simp_all add: components_def)

lemma components_trim_end [simp]: "components (trim_end_matches (CHR ''/'') a) = components a"
proof -
  obtain n where n: "a = trim_end_matches (CHR ''/'') a @ replicate n (CHR ''/'')" using trim_end_matches_decomp by blast
  show ?thesis
  proof (cases n)
    case 0
    with n show ?thesis by simp
  next
    case (Suc m)
    then have "a = trim_end_matches (CHR ''/'') a @ ''/'' @ replicate m (CHR ''/'')" using n by simp
    then have "components a = components (trim_end_matches (CHR ''/'') a) @ components (replicate m (CHR ''/''))"
      using components_slash by metis
    then show ?thesis by simp
  qed
qed

lemma split_on_hd_prefix: "prefix (hd (split_on c s)) s"
  by (induction s) (auto split: list.splits)

lemma split_on_substring: "p \<in> set (split_on c s) \<Longrightarrow> \<exists>xs ys. s = xs @ p @ ys"
proof (induction s arbitrary: p)
  case (Cons x xs)
  obtain y ys where sp: "split_on c xs = y # ys" by (cases "split_on c xs") auto
  show ?case
  proof (cases "x = c")
    case True
    with Cons.prems consider "p = []" | "p \<in> set (split_on c xs)" by auto
    then show ?thesis
    proof cases
      case 2
      with Cons.IH obtain us vs where "xs = us @ p @ vs" by blast
      then show ?thesis by (metis append_Cons)
    qed auto
  next
    case False
    from split_on_hd_prefix [of c xs] sp obtain zs where y: "xs = y @ zs" by (auto simp: prefix_def)
    from Cons.prems False sp consider "p = x # y" | "p \<in> set (split_on c xs)" by auto
    then show ?thesis
    proof cases
      case 1
      then show ?thesis using y by (metis append_Cons append_Nil)
    next
      case 2
      with Cons.IH obtain us vs where "xs = us @ p @ vs" by blast
      then show ?thesis by (metis append_Cons)
    qed
  qed
qed simp

lemma components_no_dotdot:
  assumes "\<not> contains_str ''..'' s"
  shows "''..'' \<notin> set (components s)"
proof
  assume "''..'' \<in> set (components s)"
  then have "''..'' \<in> set (split_on (CHR ''/'') s)" by (simp add: components_def)
  from split_on_substring [OF this] assms show False by (auto simp: contains_str_iff)
qed

lemma not_contains_take_drop: "\<not> contains_str p s \<Longrightarrow> \<not> contains_str p (take n (drop m s))"
  by (metis append_assoc append_take_drop_id contains_str_iff)

text \<open>
  no path escapes. Every storage path the backend accepts resolves to the base directory followed
  by components none of which is the parent directory, and a path that names a parent directory, is
  absolute, or contains a NUL byte or a colon is refused.
\<close>

theorem resolve_path_below_base:
  "(\<forall>p. resolve_path b path = Inr p \<longrightarrow>
      (\<exists>rest. p = components (lb_base b) @ rest \<and> ''..'' \<notin> set rest \<and> [] \<notin> set rest)) \<and>
   (resolve_path b path = Inl (BadRequest (''Invalid storage path: '' @ path)) \<longleftrightarrow>
      path = [] \<or> contains_str ''..'' path \<or> prefix ''/'' path \<or> prefix [CHR 0x5C] path \<or>
      CHR 0x00 \<in> set path \<or> CHR '':'' \<in> set path)"
proof -
  have ne: "[] \<notin> set (components s)" for s by (simp add: components_def)
  have nd: "''..'' \<notin> set (components path)" "''..'' \<notin> set (components (take n (drop m path)))"
    "''..'' \<notin> set (components (take n path))"
    if "validate_path path = Inr ()" for n m
  proof -
    from that have "\<not> contains_str ''..'' path" by (auto simp: validate_path_def split: if_splits)
    then show "''..'' \<notin> set (components path)" "''..'' \<notin> set (components (take n (drop m path)))"
      "''..'' \<notin> set (components (take n path))"
      using not_contains_take_drop [of "''..''" path n 0] not_contains_take_drop
      by (simp_all add: components_no_dotdot)
  qed
  show ?thesis
  proof (intro conjI allI impI)
    fix p assume r: "resolve_path b path = Inr p"
    then have v: "validate_path path = Inr ()" by (auto simp: resolve_path_def split: sum.splits)
    from r v nd [OF v] ne show "\<exists>rest. p = components (lb_base b) @ rest \<and> ''..'' \<notin> set rest \<and> [] \<notin> set rest"
      by (auto simp: resolve_path_def split: if_splits)
  qed (auto simp: resolve_path_def validate_path_def)
qed

theorem resolve_path_below_base_witness:
  "\<exists>rest. components ''/data/pics'' @ [''ab'', ''cd'', ''abcdef''] = components ''/data/pics'' @ rest \<and> ''..'' \<notin> set rest"
  using resolve_path_below_base [of "\<lparr>lb_base = ''/data/pics'', lb_hmac_secret = []\<rparr>" "''ab/cd/abcdef''"]
  by (simp add: resolve_path_def validate_path_def components_def is_ascii_hexdigit_def)

section \<open>The contract of a storage backend\<close>

text \<open>
  What the services rely on when they hold a \<open>StorageBackend\<close>. Two logical paths may name the same
  object; \<open>place\<close> says which object a path names.
\<close>

locale blob_store =
  fixes upload :: "'k \<Rightarrow> 'v \<Rightarrow> 's \<Rightarrow> ('e + unit) \<times> 's"
    and download :: "'k \<Rightarrow> 's \<Rightarrow> 'e + 'v"
    and delete :: "'k \<Rightarrow> 's \<Rightarrow> ('e + unit) \<times> 's"
    and place :: "'k \<Rightarrow> 'p"
  assumes read_after_write: "upload k v s = (Inr (), s') \<Longrightarrow> download k s' = Inr v"
    and upload_frame: "upload k v s = (r, s') \<Longrightarrow> place k' \<noteq> place k \<Longrightarrow> download k' s = Inr v' \<Longrightarrow> download k' s' = Inr v'"
    and same_place: "place k' = place k \<Longrightarrow> download k s = Inr v \<Longrightarrow> download k' s = Inr v"
    and delete_gone: "delete k s = (Inr (), s') \<Longrightarrow> \<nexists>v. download k s' = Inr v"
    and delete_frame: "delete k s = (r, s') \<Longrightarrow> place k' \<noteq> place k \<Longrightarrow> download k' s = Inr v' \<Longrightarrow> download k' s' = Inr v'"
begin

text \<open>Uploading the same contents again loses nothing: every object can still be read.\<close>

lemma upload_idempotent:
  assumes "upload k v s = (Inr (), s')" and "download k s = Inr v" and "download k' s = Inr v'"
  shows "download k' s' = Inr v'"
proof (cases "place k' = place k")
  case True
  then have "download k' s = Inr v" using assms(2) by (rule same_place)
  with assms(3) have "v' = v" by simp
  moreover have "download k s' = Inr v" using assms(1) by (rule read_after_write)
  ultimately show ?thesis using True same_place by blast
qed (use assms upload_frame in blast)

lemma upload_then_delete:
  assumes "upload k v s = (Inr (), s1)" and "delete k s1 = (Inr (), s2)"
    and "place k' \<noteq> place k" and "download k' s = Inr v'"
  shows "download k' s2 = Inr v'"
  using assms by (metis upload_frame delete_frame)

end

section \<open>The local disk keeps the contract\<close>

lemma map_of_fs_put [simp]: "map_of (fs_put p n f) = (map_of f)(p \<mapsto> n)"
proof -
  have "map_of (filter (\<lambda>x. fst x \<noteq> p) f) q = (if q = p then None else map_of f q)" for q
    by (induction f) auto
  then show ?thesis by (auto simp: fs_put_def fun_eq_iff)
qed

lemma map_of_fs_del [simp]: "map_of (fs_del p f) = (map_of f)(p := None)"
proof -
  have "map_of (filter (\<lambda>x. fst x \<noteq> p) f) q = (if q = p then None else map_of f q)" for q
    by (induction f) auto
  then show ?thesis by (auto simp: fs_del_def fun_eq_iff)
qed

lemma fs_read_Some: "fs_read p f = Some x \<longleftrightarrow> map_of f p = Some (Contents x)"
  by (auto simp: fs_read_def split: option.splits fs_node.splits)

lemma mkdirs_keeps:
  "mkdirs pre cs f = Some f' \<Longrightarrow> fs_read p f = Some x \<Longrightarrow> fs_read p f' = Some x"
proof (induction pre cs f rule: mkdirs.induct)
  case (2 pre c cs f)
  show ?case
  proof (cases "map_of f (pre @ [c])")
    case None
    then have "fs_read p (fs_put (pre @ [c]) Dir f) = Some x" using "2.prems"(2) by (auto simp: fs_read_Some)
    with None "2.IH"(1) "2.prems"(1) show ?thesis by (simp add: Let_def)
  next
    case (Some n)
    with "2.IH"(2) "2.prems" show ?thesis by (cases n) (simp_all add: Let_def)
  qed
qed simp

lemma fs_write_read:
  "fs_write p x f = Some f' \<Longrightarrow> fs_read q f' = (if q = p then Some x else fs_read q f)"
  by (auto simp: fs_write_def fs_read_def split: if_splits)

lemma cleanup_keeps: "fs_read p (cleanup_empty_parents n dir base f) = fs_read p f"
proof (induction n dir base f rule: cleanup_empty_parents.induct)
  case (2 n dir base f)
  have "remove_dir dir f = Some f1 \<Longrightarrow> fs_read p f1 = fs_read p f" for f1
    by (auto simp: remove_dir_def fs_read_def split: if_splits)
  with 2 show ?case by (auto split: option.splits)
qed simp

lemma local_download_Inr:
  "local_download b k f = Inr x \<longleftrightarrow> (\<exists>p. resolve_path b k = Inr p \<and> fs_read p f = Some x)"
  by (auto simp: local_download_def fs_exists_def fs_read_def split: sum.splits option.splits fs_node.splits)

lemma fs_read_fs_del [simp]: "fs_read p (fs_del q f) = (if p = q then None else fs_read p f)"
  by (simp add: fs_read_def)

text \<open>The two ways an upload ends: the target holds the data, or nothing readable has changed.\<close>

lemma local_upload_cases:
  assumes "local_upload b k x f = (r, f')"
  obtains (stored) p f1 where "r = Inr ()" "resolve_path b k = Inr p" "create_dir_all (butlast p) f = Some f1"
      "fs_write p x f1 = Some f'"
  | (refused) e where "r = Inl e" "\<And>q y. fs_read q f = Some y \<Longrightarrow> fs_read q f' = Some y"
proof (cases "resolve_path b k")
  case (Inl e)
  with assms show ?thesis by (auto simp: local_upload_def intro: refused)
next
  case (Inr p)
  show ?thesis
  proof (cases "create_dir_all (butlast p) f")
    case None
    with Inr assms show ?thesis by (auto simp: local_upload_def intro: refused)
  next
    case (Some f1)
    note keep = mkdirs_keeps [OF Some [unfolded create_dir_all_def]]
    show ?thesis
    proof (cases "fs_write p x f1")
      case None
      with Inr Some assms keep show ?thesis by (auto simp: local_upload_def intro: refused)
    next
      case (Some f2)
      with Inr \<open>create_dir_all (butlast p) f = Some f1\<close> assms show ?thesis
        by (auto simp: local_upload_def intro: stored)
    qed
  qed
qed

lemma local_upload_frame:
  assumes "local_upload b k x f = (r, f')" and "fs_read p f = Some y" and "resolve_path b k \<noteq> Inr p"
  shows "fs_read p f' = Some y"
  using assms(1)
proof (cases rule: local_upload_cases)
  case (stored q f1)
  with assms(3) have "q \<noteq> p" by auto
  moreover have "fs_read p f1 = Some y"
    using stored(3) assms(2) unfolding create_dir_all_def by (rule mkdirs_keeps)
  ultimately show ?thesis using fs_write_read [OF stored(4)] by auto
qed (use assms(2) in blast)

lemma local_delete_read:
  assumes "local_delete b k f = (r, f')"
  shows "fs_read p f' = (if r = Inr () \<and> resolve_path b k = Inr p then None else fs_read p f)"
proof (cases "resolve_path b k")
  case (Inr q)
  show ?thesis
  proof (cases "fs_exists q f")
    case True
    with Inr assms show ?thesis
      by (cases "fs_read q f") (auto simp: local_delete_def cleanup_keeps)
  next
    case False
    then have "fs_read q f = None" by (simp add: fs_exists_def fs_read_def)
    with Inr False assms show ?thesis by (auto simp: local_delete_def)
  qed
qed (use assms in \<open>auto simp: local_delete_def\<close>)

interpretation local_disk: blob_store "local_upload b" "local_download b" "local_delete b" "resolve_path b" for b
proof
  fix k v s s' assume "local_upload b k v s = (Inr (), s')"
  then show "local_download b k s' = Inr v"
    by (cases rule: local_upload_cases) (auto simp: local_download_Inr fs_write_read)
next
  fix k v s r s' k' v'
  assume "local_upload b k v s = (r, s')" "resolve_path b k' \<noteq> resolve_path b k" "local_download b k' s = Inr v'"
  then show "local_download b k' s' = Inr v'" by (metis local_download_Inr local_upload_frame)
next
  fix k' k s v
  assume "resolve_path b k' = resolve_path b k" "local_download b k s = Inr v"
  then show "local_download b k' s = Inr v" by (auto simp: local_download_Inr)
next
  fix k s s' assume "local_delete b k s = (Inr (), s')"
  from local_delete_read [OF this] show "\<nexists>v. local_download b k s' = Inr v"
    by (auto simp: local_download_Inr)
next
  fix k s r s' k' v'
  assume "local_delete b k s = (r, s')" and ne: "resolve_path b k' \<noteq> resolve_path b k"
    and "local_download b k' s = Inr v'"
  then obtain p where "resolve_path b k' = Inr p" "fs_read p s = Some v'" by (auto simp: local_download_Inr)
  with local_delete_read [OF \<open>local_delete b k s = (r, s')\<close>] ne
  show "local_download b k' s' = Inr v'" by (auto simp: local_download_Inr)
qed

text \<open>
  C28: the local disk stores what it is given. After a successful upload a download of the same path
  returns exactly the uploaded bytes, and every other object that could be read before still can; a
  successful delete removes that object and no other, its clean-up of empty directories included.
\<close>

theorem local_disk_roundtrip:
  assumes "local_upload b k x f = (Inr (), f1)"
  shows "local_download b k f1 = Inr x \<and>
    (\<forall>k' y. resolve_path b k' \<noteq> resolve_path b k \<and> local_download b k' f = Inr y \<longrightarrow> local_download b k' f1 = Inr y) \<and>
    (\<forall>f2. local_delete b k f1 = (Inr (), f2) \<longrightarrow>
       (\<nexists>y. local_download b k f2 = Inr y) \<and>
       (\<forall>k' y. resolve_path b k' \<noteq> resolve_path b k \<and> local_download b k' f = Inr y \<longrightarrow> local_download b k' f2 = Inr y))"
  using local_disk.read_after_write [OF assms] local_disk.upload_frame [OF assms]
    local_disk.upload_then_delete [OF assms] local_disk.delete_gone [of b k f1]
  by blast

lemma demo_upload:
  "local_upload \<lparr>lb_base = ''/d'', lb_hmac_secret = []\<rparr> ''a/b'' [1, 2] [([''d''], Dir)] =
     (Inr (), [([''d'', ''a'', ''b''], Contents [1, 2]), ([''d'', ''a''], Dir), ([''d''], Dir)])"
  by (simp add: local_upload_def resolve_path_def validate_path_def components_def is_ascii_hexdigit_def
      create_dir_all_def fs_write_def fs_put_def)

theorem local_disk_roundtrip_witness:
  "local_download \<lparr>lb_base = ''/d'', lb_hmac_secret = []\<rparr> ''a/b''
     (snd (local_upload \<lparr>lb_base = ''/d'', lb_hmac_secret = []\<rparr> ''a/b'' [1, 2] [([''d''], Dir)])) = Inr [1, 2]"
  using local_disk_roundtrip [OF demo_upload] by (simp add: demo_upload)

section \<open>Signed URLs\<close>

lemma str_bytes_inj: "str_bytes s = str_bytes t \<longleftrightarrow> s = t"
proof
  assume eq: "str_bytes s = str_bytes t"
  have "inj (\<lambda>c :: char. word_of_nat (of_char c) :: 8 word)"
  proof (rule injI)
    fix c c' :: char
    assume "(word_of_nat (of_char c) :: 8 word) = word_of_nat (of_char c')"
    then have "unat (word_of_nat (of_char c) :: 8 word) = unat (word_of_nat (of_char c') :: 8 word)" by simp
    then have "(of_char c :: nat) = of_char c'"
      by (simp add: unat_of_nat)
    then show "c = c'" by simp
  qed
  with eq show "s = t" by (simp add: str_bytes_def inj_map_eq_map)
qed simp

text \<open>
  a signed link is accepted exactly when it has not expired and carries the signature for its
  path and expiry; in particular the signature the backend generates is accepted up to and including
  its expiry second and refused afterwards.
\<close>

theorem verify_temp_url_iff:
  "(verify_temp_url hmac b t path expires_at sig \<longleftrightarrow> t \<le> expires_at \<and> sig = sign_token hmac b path expires_at) \<and>
   (verify_temp_url hmac b t path (t0 + n) (sign_token hmac b path (t0 + n)) \<longleftrightarrow> t \<le> t0 + n) \<and>
   local_generate_temp_url hmac urlenc b t0 path n =
     ''/download/local?path='' @ urlenc path @ ''&expires='' @ nat_str (t0 + n) @ ''&sig='' @ sign_token hmac b path (t0 + n)"
  by (auto simp: verify_temp_url_def constant_time_eq_iff str_bytes_inj local_generate_temp_url_def Let_def)

end
