(* ===== verification/Registry.thy ===== *)
theory Registry
  imports Models_Project Local_Disk
begin

text \<open>
  The registry of storage backends and the construction of a backend from its stored configuration
  (\<open>src/storage/registry.rs\<close>), with the configuration types of the backends and the object names
  they derive from a storage path. A trait object is dispatched here: the local disk is the model of
  \<open>Local_Disk\<close>; the backends that work over a network are one function per operation of the trait in
  the record \<open>env\<close>, acting on a remote state of type \<open>'w\<close>, so that the services are verified for every
  such backend. Their own code is modelled in \<open>Azure\<close>, \<open>Google_Storage\<close>, \<open>Webdav\<close>, \<open>S3\<close> and \<open>File_Servers\<close>.
  The record also holds the library functions the services call.
\<close>

section \<open>Backends\<close>

record s3_config =
  s3_endpoint_url :: "string option"
  s3_region :: string
  s3_bucket :: string
  s3_prefix :: string
  s3_access_key_id :: string
  s3_secret_access_key :: string
  s3_multipart_threshold :: "nat option"
  s3_part_size :: "nat option"
  s3_force_path_style :: bool

record azure_config =
  az_account_name :: string
  az_account_key :: string
  az_container :: string
  az_prefix :: string
  az_endpoint :: "string option"

record gcs_config =
  gcs_bucket :: string
  gcs_prefix :: string
  gcs_client_email :: string
  gcs_private_key_pem :: string
  gcs_token_uri :: "string option"
  gcs_project_id :: "string option"

record hetzner_config =
  hz_host :: string
  hz_username :: string
  hz_password :: string
  hz_port :: nat
  hz_base_path :: string
  hz_sub_account :: "string option"

record ftp_config =
  ftp_host :: string
  ftp_port :: nat
  ftp_username :: string
  ftp_password :: string
  ftp_base_path :: string

record samba_config =
  smb_host :: string
  smb_share :: string
  smb_username :: string
  smb_password :: string
  smb_workgroup :: string
  smb_base_path :: string

datatype backend =
    LocalDisk local_backend
  | S3Storage s3_config
  | AzureBlob azure_config
  | Gcs gcs_config
  | HetznerStorageBox hetzner_config
  | Ftp ftp_config
  | Sftp ftp_config
  | Samba samba_config

section \<open>Code outside the repository\<close>

text \<open>
  \<open>x_b64_decode\<close> and \<open>x_rsa_from_pem\<close> return the error text on failure. The network operations get
  the backend, the storage path and the remote state. \<open>x_samba\<close> is the compile-time feature.
\<close>

record 'w env =
  x_sha256 :: "bytes \<Rightarrow> bytes"
  x_hmac :: "bytes \<Rightarrow> bytes \<Rightarrow> bytes"
  x_urlenc :: "string \<Rightarrow> string"
  x_b64_decode :: "string \<Rightarrow> string + bytes"
  x_rsa_from_pem :: "string \<Rightarrow> string + unit"
  x_samba :: bool
  x_upload :: "backend \<Rightarrow> string \<Rightarrow> bytes \<Rightarrow> 'w \<Rightarrow> unit app_result \<times> 'w"
  x_download :: "backend \<Rightarrow> string \<Rightarrow> 'w \<Rightarrow> bytes app_result"
  x_delete :: "backend \<Rightarrow> string \<Rightarrow> 'w \<Rightarrow> unit app_result \<times> 'w"
  x_exists :: "backend \<Rightarrow> string \<Rightarrow> 'w \<Rightarrow> bool app_result"
  x_temp_url :: "backend \<Rightarrow> string \<Rightarrow> nat \<Rightarrow> string option \<Rightarrow> 'w \<Rightarrow> string option app_result option"
  x_create_container :: "backend \<Rightarrow> string \<Rightarrow> 'w \<Rightarrow> unit app_result \<times> 'w"

text \<open>The storages as the process sees them: the local file system and the remote services.\<close>

record 'w phys =
  ph_fs :: fs
  ph_net :: 'w

definition be_upload :: "'w env \<Rightarrow> backend \<Rightarrow> string \<Rightarrow> bytes \<Rightarrow> 'w phys \<Rightarrow> unit app_result \<times> 'w phys" where
  "be_upload x b path data w =
     (case b of
        LocalDisk lb \<Rightarrow> (let (r, f) = local_upload lb path data (ph_fs w) in (r, w\<lparr>ph_fs := f\<rparr>))
      | _ \<Rightarrow> (let (r, n) = x_upload x b path data (ph_net w) in (r, w\<lparr>ph_net := n\<rparr>)))"

definition be_download :: "'w env \<Rightarrow> backend \<Rightarrow> string \<Rightarrow> 'w phys \<Rightarrow> bytes app_result" where
  "be_download x b path w =
     (case b of LocalDisk lb \<Rightarrow> local_download lb path (ph_fs w) | _ \<Rightarrow> x_download x b path (ph_net w))"

definition be_delete :: "'w env \<Rightarrow> backend \<Rightarrow> string \<Rightarrow> 'w phys \<Rightarrow> unit app_result \<times> 'w phys" where
  "be_delete x b path w =
     (case b of
        LocalDisk lb \<Rightarrow> (let (r, f) = local_delete lb path (ph_fs w) in (r, w\<lparr>ph_fs := f\<rparr>))
      | _ \<Rightarrow> (let (r, n) = x_delete x b path (ph_net w) in (r, w\<lparr>ph_net := n\<rparr>)))"

definition be_exists :: "'w env \<Rightarrow> backend \<Rightarrow> string \<Rightarrow> 'w phys \<Rightarrow> bool app_result" where
  "be_exists x b path w =
     (case b of LocalDisk lb \<Rightarrow> local_exists lb path (ph_fs w) | _ \<Rightarrow> x_exists x b path (ph_net w))"

text \<open>\<open>supports_containers\<close>: the trait's default is false; S3, Azure, GCS and WebDAV override it.\<close>

fun supports_containers :: "backend \<Rightarrow> bool" where
  "supports_containers (S3Storage _) = True"
| "supports_containers (AzureBlob _) = True"
| "supports_containers (Gcs _) = True"
| "supports_containers (HetznerStorageBox _) = True"
| "supports_containers _ = False"

definition be_create_container :: "'w env \<Rightarrow> backend \<Rightarrow> string \<Rightarrow> 'w phys \<Rightarrow> unit app_result \<times> 'w phys" where
  "be_create_container x b name w =
     (if supports_containers b
      then (let (r, n) = x_create_container x b name (ph_net w) in (r, w\<lparr>ph_net := n\<rparr>))
      else (Inl (BadRequest ''This storage backend does not support container management''), w))"

section \<open>Object names\<close>

definition object_name :: "string \<Rightarrow> string \<Rightarrow> string" where
  "object_name pre path = (if pre = [] then path else trim_end_matches (CHR ''/'') pre @ ''/'' @ path)"

definition s3_object_key :: "s3_config \<Rightarrow> string \<Rightarrow> string" where
  "s3_object_key c path = object_name (s3_prefix c) path"

definition azure_blob_path :: "azure_config \<Rightarrow> string \<Rightarrow> string" where
  "azure_blob_path c path = object_name (az_prefix c) path"

definition azure_base_url :: "azure_config \<Rightarrow> string" where
  "azure_base_url c = unwrap_or (''https://'' @ az_account_name c @ ''.blob.core.windows.net'') (az_endpoint c)"

definition azure_blob_url :: "azure_config \<Rightarrow> string \<Rightarrow> string" where
  "azure_blob_url c blob = azure_base_url c @ ''/'' @ az_container c @ ''/'' @ blob"

definition gcs_object_path :: "gcs_config \<Rightarrow> string \<Rightarrow> string" where
  "gcs_object_path c path = object_name (gcs_prefix c) path"

definition ftp_remote_path :: "ftp_config \<Rightarrow> string \<Rightarrow> string" where
  "ftp_remote_path c path = object_name (ftp_base_path c) path"

definition samba_remote_path :: "samba_config \<Rightarrow> string \<Rightarrow> string" where
  "samba_remote_path c path = object_name (smb_base_path c) path"

definition hetzner_effective_username :: "hetzner_config \<Rightarrow> string" where
  "hetzner_effective_username c =
     (case hz_sub_account c of Some sub \<Rightarrow> hz_username c @ ''-'' @ sub | None \<Rightarrow> hz_username c)"

definition webdav_url :: "hetzner_config \<Rightarrow> string \<Rightarrow> string" where
  "webdav_url c path =
     (let base = trim_end_matches (CHR ''/'') (hz_base_path c);
          file_path = (if base = [] then path else base @ ''/'' @ path)
      in ''https://'' @ hz_host c @ '':'' @ nat_str (hz_port c) @ ''/'' @ file_path)"

definition webdav_dir_url :: "hetzner_config \<Rightarrow> string \<Rightarrow> string" where
  "webdav_dir_url c dir_path =
     (let url = webdav_url c dir_path in if suffix ''/'' url then url else url @ ''/'')"

section \<open>StorageRegistry\<close>

type_synonym registry = "uuid \<rightharpoonup> backend"

definition registry_register :: "uuid \<Rightarrow> backend \<Rightarrow> registry \<Rightarrow> registry" where
  "registry_register i b reg = reg(i \<mapsto> b)"

definition registry_unregister :: "uuid \<Rightarrow> registry \<Rightarrow> backend option \<times> registry" where
  "registry_unregister i reg = (reg i, reg(i := None))"

definition registry_get :: "uuid \<Rightarrow> registry \<Rightarrow> backend app_result" where
  "registry_get i reg = ok_or (NotFound (''Storage backend not found: '' @ uuid_str i)) (reg i)"

definition registry_contains :: "uuid \<Rightarrow> registry \<Rightarrow> bool" where
  "registry_contains i reg \<longleftrightarrow> reg i \<noteq> None"

section \<open>create_backend\<close>

text \<open>A required string member of a configuration.\<close>

definition require_str :: "json \<Rightarrow> string \<Rightarrow> string \<Rightarrow> string app_result" where
  "require_str config key msg = ok_or (BadRequest msg) (as_str (json_get config key))"

definition str_or :: "string \<Rightarrow> json \<Rightarrow> string \<Rightarrow> string" where
  "str_or dflt config key = unwrap_or dflt (as_str (json_get config key))"

text \<open>\<open>str::replace\<close>, from left to right without overlaps.\<close>

fun replace_str :: "nat \<Rightarrow> string \<Rightarrow> string \<Rightarrow> string \<Rightarrow> string" where
  "replace_str 0 pat new s = s"
| "replace_str (Suc n) pat new [] = []"
| "replace_str (Suc n) pat new (c # cs) =
     (if prefix pat (c # cs) then new @ replace_str n pat new (drop (length pat) (c # cs))
      else c # replace_str n pat new cs)"

definition port_u16 :: "nat \<Rightarrow> json \<Rightarrow> nat" where
  "port_u16 dflt config = unwrap_or dflt (as_u64 (json_get config ''port'')) mod 65536"

definition create_s3 :: "json \<Rightarrow> backend app_result" where
  "create_s3 config =
     (case require_str config ''access_key_id'' (''s3 storage requires '' @ sq ''access_key_id'') of
        Inl e \<Rightarrow> Inl e
      | Inr ak \<Rightarrow>
         (case require_str config ''secret_access_key'' (''s3 storage requires '' @ sq ''secret_access_key'') of
            Inl e \<Rightarrow> Inl e
          | Inr sk \<Rightarrow> Inr (S3Storage \<lparr>
              s3_endpoint_url = map_option trim (as_str (json_get config ''endpoint_url'')),
              s3_region = trim (str_or ''us-east-1'' config ''region''),
              s3_bucket = trim (str_or [] config ''bucket''),
              s3_prefix = str_or [] config ''prefix'',
              s3_access_key_id = ak, s3_secret_access_key = sk,
              s3_multipart_threshold = as_u64 (json_get config ''multipart_threshold''),
              s3_part_size = as_u64 (json_get config ''part_size''),
              s3_force_path_style = unwrap_or False (as_bool (json_get config ''force_path_style''))\<rparr>)))"

definition create_azure :: "'w env \<Rightarrow> json \<Rightarrow> backend app_result" where
  "create_azure x config =
     (case require_str config ''account_name'' (''azure storage requires '' @ sq ''account_name'') of
        Inl e \<Rightarrow> Inl e
      | Inr an \<Rightarrow>
         (case require_str config ''account_key'' (''azure storage requires '' @ sq ''account_key'') of
            Inl e \<Rightarrow> Inl e
          | Inr ak \<Rightarrow>
             (case x_b64_decode x ak of
                Inl msg \<Rightarrow> Inl (Internal (''Invalid Azure account key: '' @ msg))
              | Inr _ \<Rightarrow> Inr (AzureBlob \<lparr>az_account_name = an, az_account_key = ak,
                  az_container = trim (str_or [] config ''container''),
                  az_prefix = str_or [] config ''prefix'',
                  az_endpoint = as_str (json_get config ''endpoint'')\<rparr>))))"

definition create_gcs :: "'w env \<Rightarrow> json \<Rightarrow> backend app_result" where
  "create_gcs x config =
     (case require_str config ''client_email'' (''gcs storage requires '' @ sq ''client_email'') of
        Inl e \<Rightarrow> Inl e
      | Inr ce \<Rightarrow>
         (case require_str config ''private_key_pem'' (''gcs storage requires '' @ sq ''private_key_pem'') of
            Inl e \<Rightarrow> Inl e
          | Inr raw \<Rightarrow>
             (let s1 = filter (\<lambda>c. c \<noteq> CHR 0x00) raw;
                  pem = trim (replace_str (length s1) [CHR 0x5C, CHR ''n''] [CHR 0x0A] s1)
              in case x_rsa_from_pem x pem of
                   Inl msg \<Rightarrow> Inl (Internal (''Invalid GCS private key: '' @ msg))
                 | Inr _ \<Rightarrow> Inr (Gcs \<lparr>gcs_bucket = trim (str_or [] config ''bucket''),
                     gcs_prefix = str_or [] config ''prefix'', gcs_client_email = ce,
                     gcs_private_key_pem = pem, gcs_token_uri = as_str (json_get config ''token_uri''),
                     gcs_project_id = as_str (json_get config ''gcp_project_id'')\<rparr>))))"

text \<open>Required members, in the order they are read.\<close>

fun require_all :: "json \<Rightarrow> string \<Rightarrow> string list \<Rightarrow> string list app_result" where
  "require_all config kind [] = Inr []"
| "require_all config kind (k # ks) =
     (case require_str config k (kind @ '' storage requires '' @ sq k) of
        Inl e \<Rightarrow> Inl e
      | Inr v \<Rightarrow> (case require_all config kind ks of Inl e \<Rightarrow> Inl e | Inr vs \<Rightarrow> Inr (v # vs)))"

definition create_ftp :: "string \<Rightarrow> nat \<Rightarrow> json \<Rightarrow> ftp_config app_result" where
  "create_ftp kind default_port config =
     (case require_all config kind [''host'', ''username'', ''password''] of
        Inl e \<Rightarrow> Inl e
      | Inr vs \<Rightarrow> Inr \<lparr>ftp_host = vs ! 0, ftp_port = port_u16 default_port config, ftp_username = vs ! 1,
          ftp_password = vs ! 2, ftp_base_path = str_or [] config ''base_path''\<rparr>)"

definition create_backend :: "'w env \<Rightarrow> string \<Rightarrow> json \<Rightarrow> string \<Rightarrow> backend app_result" where
  "create_backend x storage_type config hmac_secret =
     (if storage_type = ''local'' then
        (case require_str config ''path'' (''local storage requires '' @ sq ''path'' @ '' config'') of
           Inl e \<Rightarrow> Inl e
         | Inr path \<Rightarrow> Inr (LocalDisk \<lparr>lb_base = path, lb_hmac_secret = hmac_secret\<rparr>))
      else if storage_type = ''s3'' then create_s3 config
      else if storage_type = ''azure'' then create_azure x config
      else if storage_type = ''gcs'' then create_gcs x config
      else if storage_type = ''hetzner'' then
        (case require_all config ''hetzner'' [''host'', ''username'', ''password''] of
           Inl e \<Rightarrow> Inl e
         | Inr vs \<Rightarrow> Inr (HetznerStorageBox \<lparr>hz_host = vs ! 0, hz_username = vs ! 1, hz_password = vs ! 2,
             hz_port = port_u16 443 config, hz_base_path = str_or [] config ''base_path'',
             hz_sub_account = as_str (json_get config ''sub_account'')\<rparr>))
      else if storage_type = ''ftp'' then map_sum id Ftp (create_ftp ''ftp'' 21 config)
      else if storage_type = ''sftp'' then map_sum id Sftp (create_ftp ''sftp'' 22 config)
      else if storage_type = ''samba'' then
        (if x_samba x then
           (case require_all config ''samba'' [''host'', ''share'', ''username'', ''password''] of
              Inl e \<Rightarrow> Inl e
            | Inr vs \<Rightarrow> Inr (Samba \<lparr>smb_host = vs ! 0, smb_share = vs ! 1, smb_username = vs ! 2,
                smb_password = vs ! 3, smb_workgroup = str_or ''WORKGROUP'' config ''workgroup'',
                smb_base_path = str_or [] config ''base_path''\<rparr>))
         else Inl (BadRequest (''Samba storage requires the '' @ sq ''samba'' @ '' feature to be enabled at compile time'')))
      else Inl (BadRequest (''Unsupported storage type: '' @ storage_type)))"

fun register_all :: "'w env \<Rightarrow> string \<Rightarrow> storage list \<Rightarrow> registry \<Rightarrow> registry" where
  "register_all x secret [] reg = reg"
| "register_all x secret (s # ss) reg =
     register_all x secret ss
       (case create_backend x (s_type s) (s_config s) secret of
          Inr b \<Rightarrow> registry_register (s_id s) b reg
        | Inl _ \<Rightarrow> reg)"

definition load_backends_from_db :: "'w env \<Rightarrow> string \<Rightarrow> db \<Rightarrow> registry \<Rightarrow> registry" where
  "load_backends_from_db x secret d reg = register_all x secret (storage_list_enabled d) reg"

section \<open>Properties\<close>

lemma object_name_inj: "object_name pre p = object_name pre q \<longleftrightarrow> p = q"
  by (simp add: object_name_def)

text \<open>A backend whose reads return what was written, whatever its kind.\<close>

definition reads_back :: "'w env \<Rightarrow> backend \<Rightarrow> bool" where
  "reads_back x b \<longleftrightarrow>
     (\<forall>path data w w'. be_upload x b path data w = (Inr (), w') \<longrightarrow> be_download x b path w' = Inr data)"

text \<open>Creating a container leaves the objects that exist readable.\<close>

definition containers_keep_data :: "'w env \<Rightarrow> backend \<Rightarrow> bool" where
  "containers_keep_data x b \<longleftrightarrow>
     (\<forall>name path w b'. be_download x b' path (snd (be_create_container x b name w)) = be_download x b' path w)"

lemma reads_back_local [simp]: "reads_back x (LocalDisk lb)"
  using local_disk.read_after_write [of lb]
  by (auto simp: reads_back_def be_upload_def be_download_def split: prod.splits)

lemma containers_keep_data_local [simp]: "containers_keep_data x (LocalDisk lb)"
  by (simp add: containers_keep_data_def be_create_container_def)

lemma register_all_other: "i \<notin> s_id ` set ss \<Longrightarrow> register_all x secret ss reg i = reg i"
  by (induction ss arbitrary: reg) (auto simp: registry_register_def split: sum.splits)

lemma register_all_lookup:
  assumes "distinct (map s_id ss)" and "s \<in> set ss"
  shows "register_all x secret ss reg (s_id s) =
    (case create_backend x (s_type s) (s_config s) secret of Inr b \<Rightarrow> Some b | Inl _ \<Rightarrow> reg (s_id s))"
  using assms
proof (induction ss arbitrary: reg)
  case (Cons a ss)
  show ?case
  proof (cases "s \<in> set ss")
    case True
    with Cons.prems(1) have "s_id s \<noteq> s_id a" by (metis distinct.simps(2) image_eqI list.set_map list.simps(9))
    with True Cons show ?thesis by (auto simp: registry_register_def split: sum.splits)
  next
    case False
    with Cons.prems have "s = a" "s_id s \<notin> s_id ` set ss" by auto
    then show ?thesis by (simp add: register_all_other registry_register_def split: sum.split)
  qed
qed simp

lemma load_backends_lookup:
  assumes "schema_ok d"
  shows "load_backends_from_db x secret d Map.empty i =
    (case find (\<lambda>s. s_id s = i \<and> s_enabled s) (storages d) of
       None \<Rightarrow> None
     | Some s \<Rightarrow> (case create_backend x (s_type s) (s_config s) secret of Inr b \<Rightarrow> Some b | Inl _ \<Rightarrow> None))"
proof -
  have "distinct (map s_id (storages d))" using schema_okD(2) [OF assms] by (simp add: storages_ok_def)
  then have dist: "distinct (map s_id (storage_list_enabled d))"
    by (simp add: storage_list_enabled_def order_desc_def distinct_map inj_on_def)
  show ?thesis
  proof (cases "find (\<lambda>s. s_id s = i \<and> s_enabled s) (storages d)")
    case None
    then have "i \<notin> s_id ` set (storage_list_enabled d)" by (auto simp: storage_list_enabled_def find_None_all)
    with None show ?thesis by (simp add: load_backends_from_db_def register_all_other)
  next
    case (Some s)
    then have "s \<in> set (storage_list_enabled d)" "s_id s = i"
      using find_Some_in_set [OF Some] by (auto simp: storage_list_enabled_def)
    with Some register_all_lookup [OF dist] show ?thesis by (auto simp: load_backends_from_db_def)
  qed
qed

text \<open>
  loading the registry. After start-up the backend registered for a storage is the one its stored
  configuration describes, exactly for the enabled storages whose configuration is complete; a storage
  with a faulty configuration is skipped and affects no other.
\<close>

theorem load_backends_exact:
  assumes "schema_ok d"
  shows "load_backends_from_db x secret d Map.empty i =
    (case find (\<lambda>s. s_id s = i \<and> s_enabled s) (storages d) of
       None \<Rightarrow> None
     | Some s \<Rightarrow> (case create_backend x (s_type s) (s_config s) secret of Inr b \<Rightarrow> Some b | Inl _ \<Rightarrow> None))"
  using assms by (rule load_backends_lookup)

text \<open>An environment whose remote services are never reached; local disks work.\<close>

definition demo_env :: "unit env" where
  "demo_env = \<lparr>x_sha256 = id, x_hmac = (\<lambda>k m. m), x_urlenc = id, x_b64_decode = (\<lambda>s. Inr []),
     x_rsa_from_pem = (\<lambda>s. Inr ()), x_samba = False, x_upload = (\<lambda>b p v w. (Inl (Internal ''down''), w)),
     x_download = (\<lambda>b p w. Inl (Internal ''down'')), x_delete = (\<lambda>b p w. (Inl (Internal ''down''), w)),
     x_exists = (\<lambda>b p w. Inl (Internal ''down'')), x_temp_url = (\<lambda>b p n f w. None),
     x_create_container = (\<lambda>b n w. (Inl (Internal ''down''), w))\<rparr>"

theorem load_backends_exact_witness:
  "load_backends_from_db demo_env ''k'' demo_db Map.empty 4 =
    Some (LocalDisk \<lparr>lb_base = ''/data'', lb_hmac_secret = ''k''\<rparr>)"
  using load_backends_exact [OF schema_ok_demo, of demo_env "''k''" 4]
  by (simp add: demo_defs create_backend_def require_str_def ok_or_def)

end
