(* ===== verification/File_Service.thy ===== *)
theory File_Service
  imports Models_Sync Registry
begin

text \<open>
  Upload with deduplication, download and link generation (\<open>src/services/file_service.rs\<close>) and the
  choice of the backend for a project and a storage (\<open>src/services/backend_resolver.rs\<close>). The state
  of a service call is the database, the registry and the storages; every statement's effect stays
  when a later step fails. A Rust panic is \<open>None\<close> inside the resolver and ends the request with
  \<open>panic_error\<close>. The hash is \<open>x_sha256\<close> of the environment.
\<close>

definition panic_error :: app_error where
  "panic_error = Internal ''panic''"

section \<open>Backend resolution\<close>

definition apply_container_to_config :: "string \<Rightarrow> string \<Rightarrow> json \<Rightarrow> json option" where
  "apply_container_to_config storage_type container config =
     (if storage_type = ''s3'' \<or> storage_type = ''gcs'' then json_set config ''bucket'' (JStr container)
      else if storage_type = ''azure'' then json_set config ''container'' (JStr container)
      else if storage_type = ''local'' then
        (let base = str_or ''/data'' config ''path''
         in json_set config ''path'' (JStr (trim_end_matches (CHR ''/'') base @ ''/'' @ container)))
      else if storage_type \<in> {''hetzner'', ''ftp'', ''sftp'', ''samba''} then
        (let base = str_or [] config ''base_path'';
             new_path = (if base = [] then container else trim_end_matches (CHR ''/'') base @ ''/'' @ container)
         in json_set config ''base_path'' (JStr new_path))
      else Some config)"

definition effective_container :: "project \<Rightarrow> project_storage option \<Rightarrow> string" where
  "effective_container p assignment =
     (case assignment of
        None \<Rightarrow> p_slug p
      | Some ps \<Rightarrow>
         (let default = p_slug p @ ''-'' @ take 6 (uuid_str (ps_id ps))
          in case ps_container_override ps of
               Some name \<Rightarrow> if name \<noteq> [] then name else default
             | None \<Rightarrow> default))"

text \<open>The configuration a project's backend is built from.\<close>

definition project_config :: "storage \<Rightarrow> string \<Rightarrow> project_storage option \<Rightarrow> json option" where
  "project_config s container assignment =
     (case apply_container_to_config (s_type s) container (s_config s) of
        None \<Rightarrow> None
      | Some config \<Rightarrow>
         (case assignment of
            None \<Rightarrow> Some config
          | Some ps \<Rightarrow> (case ps_prefix_override ps of
                          None \<Rightarrow> Some config
                        | Some pre \<Rightarrow> json_set config ''prefix'' (JStr pre))))"

definition resolve_project_backend ::
    "'w env \<Rightarrow> string \<Rightarrow> db \<Rightarrow> storage \<Rightarrow> uuid \<Rightarrow> 'w phys \<Rightarrow> backend app_result option \<times> 'w phys" where
  "resolve_project_backend x secret d s pid w =
     (case project_find_by_id pid d of
        Inl e \<Rightarrow> (Some (Inl e), w)
      | Inr p \<Rightarrow>
         (let assignment = project_storage_find_for_project_and_storage pid (s_id s) d;
              container = effective_container p assignment
          in case project_config s container assignment of
               None \<Rightarrow> (None, w)
             | Some config \<Rightarrow>
                (case create_backend x (s_type s) config secret of
                   Inl e \<Rightarrow> (Some (Inl e), w)
                 | Inr b \<Rightarrow>
                    (Some (Inr b), if supports_containers b then snd (be_create_container x b container w) else w))))"

fun resolve_refs ::
    "'w env \<Rightarrow> string \<Rightarrow> db \<Rightarrow> storage \<Rightarrow> file_reference list \<Rightarrow> 'w phys \<Rightarrow> backend list option \<times> 'w phys" where
  "resolve_refs x secret d s [] w = (Some [], w)"
| "resolve_refs x secret d s (r # rs) w =
     (case resolve_project_backend x secret d s (r_project_id r) w of
        (None, w1) \<Rightarrow> (None, w1)
      | (Some res, w1) \<Rightarrow>
         (case resolve_refs x secret d s rs w1 of
            (None, w2) \<Rightarrow> (None, w2)
          | (Some bs, w2) \<Rightarrow> (Some (case res of Inr b \<Rightarrow> b # bs | Inl _ \<Rightarrow> bs), w2)))"

definition resolve_backends_for_location ::
    "'w env \<Rightarrow> string \<Rightarrow> registry \<Rightarrow> db \<Rightarrow> uuid \<Rightarrow> file_reference list \<Rightarrow> 'w phys \<Rightarrow> backend list option \<times> 'w phys" where
  "resolve_backends_for_location x secret reg d sid refs w =
     (case (case storage_find_by_id sid d of
              Inr s \<Rightarrow> resolve_refs x secret d s refs w
            | Inl _ \<Rightarrow> (Some [], w)) of
        (None, w1) \<Rightarrow> (None, w1)
      | (Some bs, w1) \<Rightarrow>
         (Some (if bs = [] then (case registry_get sid reg of Inr b \<Rightarrow> [b] | Inl _ \<Rightarrow> []) else bs), w1))"

section \<open>Hashes and paths\<close>

definition compute_sha256 :: "'w env \<Rightarrow> bytes \<Rightarrow> string" where
  "compute_sha256 x data = hex_encode (x_sha256 x data)"

text \<open>
  The streaming hash: blocks of at most 8 MB are fed to the hasher, whose state is the bytes fed so
  far, and counted; the first empty read ends the loop.
\<close>

function hash_blocks :: "nat \<Rightarrow> bytes \<Rightarrow> bytes \<Rightarrow> int \<Rightarrow> bytes \<times> int" where
  "hash_blocks blk rest fed tot =
     (let n = min blk (length rest)
      in if n = 0 then (fed, tot)
         else hash_blocks blk (drop n rest) (fed @ take n rest) (tot + int n))"
  by pat_completeness auto
termination by (relation "measure (\<lambda>(blk, rest, fed, tot). length rest)") auto

declare hash_blocks.simps [simp del]

definition hash_file_sha256 :: "'w env \<Rightarrow> path \<Rightarrow> fs \<Rightarrow> (string \<times> int) app_result" where
  "hash_file_sha256 x p f =
     (case fs_read p f of
        None \<Rightarrow> Inl (Internal ''Failed to open temp file for hashing'')
      | Some data \<Rightarrow> (let (fed, tot) = hash_blocks (8 * 1024 * 1024) data [] 0
                       in Inr (hex_encode (x_sha256 x fed), tot)))"

definition content_addressed_path :: "string \<Rightarrow> string" where
  "content_addressed_path hash =
     (if length hash < 4 then hash
      else take 2 hash @ ''/'' @ take 2 (drop 2 hash) @ ''/'' @ hash)"

section \<open>Upload\<close>

record upload_result =
  ur_file :: file_row
  ur_reference :: file_reference
  ur_is_duplicate :: bool
  ur_sync_tasks_created :: nat

definition find_primary_storage :: "registry \<Rightarrow> storage list \<Rightarrow> storage app_result" where
  "find_primary_storage reg ss =
     (case find (\<lambda>s. s_is_hot s \<and> registry_contains (s_id s) reg) ss of
        Some s \<Rightarrow> Inr s
      | None \<Rightarrow>
         (case find (\<lambda>s. registry_contains (s_id s) reg) ss of
            Some s \<Rightarrow> Inr s
          | None \<Rightarrow> Inl (BadRequest ''No storage backends are registered and available'')))"

definition get_project_backend ::
    "'w env \<Rightarrow> string \<Rightarrow> db \<Rightarrow> storage \<Rightarrow> uuid \<Rightarrow> 'w phys \<Rightarrow> backend app_result \<times> 'w phys" where
  "get_project_backend x secret d s pid w =
     (case resolve_project_backend x secret d s pid w of
        (None, w1) \<Rightarrow> (Inl panic_error, w1)
      | (Some r, w1) \<Rightarrow> (r, w1))"

definition create_primary_location :: "uuid \<Rightarrow> uuid \<Rightarrow> string \<Rightarrow> db \<Rightarrow> unit app_result \<times> db" where
  "create_primary_location fid sid path d =
     (case file_location_create \<lparr>cl_file_id = fid, cl_storage_id = sid, cl_storage_path = path, cl_status = ''synced''\<rparr> d of
        (Inr _, d') \<Rightarrow> (Inr (), d')
      | (Inl (Database e), d') \<Rightarrow> (if is_unique_violation e then (Inr (), d') else (Inl (Database e), d'))
      | (Inl e, d') \<Rightarrow> (Inl e, d'))"

text \<open>The loop over the known locations: a project storage at once, else the first usable one.\<close>

fun pick_source :: "registry \<Rightarrow> uuid set \<Rightarrow> file_location list \<Rightarrow> uuid option \<Rightarrow> uuid option" where
  "pick_source reg project_ids [] fallback = fallback"
| "pick_source reg project_ids (loc # locs) fallback =
     (if l_status loc \<noteq> ''synced'' then pick_source reg project_ids locs fallback
      else if \<not> registry_contains (l_storage_id loc) reg then pick_source reg project_ids locs fallback
      else if l_storage_id loc \<in> project_ids then Some (l_storage_id loc)
      else pick_source reg project_ids locs
             (case fallback of None \<Rightarrow> Some (l_storage_id loc) | Some f \<Rightarrow> Some f))"

definition needs_sync :: "registry \<Rightarrow> uuid \<Rightarrow> uuid set \<Rightarrow> storage \<Rightarrow> bool" where
  "needs_sync reg source existing s \<longleftrightarrow>
     s_id s \<noteq> source \<and> s_id s \<notin> existing \<and> registry_contains (s_id s) reg"

fun schedule_syncs :: "registry \<Rightarrow> uuid \<Rightarrow> uuid \<Rightarrow> uuid \<Rightarrow> uuid set \<Rightarrow> storage list \<Rightarrow> db \<Rightarrow> nat \<times> db" where
  "schedule_syncs reg fid source pid existing [] d = (0, d)"
| "schedule_syncs reg fid source pid existing (s # ss) d =
     (if needs_sync reg source existing s
      then (case sync_task_create \<lparr>ct_file_id = fid, ct_source = source, ct_target = s_id s, ct_project_id = Some pid\<rparr> d of
              (Inr _, d1) \<Rightarrow> (let (n, d2) = schedule_syncs reg fid source pid existing ss d1 in (Suc n, d2))
            | (Inl _, d1) \<Rightarrow> schedule_syncs reg fid source pid existing ss d1)
      else schedule_syncs reg fid source pid existing ss d)"

definition record_references_and_sync ::
    "registry \<Rightarrow> uuid \<Rightarrow> file_row \<Rightarrow> bool \<Rightarrow> storage \<Rightarrow> string \<Rightarrow> json \<Rightarrow> storage list \<Rightarrow> db \<Rightarrow>
     upload_result app_result \<times> db" where
  "record_references_and_sync reg pid file is_new primary original_name metadata ss d =
     (case file_reference_create \<lparr>cr_file_id = f_id file, cr_project_id = pid,
             cr_original_name = original_name, cr_metadata = metadata\<rparr> d of
        (Inl e, d1) \<Rightarrow> (Inl e, d1)
      | (Inr ref, d1) \<Rightarrow>
         (let locs = file_location_find_all_for_file (f_id file) d1;
              existing = l_storage_id ` set locs;
              source = (if is_new then s_id primary
                        else unwrap_or (s_id primary) (pick_source reg (s_id ` set ss) locs None));
              (n, d2) = schedule_syncs reg (f_id file) source pid existing ss d1
          in (Inr \<lparr>ur_file = file, ur_reference = ref, ur_is_duplicate = \<not> is_new, ur_sync_tasks_created = n\<rparr>, d2)))"

definition no_storages :: app_error where
  "no_storages = BadRequest ''No enabled storages available for this project''"

definition upload_file ::
    "'w env \<Rightarrow> string \<Rightarrow> registry \<Rightarrow> uuid \<Rightarrow> string \<Rightarrow> string \<Rightarrow> bytes \<Rightarrow> json \<Rightarrow> db \<Rightarrow> 'w phys \<Rightarrow>
     upload_result app_result \<times> db \<times> 'w phys" where
  "upload_file x secret reg pid original_name content_type data metadata d w =
     (let hash = compute_sha256 x data;
          sz = int (length data)
      in case file_create_or_find \<lparr>cf_hash = hash, cf_size = sz, cf_content_type = content_type\<rparr> d of
           (Inl e, d1) \<Rightarrow> (Inl e, d1, w)
         | (Inr (file, is_new), d1) \<Rightarrow>
            (let ss = storage_list_for_project pid d1
             in if ss = [] then (Inl no_storages, d1, w)
                else case find_primary_storage reg ss of
                  Inl e \<Rightarrow> (Inl e, d1, w)
                | Inr primary \<Rightarrow>
                   (let storage_path = content_addressed_path hash;
                        (stored, d2, w2) =
                          (if is_new then
                             (case get_project_backend x secret d1 primary pid w of
                                (Inl e, w1) \<Rightarrow> (Inl e, d1, w1)
                              | (Inr b, w1) \<Rightarrow>
                                 (case be_upload x b storage_path data w1 of
                                    (Inl e, w2) \<Rightarrow> (Inl e, d1, w2)
                                  | (Inr _, w2) \<Rightarrow>
                                     (let (r, d2) = create_primary_location (f_id file) (s_id primary) storage_path d1
                                      in (r, d2, w2))))
                           else (Inr (), d1, w))
                    in case stored of
                         Inl e \<Rightarrow> (Inl e, d2, w2)
                       | Inr _ \<Rightarrow>
                          (let (r, d3) = record_references_and_sync reg pid file is_new primary original_name metadata ss d2
                           in (r, d3, w2)))))"

text \<open>
  \<open>upload_from_file\<close>: the trait's default reads the file and uploads it; the overrides for S3, Azure,
  GCS and WebDAV stream the same bytes.
\<close>

definition be_upload_from_file ::
    "'w env \<Rightarrow> bool \<Rightarrow> backend \<Rightarrow> string \<Rightarrow> path \<Rightarrow> 'w phys \<Rightarrow> unit app_result \<times> 'w phys" where
  "be_upload_from_file x rename_ok b path src w =
     (case b of
        LocalDisk lb \<Rightarrow> (let (r, f) = local_upload_from_file rename_ok lb path src (ph_fs w) in (r, w\<lparr>ph_fs := f\<rparr>))
      | _ \<Rightarrow> (case fs_read src (ph_fs w) of
                None \<Rightarrow> (Inl (Internal ''Failed to read temp file''), w)
              | Some data \<Rightarrow> be_upload x b path data w))"

definition finalize_upload ::
    "'w env \<Rightarrow> bool \<Rightarrow> string \<Rightarrow> registry \<Rightarrow> uuid \<Rightarrow> string \<Rightarrow> string \<Rightarrow> path \<Rightarrow> json \<Rightarrow> db \<Rightarrow> 'w phys \<Rightarrow>
     upload_result app_result \<times> db \<times> 'w phys" where
  "finalize_upload x rename_ok secret reg pid original_name content_type temp metadata d w =
     (case hash_file_sha256 x temp (ph_fs w) of
        Inl e \<Rightarrow> (Inl e, d, w)
      | Inr (hash, sz) \<Rightarrow>
         (case file_create_or_find \<lparr>cf_hash = hash, cf_size = sz, cf_content_type = content_type\<rparr> d of
           (Inl e, d1) \<Rightarrow> (Inl e, d1, w)
         | (Inr (file, is_new), d1) \<Rightarrow>
            (let ss = storage_list_for_project pid d1
             in if ss = [] then (Inl no_storages, d1, w)
                else case find_primary_storage reg ss of
                  Inl e \<Rightarrow> (Inl e, d1, w)
                | Inr primary \<Rightarrow>
                   (let storage_path = content_addressed_path hash;
                        (stored, d2, w2) =
                          (if is_new then
                             (case get_project_backend x secret d1 primary pid w of
                                (Inl e, w1) \<Rightarrow> (Inl e, d1, w1)
                              | (Inr b, w1) \<Rightarrow>
                                 (case be_upload_from_file x rename_ok b storage_path temp w1 of
                                    (Inl e, w2) \<Rightarrow> (Inl e, d1, w2)
                                  | (Inr _, w2) \<Rightarrow>
                                     (let (r, d2) = create_primary_location (f_id file) (s_id primary) storage_path d1
                                      in (r, d2, w2))))
                           else (Inr (), d1, w))
                    in case stored of
                         Inl e \<Rightarrow> (Inl e, d2, w2)
                       | Inr _ \<Rightarrow>
                          (let (r, d3) = record_references_and_sync reg pid file is_new primary original_name metadata ss d2
                           in (r, d3, w2))))))"

section \<open>Download\<close>

record download_result =
  dr_data :: bytes
  dr_file :: file_row
  dr_content_type :: string
  dr_original_name :: "string option"

text \<open>The backends of one location in turn, until one delivers.\<close>

fun try_backends :: "'w env \<Rightarrow> backend list \<Rightarrow> string \<Rightarrow> 'w phys \<Rightarrow> bytes option" where
  "try_backends x [] path w = None"
| "try_backends x (b # bs) path w =
     (case be_download x b path w of Inr data \<Rightarrow> Some data | Inl _ \<Rightarrow> try_backends x bs path w)"

text \<open>The locations in turn: the data and the location it came from.\<close>

fun try_locations ::
    "'w env \<Rightarrow> string \<Rightarrow> registry \<Rightarrow> db \<Rightarrow> file_reference list \<Rightarrow> file_location list \<Rightarrow> 'w phys \<Rightarrow>
     (bytes \<times> file_location) option app_result \<times> 'w phys" where
  "try_locations x secret reg d refs [] w = (Inr None, w)"
| "try_locations x secret reg d refs (loc # locs) w =
     (case resolve_backends_for_location x secret reg d (l_storage_id loc) refs w of
        (None, w1) \<Rightarrow> (Inl panic_error, w1)
      | (Some bs, w1) \<Rightarrow>
         (case try_backends x bs (l_storage_path loc) w1 of
            Some data \<Rightarrow> (Inr (Some (data, loc)), w1)
          | None \<Rightarrow> try_locations x secret reg d refs locs w1))"

definition download_file ::
    "'w env \<Rightarrow> string \<Rightarrow> registry \<Rightarrow> uuid \<Rightarrow> db \<Rightarrow> 'w phys \<Rightarrow> download_result app_result \<times> db \<times> 'w phys" where
  "download_file x secret reg fid d w =
     (case file_find_by_id fid d of
        Inl e \<Rightarrow> (Inl e, d, w)
      | Inr file \<Rightarrow>
         (let locs = file_location_find_for_file fid d
          in if locs = []
             then (Inl (NotFound (''No available storage locations for file '' @ uuid_str fid)), d, w)
             else (let refs = file_reference_find_by_file_id fid d
                   in case try_locations x secret reg d refs locs w of
                        (Inl e, w1) \<Rightarrow> (Inl e, d, w1)
                      | (Inr None, w1) \<Rightarrow>
                          (Inl (Internal (''All storage locations failed for file '' @ uuid_str fid)), d, w1)
                      | (Inr (Some (data, loc)), w1) \<Rightarrow>
                          (Inr \<lparr>dr_data = data, dr_file = file, dr_content_type = f_content_type file,
                                dr_original_name = map_option r_original_name (head_opt refs)\<rparr>,
                           snd (file_location_touch_accessed (l_id loc) d), w1))))"

section \<open>Temporary links\<close>

record temp_link =
  tl_storage_name :: string
  tl_storage_type :: string
  tl_storage_path :: string
  tl_url :: string

text \<open>A link request to a backend; \<open>None\<close> is the 5 second timeout.\<close>

definition be_temp_url ::
    "'w env \<Rightarrow> time \<Rightarrow> backend \<Rightarrow> string \<Rightarrow> nat \<Rightarrow> string option \<Rightarrow> 'w phys \<Rightarrow> string option app_result option" where
  "be_temp_url x t b path expires_in filename w =
     (case b of
        LocalDisk lb \<Rightarrow>
          Some (Inr (Some (local_generate_temp_url (x_hmac x) (x_urlenc x) lb (nat (t div 1000000)) path expires_in)))
      | Ftp _ \<Rightarrow> Some (Inr None)
      | Sftp _ \<Rightarrow> Some (Inr None)
      | Samba _ \<Rightarrow> Some (Inr None)
      | HetznerStorageBox _ \<Rightarrow> Some (Inr None)
      | _ \<Rightarrow> x_temp_url x b path expires_in filename (ph_net w))"

fun first_url :: "'w env \<Rightarrow> time \<Rightarrow> backend list \<Rightarrow> string \<Rightarrow> nat \<Rightarrow> string option \<Rightarrow> 'w phys \<Rightarrow> string option" where
  "first_url x t [] path n name w = None"
| "first_url x t (b # bs) path n name w =
     (case be_temp_url x t b path n name w of
        Some (Inr (Some url)) \<Rightarrow> Some url
      | _ \<Rightarrow> first_url x t bs path n name w)"

fun collect_links ::
    "'w env \<Rightarrow> string \<Rightarrow> registry \<Rightarrow> file_reference list \<Rightarrow> nat \<Rightarrow> bool \<Rightarrow> uuid option \<Rightarrow> string option \<Rightarrow>
     file_location list \<Rightarrow> db \<Rightarrow> 'w phys \<Rightarrow> temp_link list app_result \<times> db \<times> 'w phys" where
  "collect_links x secret reg refs n direct_only flt name [] d w = (Inr [], d, w)"
| "collect_links x secret reg refs n direct_only flt name (loc # locs) d w =
     (if (case flt of Some f \<Rightarrow> l_storage_id loc \<noteq> f | None \<Rightarrow> False)
      then collect_links x secret reg refs n direct_only flt name locs d w
      else case storage_find_by_id (l_storage_id loc) d of
        Inl _ \<Rightarrow> collect_links x secret reg refs n direct_only flt name locs d w
      | Inr s \<Rightarrow>
         (if direct_only \<and> \<not> s_direct_links s
          then collect_links x secret reg refs n direct_only flt name locs d w
          else case resolve_backends_for_location x secret reg d (l_storage_id loc) refs w of
            (None, w1) \<Rightarrow> (Inl panic_error, d, w1)
          | (Some bs, w1) \<Rightarrow>
             (case first_url x (now d) bs (l_storage_path loc) n name w1 of
                None \<Rightarrow> collect_links x secret reg refs n direct_only flt name locs d w1
              | Some url \<Rightarrow>
                 (case collect_links x secret reg refs n direct_only flt name locs
                         (snd (file_location_touch_accessed (l_id loc) d)) w1 of
                    (Inl e, d2, w2) \<Rightarrow> (Inl e, d2, w2)
                  | (Inr ls, d2, w2) \<Rightarrow>
                      (Inr (\<lparr>tl_storage_name = s_name s, tl_storage_type = s_type s,
                             tl_storage_path = l_storage_path loc, tl_url = url\<rparr> # ls), d2, w2)))))"

definition generate_temp_links ::
    "'w env \<Rightarrow> string \<Rightarrow> registry \<Rightarrow> uuid \<Rightarrow> nat \<Rightarrow> bool \<Rightarrow> uuid option \<Rightarrow> db \<Rightarrow> 'w phys \<Rightarrow>
     temp_link list app_result \<times> db \<times> 'w phys" where
  "generate_temp_links x secret reg fid n direct_only flt d w =
     (case file_find_by_id fid d of
        Inl e \<Rightarrow> (Inl e, d, w)
      | Inr _ \<Rightarrow>
         (let locs = file_location_find_for_file fid d;
              refs = file_reference_find_by_file_id fid d;
              name = map_option r_original_name (head_opt refs)
          in case collect_links x secret reg refs n direct_only flt name locs d w of
               (Inl e, d1, w1) \<Rightarrow> (Inl e, d1, w1)
             | (Inr [], d1, w1) \<Rightarrow> (Inl (NotFound (''No temp URL available for file '' @ uuid_str fid)), d1, w1)
             | (Inr ls, d1, w1) \<Rightarrow> (Inr ls, d1, w1)))"

section \<open>The parts of a successful upload\<close>

lemma hash_blocks_all:
  "0 < blk \<Longrightarrow> hash_blocks blk rest fed n = (fed @ rest, n + int (length rest))"
proof (induction blk rest fed n rule: hash_blocks.induct)
  case (1 blk rest fed n)
  show ?case
  proof (cases "rest = []")
    case False
    let ?k = "min blk (length rest)"
    have k: "?k \<noteq> 0" using False 1(2) by simp
    have "hash_blocks blk rest fed n = hash_blocks blk (drop ?k rest) (fed @ take ?k rest) (n + int ?k)"
      using k by (simp add: hash_blocks.simps [of blk rest] Let_def)
    also have "\<dots> = (fed @ take ?k rest @ drop ?k rest, n + int ?k + int (length (drop ?k rest)))"
      using 1 k by simp
    finally show ?thesis by simp
  qed (simp add: hash_blocks.simps)
qed

text \<open>
  hashing a temporary file in blocks gives the same hash as hashing its bytes in memory, and
  its length; it fails exactly when the file cannot be read.
\<close>

theorem hash_file_sha256_correct:
  "hash_file_sha256 x p f =
     (case fs_read p f of
        None \<Rightarrow> Inl (Internal ''Failed to open temp file for hashing'')
      | Some data \<Rightarrow> Inr (compute_sha256 x data, int (length data)))"
  by (simp add: hash_file_sha256_def hash_blocks_all compute_sha256_def split: option.split)

lemma upload_file_InrE:
  assumes "upload_file x secret reg pid name ct data meta d w = (Inr res, d', w')"
  obtains fl is_new d1 primary d2 where
    "file_create_or_find \<lparr>cf_hash = compute_sha256 x data, cf_size = int (length data), cf_content_type = ct\<rparr> d =
       (Inr (fl, is_new), d1)"
    "find_primary_storage reg (storage_list_for_project pid d1) = Inr primary"
    "is_new \<Longrightarrow> \<exists>b w1. get_project_backend x secret d1 primary pid w = (Inr b, w1) \<and>
       be_upload x b (content_addressed_path (compute_sha256 x data)) data w1 = (Inr (), w') \<and>
       create_primary_location (f_id fl) (s_id primary) (content_addressed_path (compute_sha256 x data)) d1 = (Inr (), d2)"
    "\<not> is_new \<Longrightarrow> d2 = d1 \<and> w' = w"
    "record_references_and_sync reg pid fl is_new primary name meta (storage_list_for_project pid d1) d2 = (Inr res, d')"
proof -
  let ?cf = "\<lparr>cf_hash = compute_sha256 x data, cf_size = int (length data), cf_content_type = ct\<rparr>"
  let ?path = "content_addressed_path (compute_sha256 x data)"
  obtain r0 d1 where c: "file_create_or_find ?cf d = (r0, d1)" by fastforce
  then obtain fl is_new where r0: "r0 = Inr (fl, is_new)"
    using assms by (cases r0) (auto simp: upload_file_def Let_def)
  let ?ss = "storage_list_for_project pid d1"
  have ne: "?ss \<noteq> []" using assms c r0 by (auto simp: upload_file_def Let_def)
  obtain primary where pr: "find_primary_storage reg ?ss = Inr primary"
    using assms c r0 ne by (cases "find_primary_storage reg ?ss") (auto simp: upload_file_def Let_def)
  show ?thesis
  proof (cases is_new)
    case False
    with assms c r0 ne pr have "record_references_and_sync reg pid fl is_new primary name meta ?ss d1 = (Inr res, d') \<and> w' = w"
      by (auto simp: upload_file_def Let_def split: prod.splits)
    then show ?thesis using that [of fl is_new d1 primary d1] False c r0 pr by simp
  next
    case True
    obtain rb w1 where g: "get_project_backend x secret d1 primary pid w = (rb, w1)" by fastforce
    then obtain b where rb: "rb = Inr b"
      using assms c r0 ne pr True by (cases rb) (auto simp: upload_file_def Let_def)
    obtain ru w2 where u: "be_upload x b ?path data w1 = (ru, w2)" by fastforce
    then have ru: "ru = Inr ()"
      using assms c r0 ne pr True g rb by (cases ru) (auto simp: upload_file_def Let_def)
    obtain rl d2 where l: "create_primary_location (f_id fl) (s_id primary) ?path d1 = (rl, d2)" by fastforce
    then have rl: "rl = Inr ()"
      using assms c r0 ne pr True g rb u ru by (cases rl) (auto simp: upload_file_def Let_def)
    have "record_references_and_sync reg pid fl is_new primary name meta ?ss d2 = (Inr res, d') \<and> w' = w2"
      using assms c r0 ne pr True g rb u ru l rl by (auto simp: upload_file_def Let_def split: prod.splits)
    then show ?thesis using that [of fl is_new d1 primary d2] True c r0 pr g rb u ru l rl by simp
  qed
qed

lemma find_primary_storage_Inr:
  assumes "find_primary_storage reg ss = Inr s"
  shows "s \<in> set ss \<and> registry_contains (s_id s) reg \<and>
    (s_is_hot s \<or> (\<forall>t \<in> set ss. s_is_hot t \<longrightarrow> \<not> registry_contains (s_id t) reg))"
proof (cases "find (\<lambda>s. s_is_hot s \<and> registry_contains (s_id s) reg) ss")
  case None
  then have "\<forall>t \<in> set ss. s_is_hot t \<longrightarrow> \<not> registry_contains (s_id t) reg" by (simp add: find_None_all)
  moreover have "find (\<lambda>s. registry_contains (s_id s) reg) ss = Some s"
    using assms None by (simp add: find_primary_storage_def split: option.splits)
  ultimately show ?thesis using find_Some_in_set by fastforce
next
  case (Some t)
  with assms have "t = s" by (simp add: find_primary_storage_def)
  with find_Some_in_set [OF Some] show ?thesis by simp
qed

subsection \<open>Scheduling\<close>

lemma schedule_syncs_snd:
  "snd (schedule_syncs reg fid src pid ex (s # ss) d) =
     snd (schedule_syncs reg fid src pid ex ss
       (if needs_sync reg src ex s
        then snd (sync_task_create \<lparr>ct_file_id = fid, ct_source = src, ct_target = s_id s, ct_project_id = Some pid\<rparr> d)
        else d))"
  by (auto split: prod.splits sum.splits)

lemma sync_task_create_frame [simp]:
  "files (snd (sync_task_create t d)) = files d" "storages (snd (sync_task_create t d)) = storages d"
  "projects (snd (sync_task_create t d)) = projects d"
  "project_storages (snd (sync_task_create t d)) = project_storages d"
  "file_references (snd (sync_task_create t d)) = file_references d"
  "file_locations (snd (sync_task_create t d)) = file_locations d"
  "now (snd (sync_task_create t d)) = now d" "gen (snd (sync_task_create t d)) = gen d"
  "users (snd (sync_task_create t d)) = users d"
  by (simp_all add: sync_task_create_def Let_def)

lemma schedule_syncs_frame [simp]:
  "files (snd (schedule_syncs reg fid src pid ex ss d)) = files d"
  "storages (snd (schedule_syncs reg fid src pid ex ss d)) = storages d"
  "projects (snd (schedule_syncs reg fid src pid ex ss d)) = projects d"
  "project_storages (snd (schedule_syncs reg fid src pid ex ss d)) = project_storages d"
  "file_references (snd (schedule_syncs reg fid src pid ex ss d)) = file_references d"
  "file_locations (snd (schedule_syncs reg fid src pid ex ss d)) = file_locations d"
  "now (snd (schedule_syncs reg fid src pid ex ss d)) = now d"
  by (induction ss arbitrary: d; simp add: schedule_syncs_snd del: schedule_syncs.simps(2))+

lemma schedule_syncs_schema: "schema_ok d \<Longrightarrow> schema_ok (snd (schedule_syncs reg fid src pid ex ss d))"
  by (induction ss arbitrary: d)
    (simp_all add: schedule_syncs_snd task_insert.stmt_schema del: schedule_syncs.simps(2))

lemma file_reference_create_Inr:
  assumes "file_reference_create input d = (Inr ref, d')"
  shows "r_file_id ref = cr_file_id input \<and> r_project_id ref = cr_project_id input \<and>
    r_original_name ref = cr_original_name input \<and> r_metadata ref = cr_metadata input \<and>
    cr_file_id input \<in> f_id ` set (files d) \<and> cr_project_id input \<in> p_id ` set (projects d) \<and>
    d' = (draw d)\<lparr>file_references := file_references d @ [ref]\<rparr>"
  using assms by (auto simp: file_reference_create_def Let_def split: if_splits)

lemma record_references_and_sync_InrE:
  assumes "record_references_and_sync reg pid fl is_new primary name meta ss d = (Inr res, d')"
  obtains ref d1 src where
    "ur_file res = fl" "ur_reference res = ref" "ur_is_duplicate res = (\<not> is_new)"
    "file_reference_create \<lparr>cr_file_id = f_id fl, cr_project_id = pid, cr_original_name = name, cr_metadata = meta\<rparr> d = (Inr ref, d1)"
    "is_new \<Longrightarrow> src = s_id primary"
    "\<not> is_new \<Longrightarrow> src = unwrap_or (s_id primary)
        (pick_source reg (s_id ` set ss) (file_location_find_all_for_file (f_id fl) d1) None)"
    "schedule_syncs reg (f_id fl) src pid (l_storage_id ` set (file_location_find_all_for_file (f_id fl) d1)) ss d1 =
       (ur_sync_tasks_created res, d')"
proof -
  let ?cr = "\<lparr>cr_file_id = f_id fl, cr_project_id = pid, cr_original_name = name, cr_metadata = meta\<rparr>"
  obtain r d1 where c: "file_reference_create ?cr d = (r, d1)" by fastforce
  then obtain ref where r: "r = Inr ref"
    using assms by (cases r) (auto simp: record_references_and_sync_def)
  show ?thesis
    using that [of ref d1] assms c r
    by (auto simp: record_references_and_sync_def Let_def split: prod.splits if_splits)
qed

subsection \<open>Frames\<close>

lemma file_create_or_find_frame [simp]:
  "storages (snd (file_create_or_find i d)) = storages d" "projects (snd (file_create_or_find i d)) = projects d"
  "project_storages (snd (file_create_or_find i d)) = project_storages d"
  "file_references (snd (file_create_or_find i d)) = file_references d"
  "file_locations (snd (file_create_or_find i d)) = file_locations d"
  "now (snd (file_create_or_find i d)) = now d" "gen (snd (file_create_or_find i d)) = gen d"
  by (simp_all add: file_create_or_find_def file_create_def Let_def is_unique_violation_iff split: option.split)

lemma storage_list_for_project_cong:
  "storages d = storages d' \<Longrightarrow> project_storages d = project_storages d' \<Longrightarrow>
   storage_list_for_project pid d = storage_list_for_project pid d'"
  by (simp add: storage_list_for_project_def)

lemma resolve_project_backend_fst_cong:
  assumes "projects d = projects d'" and "project_storages d = project_storages d'"
  shows "fst (resolve_project_backend x secret d s pid w) = fst (resolve_project_backend x secret d' s pid w')"
  using assms
  by (auto simp: resolve_project_backend_def project_find_by_id_def project_storage_find_for_project_and_storage_def Let_def
      split: sum.split option.split)

lemma resolve_project_backend_reads:
  assumes "\<And>b. containers_keep_data x b"
  shows "be_download x b' path (snd (resolve_project_backend x secret d s pid w)) = be_download x b' path w"
  using assms
  by (auto simp: resolve_project_backend_def containers_keep_data_def Let_def split: sum.split option.split)

text \<open>The location row the first upload of a file leaves.\<close>

lemma create_primary_location_new:
  assumes "create_primary_location fid sid path d = (Inr (), d')" and "fresh_id d \<notin> l_id ` set (file_locations d)"
    and "fid \<notin> l_file_id ` set (file_locations d)"
  obtains l where "l_file_id l = fid" "l_storage_id l = sid" "l_storage_path l = path" "l_status l = ''synced''"
    "d' = (draw d)\<lparr>file_locations := file_locations d @ [l]\<rparr>" "sid \<in> s_id ` set (storages d)"
proof -
  let ?l = "\<lparr>l_id = fresh_id d, l_file_id = fid, l_storage_id = sid, l_storage_path = path, l_status = ''synced'',
     l_synced_at = Some (now d), l_last_accessed_at = None, l_created_at = now d\<rparr>"
  have "(fid, sid) \<notin> (\<lambda>l. (l_file_id l, l_storage_id l)) ` set (file_locations d)" using assms(3) by auto
  with assms(1,2) have "d' = (draw d)\<lparr>file_locations := file_locations d @ [?l]\<rparr> \<and> sid \<in> s_id ` set (storages d)"
    by (simp add: create_primary_location_def file_location_create_def Let_def split: if_splits)
  then show ?thesis using that [of ?l] by simp
qed

section \<open>What an upload guarantees\<close>

lemma storage_find_by_id_unique:
  assumes "storages_ok ps (storages d)" and "s \<in> set (storages d)"
  shows "storage_find_by_id (s_id s) d = Inr s"
  using assms by (simp add: storage_find_by_id_def storages_ok_def find_by_key ok_or_def)

lemma resolve_backends_single:
  assumes "storage_find_by_id sid d = Inr s" and "fst (resolve_project_backend x secret d s (r_project_id r) w) = Some (Inr b)"
  shows "resolve_backends_for_location x secret reg d sid [r] w =
    (Some [b], snd (resolve_project_backend x secret d s (r_project_id r) w))"
  using assms by (cases "resolve_project_backend x secret d s (r_project_id r) w")
    (simp add: resolve_backends_for_location_def)

text \<open>
  The database after the first upload of a file: one file row, one reference and one synced location,
  all of them new.
\<close>

lemma upload_file_newE:
  assumes ok: "schema_ok d" and fresh: "supply_fresh d (l_id ` set (file_locations d))"
    and up: "upload_file x secret reg pid name ct data meta d w = (Inr res, d', w')"
    and new: "\<not> ur_is_duplicate res"
  obtains s b w1 l ref where
    "files d' = files d @ [ur_file res]" "f_id (ur_file res) \<notin> f_id ` set (files d)" "f_content_type (ur_file res) = ct"
    "s \<in> set (storage_list_for_project pid d)" "registry_contains (s_id s) reg"
    "fst (resolve_project_backend x secret d s pid w) = Some (Inr b)" "be_upload x b (l_storage_path l) data w1 = (Inr (), w')"
    "file_locations d' = file_locations d @ [l]" "l_file_id l = f_id (ur_file res)" "l_storage_id l = s_id s" "l_status l = ''synced''"
    "l_storage_path l = content_addressed_path (compute_sha256 x data)"
    "file_references d' = file_references d @ [ref]" "r_file_id ref = f_id (ur_file res)" "r_project_id ref = pid"
    "r_original_name ref = name" "storages d' = storages d" "projects d' = projects d" "project_storages d' = project_storages d"
proof -
  from up obtain fl is_new d1 primary d2 where
    c: "file_create_or_find \<lparr>cf_hash = compute_sha256 x data, cf_size = int (length data), cf_content_type = ct\<rparr> d =
       (Inr (fl, is_new), d1)"
    and pr: "find_primary_storage reg (storage_list_for_project pid d1) = Inr primary"
    and st: "is_new \<Longrightarrow> \<exists>b w1. get_project_backend x secret d1 primary pid w = (Inr b, w1) \<and>
       be_upload x b (content_addressed_path (compute_sha256 x data)) data w1 = (Inr (), w') \<and>
       create_primary_location (f_id fl) (s_id primary) (content_addressed_path (compute_sha256 x data)) d1 = (Inr (), d2)"
    and rr: "record_references_and_sync reg pid fl is_new primary name meta (storage_list_for_project pid d1) d2 = (Inr res, d')"
    by (rule upload_file_InrE) blast
  from rr obtain ref d3 src where res: "ur_file res = fl" "ur_is_duplicate res = (\<not> is_new)"
    and fr: "file_reference_create \<lparr>cr_file_id = f_id fl, cr_project_id = pid, cr_original_name = name, cr_metadata = meta\<rparr> d2 = (Inr ref, d3)"
    and sch: "schedule_syncs reg (f_id fl) src pid (l_storage_id ` set (file_location_find_all_for_file (f_id fl) d3))
       (storage_list_for_project pid d1) d3 = (ur_sync_tasks_created res, d')"
    by (rule record_references_and_sync_InrE) blast
  from new res have is_new: "is_new" by simp
  from c is_new have f: "f_content_type fl = ct" "f_id fl \<notin> f_id ` set (files d)" "d1 = (draw d)\<lparr>files := files d @ [fl]\<rparr>"
    by (auto elim: file_create_or_find_cases)
  from st [OF is_new] obtain b w1 where g: "get_project_backend x secret d1 primary pid w = (Inr b, w1)"
    and u: "be_upload x b (content_addressed_path (compute_sha256 x data)) data w1 = (Inr (), w')"
    and cl: "create_primary_location (f_id fl) (s_id primary) (content_addressed_path (compute_sha256 x data)) d1 = (Inr (), d2)"
    by blast
  have ld: "file_locations d1 = file_locations d" by (simp add: f(3))
  have "f_id fl \<notin> l_file_id ` set (file_locations d1)"
    using schema_okD(6) [OF ok] f(2) by (auto simp: file_locations_ok_def ld)
  moreover have "fresh_id d1 \<notin> l_id ` set (file_locations d1)"
    using supply_fresh_later [OF fresh, of "Suc (gpos d)"] by (simp add: f(3) fresh_id_def)
  ultimately obtain l where l: "l_file_id l = f_id fl" "l_storage_id l = s_id primary"
    "l_storage_path l = content_addressed_path (compute_sha256 x data)" "l_status l = ''synced''"
    "d2 = (draw d1)\<lparr>file_locations := file_locations d @ [l]\<rparr>"
    using create_primary_location_new [OF cl] ld by metis
  from g have rb: "fst (resolve_project_backend x secret d primary pid w) = Some (Inr b)"
    using resolve_project_backend_fst_cong [of d1 d x secret primary pid w w]
    by (auto simp: get_project_backend_def f(3) split: prod.splits option.splits)
  have ss: "storage_list_for_project pid d1 = storage_list_for_project pid d"
    by (rule storage_list_for_project_cong) (simp_all add: f(3))
  have d': "d' = snd (schedule_syncs reg (f_id fl) src pid (l_storage_id ` set (file_location_find_all_for_file (f_id fl) d3))
       (storage_list_for_project pid d1) d3)" by (simp add: sch)
  note frc = file_reference_create_Inr [OF fr]
  show ?thesis
    by (rule that [of primary b l w1 ref])
      (use f l u rb frc find_primary_storage_Inr [OF pr] ss in \<open>simp_all add: d' res(1)\<close>)
qed

lemma find_for_file_single:
  assumes "filter (\<lambda>l. l_file_id l = fid) (file_locations d) = [l]" and "l_status l = ''synced''"
    and "storage_find_by_id (l_storage_id l) d = Inr s" and "s_enabled s"
  shows "file_location_find_for_file fid d = [l]"
proof -
  have "location_enabled d l" using assms(3,4)
    by (simp add: location_enabled_def location_storage_def storage_find_by_id_def ok_or_def split: option.splits)
  moreover have "filter (\<lambda>l. l_file_id l = fid \<and> location_enabled d l \<and> l_status l = ''synced'') (file_locations d) =
      filter (\<lambda>l. location_enabled d l \<and> l_status l = ''synced'') (filter (\<lambda>l. l_file_id l = fid) (file_locations d))"
    by (simp add: conj_ac)
  ultimately show ?thesis using assms(1,2)
    by (simp add: file_location_find_for_file_def order_desc_def order_desc_nulls_last_def)
qed

text \<open>What a download, or the worker that copies the file, finds after the upload.\<close>

lemma uploaded_fileE:
  assumes ok: "schema_ok d" and fresh: "supply_fresh d (l_id ` set (file_locations d))"
    and up: "upload_file x secret reg pid name ct data meta d w = (Inr res, d', w')"
    and new: "\<not> ur_is_duplicate res"
  obtains s b w1 l ref where
    "file_find_by_id (f_id (ur_file res)) d' = Inr (ur_file res)" "f_content_type (ur_file res) = ct"
    "filter (\<lambda>l. l_file_id l = f_id (ur_file res)) (file_locations d') = [l]" "l_status l = ''synced''"
    "l_storage_path l = content_addressed_path (compute_sha256 x data)"
    "file_reference_find_by_file_id (f_id (ur_file res)) d' = [ref]" "r_project_id ref = pid" "r_original_name ref = name"
    "storage_find_by_id (l_storage_id l) d' = Inr s" "s_id s = l_storage_id l" "s_enabled s"
    "\<And>w. fst (resolve_project_backend x secret d' s pid w) = Some (Inr b)" "be_upload x b (l_storage_path l) data w1 = (Inr (), w')"
proof -
  from assms obtain s b w1 l ref where
    fs: "files d' = files d @ [ur_file res]" "f_id (ur_file res) \<notin> f_id ` set (files d)" "f_content_type (ur_file res) = ct"
    and s: "s \<in> set (storage_list_for_project pid d)"
    and rb: "fst (resolve_project_backend x secret d s pid w) = Some (Inr b)"
    and u: "be_upload x b (l_storage_path l) data w1 = (Inr (), w')"
    and ls: "file_locations d' = file_locations d @ [l]" "l_file_id l = f_id (ur_file res)" "l_storage_id l = s_id s" "l_status l = ''synced''"
    and pa: "l_storage_path l = content_addressed_path (compute_sha256 x data)"
    and rs: "file_references d' = file_references d @ [ref]" "r_file_id ref = f_id (ur_file res)" "r_project_id ref = pid" "r_original_name ref = name"
    and fr: "storages d' = storages d" "projects d' = projects d" "project_storages d' = project_storages d"
    by (rule upload_file_newE) blast
  let ?fid = "f_id (ur_file res)"
  from s have smem: "s \<in> set (storages d)" "s_enabled s" by (auto simp: storage_list_for_project_def)
  have find: "storage_find_by_id (s_id s) d' = Inr s"
    using storage_find_by_id_unique [OF _ smem(1)] schema_okD(2) [OF ok] by (simp add: storage_find_by_id_def fr)
  have "\<forall>l \<in> set (file_locations d). l_file_id l \<noteq> ?fid"
    using schema_okD(6) [OF ok] fs(2) unfolding file_locations_ok_def by metis
  then have locs: "filter (\<lambda>l. l_file_id l = ?fid) (file_locations d') = [l]" using ls by (simp add: filter_empty_conv)
  have "\<forall>r \<in> set (file_references d). r_file_id r \<noteq> ?fid"
    using schema_okD(5) [OF ok] fs(2) unfolding file_references_ok_def by metis
  then have "filter (\<lambda>r. r_file_id r = ?fid) (file_references d) = []" by (simp add: filter_empty_conv)
  then have refs: "file_reference_find_by_file_id ?fid d' = [ref]"
    by (simp add: file_reference_find_by_file_id_def rs)
  have "find (\<lambda>f. f_id f = ?fid) (files d) = None" using fs(2) by (auto simp: find_None_all intro: image_memI)
  then have ff: "file_find_by_id ?fid d' = Inr (ur_file res)"
    by (simp add: file_find_by_id_def fs(1) find_append ok_or_def)
  have bk: "fst (resolve_project_backend x secret d' s pid v) = Some (Inr b)" for v
    using rb resolve_project_backend_fst_cong [of d' d x secret s pid v w] fr by simp
  show ?thesis
    by (rule that [OF ff fs(3) locs ls(4) pa refs rs(3,4) _ _ smem(2) bk u]) (simp_all only: ls(3) find)
qed

text \<open>The download of a file with one usable location and one reference.\<close>

lemma download_one_location:
  assumes "file_find_by_id fid d = Inr fl" and "file_location_find_for_file fid d = [l]" and "file_reference_find_by_file_id fid d = [ref]"
    and "storage_find_by_id (l_storage_id l) d = Inr s"
    and "fst (resolve_project_backend x secret d s (r_project_id ref) w) = Some (Inr b)"
    and "be_download x b (l_storage_path l) w = Inr data" and "\<And>b. containers_keep_data x b"
  shows "\<exists>d' w'. download_file x secret reg fid d w = (Inr \<lparr>dr_data = data, dr_file = fl, dr_content_type = f_content_type fl,
     dr_original_name = Some (r_original_name ref)\<rparr>, d', w')"
proof -
  have "be_download x b (l_storage_path l) (snd (resolve_project_backend x secret d s (r_project_id ref) w)) = Inr data"
    using resolve_project_backend_reads [OF assms(7)] assms(6) by metis
  then show ?thesis using resolve_backends_single [OF assms(4,5), of reg] by (simp add: download_file_def assms(1-3) head_opt_def)
qed

text \<open>
  C1: an uploaded file can be read back. When the upload of new contents succeeds, an immediate
  download of the returned file yields exactly the uploaded bytes with the declared content type and
  the original name, for every backend that returns what was written to it and keeps its objects when
  a container is created, which the local disk does.
\<close>

theorem upload_download_roundtrip:
  assumes "schema_ok d" and "supply_fresh d (l_id ` set (file_locations d))"
    and "\<And>b. reads_back x b" and "\<And>b. containers_keep_data x b"
    and "upload_file x secret reg pid name ct data meta d w = (Inr res, d', w')" and "\<not> ur_is_duplicate res"
  shows "\<exists>dl d'' w''. download_file x secret reg (f_id (ur_file res)) d' w' = (Inr dl, d'', w'') \<and>
    dr_data dl = data \<and> dr_file dl = ur_file res \<and> dr_content_type dl = ct \<and> dr_original_name dl = Some name"
proof -
  from assms(1,2,5,6) obtain s b w1 l ref where f: "file_find_by_id (f_id (ur_file res)) d' = Inr (ur_file res)"
    "f_content_type (ur_file res) = ct"
    and l: "filter (\<lambda>l. l_file_id l = f_id (ur_file res)) (file_locations d') = [l]" "l_status l = ''synced''"
    and r: "file_reference_find_by_file_id (f_id (ur_file res)) d' = [ref]" "r_project_id ref = pid" "r_original_name ref = name"
    and s: "storage_find_by_id (l_storage_id l) d' = Inr s" "s_id s = l_storage_id l" "s_enabled s"
    and b: "\<And>w. fst (resolve_project_backend x secret d' s pid w) = Some (Inr b)" and u: "be_upload x b (l_storage_path l) data w1 = (Inr (), w')"
    by (rule uploaded_fileE) blast
  have data: "be_download x b (l_storage_path l) w' = Inr data" using assms(3) u by (auto simp: reads_back_def)
  from download_one_location [OF f(1) find_for_file_single [OF l s(1,3)] r(1) s(1) _ data assms(4), of secret reg] r(2,3) f(2) b [of w']
  show ?thesis by auto
qed

text \<open>The two storages of the sample database as registered backends, on an empty disk.\<close>

definition demo_registry :: registry where
  "demo_registry = [3 \<mapsto> LocalDisk \<lparr>lb_base = ''/data'', lb_hmac_secret = ''k''\<rparr>,
                    4 \<mapsto> LocalDisk \<lparr>lb_base = ''/data'', lb_hmac_secret = ''k''\<rparr>]"

definition demo_phys :: "unit phys" where
  "demo_phys = \<lparr>ph_fs = [], ph_net = ()\<rparr>"

lemma demo_upload_runs:
  "case upload_file demo_env ''k'' demo_registry 2 ''b.txt'' ''text/plain'' [1, 2, 3] (JObj []) demo_db demo_phys of
     (Inr res, d', w') \<Rightarrow> \<not> ur_is_duplicate res | _ \<Rightarrow> False"
  by code_simp

lemma reads_back_demo: "reads_back demo_env b"
proof (cases b)
  case (LocalDisk lb)
  then show ?thesis by simp
qed (simp_all add: reads_back_def be_upload_def demo_env_def)

lemma containers_demo: "containers_keep_data demo_env b"
proof -
  have upd: "w\<lparr>ph_net := n\<rparr> = w" for w :: "unit phys" and n by (cases w) simp
  have "snd (be_create_container demo_env b name w) = w" for name w
    by (simp add: be_create_container_def upd split: prod.split)
  then show ?thesis by (simp add: containers_keep_data_def)
qed

theorem upload_download_roundtrip_witness:
  "\<exists>res d' w' dl d'' w''.
     upload_file demo_env ''k'' demo_registry 2 ''b.txt'' ''text/plain'' [1, 2, 3] (JObj []) demo_db demo_phys = (Inr res, d', w') \<and>
     download_file demo_env ''k'' demo_registry (f_id (ur_file res)) d' w' = (Inr dl, d'', w'') \<and> dr_data dl = [1, 2, 3]"
proof -
  obtain res d' w' where up: "upload_file demo_env ''k'' demo_registry 2 ''b.txt'' ''text/plain'' [1, 2, 3] (JObj [])
      demo_db demo_phys = (Inr res, d', w')" "\<not> ur_is_duplicate res"
    using demo_upload_runs by (auto split: prod.splits sum.splits)
  have "supply_fresh demo_db (l_id ` set (file_locations demo_db))" by (rule supply_fresh_demo) (auto simp: demo_defs)
  from upload_download_roundtrip [OF schema_ok_demo this reads_back_demo containers_demo up]
  show ?thesis using up by blast
qed

section \<open>Duplicates\<close>

text \<open>
  uploading known contents writes nothing. When the hash is known, the call touches neither the
  storages nor the file and location rows; it adds one reference of the project to the known file.
\<close>

theorem upload_duplicate_shares:
  assumes "upload_file x secret reg pid name ct data meta d w = (Inr res, d', w')"
    and "f \<in> set (files d)" and "f_hash f = compute_sha256 x data" and "schema_ok d"
  shows "ur_is_duplicate res \<and> ur_file res = f \<and> w' = w \<and> files d' = files d \<and> file_locations d' = file_locations d \<and>
    (\<exists>ref. file_references d' = file_references d @ [ref] \<and> r_file_id ref = f_id f \<and> r_project_id ref = pid \<and>
       r_original_name ref = name \<and> r_metadata ref = meta)"
proof -
  from assms(1) obtain fl is_new d1 primary d2 where
    c: "file_create_or_find \<lparr>cf_hash = compute_sha256 x data, cf_size = int (length data), cf_content_type = ct\<rparr> d =
       (Inr (fl, is_new), d1)"
    and old: "\<not> is_new \<Longrightarrow> d2 = d1 \<and> w' = w"
    and rr: "record_references_and_sync reg pid fl is_new primary name meta (storage_list_for_project pid d1) d2 = (Inr res, d')"
    by (rule upload_file_InrE) blast
  from rr obtain ref d3 src where res: "ur_file res = fl" "ur_is_duplicate res = (\<not> is_new)"
    and fr: "file_reference_create \<lparr>cr_file_id = f_id fl, cr_project_id = pid, cr_original_name = name, cr_metadata = meta\<rparr> d2 = (Inr ref, d3)"
    and sch: "schedule_syncs reg (f_id fl) src pid (l_storage_id ` set (file_location_find_all_for_file (f_id fl) d3))
       (storage_list_for_project pid d1) d3 = (ur_sync_tasks_created res, d')"
    by (rule record_references_and_sync_InrE) blast
  have "distinct (map f_hash (files d))" using schema_okD(4) [OF assms(4)] by (simp add: files_ok_def)
  then have "find (\<lambda>g. f_hash g = compute_sha256 x data) (files d) = Some f"
    using find_by_key [of f_hash "files d" f] assms(2,3) by simp
  with c have eq: "fl = f" "\<not> is_new" "d1 = d" by (auto simp: file_create_or_find_def file_find_by_hash_def)
  have d': "d' = snd (schedule_syncs reg (f_id fl) src pid (l_storage_id ` set (file_location_find_all_for_file (f_id fl) d3))
       (storage_list_for_project pid d1) d3)" by (simp add: sch)
  show ?thesis using eq old res file_reference_create_Inr [OF fr] by (simp add: d')
qed

lemma demo_duplicate_runs:
  "case upload_file (demo_env\<lparr>x_sha256 := (\<lambda>_. [0xAB, 0xCD, 0xEF])\<rparr>) ''k'' demo_registry 2 ''b.txt'' ''text/plain'' [1]
       (JObj []) demo_db demo_phys of
     (Inr res, d', w') \<Rightarrow> True | _ \<Rightarrow> False"
  by code_simp

theorem upload_duplicate_shares_witness:
  "\<exists>res d' w'. upload_file (demo_env\<lparr>x_sha256 := (\<lambda>_. [0xAB, 0xCD, 0xEF])\<rparr>) ''k'' demo_registry 2 ''b.txt'' ''text/plain'' [1]
       (JObj []) demo_db demo_phys = (Inr res, d', w') \<and> ur_is_duplicate res \<and> w' = demo_phys"
proof -
  obtain res d' w' where up: "upload_file (demo_env\<lparr>x_sha256 := (\<lambda>_. [0xAB, 0xCD, 0xEF])\<rparr>) ''k'' demo_registry 2 ''b.txt''
      ''text/plain'' [1] (JObj []) demo_db demo_phys = (Inr res, d', w')"
    using demo_duplicate_runs by (auto split: prod.splits sum.splits)
  have "compute_sha256 (demo_env\<lparr>x_sha256 := (\<lambda>_. [0xAB, 0xCD, 0xEF])\<rparr>) [1] = f_hash demo_file" by code_simp
  with upload_duplicate_shares [OF up, of demo_file] schema_ok_demo up show ?thesis by (auto simp: demo_db_def)
qed

section \<open>The schema constraints are kept\<close>

lemma create_primary_location_schema:
  assumes "schema_ok d"
  shows "schema_ok (snd (create_primary_location fid sid path d))"
proof -
  let ?c = "\<lparr>cl_file_id = fid, cl_storage_id = sid, cl_storage_path = path, cl_status = ''synced''\<rparr>"
  have "snd (create_primary_location fid sid path d) = snd (file_location_create ?c d)"
    by (auto simp: create_primary_location_def split: prod.splits sum.splits app_error.splits)
  with file_location_create_schema [OF assms] show ?thesis by metis
qed

lemma create_primary_location_files [simp]: "files (snd (create_primary_location fid sid path d)) = files d"
  by (simp add: create_primary_location_def file_location_create_def Let_def)

lemma record_references_and_sync_snd:
  "snd (record_references_and_sync reg pid fl is_new primary name meta ss d) = d1 \<Longrightarrow> schema_ok d \<Longrightarrow>
     schema_ok d1 \<and> files d1 = files d"
proof -
  assume d1: "snd (record_references_and_sync reg pid fl is_new primary name meta ss d) = d1" and ok: "schema_ok d"
  let ?cr = "\<lparr>cr_file_id = f_id fl, cr_project_id = pid, cr_original_name = name, cr_metadata = meta\<rparr>"
  obtain r d0 where c: "file_reference_create ?cr d = (r, d0)" by fastforce
  then have "schema_ok d0" "files d0 = files d" using file_reference_create_schema [OF ok, of ?cr]
    by (auto simp: file_reference_create_def Let_def split: if_splits)
  with d1 c show ?thesis
    by (cases r) (auto simp: record_references_and_sync_def split_beta Let_def schedule_syncs_schema)
qed

lemma upload_file_keeps:
  assumes ok: "schema_ok d" and up: "upload_file x secret reg pid name ct data meta d w = (r, d', w')"
  shows "schema_ok d' \<and> files d' =
    files (snd (file_create_or_find \<lparr>cf_hash = compute_sha256 x data, cf_size = int (length data), cf_content_type = ct\<rparr> d))"
proof -
  let ?cf = "\<lparr>cf_hash = compute_sha256 x data, cf_size = int (length data), cf_content_type = ct\<rparr>"
  let ?path = "content_addressed_path (compute_sha256 x data)"
  obtain r0 d1 where c: "file_create_or_find ?cf d = (r0, d1)" by fastforce
  have ok1: "schema_ok d1" using file_create_or_find_schema [OF ok, of ?cf] c by simp
  show ?thesis
  proof (cases r0)
    case (Inl e)
    with c up ok1 show ?thesis by (simp add: upload_file_def Let_def)
  next
    case (Inr p)
    obtain fl is_new where p: "p = (fl, is_new)" by fastforce
    let ?ss = "storage_list_for_project pid d1"
    show ?thesis
    proof (cases "?ss = [] \<or> (\<exists>e. find_primary_storage reg ?ss = Inl e)")
      case True
      then consider "?ss = []" | e where "?ss \<noteq> []" "find_primary_storage reg ?ss = Inl e" by blast
      then show ?thesis by cases (use c Inr p up ok1 in \<open>simp_all add: upload_file_def Let_def\<close>)
    next
      case False
      then obtain primary where pr: "?ss \<noteq> []" "find_primary_storage reg ?ss = Inr primary"
        by (cases "find_primary_storage reg ?ss") auto
      let ?d2 = "snd (create_primary_location (f_id fl) (s_id primary) ?path d1)"
      have ok2: "schema_ok ?d2" by (rule create_primary_location_schema) (rule ok1)
      consider "d' = d1" | "d' = ?d2"
        | "snd (record_references_and_sync reg pid fl is_new primary name meta ?ss d1) = d'"
        | "snd (record_references_and_sync reg pid fl is_new primary name meta ?ss ?d2) = d'"
        using c Inr p up pr
        by (auto simp: upload_file_def Let_def split: if_splits prod.splits sum.splits)
      then show ?thesis
      proof cases
        case 3
        from record_references_and_sync_snd [OF this ok1] c show ?thesis by simp
      next
        case 4
        from record_references_and_sync_snd [OF this ok2] c show ?thesis by simp
      qed (use c ok1 ok2 in simp_all)
    qed
  qed
qed

text \<open>
  C4: a failed first upload cannot be repaired by repeating it. The file row is written before the
  storages are used, so when the first upload of some contents fails without recording a location, every
  later upload of them that succeeds counts as a duplicate, stores nothing, and the file cannot be
  downloaded as long as no location is added by other means.
\<close>

theorem failed_upload_poisons_hash:
  assumes ok: "schema_ok d" and fresh: "supply_fresh d (f_id ` set (files d))"
    and new: "compute_sha256 x data \<notin> f_hash ` set (files d)"
    and first: "upload_file x secret reg pid name ct data meta d w = (Inl e, d1, w1)" "file_locations d1 = file_locations d"
    and retry: "upload_file x secret reg' pid' name' ct' data meta' d1 w2 = (Inr res, d3, w3)"
  shows "ur_is_duplicate res \<and> w3 = w2 \<and>
    download_file x secret reg' (f_id (ur_file res)) d3 w3 =
      (Inl (NotFound (''No available storage locations for file '' @ uuid_str (f_id (ur_file res)))), d3, w3)"
proof -
  let ?cf = "\<lparr>cf_hash = compute_sha256 x data, cf_size = int (length data), cf_content_type = ct\<rparr>"
  have nf: "find (\<lambda>f. f_hash f = compute_sha256 x data) (files d) = None"
    using new by (auto simp: find_None_all intro: image_memI)
  have "fresh_id d \<notin> f_id ` set (files d)" using fresh by (rule supply_fresh_notin)
  with nf new obtain f where f: "f_hash f = compute_sha256 x data" "f_id f \<notin> f_id ` set (files d)"
    and c: "file_create_or_find ?cf d = (Inr (f, True), (draw d)\<lparr>files := files d @ [f]\<rparr>)"
    by (simp add: file_create_or_find_def file_create_def Let_def file_find_by_hash_def)
  from upload_file_keeps [OF ok first(1)] have ok1: "schema_ok d1" and mem: "f \<in> set (files d1)" by (simp_all add: c)
  note dup = upload_duplicate_shares [OF retry mem f(1) ok1]
  have "file_locations d3 = file_locations d" using dup first(2) by simp
  then have "\<forall>l \<in> set (file_locations d3). l_file_id l \<noteq> f_id f"
    using schema_okD(6) [OF ok] f(2) unfolding file_locations_ok_def by metis
  then have "filter (\<lambda>l. l_file_id l = f_id f \<and> P l) (file_locations d3) = []" for P by (simp add: filter_empty_conv)
  then have "file_location_find_for_file (f_id f) d3 = []"
    by (simp add: file_location_find_for_file_def order_desc_def order_desc_nulls_last_def)
  moreover have "distinct (map f_id (files d1))" using schema_okD(4) [OF ok1] by (simp add: files_ok_def)
  then have "file_find_by_id (f_id f) d3 = Inr f"
    using mem dup by (simp add: file_find_by_id_def find_by_key ok_or_def)
  ultimately show ?thesis using dup by (simp add: download_file_def)
qed

lemma demo_poison_runs:
  "case upload_file demo_env ''k'' demo_registry 77 ''b'' ''t'' [1, 2, 3] (JObj []) demo_db demo_phys of
     (Inl e, d1, w1) \<Rightarrow> file_locations d1 = file_locations demo_db \<and>
       (case upload_file demo_env ''k'' demo_registry 2 ''b'' ''t'' [1, 2, 3] (JObj []) d1 demo_phys of
          (Inr res, d3, w3) \<Rightarrow> True | _ \<Rightarrow> False)
   | _ \<Rightarrow> False"
  by code_simp

theorem failed_upload_poisons_hash_witness:
  "\<exists>e d1 w1 res d3 w3.
     upload_file demo_env ''k'' demo_registry 77 ''b'' ''t'' [1, 2, 3] (JObj []) demo_db demo_phys = (Inl e, d1, w1) \<and>
     upload_file demo_env ''k'' demo_registry 2 ''b'' ''t'' [1, 2, 3] (JObj []) d1 demo_phys = (Inr res, d3, w3) \<and>
     ur_is_duplicate res \<and> w3 = demo_phys"
proof -
  obtain e d1 w1 res d3 w3 where r:
    "upload_file demo_env ''k'' demo_registry 77 ''b'' ''t'' [1, 2, 3] (JObj []) demo_db demo_phys = (Inl e, d1, w1)"
    "file_locations d1 = file_locations demo_db"
    "upload_file demo_env ''k'' demo_registry 2 ''b'' ''t'' [1, 2, 3] (JObj []) d1 demo_phys = (Inr res, d3, w3)"
    using demo_poison_runs by (auto split: prod.splits sum.splits)
  have fr: "supply_fresh demo_db (f_id ` set (files demo_db))" by (rule supply_fresh_demo) (auto simp: demo_defs)
  have "compute_sha256 demo_env [1, 2, 3] \<notin> f_hash ` set (files demo_db)" by code_simp
  from failed_upload_poisons_hash [OF schema_ok_demo fr this r] r show ?thesis by blast
qed

section \<open>Synchronisation is scheduled for every other storage\<close>

lemma sync_task_create_ok:
  assumes "supply_fresh d (t_id ` set (sync_tasks d))" and "fid \<in> f_id ` set (files d)" and "src \<in> s_id ` set (storages d)"
    and "target \<in> s_id ` set (storages d)" and "pid \<in> p_id ` set (projects d)"
  obtains t where
    "sync_task_create \<lparr>ct_file_id = fid, ct_source = src, ct_target = target, ct_project_id = Some pid\<rparr> d =
       (Inr t, (draw d)\<lparr>sync_tasks := sync_tasks d @ [t]\<rparr>)"
    "t_id t = fresh_id d" "t_file_id t = fid" "t_source t = src" "t_target t = target" "t_status t = ''pending''"
    "t_retries t = 0" "t_project_id t = Some pid"
proof -
  let ?t = "\<lparr>t_id = fresh_id d, t_file_id = fid, t_source = src, t_target = target, t_status = ''pending'',
    t_retries = 0, t_error_msg = None, t_retry_after = None, t_project_id = Some pid, t_created_at = now d, t_updated_at = now d\<rparr>"
  have "fresh_id d \<notin> t_id ` set (sync_tasks d)" using assms(1) by (rule supply_fresh_notin)
  with assms(2-) have "sync_task_create \<lparr>ct_file_id = fid, ct_source = src, ct_target = target, ct_project_id = Some pid\<rparr> d =
       (Inr ?t, (draw d)\<lparr>sync_tasks := sync_tasks d @ [?t]\<rparr>)"
    by (simp add: sync_task_create_def Let_def)
  then show ?thesis by (rule that) simp_all
qed

lemma schedule_syncs_exact:
  assumes "supply_fresh d (t_id ` set (sync_tasks d))" and "fid \<in> f_id ` set (files d)" and "src \<in> s_id ` set (storages d)"
    and "s_id ` set ss \<subseteq> s_id ` set (storages d)" and "pid \<in> p_id ` set (projects d)"
  shows "\<exists>ts. fst (schedule_syncs reg fid src pid ex ss d) = length ts \<and>
    sync_tasks (snd (schedule_syncs reg fid src pid ex ss d)) = sync_tasks d @ ts \<and>
    map t_target ts = map s_id (filter (needs_sync reg src ex) ss) \<and>
    (\<forall>t \<in> set ts. t_file_id t = fid \<and> t_source t = src \<and> t_status t = ''pending'' \<and> t_retries t = 0 \<and> t_project_id t = Some pid)"
  using assms
proof (induction ss arbitrary: d)
  case (Cons s ss)
  show ?case
  proof (cases "needs_sync reg src ex s")
    case True
    obtain t where c: "sync_task_create \<lparr>ct_file_id = fid, ct_source = src, ct_target = s_id s, ct_project_id = Some pid\<rparr> d =
       (Inr t, (draw d)\<lparr>sync_tasks := sync_tasks d @ [t]\<rparr>)"
      and t: "t_id t = fresh_id d" "t_file_id t = fid" "t_source t = src" "t_target t = s_id s" "t_status t = ''pending''"
        "t_retries t = 0" "t_project_id t = Some pid"
      using Cons.prems by (elim sync_task_create_ok [of d fid src "s_id s" pid]) auto
    let ?d1 = "(draw d)\<lparr>sync_tasks := sync_tasks d @ [t]\<rparr>"
    have "supply_fresh (draw d) (t_id ` set (sync_tasks ?d1))"
      using supply_fresh_draw [OF Cons.prems(1)] t(1) by simp
    then have "supply_fresh ?d1 (t_id ` set (sync_tasks ?d1))" by (rule supply_fresh_cong) simp_all
    then obtain ts where "fst (schedule_syncs reg fid src pid ex ss ?d1) = length ts"
      "sync_tasks (snd (schedule_syncs reg fid src pid ex ss ?d1)) = sync_tasks ?d1 @ ts"
      "map t_target ts = map s_id (filter (needs_sync reg src ex) ss)"
      "\<forall>t \<in> set ts. t_file_id t = fid \<and> t_source t = src \<and> t_status t = ''pending'' \<and> t_retries t = 0 \<and> t_project_id t = Some pid"
      using Cons.IH [of ?d1] Cons.prems by auto
    with True c t show ?thesis by (intro exI [of _ "t # ts"]) (simp add: split_beta)
  qed (use Cons in simp)
qed simp

lemma storage_list_for_project_mem:
  "s \<in> set (storage_list_for_project pid d) \<Longrightarrow> s \<in> set (storages d) \<and> s_enabled s"
  by (auto simp: storage_list_for_project_def)

text \<open>What the first upload of a file hands to the loop that queues its copies.\<close>

lemma upload_schedulesE:
  assumes ok: "schema_ok d"
    and fresh: "supply_fresh d (l_id ` set (file_locations d) \<union> t_id ` set (sync_tasks d))"
    and up: "upload_file x secret reg pid name ct data meta d w = (Inr res, d', w')" and new: "\<not> ur_is_duplicate res"
  obtains primary d3 where "primary \<in> set (storage_list_for_project pid d)" "registry_contains (s_id primary) reg"
    "schedule_syncs reg (f_id (ur_file res)) (s_id primary) pid {s_id primary} (storage_list_for_project pid d) d3 =
       (ur_sync_tasks_created res, d')"
    "sync_tasks d3 = sync_tasks d" "storages d3 = storages d" "supply_fresh d3 (t_id ` set (sync_tasks d3))"
    "f_id (ur_file res) \<in> f_id ` set (files d3)" "pid \<in> p_id ` set (projects d3)"
proof -
  from up obtain fl is_new d1 primary d2 where
    c: "file_create_or_find \<lparr>cf_hash = compute_sha256 x data, cf_size = int (length data), cf_content_type = ct\<rparr> d =
       (Inr (fl, is_new), d1)"
    and pr: "find_primary_storage reg (storage_list_for_project pid d1) = Inr primary"
    and st: "is_new \<Longrightarrow> \<exists>b w1. get_project_backend x secret d1 primary pid w = (Inr b, w1) \<and>
       be_upload x b (content_addressed_path (compute_sha256 x data)) data w1 = (Inr (), w') \<and>
       create_primary_location (f_id fl) (s_id primary) (content_addressed_path (compute_sha256 x data)) d1 = (Inr (), d2)"
    and rr: "record_references_and_sync reg pid fl is_new primary name meta (storage_list_for_project pid d1) d2 = (Inr res, d')"
    by (rule upload_file_InrE) blast
  from rr obtain ref d3 src where res: "ur_file res = fl" "ur_is_duplicate res = (\<not> is_new)"
    and fr: "file_reference_create \<lparr>cr_file_id = f_id fl, cr_project_id = pid, cr_original_name = name, cr_metadata = meta\<rparr> d2 = (Inr ref, d3)"
    and src: "is_new \<Longrightarrow> src = s_id primary"
    and sch: "schedule_syncs reg (f_id fl) src pid (l_storage_id ` set (file_location_find_all_for_file (f_id fl) d3))
       (storage_list_for_project pid d1) d3 = (ur_sync_tasks_created res, d')"
    by (rule record_references_and_sync_InrE) blast
  from new res have is_new: "is_new" by simp
  from c is_new have f: "f_id fl \<notin> f_id ` set (files d)" "d1 = (draw d)\<lparr>files := files d @ [fl]\<rparr>"
    by (auto elim: file_create_or_find_cases)
  have cl: "create_primary_location (f_id fl) (s_id primary) (content_addressed_path (compute_sha256 x data)) d1 = (Inr (), d2)"
    using st [OF is_new] by blast
  have nol: "\<forall>l \<in> set (file_locations d1). l_file_id l \<noteq> f_id fl"
    using schema_okD(6) [OF ok] f unfolding file_locations_ok_def by (simp add: f(2)) metis
  then have "f_id fl \<notin> l_file_id ` set (file_locations d1)" by auto
  moreover have "fresh_id d1 \<notin> l_id ` set (file_locations d1)"
    using supply_fresh_later [OF fresh, of "Suc (gpos d)"] by (simp add: f(2) fresh_id_def)
  ultimately obtain l where l: "l_file_id l = f_id fl" "l_storage_id l = s_id primary"
    "d2 = (draw d1)\<lparr>file_locations := file_locations d1 @ [l]\<rparr>"
    using create_primary_location_new [OF cl] by metis
  note frc = file_reference_create_Inr [OF fr]
  have ss: "storage_list_for_project pid d1 = storage_list_for_project pid d"
    by (rule storage_list_for_project_cong) (simp_all add: f(2))
  have "filter (\<lambda>y. l_file_id y = f_id fl) (file_locations d1) = []" using nol by (simp add: filter_empty_conv)
  then have ex: "l_storage_id ` set (file_location_find_all_for_file (f_id fl) d3) = {s_id primary}"
    using frc l by (simp add: file_location_find_all_for_file_def)
  have "supply_fresh d (t_id ` set (sync_tasks d))" using fresh by (auto simp: supply_fresh_def)
  then have fr3: "supply_fresh d3 (t_id ` set (sync_tasks d))"
    by (rule supply_fresh_cong) (use frc in \<open>simp_all add: l(3) f(2)\<close>)
  show ?thesis
    by (rule that [of primary d3])
      (use find_primary_storage_Inr [OF pr] ss sch ex src [OF is_new] fr3 frc in \<open>simp_all add: l(3) f(2) res(1)\<close>)
qed

text \<open>
  C3: after the first upload of a file there is exactly one new pending task for every other
  registered storage of the project, each copying from the primary storage, and none else; the
  returned count is their number.
\<close>

theorem upload_schedules_all_storages:
  assumes ok: "schema_ok d"
    and fresh: "supply_fresh d (l_id ` set (file_locations d) \<union> t_id ` set (sync_tasks d))"
    and up: "upload_file x secret reg pid name ct data meta d w = (Inr res, d', w')" and new: "\<not> ur_is_duplicate res"
  shows "\<exists>primary ts. primary \<in> set (storage_list_for_project pid d) \<and> registry_contains (s_id primary) reg \<and>
    sync_tasks d' = sync_tasks d @ ts \<and> length ts = ur_sync_tasks_created res \<and>
    map t_target ts = map s_id (filter (\<lambda>s. s_id s \<noteq> s_id primary \<and> registry_contains (s_id s) reg) (storage_list_for_project pid d)) \<and>
    (\<forall>t \<in> set ts. t_file_id t = f_id (ur_file res) \<and> t_source t = s_id primary \<and> t_status t = ''pending'' \<and>
       t_retries t = 0 \<and> t_project_id t = Some pid)"
proof -
  let ?ss = "storage_list_for_project pid d"
  from assms obtain primary d3 where pm: "primary \<in> set ?ss" "registry_contains (s_id primary) reg"
    and sch: "schedule_syncs reg (f_id (ur_file res)) (s_id primary) pid {s_id primary} ?ss d3 = (ur_sync_tasks_created res, d')"
    and d3: "sync_tasks d3 = sync_tasks d" "storages d3 = storages d" and fr3: "supply_fresh d3 (t_id ` set (sync_tasks d3))"
    and ids: "f_id (ur_file res) \<in> f_id ` set (files d3)" "pid \<in> p_id ` set (projects d3)"
    by (rule upload_schedulesE) blast
  have ns: "needs_sync reg (s_id primary) {s_id primary} = (\<lambda>s. s_id s \<noteq> s_id primary \<and> registry_contains (s_id s) reg)"
    by (auto simp: needs_sync_def fun_eq_iff)
  have st: "s_id primary \<in> s_id ` set (storages d3)" "s_id ` set ?ss \<subseteq> s_id ` set (storages d3)"
    using pm(1) storage_list_for_project_mem d3(2) by auto
  from schedule_syncs_exact [OF fr3 ids(1) st ids(2), of reg "{s_id primary}", unfolded sch ns fst_conv snd_conv d3(1)]
  obtain ts where "ur_sync_tasks_created res = length ts" "sync_tasks d' = sync_tasks d @ ts"
    "map t_target ts = map s_id (filter (\<lambda>s. s_id s \<noteq> s_id primary \<and> registry_contains (s_id s) reg) ?ss)"
    "\<forall>t \<in> set ts. t_file_id t = f_id (ur_file res) \<and> t_source t = s_id primary \<and> t_status t = ''pending'' \<and>
       t_retries t = 0 \<and> t_project_id t = Some pid" by blast
  with pm show ?thesis by (intro exI [of _ primary] exI [of _ ts]) simp
qed

theorem upload_schedules_all_storages_witness:
  "\<exists>res d' w' primary ts.
     upload_file demo_env ''k'' demo_registry 2 ''b.txt'' ''text/plain'' [1, 2, 3] (JObj []) demo_db demo_phys = (Inr res, d', w') \<and>
     primary \<in> set (storage_list_for_project 2 demo_db) \<and> sync_tasks d' = sync_tasks demo_db @ ts \<and>
     length ts = ur_sync_tasks_created res"
proof -
  obtain res d' w' where up: "upload_file demo_env ''k'' demo_registry 2 ''b.txt'' ''text/plain'' [1, 2, 3] (JObj [])
      demo_db demo_phys = (Inr res, d', w')" "\<not> ur_is_duplicate res"
    using demo_upload_runs by (auto split: prod.splits sum.splits)
  have "supply_fresh demo_db (l_id ` set (file_locations demo_db) \<union> t_id ` set (sync_tasks demo_db))"
    by (rule supply_fresh_demo) (auto simp: demo_defs)
  from upload_schedules_all_storages [OF schema_ok_demo this up] show ?thesis using up by blast
qed

text \<open>
  projects do not share containers. The container names two different projects derive for their
  storages differ, whatever the storages, as long as neither assignment overrides the name.
\<close>

theorem containers_separate_projects:
  assumes "schema_ok d" and "p \<in> set (projects d)" and "q \<in> set (projects d)" and "p_id p \<noteq> p_id q"
    and "ps_container_override a \<in> {None, Some []}" and "ps_container_override b \<in> {None, Some []}"
  shows "effective_container p (Some a) \<noteq> effective_container q (Some b)"
proof
  assume eq: "effective_container p (Some a) = effective_container q (Some b)"
  have ec: "effective_container p (Some a) = p_slug p @ ''-'' @ take 6 (uuid_str (ps_id a))"
    "effective_container q (Some b) = p_slug q @ ''-'' @ take 6 (uuid_str (ps_id b))"
    using assms(5,6) by (auto simp: effective_container_def Let_def)
  with eq have "p_slug p = p_slug q" by simp
  moreover have "distinct (map p_slug (projects d))" using schema_okD(1) [OF assms(1)] by (simp add: projects_ok_def)
  ultimately have "p = q" using assms(2,3) by (metis distinct_key_unique)
  with assms(4) show False by simp
qed

theorem containers_separate_projects_witness:
  "effective_container demo_project (Some (demo_assignment 5 3)) \<noteq>
   effective_container (demo_project\<lparr>p_id := 11, p_slug := ''docs''\<rparr>) (Some (demo_assignment 6 3))"
proof -
  let ?ps = "[demo_project, demo_project\<lparr>p_id := 11, p_slug := ''docs''\<rparr>]"
  have "projects_ok (users demo_db) ?ps" by (simp add: projects_ok_def demo_defs)
  then have "schema_ok (demo_db\<lparr>projects := ?ps\<rparr>)"
    by (intro schema_ok_set_projects [OF schema_ok_demo]) (simp_all add: demo_db_def)
  from containers_separate_projects [OF this, of demo_project "demo_project\<lparr>p_id := 11, p_slug := ''docs''\<rparr>"
      "demo_assignment 5 3" "demo_assignment 6 3"]
  show ?thesis by (simp add: demo_project_def demo_assignment_def)
qed

end
