(* ===== verification/Sync_Worker.thy ===== *)
theory Sync_Worker
  imports File_Service
begin

text \<open>
  The synchronisation worker (\<open>src/workers/sync_worker.rs\<close>): one polling round claims up to 16 tasks,
  groups them by source, downloads each source once into a temporary file and uploads it to every
  target. The endless loop around a round, its sleeping and its shutdown are not modelled. A panic
  kills the worker: the first component of a result is then \<open>False\<close> and the remaining work of the
  round is not done. \<open>db_msg\<close> is the text of a database error, \<open>rename_ok\<close> says whether the temporary
  directory and the local storages share a file system.

  Shown: a round leaves none of its tasks in progress, a finished task leaves a synced location and
  the uploaded copy, and a batch whose first target is a local disk fails for every later target.
\<close>

record sync_cfg =
  sw_max_retries :: int
  sw_temp_dir :: path
  sw_secret :: string
  sw_rename_ok :: bool
  sw_db_msg :: "db_error \<Rightarrow> string"

section \<open>Operations\<close>

text \<open>The trait's default downloads and writes; the overrides stream the same bytes.\<close>

definition be_download_to_file ::
    "'w env \<Rightarrow> backend \<Rightarrow> string \<Rightarrow> path \<Rightarrow> 'w phys \<Rightarrow> unit app_result \<times> 'w phys" where
  "be_download_to_file x b path dst w =
     (case b of
        LocalDisk lb \<Rightarrow> (let (r, f) = local_download_to_file lb path dst (ph_fs w) in (r, w\<lparr>ph_fs := f\<rparr>))
      | _ \<Rightarrow> (case be_download x b path w of
                Inl e \<Rightarrow> (Inl e, w)
              | Inr data \<Rightarrow> (case fs_write dst data (ph_fs w) of
                   None \<Rightarrow> (Inl (Internal ''Failed to write download''), w)
                 | Some f \<Rightarrow> (Inr (), w\<lparr>ph_fs := f\<rparr>))))"

definition sync_resolve_backend ::
    "'w env \<Rightarrow> sync_cfg \<Rightarrow> registry \<Rightarrow> db \<Rightarrow> uuid \<Rightarrow> uuid option \<Rightarrow> 'w phys \<Rightarrow> backend app_result option \<times> 'w phys" where
  "sync_resolve_backend x c reg d sid pid w =
     (case pid of
        Some p \<Rightarrow>
          (case storage_find_by_id sid d of
             Inl e \<Rightarrow> (Some (Inl e), w)
           | Inr s \<Rightarrow> resolve_project_backend x (sw_secret c) d s p w)
      | None \<Rightarrow> (Some (registry_get sid reg), w))"

text \<open>Create or update the location of the file on the target.\<close>

definition record_synced_location :: "sync_task \<Rightarrow> string \<Rightarrow> db \<Rightarrow> unit app_result \<times> db" where
  "record_synced_location task storage_path d =
     (case file_location_create \<lparr>cl_file_id = t_file_id task, cl_storage_id = t_target task,
             cl_storage_path = storage_path, cl_status = ''synced''\<rparr> d of
        (Inr _, d1) \<Rightarrow> (Inr (), d1)
      | (Inl (Database e), d1) \<Rightarrow>
          (if is_unique_violation e
           then (case file_location_update_status_by_file_and_storage (t_file_id task) (t_target task) ''synced'' d1 of
                   (Inr _, d2) \<Rightarrow> (Inr (), d2)
                 | (Inl e2, d2) \<Rightarrow> (Inl e2, d2))
           else (Inl (Database e), d1))
      | (Inl e, d1) \<Rightarrow> (Inl e, d1))"

text \<open>The part of \<open>finalize_task\<close> that may fail: upload, then record the location.\<close>

definition push_to_target ::
    "'w env \<Rightarrow> sync_cfg \<Rightarrow> registry \<Rightarrow> sync_task \<Rightarrow> string \<Rightarrow> path \<Rightarrow> db \<Rightarrow> 'w phys \<Rightarrow>
     unit app_result option \<times> db \<times> 'w phys" where
  "push_to_target x c reg task storage_path temp d w =
     (case sync_resolve_backend x c reg d (t_target task) (t_project_id task) w of
        (None, w1) \<Rightarrow> (None, d, w1)
      | (Some (Inl e), w1) \<Rightarrow> (Some (Inl e), d, w1)
      | (Some (Inr b), w1) \<Rightarrow>
         (case be_upload_from_file x (sw_rename_ok c) b storage_path temp w1 of
            (Inl e, w2) \<Rightarrow> (Some (Inl e), d, w2)
          | (Inr _, w2) \<Rightarrow> (let (r, d1) = record_synced_location task storage_path d in (Some r, d1, w2))))"

definition finalize_task ::
    "'w env \<Rightarrow> sync_cfg \<Rightarrow> registry \<Rightarrow> sync_task \<Rightarrow> string \<Rightarrow> path \<Rightarrow> db \<Rightarrow> 'w phys \<Rightarrow> bool \<times> db \<times> 'w phys" where
  "finalize_task x c reg task storage_path temp d w =
     (case push_to_target x c reg task storage_path temp d w of
        (None, d1, w1) \<Rightarrow> (False, d1, w1)
      | (Some (Inr _), d1, w1) \<Rightarrow>
         (let d2 = snd (sync_task_update_status (t_id task) ''completed'' None d1);
              d3 = snd (sync_task_supersede_failed_for (t_file_id task) (t_target task) (t_id task) d2)
          in (True, snd (sync_task_release_lock (t_id task) d3), w1))
      | (Some (Inl e), d1, w1) \<Rightarrow>
         (let d2 = snd (sync_task_requeue_for_retry (t_id task) (display_error (sw_db_msg c) e) d1)
          in (True, snd (sync_task_release_lock (t_id task) d2), w1)))"

fun finalize_all ::
    "'w env \<Rightarrow> sync_cfg \<Rightarrow> registry \<Rightarrow> sync_task list \<Rightarrow> string \<Rightarrow> path \<Rightarrow> db \<Rightarrow> 'w phys \<Rightarrow> bool \<times> db \<times> 'w phys" where
  "finalize_all x c reg [] storage_path temp d w = (True, d, w)"
| "finalize_all x c reg (t # ts) storage_path temp d w =
     (case finalize_task x c reg t storage_path temp d w of
        (False, d1, w1) \<Rightarrow> (False, d1, w1)
      | (True, d1, w1) \<Rightarrow> finalize_all x c reg ts storage_path temp d1 w1)"

definition fail_all :: "sync_task list \<Rightarrow> string \<Rightarrow> db \<Rightarrow> db" where
  "fail_all batch msg d =
     fold (\<lambda>t d. snd (sync_task_release_lock (t_id t) (snd (sync_task_requeue_for_retry (t_id t) msg d)))) batch d"

text \<open>The shared download of a batch; the result is the storage path of the source.\<close>

definition download_source ::
    "'w env \<Rightarrow> sync_cfg \<Rightarrow> registry \<Rightarrow> sync_task \<Rightarrow> path \<Rightarrow> db \<Rightarrow> 'w phys \<Rightarrow> string app_result option \<times> 'w phys" where
  "download_source x c reg head temp d w =
     (case sync_resolve_backend x c reg d (t_source head) (t_project_id head) w of
        (None, w1) \<Rightarrow> (None, w1)
      | (Some (Inl e), w1) \<Rightarrow> (Some (Inl e), w1)
      | (Some (Inr b), w1) \<Rightarrow>
         (case find (\<lambda>l. l_storage_id l = t_source head) (file_location_find_all_for_file (t_file_id head) d) of
            None \<Rightarrow> (Some (Inl (NotFound (''Source file location not found for file '' @ uuid_str (t_file_id head) @
                        '' on storage '' @ uuid_str (t_source head)))), w1)
          | Some loc \<Rightarrow>
             (case be_download_to_file x b (l_storage_path loc) temp w1 of
                (Inl e, w2) \<Rightarrow> (Some (Inl e), w2)
              | (Inr _, w2) \<Rightarrow> (Some (Inr (l_storage_path loc)), w2))))"

definition remove_temp :: "path \<Rightarrow> 'w phys \<Rightarrow> 'w phys" where
  "remove_temp p w = (if fs_read p (ph_fs w) \<noteq> None then w\<lparr>ph_fs := fs_del p (ph_fs w)\<rparr> else w)"

definition process_batch ::
    "'w env \<Rightarrow> sync_cfg \<Rightarrow> registry \<Rightarrow> sync_task list \<Rightarrow> db \<Rightarrow> 'w phys \<Rightarrow> bool \<times> db \<times> 'w phys" where
  "process_batch x c reg batch d w =
     (case batch of
        [] \<Rightarrow> (True, d, w)
      | head # _ \<Rightarrow>
         (case create_dir_all (sw_temp_dir c) (ph_fs w) of
            None \<Rightarrow> (True, fail_all batch ''Failed to create sync temp dir'' d, w)
          | Some f0 \<Rightarrow>
             (let w0 = w\<lparr>ph_fs := f0\<rparr>;
                  temp = sw_temp_dir c @ [uuid_str (t_id head) @ ''.part'']
              in case download_source x c reg head temp d w0 of
                   (None, w1) \<Rightarrow> (False, d, w1)
                 | (Some (Inl e), w1) \<Rightarrow>
                    (True, fail_all batch (display_error (sw_db_msg c) e) d, remove_temp temp w1)
                 | (Some (Inr storage_path), w1) \<Rightarrow>
                    (case finalize_all x c reg batch storage_path temp d w1 of
                       (False, d2, w2) \<Rightarrow> (False, d2, w2)
                     | (True, d2, w2) \<Rightarrow> (True, d2, remove_temp temp w2)))))"

text \<open>The groups of a round, in the order of the \<open>BTreeMap\<close> keys.\<close>

definition batch_key :: "sync_task \<Rightarrow> uuid \<times> uuid \<times> uuid option" where
  "batch_key t = (t_file_id t, t_source t, t_project_id t)"

definition key_order :: "uuid \<times> uuid \<times> uuid option \<Rightarrow> nat list" where
  "key_order k = [fst k, fst (snd k), (case snd (snd k) of None \<Rightarrow> 0 | Some p \<Rightarrow> Suc p)]"

definition group_tasks :: "sync_task list \<Rightarrow> sync_task list list" where
  "group_tasks ts =
     map (\<lambda>k. filter (\<lambda>t. batch_key t = k) ts) (sort_key key_order (remdups (map batch_key ts)))"

fun process_groups ::
    "'w env \<Rightarrow> sync_cfg \<Rightarrow> registry \<Rightarrow> sync_task list list \<Rightarrow> db \<Rightarrow> 'w phys \<Rightarrow> bool \<times> db \<times> 'w phys" where
  "process_groups x c reg [] d w = (True, d, w)"
| "process_groups x c reg (b # bs) d w =
     (case process_batch x c reg b d w of
        (False, d1, w1) \<Rightarrow> (False, d1, w1)
      | (True, d1, w1) \<Rightarrow> process_groups x c reg bs d1 w1)"

text \<open>The result: the worker is alive, it did work, and the state.\<close>

definition poll_and_process ::
    "'w env \<Rightarrow> sync_cfg \<Rightarrow> registry \<Rightarrow> (uuid \<Rightarrow> bool) \<Rightarrow> db \<Rightarrow> 'w phys \<Rightarrow> bool \<times> bool \<times> db \<times> 'w phys" where
  "poll_and_process x c reg locked d w =
     (let (tasks, d1) = sync_task_claim_pending locked 16 (sw_max_retries c) d
      in if tasks = [] then (True, False, d1, w)
         else (let (alive, d2, w2) = process_groups x c reg (group_tasks tasks) d1 w
               in (alive, True, d2, w2)))"

section \<open>No task is left in progress\<close>

definition in_progress_ids :: "db \<Rightarrow> uuid set" where
  "in_progress_ids d = t_id ` {t \<in> set (sync_tasks d). t_status t = ''in_progress''}"

lemma in_progress_ids_update:
  assumes "\<And>t. t_id (f t) = t_id t" and "\<And>t. P t \<Longrightarrow> t_status (f t) \<noteq> ''in_progress''"
  shows "in_progress_ids (update_sync_tasks P f d) = t_id ` {t \<in> set (sync_tasks d). t_status t = ''in_progress'' \<and> \<not> P t}"
  using assms by (auto simp: in_progress_ids_def update_sync_tasks_def table_simps image_iff)

lemma in_progress_ids_update_status:
  "st \<noteq> ''in_progress'' \<Longrightarrow> in_progress_ids (snd (sync_task_update_status i st e d)) = in_progress_ids d - {i}"
proof (cases "find (\<lambda>t. t_id t = i) (sync_tasks d)")
  case None
  then have "i \<notin> in_progress_ids d" by (auto simp: find_None_all in_progress_ids_def)
  with None show ?thesis by (simp add: sync_task_update_status_def Let_def)
next
  case (Some t)
  assume "st \<noteq> ''in_progress''"
  with Some show ?thesis
    by (simp add: sync_task_update_status_def Let_def in_progress_ids_update) (auto simp: in_progress_ids_def)
qed

lemma in_progress_ids_requeue:
  "in_progress_ids (snd (sync_task_requeue_for_retry i msg d)) = in_progress_ids d - {i}"
proof (cases "find (\<lambda>t. t_id t = i) (sync_tasks d)")
  case None
  then have "i \<notin> in_progress_ids d" by (auto simp: find_None_all in_progress_ids_def)
  with None show ?thesis by (simp add: sync_task_requeue_for_retry_def Let_def)
next
  case (Some t)
  then show ?thesis
    by (simp add: sync_task_requeue_for_retry_def Let_def in_progress_ids_update) (auto simp: in_progress_ids_def)
qed

lemma in_progress_ids_supersede:
  "in_progress_ids (snd (sync_task_supersede_failed_for f t w d)) = in_progress_ids d"
  by (simp add: sync_task_supersede_failed_for_def in_progress_ids_update) (auto simp: in_progress_ids_def superseded_def)

lemma record_synced_location_tasks: "sync_tasks (snd (record_synced_location task sp d)) = sync_tasks d"
  by (simp add: record_synced_location_def file_location_create_def file_location_update_status_by_file_and_storage_def
      Let_def is_unique_violation_iff split: option.split)

lemma push_to_target_tasks:
  "push_to_target x c reg task sp temp d w = (r, d', w') \<Longrightarrow> sync_tasks d' = sync_tasks d"
  using record_synced_location_tasks [of task sp d]
  by (auto simp: push_to_target_def split: prod.splits option.splits sum.splits)

lemma finalize_task_in_progress:
  assumes "finalize_task x c reg task sp temp d w = (True, d', w')"
  shows "in_progress_ids d' = in_progress_ids d - {t_id task}"
proof -
  obtain r d1 w1 where p: "push_to_target x c reg task sp temp d w = (r, d1, w1)" by (metis prod_cases3)
  have ip: "in_progress_ids d1 = in_progress_ids d"
    using push_to_target_tasks [OF p] by (simp add: in_progress_ids_def)
  from assms p show ?thesis
    by (auto simp: finalize_task_def Let_def sync_task_release_lock_def in_progress_ids_supersede
        in_progress_ids_update_status in_progress_ids_requeue ip split: option.splits sum.splits)
qed

lemma finalize_all_in_progress:
  "finalize_all x c reg ts sp temp d w = (True, d', w') \<Longrightarrow> in_progress_ids d' = in_progress_ids d - t_id ` set ts"
proof (induction ts arbitrary: d w)
  case (Cons t ts)
  obtain a d1 w1 where f: "finalize_task x c reg t sp temp d w = (a, d1, w1)" by (metis prod_cases3)
  with Cons.prems have a: "a" by (cases a) auto
  have "in_progress_ids d' = in_progress_ids d1 - t_id ` set ts" using Cons f a by auto
  moreover have "in_progress_ids d1 = in_progress_ids d - {t_id t}"
    using finalize_task_in_progress f a by simp
  ultimately show ?case by auto
qed simp

lemma fail_all_in_progress: "in_progress_ids (fail_all ts msg d) = in_progress_ids d - t_id ` set ts"
  unfolding fail_all_def
  by (induction ts arbitrary: d) (auto simp: sync_task_release_lock_def in_progress_ids_requeue)

lemma process_batch_in_progress:
  assumes "process_batch x c reg batch d w = (True, d', w')"
  shows "in_progress_ids d' = in_progress_ids d - t_id ` set batch"
proof (cases batch)
  case (Cons head rest)
  let ?temp = "sw_temp_dir c @ [uuid_str (t_id head) @ ''.part'']"
  consider msg where "d' = fail_all batch msg d" | sp w1 w2 where "finalize_all x c reg batch sp ?temp d w1 = (True, d', w2)"
    using assms Cons
    by (auto simp: process_batch_def Let_def simp del: finalize_all.simps
        split: option.splits prod.splits sum.splits bool.splits if_splits)
  then show ?thesis by cases (simp_all add: fail_all_in_progress finalize_all_in_progress)
qed (use assms in \<open>simp add: process_batch_def\<close>)

lemma process_groups_in_progress:
  "process_groups x c reg bs d w = (True, d', w') \<Longrightarrow> in_progress_ids d' = in_progress_ids d - t_id ` \<Union> (set ` set bs)"
proof (induction bs arbitrary: d w)
  case (Cons b bs)
  obtain a d1 w1 where f: "process_batch x c reg b d w = (a, d1, w1)" by (metis prod_cases3)
  with Cons.prems have a: "a" by (cases a) auto
  have "in_progress_ids d' = in_progress_ids d1 - t_id ` \<Union> (set ` set bs)" using Cons f a by auto
  moreover have "in_progress_ids d1 = in_progress_ids d - t_id ` set b"
    using process_batch_in_progress f a by simp
  ultimately show ?case by auto
qed simp

lemma group_tasks_all: "\<Union> (set ` set (group_tasks ts)) = set ts"
  by (auto simp: group_tasks_def)

lemma in_progress_ids_mark:
  "in_progress_ids (update_sync_tasks (\<lambda>t. P (t_id t)) in_progress d) =
     in_progress_ids d \<union> {i \<in> t_id ` set (sync_tasks d). P i}"
proof -
  define g where "g = (\<lambda>t. if P (t_id t) then (in_progress t)\<lparr>t_updated_at := now d\<rparr> else t)"
  have g: "t_id (g t) = t_id t" "t_status (g t) = ''in_progress'' \<longleftrightarrow> P (t_id t) \<or> t_status t = ''in_progress''" for t
    by (simp_all add: g_def in_progress_def)
  have "sync_tasks (update_sync_tasks (\<lambda>t. P (t_id t)) in_progress d) = map g (sync_tasks d)"
    by (simp add: update_sync_tasks_def update_where_def g_def)
  moreover have "{t \<in> g ` S. t_status t = ''in_progress''} = g ` {t \<in> S. P (t_id t) \<or> t_status t = ''in_progress''}" for S
    using g by blast
  ultimately have "in_progress_ids (update_sync_tasks (\<lambda>t. P (t_id t)) in_progress d) =
      t_id ` {t \<in> set (sync_tasks d). P (t_id t) \<or> t_status t = ''in_progress''}"
    by (simp add: in_progress_ids_def image_image g)
  then show ?thesis by (auto simp: in_progress_ids_def)
qed

lemma in_progress_ids_claim:
  assumes "sync_task_claim_pending locked limit m d = (cs, d')"
  shows "in_progress_ids d' = in_progress_ids (recover_stuck d) \<union> t_id ` set cs"
    and "in_progress_ids (recover_stuck d) = t_id ` {t \<in> set (sync_tasks d). t_status t = ''in_progress'' \<and> \<not> stuck d t}"
proof -
  let ?d0 = "fail_exhausted m (recover_stuck d)"
  let ?ts = "select_claimable limit m ?d0"
  have cs: "cs = map in_progress (filter (\<lambda>t. locked (t_id t)) ?ts)"
    and d': "d' = update_sync_tasks (\<lambda>t. locked (t_id t) \<and> t_id t \<in> t_id ` set ?ts) in_progress ?d0"
    using assms by (simp_all add: sync_task_claim_pending_def Let_def claim_all_alt)
  have ids: "t_id ` set cs = {i \<in> t_id ` set ?ts. locked i}" by (auto simp: cs image_image in_progress_def)
  have sub: "t_id ` set ?ts \<subseteq> t_id ` set (sync_tasks ?d0)" using select_claimableD by blast
  have "in_progress_ids d' = in_progress_ids ?d0 \<union> {i \<in> t_id ` set ?ts. locked i}"
    using sub unfolding d' in_progress_ids_mark [of "\<lambda>i. locked i \<and> i \<in> t_id ` set ?ts"] by auto
  moreover have "in_progress_ids ?d0 = in_progress_ids (recover_stuck d)"
    unfolding fail_exhausted_def by (subst in_progress_ids_update) (auto simp: in_progress_ids_def)
  ultimately show "in_progress_ids d' = in_progress_ids (recover_stuck d) \<union> t_id ` set cs" by (simp add: ids)
  show "in_progress_ids (recover_stuck d) = t_id ` {t \<in> set (sync_tasks d). t_status t = ''in_progress'' \<and> \<not> stuck d t}"
    unfolding recover_stuck_def by (subst in_progress_ids_update) auto
qed

text \<open>
  C5: a polling round settles what it claims. When the worker survives the round, the tasks in
  progress afterwards are tasks that were in progress before, by another worker and for at most 15
  minutes: every task the round claimed has been completed or put back into the queue.
\<close>

theorem poll_settles_claimed_tasks:
  assumes "poll_and_process x c reg locked d w = (True, did_work, d', w')"
  shows "in_progress_ids d' \<subseteq> t_id ` {t \<in> set (sync_tasks d). t_status t = ''in_progress'' \<and> \<not> stuck d t} \<and>
    (\<forall>t \<in> set (fst (sync_task_claim_pending locked 16 (sw_max_retries c) d)). t_id t \<notin> in_progress_ids d')"
proof -
  obtain cs d1 where cl: "sync_task_claim_pending locked 16 (sw_max_retries c) d = (cs, d1)" by fastforce
  note ip = in_progress_ids_claim [OF cl]
  show ?thesis
  proof (cases "cs = []")
    case True
    with assms cl ip show ?thesis by (simp add: poll_and_process_def)
  next
    case False
    with assms cl obtain w2 where "process_groups x c reg (group_tasks cs) d1 w = (True, d', w2)"
      by (auto simp: poll_and_process_def split: prod.splits)
    from process_groups_in_progress [OF this] have "in_progress_ids d' = in_progress_ids d1 - t_id ` set cs"
      by (simp add: group_tasks_all)
    with ip cl show ?thesis by auto
  qed
qed

definition demo_sync_cfg :: sync_cfg where
  "demo_sync_cfg = \<lparr>sw_max_retries = 5, sw_temp_dir = [''tmp''], sw_secret = ''k'', sw_rename_ok = True,
     sw_db_msg = (\<lambda>_. [])\<rparr>"

text \<open>A disk that holds the sample file in the container of the hot storage.\<close>

definition demo_disk :: "unit phys" where
  "demo_disk = \<lparr>ph_fs = [([''data'', ''pics-000000'', ''ab'', ''cd'', ''abcdef''], Contents [7, 8, 9])], ph_net = ()\<rparr>"

lemma demo_poll_alive:
  "fst (poll_and_process demo_env demo_sync_cfg demo_registry (\<lambda>_. True) (demo_db\<lparr>sync_tasks := [demo_task]\<rparr>) demo_disk)"
  by code_simp

theorem poll_settles_claimed_tasks_witness:
  "\<exists>did d' w'. poll_and_process demo_env demo_sync_cfg demo_registry (\<lambda>_. True) (demo_db\<lparr>sync_tasks := [demo_task]\<rparr>) demo_disk =
      (True, did, d', w') \<and> 20 \<notin> in_progress_ids d'"
proof -
  obtain did d' w' where p: "poll_and_process demo_env demo_sync_cfg demo_registry (\<lambda>_. True)
      (demo_db\<lparr>sync_tasks := [demo_task]\<rparr>) demo_disk = (True, did, d', w')"
    using demo_poll_alive by (metis (full_types) fst_conv prod_cases4)
  from poll_settles_claimed_tasks [OF p] have "in_progress_ids d' \<subseteq> {}"
    by (auto simp: demo_defs demo_task_def)
  with p show ?thesis by blast
qed

section \<open>Copies\<close>

lemma local_upload_from_file_Inr:
  assumes "local_upload_from_file rn b path src f = (Inr (), f')"
  obtains p data f1 where "resolve_path b path = Inr p" "create_dir_all (butlast p) f = Some f1" "fs_read src f1 = Some data"
    "fs_read p f' = Some data \<or> p = src" "p \<noteq> src \<Longrightarrow> fs_read src f' = None"
proof -
  from assms obtain p where p: "resolve_path b path = Inr p"
    by (cases "resolve_path b path") (auto simp: local_upload_from_file_def)
  with assms obtain f1 where f1: "create_dir_all (butlast p) f = Some f1"
    by (cases "create_dir_all (butlast p) f") (auto simp: local_upload_from_file_def)
  with assms p obtain data where data: "fs_read src f1 = Some data"
    by (cases "fs_read src f1") (auto simp: local_upload_from_file_def)
  have "(\<exists>f2. fs_write p data (fs_del src f1) = Some f2 \<and> f' = f2) \<or> (\<exists>f2. fs_write p data f1 = Some f2 \<and> f' = fs_del src f2)"
    using assms p f1 data by (auto simp: local_upload_from_file_def split: if_splits option.splits)
  then have "fs_read p f' = Some data \<or> p = src" "p \<noteq> src \<Longrightarrow> fs_read src f' = None"
    by (auto simp: fs_write_read)
  with p f1 data that show ?thesis by blast
qed

lemma mkdirs_adds_no_file: "mkdirs pre cs f = Some f' \<Longrightarrow> fs_read p f = None \<Longrightarrow> fs_read p f' = None"
proof (induction pre cs f rule: mkdirs.induct)
  case (2 pre c cs f)
  show ?case
  proof (cases "map_of f (pre @ [c])")
    case None
    then have "fs_read p (fs_put (pre @ [c]) Dir f) = None" using "2.prems"(2) by (auto simp: fs_read_def)
    with None "2.IH"(1) "2.prems"(1) show ?thesis by (simp add: Let_def)
  next
    case (Some n)
    with "2.IH"(2) "2.prems" show ?thesis by (cases n) (simp_all add: Let_def)
  qed
qed simp

lemma mkdirs_read: "mkdirs pre cs f = Some f' \<Longrightarrow> fs_read p f' = fs_read p f"
  using mkdirs_keeps mkdirs_adds_no_file by (cases "fs_read p f") metis+

lemma resolve_project_backend_fs [simp]: "ph_fs (snd (resolve_project_backend x secret d s pid w)) = ph_fs w"
  by (auto simp: resolve_project_backend_def be_create_container_def Let_def split: sum.split option.split prod.split)

lemma sync_resolve_backend_fs:
  "sync_resolve_backend x c reg d sid pid w = (r, w') \<Longrightarrow> ph_fs w' = ph_fs w"
  by (auto simp: sync_resolve_backend_def split: option.splits sum.splits)
    (metis snd_conv resolve_project_backend_fs)

lemma record_synced_location_Inr:
  assumes "record_synced_location task sp d = (Inr (), d')"
  shows "\<exists>l \<in> set (file_locations d'). l_file_id l = t_file_id task \<and> l_storage_id l = t_target task \<and> l_status l = ''synced''"
proof -
  let ?c = "\<lparr>cl_file_id = t_file_id task, cl_storage_id = t_target task, cl_storage_path = sp, cl_status = ''synced''\<rparr>"
  obtain r d1 where c: "file_location_create ?c d = (r, d1)" by fastforce
  show ?thesis
  proof (cases r)
    case (Inr l)
    with assms c have "d' = d1" by (simp add: record_synced_location_def)
    with c Inr show ?thesis by (auto simp: file_location_create_def Let_def split: if_splits)
  next
    case (Inl e)
    with assms c obtain l where "file_location_update_status_by_file_and_storage (t_file_id task) (t_target task) ''synced'' d1 = (Inr l, d')"
      by (auto simp: record_synced_location_def split: app_error.splits if_splits prod.splits sum.splits)
    then obtain l0 where "find (\<lambda>l. l_file_id l = t_file_id task \<and> l_storage_id l = t_target task) (file_locations d1) = Some l0"
      "file_locations d' = update_where (\<lambda>l. l_file_id l = t_file_id task \<and> l_storage_id l = t_target task)
         (set_location_status ''synced'' (now d1)) (file_locations d1)"
      by (auto simp: file_location_update_status_by_file_and_storage_def split: option.splits)
    with find_Some_in_set [OF this(1)] show ?thesis
      by (auto simp: table_simps intro!: bexI [of _ "set_location_status ''synced'' (now d1) l0"])
  qed
qed

lemma push_to_target_Inr:
  assumes "push_to_target x c reg task sp temp d w = (Some (Inr ()), d', w')"
  obtains b w1 where "sync_resolve_backend x c reg d (t_target task) (t_project_id task) w = (Some (Inr b), w1)"
    "be_upload_from_file x (sw_rename_ok c) b sp temp w1 = (Inr (), w')"
    "\<exists>l \<in> set (file_locations d'). l_file_id l = t_file_id task \<and> l_storage_id l = t_target task \<and> l_status l = ''synced''"
proof -
  obtain r w1 where s: "sync_resolve_backend x c reg d (t_target task) (t_project_id task) w = (r, w1)" by fastforce
  with assms obtain b where r: "r = Some (Inr b)"
    by (cases r; cases "the r") (auto simp: push_to_target_def)
  obtain ru w2 where u: "be_upload_from_file x (sw_rename_ok c) b sp temp w1 = (ru, w2)" by fastforce
  with assms s r have ru: "ru = Inr ()" by (cases ru) (auto simp: push_to_target_def)
  with assms s r u have "w2 = w'" "record_synced_location task sp d = (Inr (), d')"
    by (auto simp: push_to_target_def split: prod.splits)
  with s r u ru record_synced_location_Inr that show ?thesis by blast
qed

lemma push_needs_temp:
  assumes "fs_read temp (ph_fs w) = None"
  shows "push_to_target x c reg task sp temp d w \<noteq> (Some (Inr ()), d', w')"
proof
  assume "push_to_target x c reg task sp temp d w = (Some (Inr ()), d', w')"
  then obtain b w1 where s: "sync_resolve_backend x c reg d (t_target task) (t_project_id task) w = (Some (Inr b), w1)"
    and u: "be_upload_from_file x (sw_rename_ok c) b sp temp w1 = (Inr (), w')"
    by (rule push_to_target_Inr) blast
  have none: "fs_read temp (ph_fs w1) = None" using sync_resolve_backend_fs [OF s] assms by simp
  show False
  proof (cases b)
    case (LocalDisk lb)
    with u obtain f' where "local_upload_from_file (sw_rename_ok c) lb sp temp (ph_fs w1) = (Inr (), f')"
      by (auto simp: be_upload_from_file_def split: prod.splits)
    then obtain p data f1 where "create_dir_all (butlast p) (ph_fs w1) = Some f1" "fs_read temp f1 = Some data"
      by (rule local_upload_from_file_Inr)
    with none show False by (simp add: create_dir_all_def mkdirs_read)
  qed (use u none in \<open>simp_all add: be_upload_from_file_def\<close>)
qed

lemma upload_from_file_reads:
  assumes "be_upload_from_file x rn b sp temp w = (Inr (), w')" and "fs_read temp (ph_fs w) = Some data"
    and "reads_back x b" and "\<And>lb. resolve_path lb sp \<noteq> Inr temp"
  shows "be_download x b sp w' = Inr data"
proof (cases b)
  case (LocalDisk lb)
  with assms(1) have "local_upload_from_file rn lb sp temp (ph_fs w) = (Inr (), ph_fs w')"
    by (auto simp: be_upload_from_file_def split: prod.splits)
  then obtain p data' f1 where "resolve_path lb sp = Inr p" "create_dir_all (butlast p) (ph_fs w) = Some f1"
    "fs_read temp f1 = Some data'" "fs_read p (ph_fs w') = Some data' \<or> p = temp"
    by (rule local_upload_from_file_Inr) blast
  with assms(2) assms(4) [of lb] LocalDisk show ?thesis
    by (auto simp: be_download_def local_download_Inr create_dir_all_def mkdirs_read)
qed (use assms in \<open>simp_all add: be_upload_from_file_def reads_back_def\<close>)

text \<open>
  a successful copy to a target leaves a synced location row for the file on that storage, and
  the target backend then returns exactly the bytes of the temporary file.
\<close>

theorem sync_copy_correct:
  assumes "push_to_target x c reg task sp temp d w = (Some (Inr ()), d', w')"
    and "fs_read temp (ph_fs w) = Some data" and "\<And>b. reads_back x b"
    and "\<And>lb. resolve_path lb sp \<noteq> Inr temp"
  shows "(\<exists>l \<in> set (file_locations d'). l_file_id l = t_file_id task \<and> l_storage_id l = t_target task \<and> l_status l = ''synced'') \<and>
    (\<exists>b w1. sync_resolve_backend x c reg d (t_target task) (t_project_id task) w = (Some (Inr b), w1) \<and>
       be_download x b sp w' = Inr data)"
proof -
  from assms(1) obtain b w1 where s: "sync_resolve_backend x c reg d (t_target task) (t_project_id task) w = (Some (Inr b), w1)"
    and u: "be_upload_from_file x (sw_rename_ok c) b sp temp w1 = (Inr (), w')"
    and l: "\<exists>l \<in> set (file_locations d'). l_file_id l = t_file_id task \<and> l_storage_id l = t_target task \<and> l_status l = ''synced''"
    by (rule push_to_target_Inr) blast
  have "fs_read temp (ph_fs w1) = Some data" using sync_resolve_backend_fs [OF s] assms(2) by simp
  from upload_from_file_reads [OF u this assms(3,4)] s l show ?thesis by blast
qed

text \<open>
  only one local target per batch. Storing to a local disk moves the shared temporary file away,
  so once one task of a batch has been copied to a local target, the copy to every later target of the
  same batch fails and that task is requeued with one more retry.
\<close>

theorem batch_temp_file_consumed:
  assumes "push_to_target x c reg task sp temp d w = (Some (Inr ()), d1, w1)"
    and "sync_resolve_backend x c reg d (t_target task) (t_project_id task) w = (Some (Inr (LocalDisk lb)), w0)"
    and "resolve_path lb sp \<noteq> Inr temp"
  shows "fs_read temp (ph_fs w1) = None \<and>
    (\<forall>task2 r d2 w2. push_to_target x c reg task2 sp temp d1 w1 = (r, d2, w2) \<longrightarrow> r \<noteq> Some (Inr ()))"
proof -
  from assms(1,2) have "be_upload_from_file x (sw_rename_ok c) (LocalDisk lb) sp temp w0 = (Inr (), w1)"
    by (elim push_to_target_Inr) simp
  then have "local_upload_from_file (sw_rename_ok c) lb sp temp (ph_fs w0) = (Inr (), ph_fs w1)"
    by (auto simp: be_upload_from_file_def split: prod.splits)
  then obtain p where "resolve_path lb sp = Inr p" "p \<noteq> temp \<Longrightarrow> fs_read temp (ph_fs w1) = None"
    by (rule local_upload_from_file_Inr) blast
  with assms(3) have "fs_read temp (ph_fs w1) = None" by auto
  then show ?thesis using push_needs_temp by metis
qed

text \<open>One copy in the sample database: the temporary file goes to the cold storage.\<close>

definition demo_temp :: "unit phys" where
  "demo_temp = \<lparr>ph_fs = [([''tmp'', ''x.part''], Contents [7, 8, 9])], ph_net = ()\<rparr>"

lemma demo_path: "resolve_path lb ''ab/cd/abcdef'' \<noteq> Inr [''tmp'', ''x.part'']"
proof -
  have "resolve_path lb ''ab/cd/abcdef'' = Inr (components (lb_base lb) @ [''ab'', ''cd'', ''abcdef''])"
    by (simp add: resolve_path_def validate_path_def components_def is_ascii_hexdigit_def)
  moreover have "components (lb_base lb) @ [''ab'', ''cd'', ''abcdef''] \<noteq> [''tmp'', ''x.part'']"
    by (cases "components (lb_base lb)") (auto simp: Cons_eq_append_conv append_eq_Cons_conv)
  ultimately show ?thesis by simp
qed

lemma demo_push:
  "case push_to_target demo_env demo_sync_cfg demo_registry demo_task ''ab/cd/abcdef'' [''tmp'', ''x.part''] demo_db demo_temp of
     (Some (Inr _), d', w') \<Rightarrow> True | _ \<Rightarrow> False"
  "case sync_resolve_backend demo_env demo_sync_cfg demo_registry demo_db (t_target demo_task) (t_project_id demo_task) demo_temp of
     (Some (Inr (LocalDisk lb)), w0) \<Rightarrow> True | _ \<Rightarrow> False"
  by code_simp+

theorem sync_copy_correct_witness:
  "\<exists>d' w' b w1. push_to_target demo_env demo_sync_cfg demo_registry demo_task ''ab/cd/abcdef'' [''tmp'', ''x.part''] demo_db demo_temp =
      (Some (Inr ()), d', w') \<and>
     sync_resolve_backend demo_env demo_sync_cfg demo_registry demo_db (t_target demo_task) (t_project_id demo_task) demo_temp =
      (Some (Inr b), w1) \<and> be_download demo_env b ''ab/cd/abcdef'' w' = Inr [7, 8, 9]"
proof -
  obtain d' w' where p: "push_to_target demo_env demo_sync_cfg demo_registry demo_task ''ab/cd/abcdef'' [''tmp'', ''x.part''] demo_db
      demo_temp = (Some (Inr ()), d', w')"
    using demo_push(1) by (auto split: prod.splits option.splits sum.splits)
  have "fs_read [''tmp'', ''x.part''] (ph_fs demo_temp) = Some [7, 8, 9]" by (simp add: demo_temp_def fs_read_def)
  from sync_copy_correct [OF p this reads_back_demo demo_path] p show ?thesis by blast
qed

theorem batch_temp_file_consumed_witness:
  "\<exists>d1 w1. push_to_target demo_env demo_sync_cfg demo_registry demo_task ''ab/cd/abcdef'' [''tmp'', ''x.part''] demo_db demo_temp =
      (Some (Inr ()), d1, w1) \<and> fs_read [''tmp'', ''x.part''] (ph_fs w1) = None"
proof -
  obtain d1 w1 where p: "push_to_target demo_env demo_sync_cfg demo_registry demo_task ''ab/cd/abcdef'' [''tmp'', ''x.part''] demo_db
      demo_temp = (Some (Inr ()), d1, w1)"
    using demo_push(1) by (auto split: prod.splits option.splits sum.splits)
  obtain lb w0 where "sync_resolve_backend demo_env demo_sync_cfg demo_registry demo_db (t_target demo_task) (t_project_id demo_task)
      demo_temp = (Some (Inr (LocalDisk lb)), w0)"
    using demo_push(2) by (auto split: prod.splits option.splits sum.splits backend.splits)
  from batch_temp_file_consumed [OF p this demo_path] p show ?thesis by blast
qed

section \<open>Two workers\<close>

text \<open>
  Two workers interleaved at the statements of \<open>claim_pending\<close>: each selects a batch and then claims
  its tasks one transaction at a time. The advisory lock is held within one transaction only, so an
  attempt made after the other worker's commit gets it.
\<close>

record workers =
  tw_db :: db
  tw_selected :: "bool \<Rightarrow> sync_task list"
  tw_claimed :: "bool \<Rightarrow> sync_task list"

inductive worker_step :: "int \<Rightarrow> int \<Rightarrow> workers \<Rightarrow> workers \<Rightarrow> bool" for limit m where
  select: "worker_step limit m s (s\<lparr>tw_selected := (tw_selected s)(i := select_claimable limit m (tw_db s))\<rparr>)"
| claim: "tw_selected s i = t # ts \<Longrightarrow> claim_one (\<lambda>_. True) t (tw_db s) = (Some t', d') \<Longrightarrow>
    worker_step limit m s (s\<lparr>tw_db := d', tw_selected := (tw_selected s)(i := ts), tw_claimed := (tw_claimed s)(i := t' # tw_claimed s i)\<rparr>)"

inductive_cases worker_stepE: "worker_step limit m s s'"

lemma claim_update_row:
  assumes "sync_task_claim_pending locked limit m d = (cs, d1)" and "t \<in> set cs" and "r \<in> set (sync_tasks d1)" and "t_id r = t_id t"
  shows "t_status r = ''in_progress'' \<and> t_updated_at r = now d"
proof -
  let ?d0 = "fail_exhausted m (recover_stuck d)"
  let ?ts = "select_claimable limit m ?d0"
  have n: "now ?d0 = now d" by (simp add: fail_exhausted_def recover_stuck_def)
  from assms(1) have cs: "cs = map in_progress (filter (\<lambda>t. locked (t_id t)) ?ts)"
    and d1: "d1 = update_sync_tasks (\<lambda>t. locked (t_id t) \<and> t_id t \<in> t_id ` set ?ts) in_progress ?d0"
    by (simp_all add: sync_task_claim_pending_def Let_def claim_all_alt)
  from assms(2) have "locked (t_id t) \<and> t_id t \<in> t_id ` set ?ts" by (auto simp: cs in_progress_def)
  with assms(3,4) show ?thesis
    by (auto simp: d1 update_sync_tasks_def table_simps in_progress_def n)
qed



text \<open>
  interleaved workers can claim the same task. From a queue with one due task there is a run in
  which both workers end up with it: the update of the claiming transaction does not check that the
  task is still pending.
\<close>

theorem double_claim_reachable:
  "\<exists>s. (worker_step 16 5)\<^sup>*\<^sup>* \<lparr>tw_db = demo_db\<lparr>sync_tasks := [demo_task]\<rparr>, tw_selected = (\<lambda>_. []), tw_claimed = (\<lambda>_. [])\<rparr> s \<and>
     tw_claimed s True = [in_progress demo_task] \<and> tw_claimed s False = [in_progress demo_task]"
proof -
  let ?d = "demo_db\<lparr>sync_tasks := [demo_task]\<rparr>"
  let ?s0 = "\<lparr>tw_db = ?d, tw_selected = (\<lambda>_. []), tw_claimed = (\<lambda>_. [])\<rparr>"
  have sel: "select_claimable 16 5 ?d = [demo_task]"
    by (simp add: select_claimable_def claimable_def order_asc_def limit_rows_def demo_task_def demo_defs)
  let ?s1 = "?s0\<lparr>tw_selected := (\<lambda>_. [])(True := [demo_task])\<rparr>"
  let ?s2 = "?s0\<lparr>tw_selected := (\<lambda>_. [])(True := [demo_task], False := [demo_task])\<rparr>"
  have "worker_step 16 5 ?s0 ?s1" using worker_step.select [of 16 5 ?s0 True] sel by simp
  moreover have "worker_step 16 5 ?s1 ?s2" using worker_step.select [of 16 5 ?s1 False] sel by simp
  moreover obtain d1 where c1: "claim_one (\<lambda>_. True) demo_task ?d = (Some (in_progress demo_task), d1)"
    by (simp add: claim_one_def in_progress_def)
  let ?s3 = "?s2\<lparr>tw_db := d1, tw_selected := (tw_selected ?s2)(True := []), tw_claimed := (tw_claimed ?s2)(True := [in_progress demo_task])\<rparr>"
  have "worker_step 16 5 ?s2 ?s3"
    using worker_step.claim [of ?s2 True demo_task "[]" "in_progress demo_task" d1 16 5] c1 by simp
  moreover obtain d2 where c2: "claim_one (\<lambda>_. True) demo_task d1 = (Some (in_progress demo_task), d2)"
    by (simp add: claim_one_def in_progress_def)
  let ?s4 = "?s3\<lparr>tw_db := d2, tw_selected := (tw_selected ?s3)(False := []), tw_claimed := (tw_claimed ?s3)(False := [in_progress demo_task])\<rparr>"
  have "worker_step 16 5 ?s3 ?s4"
    using worker_step.claim [of ?s3 False demo_task "[]" "in_progress demo_task" d2 16 5] c2 by simp
  ultimately have "(worker_step 16 5)\<^sup>*\<^sup>* ?s0 ?s4" by (meson converse_rtranclp_into_rtranclp rtranclp.rtrancl_refl)
  then show ?thesis by (intro exI [of _ ?s4]) simp
qed

end
