(* ===== verification/Tiering.thy ===== *)
theory Tiering
  imports Sync_Worker
begin

text \<open>
  Hot and cold tiers: the service that finds files to archive and restores them
  (\<open>src/services/tier_service.rs\<close>) and the scan of its worker (\<open>src/workers/tier_worker.rs\<close>; the timer
  and the shutdown of the worker are not modelled). Shown: a scan never makes a file unreadable, it queues
  at most one archive task per file, an overdue file is archived once its copy has arrived on the cold
  storage, and a restored copy is archived again by the next scan.
\<close>

section \<open>Operations\<close>

record archivable_file =
  af_file_id :: uuid
  af_hot_location_id :: uuid
  af_hot_storage_id :: uuid
  af_storage_path :: string
  af_project_id :: uuid

text \<open>\<open>p.hot_to_cold_days IS NOT NULL\<close> and the last access is longer ago than that, or there was none.\<close>

definition overdue :: "db \<Rightarrow> project \<Rightarrow> file_location \<Rightarrow> bool" where
  "overdue d p l \<longleftrightarrow>
     (case p_hot_to_cold_days p of
        None \<Rightarrow> False
      | Some n \<Rightarrow> (case l_last_accessed_at l of None \<Rightarrow> True | Some t \<Rightarrow> t + days n < now d))"

text \<open>A synced copy of the file on an enabled cold storage.\<close>

definition cold_copy :: "db \<Rightarrow> uuid \<Rightarrow> file_location \<Rightarrow> bool" where
  "cold_copy d fid l \<longleftrightarrow>
     l_file_id l = fid \<and> l_status l = ''synced'' \<and> location_enabled d l \<and> \<not> location_is_hot d l"

definition open_task :: "uuid \<Rightarrow> sync_task \<Rightarrow> bool" where
  "open_task fid t \<longleftrightarrow> t_file_id t = fid \<and> (t_status t = ''pending'' \<or> t_status t = ''in_progress'')"

text \<open>The joined rows of the query, before \<open>DISTINCT ON\<close>.\<close>

definition archivable_rows :: "db \<Rightarrow> (file_location \<times> project) list" where
  "archivable_rows d =
     [(l, p). l \<leftarrow> file_locations d, l_status l = ''synced'' \<and> location_enabled d l \<and> location_is_hot d l,
        r \<leftarrow> file_references d, r_file_id r = l_file_id l,
        p \<leftarrow> projects d, p_id p = r_project_id r \<and> overdue d p l,
        \<not> list_ex (cold_copy d (l_file_id l)) (file_locations d) \<and>
        \<not> list_ex (open_task (l_file_id l)) (sync_tasks d)]"

text \<open>\<open>DISTINCT ON\<close>: of the rows with the same key the first one stays.\<close>

function distinct_on :: "('r \<Rightarrow> 'k) \<Rightarrow> 'r list \<Rightarrow> 'r list" where
  "distinct_on k [] = []"
| "distinct_on k (r # rs) = r # distinct_on k (filter (\<lambda>x. k x \<noteq> k r) rs)"
  by pat_completeness auto
termination by (relation "measure (\<lambda>(k, rs). length rs)") (auto simp: le_imp_less_Suc)

definition find_archivable_files :: "int \<Rightarrow> db \<Rightarrow> archivable_file list" where
  "find_archivable_files limit d =
     limit_rows limit (map (\<lambda>(l, p). \<lparr>af_file_id = l_file_id l, af_hot_location_id = l_id l,
         af_hot_storage_id = l_storage_id l, af_storage_path = l_storage_path l, af_project_id = p_id p\<rparr>)
       (distinct_on (\<lambda>(l, p). l_file_id l)
         (order_asc (\<lambda>(l, p). int (l_file_id l))
           (order_asc_nulls_first (\<lambda>(l, p). l_last_accessed_at l) (archivable_rows d)))))"

definition find_cold_storage :: "uuid \<Rightarrow> db \<Rightarrow> storage option" where
  "find_cold_storage fid d =
     head_opt (order_asc s_created_at
       (filter (\<lambda>s. \<not> s_is_hot s \<and> s_enabled s \<and>
          (case s_project_id s of
             None \<Rightarrow> True
           | Some p \<Rightarrow> list_ex (\<lambda>r. r_file_id r = fid \<and> r_project_id r = p) (file_references d)))
        (storages d)))"

fun archive_loop :: "registry \<Rightarrow> archivable_file list \<Rightarrow> db \<Rightarrow> nat \<times> db" where
  "archive_loop reg [] d = (0, d)"
| "archive_loop reg (f # fs) d =
     (case find_cold_storage (af_file_id f) d of
        None \<Rightarrow> archive_loop reg fs d
      | Some cold \<Rightarrow>
         (if \<not> registry_contains (s_id cold) reg then archive_loop reg fs d
          else (case sync_task_create \<lparr>ct_file_id = af_file_id f, ct_source = af_hot_storage_id f,
                        ct_target = s_id cold, ct_project_id = Some (af_project_id f)\<rparr> d of
                  (Inr _, d1) \<Rightarrow> (let (n, d2) = archive_loop reg fs d1 in (Suc n, d2))
                | (Inl _, d1) \<Rightarrow> archive_loop reg fs d1)))"

definition create_archive_tasks :: "registry \<Rightarrow> db \<Rightarrow> nat \<times> db" where
  "create_archive_tasks reg d = archive_loop reg (find_archivable_files 100 d) d"

text \<open>The hot locations whose file has arrived on a cold storage, and the update that archives them.\<close>

definition archive_due :: "db \<Rightarrow> file_location \<Rightarrow> bool" where
  "archive_due d l \<longleftrightarrow> l_status l = ''synced'' \<and> location_is_hot d l \<and>
     list_ex (cold_copy d (l_file_id l)) (file_locations d) \<and>
     list_ex (\<lambda>r. r_file_id r = l_file_id l \<and> list_ex (\<lambda>p. p_id p = r_project_id r \<and> overdue d p l) (projects d))
       (file_references d)"

fun archive_hot :: "file_location list \<Rightarrow> db \<Rightarrow> nat \<times> db" where
  "archive_hot [] d = (0, d)"
| "archive_hot (l # ls) d =
     (case file_location_update_status (l_id l) ''archived'' d of
        (Inr _, d1) \<Rightarrow> (let (n, d2) = archive_hot ls d1 in (Suc n, d2))
      | (Inl _, d1) \<Rightarrow> archive_hot ls d1)"

definition process_completed_archives :: "db \<Rightarrow> nat \<times> db" where
  "process_completed_archives d = archive_hot (limit_rows 100 (filter (archive_due d) (file_locations d))) d"

definition restore_source :: "uuid \<Rightarrow> db \<Rightarrow> file_location option" where
  "restore_source fid d =
     head_opt (order_desc_nulls_last l_synced_at
       (filter (\<lambda>l. l_file_id l = fid \<and> location_enabled d l \<and> \<not> location_is_hot d l \<and>
                    (l_status l = ''synced'' \<or> l_status l = ''archived'')) (file_locations d)))"

definition restore_target :: "db \<Rightarrow> storage option" where
  "restore_target d = head_opt (order_asc s_created_at (filter (\<lambda>s. s_is_hot s \<and> s_enabled s) (storages d)))"

definition restore_file :: "uuid \<Rightarrow> db \<Rightarrow> sync_task app_result \<times> db" where
  "restore_file fid d =
     (case file_find_by_id fid d of
        Inl e \<Rightarrow> (Inl e, d)
      | Inr _ \<Rightarrow>
         (case restore_source fid d of
            None \<Rightarrow> (Inl (NotFound ''No cold storage location available for restore''), d)
          | Some cold_loc \<Rightarrow>
             (case restore_target d of
                None \<Rightarrow> (Inl (NotFound ''No hot storage available for restore''), d)
              | Some hot \<Rightarrow>
                 (case sync_task_create \<lparr>ct_file_id = fid, ct_source = l_storage_id cold_loc, ct_target = s_id hot,
                          ct_project_id = map_option r_project_id (find (\<lambda>r. r_file_id r = fid) (file_references d))\<rparr> d of
                    (Inl e, d1) \<Rightarrow> (Inl e, d1)
                  | (Inr task, d1) \<Rightarrow>
                      (Inr task, d1\<lparr>file_locations :=
                         update_where (\<lambda>l. l_file_id l = fid \<and> l_status l = ''archived'')
                           (\<lambda>l. l\<lparr>l_status := ''restoring''\<rparr>) (file_locations d1)\<rparr>)))))"

text \<open>One cycle of the tier worker.\<close>

definition scan_and_archive :: "registry \<Rightarrow> db \<Rightarrow> db" where
  "scan_and_archive reg d = snd (process_completed_archives (snd (create_archive_tasks reg d)))"

section \<open>Lemmas\<close>

lemma set_distinct_on: "set (distinct_on k rs) \<subseteq> set rs"
  by (induction k rs rule: distinct_on.induct) auto

lemma distinct_distinct_on: "distinct (map k (distinct_on k rs))"
proof (induction k rs rule: distinct_on.induct)
  case (2 k r rs)
  then show ?case using set_distinct_on [of k "filter (\<lambda>x. k x \<noteq> k r) rs"] by auto
qed simp

lemma keys_distinct_on: "k ` set (distinct_on k rs) = k ` set rs"
proof (induction k rs rule: distinct_on.induct)
  case (2 k r rs)
  have "k ` set rs \<subseteq> insert (k r) (k ` {x \<in> set rs. k x \<noteq> k r})" by auto
  with 2 show ?case by auto
qed simp

lemma distinct_subseq: "subseq xs ys \<Longrightarrow> distinct ys \<Longrightarrow> distinct xs"
proof (induction rule: list_emb.induct)
  case (list_emb_Cons2 x y xs ys)
  then have "set xs \<subseteq> set ys" by (auto elim: list_emb_set)
  with list_emb_Cons2 show ?case by auto
qed auto

lemma limit_rows_map: "limit_rows n (map f xs) = map f (limit_rows n xs)"
  by (simp add: limit_rows_def take_map)

lemma archivable_rowsD:
  assumes "(l, p) \<in> set (archivable_rows d)"
  obtains r where "l \<in> set (file_locations d)" "l_status l = ''synced''" "location_enabled d l" "location_is_hot d l"
    "r \<in> set (file_references d)" "r_file_id r = l_file_id l" "p \<in> set (projects d)" "p_id p = r_project_id r" "overdue d p l"
    "\<forall>x \<in> set (file_locations d). \<not> cold_copy d (l_file_id l) x" "\<forall>t \<in> set (sync_tasks d). \<not> open_task (l_file_id l) t"
  using assms by (auto simp: archivable_rows_def list_ex_iff split: if_splits)

lemma find_archivable_member:
  assumes "f \<in> set (find_archivable_files n d)"
  obtains l p where "(l, p) \<in> set (archivable_rows d)" "af_file_id f = l_file_id l" "af_hot_location_id f = l_id l"
    "af_hot_storage_id f = l_storage_id l" "af_project_id f = p_id p"
proof -
  let ?rows = "distinct_on (\<lambda>(l, p). l_file_id l) (order_asc (\<lambda>(l, p). int (l_file_id l))
      (order_asc_nulls_first (\<lambda>(l, p). l_last_accessed_at l) (archivable_rows d)))"
  let ?f = "\<lambda>(l, p). \<lparr>af_file_id = l_file_id l, af_hot_location_id = l_id l, af_hot_storage_id = l_storage_id l,
      af_storage_path = l_storage_path l, af_project_id = p_id p\<rparr>"
  have "f \<in> set (map ?f ?rows)" using assms in_set_limit_rowsD unfolding find_archivable_files_def by fast
  then obtain x where x: "x \<in> set ?rows" and f: "f = ?f x" unfolding set_map by (rule imageE)
  obtain l p where lp: "x = (l, p)" by (cases x)
  have "set ?rows \<subseteq> set (archivable_rows d)" using set_distinct_on by fastforce
  with x lp have "(l, p) \<in> set (archivable_rows d)" by blast
  with f lp show thesis by (intro that) simp_all
qed

lemma find_archivable_distinct: "distinct (map af_file_id (find_archivable_files n d))"
proof -
  let ?rows = "distinct_on (\<lambda>(l, p). l_file_id l) (order_asc (\<lambda>(l, p). int (l_file_id l))
      (order_asc_nulls_first (\<lambda>(l, p). l_last_accessed_at l) (archivable_rows d)))"
  have "map af_file_id (find_archivable_files n d) = take (nat n) (map (\<lambda>(l, p). l_file_id l) ?rows)"
    by (auto simp: find_archivable_files_def limit_rows_def take_map)
  then show ?thesis using distinct_distinct_on distinct_take by metis
qed

lemma sync_task_create_outcome:
  assumes "sync_task_create input d = (r, d')"
  shows "(\<exists>row. r = Inr row \<and> d' = (draw d)\<lparr>sync_tasks := sync_tasks d @ [row]\<rparr> \<and> t_file_id row = ct_file_id input \<and>
      t_source row = ct_source input \<and> t_target row = ct_target input \<and> t_project_id row = ct_project_id input \<and>
      t_status row = ''pending'') \<or> (\<exists>e. r = Inl e) \<and> d' = draw d"
  using assms by (auto simp: sync_task_create_def Let_def split: if_splits)

text \<open>What the loop of the archiving pass adds: one pending task for some of the files, in their order.\<close>

definition archive_task_for :: "registry \<Rightarrow> db \<Rightarrow> archivable_file \<Rightarrow> sync_task \<Rightarrow> bool" where
  "archive_task_for reg d f t \<longleftrightarrow> t_file_id t = af_file_id f \<and> t_source t = af_hot_storage_id f \<and>
     t_project_id t = Some (af_project_id f) \<and> t_status t = ''pending'' \<and>
     (\<exists>cold. find_cold_storage (af_file_id f) d = Some cold \<and> t_target t = s_id cold \<and> registry_contains (s_id cold) reg)"

lemma find_cold_storage_cong:
  "storages d' = storages d \<Longrightarrow> file_references d' = file_references d \<Longrightarrow> find_cold_storage fid d' = find_cold_storage fid d"
  by (simp add: find_cold_storage_def cong: option.case_cong)

lemma archive_task_for_cong:
  "storages d' = storages d \<Longrightarrow> file_references d' = file_references d \<Longrightarrow> archive_task_for reg d' = archive_task_for reg d"
  by (intro ext) (simp add: archive_task_for_def find_cold_storage_cong [of d' d])

lemma archive_loop_adds:
  assumes "archive_loop reg fs d = (n, d')"
  shows "\<exists>k new. d' = d\<lparr>gpos := gpos d + k, sync_tasks := sync_tasks d @ new\<rparr> \<and> length new = n \<and>
    subseq (map t_file_id new) (map af_file_id fs) \<and> (\<forall>t \<in> set new. \<exists>f \<in> set fs. archive_task_for reg d f t)"
  using assms
proof (induction fs arbitrary: n d)
  case Nil
  then show ?case by (intro exI [of _ 0] exI [of _ "[]"]) simp
next
  case (Cons f fs)
  have skip: ?case if "archive_loop reg fs d1 = (n, d')" "d1 = d \<or> d1 = draw d" for d1
  proof -
    from Cons.IH [OF that(1)] obtain k new where ih: "d' = d1\<lparr>gpos := gpos d1 + k, sync_tasks := sync_tasks d1 @ new\<rparr>" "length new = n"
      "subseq (map t_file_id new) (map af_file_id fs)" "\<forall>t \<in> set new. \<exists>f \<in> set fs. archive_task_for reg d1 f t" by blast
    have "archive_task_for reg d1 = archive_task_for reg d" using that(2) by (auto intro: archive_task_for_cong)
    with ih(4) have "\<forall>t \<in> set new. \<exists>g \<in> set (f # fs). archive_task_for reg d g t" by auto
    moreover have "\<exists>k. d' = d\<lparr>gpos := gpos d + k, sync_tasks := sync_tasks d @ new\<rparr>"
      using ih(1) that(2) by (auto simp: draw_def intro: exI [of _ "Suc k"])
    ultimately show ?thesis using ih(2,3) by (auto intro!: exI [of _ new])
  qed
  show ?case
  proof (cases "find_cold_storage (af_file_id f) d")
    case None
    with Cons.prems skip show ?thesis by simp
  next
    case (Some cold)
    obtain r d1 where c: "sync_task_create \<lparr>ct_file_id = af_file_id f, ct_source = af_hot_storage_id f, ct_target = s_id cold,
        ct_project_id = Some (af_project_id f)\<rparr> d = (r, d1)" by fastforce
    show ?thesis
    proof (cases "registry_contains (s_id cold) reg \<and> (\<exists>row. r = Inr row)")
      case True
      then obtain row where r: "r = Inr row" by blast
      with sync_task_create_outcome [OF c] have row: "d1 = (draw d)\<lparr>sync_tasks := sync_tasks d @ [row]\<rparr>" "archive_task_for reg d f row" "t_file_id row = af_file_id f"
        using True Some by (auto simp: archive_task_for_def)
      from Cons.prems c r Some True obtain m where m: "archive_loop reg fs d1 = (m, d')" "n = Suc m"
        by (auto split: prod.splits)
      from Cons.IH [OF m(1)] obtain k new where ih: "d' = d1\<lparr>gpos := gpos d1 + k, sync_tasks := sync_tasks d1 @ new\<rparr>" "length new = m"
        "subseq (map t_file_id new) (map af_file_id fs)" "\<forall>t \<in> set new. \<exists>f \<in> set fs. archive_task_for reg d1 f t" by blast
      have "archive_task_for reg d1 = archive_task_for reg d" using row(1) by (auto intro: archive_task_for_cong)
      with ih row m(2) show ?thesis
        by (intro exI [of _ "Suc k"] exI [of _ "row # new"]) (auto simp: draw_def)
    next
      case False
      have "d1 = draw d" if "registry_contains (s_id cold) reg" using sync_task_create_outcome [OF c] False that by auto
      with False Cons.prems c Some skip [of d] skip [of d1] show ?thesis by (cases r) (auto split: if_splits)
    qed
  qed
qed

text \<open>Archiving a list of locations marks exactly those.\<close>

lemma archive_hot_locations:
  "snd (archive_hot ls d) = d\<lparr>file_locations :=
     update_where (\<lambda>l. l_id l \<in> l_id ` set ls) (\<lambda>l. l\<lparr>l_status := ''archived''\<rparr>) (file_locations d)\<rparr>"
proof (induction ls arbitrary: d)
  case Nil
  then show ?case by (simp add: update_where_none)
next
  case (Cons l ls)
  let ?d1 = "d\<lparr>file_locations := update_where (\<lambda>x. l_id x = l_id l) (\<lambda>l. l\<lparr>l_status := ''archived''\<rparr>) (file_locations d)\<rparr>"
  have st: "set_location_status ''archived'' t = (\<lambda>l. l\<lparr>l_status := ''archived''\<rparr>)" for t
    by (simp add: set_location_status_def fun_eq_iff)
  have step: "snd (file_location_update_status (l_id l) ''archived'' d) = ?d1"
    by (auto simp: file_location_update_status_def st find_None_all update_where_none split: option.split)
  have "snd (archive_hot (l # ls) d) = snd (archive_hot ls (snd (file_location_update_status (l_id l) ''archived'' d)))"
    by (auto split: prod.splits sum.splits)
  also have "\<dots> = d\<lparr>file_locations := update_where (\<lambda>x. l_id x \<in> l_id ` set ls) (\<lambda>l. l\<lparr>l_status := ''archived''\<rparr>)
      (update_where (\<lambda>x. l_id x = l_id l) (\<lambda>l. l\<lparr>l_status := ''archived''\<rparr>) (file_locations d))\<rparr>"
    unfolding step Cons.IH by simp
  also have "\<dots> = d\<lparr>file_locations := update_where (\<lambda>x. l_id x \<in> l_id ` set ls \<or> l_id x = l_id l) (\<lambda>l. l\<lparr>l_status := ''archived''\<rparr>)
      (file_locations d)\<rparr>"
    by (subst update_where_twice) simp_all
  finally show ?case by (simp add: disj_commute)
qed

lemma process_completed_archives_locations:
  "snd (process_completed_archives d) = d\<lparr>file_locations :=
     update_where (\<lambda>l. l_id l \<in> l_id ` set (limit_rows 100 (filter (archive_due d) (file_locations d))))
       (\<lambda>l. l\<lparr>l_status := ''archived''\<rparr>) (file_locations d)\<rparr>"
  by (simp add: process_completed_archives_def archive_hot_locations)

lemma location_flags_cong [simp]:
  "location_enabled (d\<lparr>file_locations := ls\<rparr>) = location_enabled d"
  "location_is_hot (d\<lparr>file_locations := ls\<rparr>) = location_is_hot d"
  "location_enabled d (l\<lparr>l_status := st\<rparr>) = location_enabled d l"
  "location_is_hot d (l\<lparr>l_status := st\<rparr>) = location_is_hot d l"
  by (simp_all add: location_enabled_def location_is_hot_def location_storage_def fun_eq_iff)

text \<open>A file is readable when a download has a location to try.\<close>

lemma find_for_file_nonempty:
  "file_location_find_for_file fid d \<noteq> [] \<longleftrightarrow>
     (\<exists>l \<in> set (file_locations d). l_file_id l = fid \<and> location_enabled d l \<and> l_status l = ''synced'')"
proof -
  have "file_location_find_for_file fid d \<noteq> [] \<longleftrightarrow> set (file_location_find_for_file fid d) \<noteq> {}" by simp
  then show ?thesis by (auto simp: file_location_find_for_file_def)
qed

lemma archived_was_due:
  assumes "distinct (map l_id (file_locations d))" and "l \<in> set (file_locations d)"
    and "l_id l \<in> l_id ` set (limit_rows 100 (filter (archive_due d) (file_locations d)))"
  shows "archive_due d l"
proof -
  from assms(3) obtain x where "x \<in> set (filter (archive_due d) (file_locations d))" "l_id x = l_id l"
    by (metis imageE in_set_limit_rowsD)
  with distinct_key_unique [OF assms(1), of x l] assms(2) show ?thesis by auto
qed

lemma cold_copy_not_due: "cold_copy d fid l \<Longrightarrow> \<not> archive_due d l"
  by (simp add: cold_copy_def archive_due_def)

section \<open>Properties\<close>

text \<open>
  C22: a scan of the tier worker never makes a file unreadable: a file with a synced copy on an enabled
  storage still has one afterwards. A location whose status changed was a synced one on a hot storage, and
  its file has a synced copy on an enabled cold storage that the scan leaves alone.
\<close>

theorem tiering_keeps_files_readable:
  assumes "schema_ok d"
  shows "(file_location_find_for_file fid d \<noteq> [] \<longrightarrow> file_location_find_for_file fid (scan_and_archive reg d) \<noteq> []) \<and>
    (\<forall>l \<in> set (file_locations d). l \<in> set (file_locations (scan_and_archive reg d)) \<or>
       l\<lparr>l_status := ''archived''\<rparr> \<in> set (file_locations (scan_and_archive reg d)) \<and>
       l_status l = ''synced'' \<and> location_is_hot d l \<and>
       (\<exists>c \<in> set (file_locations d). cold_copy d (l_file_id l) c \<and> c \<in> set (file_locations (scan_and_archive reg d))))"
proof -
  obtain n d1 where c: "create_archive_tasks reg d = (n, d1)" by fastforce
  from archive_loop_adds [OF c [unfolded create_archive_tasks_def]] obtain k new where
    d1: "d1 = d\<lparr>gpos := gpos d + k, sync_tasks := sync_tasks d @ new\<rparr>" by blast
  have flags: "location_enabled d1 = location_enabled d" "location_is_hot d1 = location_is_hot d" "file_locations d1 = file_locations d"
    "storages d1 = storages d" unfolding d1 by (simp_all add: location_enabled_def location_is_hot_def location_storage_def fun_eq_iff)
  have cold: "cold_copy d1 = cold_copy d" by (simp add: cold_copy_def fun_eq_iff flags)
  define ids where "ids = l_id ` set (limit_rows 100 (filter (archive_due d1) (file_locations d1)))"
  have d2: "scan_and_archive reg d = d1\<lparr>file_locations := update_where (\<lambda>l. l_id l \<in> ids) (\<lambda>l. l\<lparr>l_status := ''archived''\<rparr>) (file_locations d)\<rparr>"
    by (simp add: scan_and_archive_def c process_completed_archives_locations ids_def flags)
  have dist: "distinct (map l_id (file_locations d1))" using schema_okD(6) [OF assms] by (simp add: file_locations_ok_def flags)
  have due: "archive_due d1 l" if "l \<in> set (file_locations d)" "l_id l \<in> ids" for l
    using archived_was_due [OF dist] that unfolding ids_def flags by blast
  have keeps: "c \<in> set (file_locations (scan_and_archive reg d))" if "c \<in> set (file_locations d)" "cold_copy d f c" for c f
    using due [of c] that cold_copy_not_due [of d1 f c] by (auto simp: d2 table_simps cold)
  have change: "l \<in> set (file_locations (scan_and_archive reg d)) \<or>
       l\<lparr>l_status := ''archived''\<rparr> \<in> set (file_locations (scan_and_archive reg d)) \<and> l_status l = ''synced'' \<and> location_is_hot d l \<and>
       (\<exists>c \<in> set (file_locations d). cold_copy d (l_file_id l) c \<and> c \<in> set (file_locations (scan_and_archive reg d)))"
    if l: "l \<in> set (file_locations d)" for l
  proof (cases "l_id l \<in> ids")
    case True
    with due [OF l] obtain c where "c \<in> set (file_locations d)" "cold_copy d (l_file_id l) c" and "l_status l = ''synced''" "location_is_hot d l"
      by (auto simp: archive_due_def list_ex_iff flags cold)
    moreover have "l\<lparr>l_status := ''archived''\<rparr> \<in> set (file_locations (scan_and_archive reg d))"
      using l True by (auto simp: d2 table_simps)
    ultimately show ?thesis using keeps by blast
  next
    case False
    then show ?thesis using l by (auto simp: d2 table_simps)
  qed
  have en: "location_enabled (scan_and_archive reg d) = location_enabled d" unfolding d2 by (simp add: flags)
  have "file_location_find_for_file fid (scan_and_archive reg d) \<noteq> []" if readable: "file_location_find_for_file fid d \<noteq> []"
  proof -
    from readable obtain l where "l \<in> set (file_locations d)" "l_file_id l = fid" "location_enabled d l" "l_status l = ''synced''"
      unfolding find_for_file_nonempty by blast
    with change [of l] show ?thesis unfolding find_for_file_nonempty en by (auto simp: cold_copy_def)
  qed
  with change show ?thesis by blast
qed

text \<open>
  the archiving pass never queues a file twice. Two passes one after the other add tasks for pairwise
  different files, at most a hundred each; every task is pending, copies from an enabled hot storage with a
  synced copy to an enabled cold one, and its file had neither an unfinished task nor a synced copy on an
  enabled cold storage before.
\<close>

theorem archive_tasks_once:
  assumes "create_archive_tasks reg d = (n, d1)" and "create_archive_tasks reg d1 = (m, d2)"
  shows "\<exists>new1 new2. sync_tasks d1 = sync_tasks d @ new1 \<and> sync_tasks d2 = sync_tasks d1 @ new2 \<and>
    length new1 = n \<and> length new2 = m \<and> n \<le> 100 \<and> distinct (map t_file_id (new1 @ new2)) \<and>
    (\<forall>t \<in> set new1. t_status t = ''pending'' \<and>
       (\<exists>l \<in> set (file_locations d). l_file_id l = t_file_id t \<and> l_storage_id l = t_source t \<and> l_status l = ''synced'' \<and>
          location_enabled d l \<and> location_is_hot d l) \<and>
       (\<exists>s \<in> set (storages d). s_id s = t_target t \<and> s_enabled s \<and> \<not> s_is_hot s) \<and>
       (\<forall>l \<in> set (file_locations d). \<not> cold_copy d (t_file_id t) l) \<and> (\<forall>u \<in> set (sync_tasks d). \<not> open_task (t_file_id t) u))"
proof -
  from archive_loop_adds [OF assms(1) [unfolded create_archive_tasks_def]] obtain k new1 where
    d1: "d1 = d\<lparr>gpos := gpos d + k, sync_tasks := sync_tasks d @ new1\<rparr>" and n: "length new1 = n"
    and sub1: "subseq (map t_file_id new1) (map af_file_id (find_archivable_files 100 d))"
    and for1: "\<forall>t \<in> set new1. \<exists>f \<in> set (find_archivable_files 100 d). archive_task_for reg d f t" by blast
  from archive_loop_adds [OF assms(2) [unfolded create_archive_tasks_def]] obtain k' new2 where
    d2: "d2 = d1\<lparr>gpos := gpos d1 + k', sync_tasks := sync_tasks d1 @ new2\<rparr>" and m: "length new2 = m"
    and sub2: "subseq (map t_file_id new2) (map af_file_id (find_archivable_files 100 d1))"
    and for2: "\<forall>t \<in> set new2. \<exists>f \<in> set (find_archivable_files 100 d1). archive_task_for reg d1 f t" by blast
  have dist: "distinct (map t_file_id new1)" "distinct (map t_file_id new2)"
    using sub1 sub2 find_archivable_distinct distinct_subseq by blast+
  have "t_file_id t1 \<noteq> t_file_id t2" if t: "t1 \<in> set new1" "t2 \<in> set new2" for t1 t2
  proof -
    from for1 t(1) have "open_task (t_file_id t1) t1" by (auto simp: archive_task_for_def open_task_def)
    moreover have "t1 \<in> set (sync_tasks d1)" using t(1) by (simp add: d1)
    moreover from for2 t(2) obtain f where f: "f \<in> set (find_archivable_files 100 d1)" "t_file_id t2 = af_file_id f"
      by (auto simp: archive_task_for_def)
    from f(1) obtain l p where "(l, p) \<in> set (archivable_rows d1)" "af_file_id f = l_file_id l" by (rule find_archivable_member) blast
    then have "\<forall>u \<in> set (sync_tasks d1). \<not> open_task (t_file_id t2) u" unfolding f(2) by (elim archivable_rowsD) simp
    ultimately show ?thesis by metis
  qed
  with dist have D: "distinct (map t_file_id (new1 @ new2))" by auto
  have "length new1 \<le> length (find_archivable_files 100 d)" using sub1 by (metis length_map list_emb_length)
  also have "\<dots> \<le> 100" by (simp add: find_archivable_files_def limit_rows_def)
  finally have N: "n \<le> 100" using n by simp
  have "t_status t = ''pending'' \<and>
       (\<exists>l \<in> set (file_locations d). l_file_id l = t_file_id t \<and> l_storage_id l = t_source t \<and> l_status l = ''synced'' \<and>
          location_enabled d l \<and> location_is_hot d l) \<and>
       (\<exists>s \<in> set (storages d). s_id s = t_target t \<and> s_enabled s \<and> \<not> s_is_hot s) \<and>
       (\<forall>l \<in> set (file_locations d). \<not> cold_copy d (t_file_id t) l) \<and> (\<forall>u \<in> set (sync_tasks d). \<not> open_task (t_file_id t) u)"
    if "t \<in> set new1" for t
  proof -
    from for1 that obtain f cold where f: "f \<in> set (find_archivable_files 100 d)" and t: "t_file_id t = af_file_id f"
      "t_source t = af_hot_storage_id f" "t_status t = ''pending''" "t_target t = s_id cold"
      and cold: "find_cold_storage (af_file_id f) d = Some cold"
      by (auto simp: archive_task_for_def)
    from head_opt_in_set [OF cold [unfolded find_cold_storage_def]] have "cold \<in> set (storages d)" "s_enabled cold" "\<not> s_is_hot cold"
      by auto
    moreover from f obtain l p where row: "(l, p) \<in> set (archivable_rows d)" "af_file_id f = l_file_id l" "af_hot_storage_id f = l_storage_id l"
      by (rule find_archivable_member) blast
    from row(1) have "l \<in> set (file_locations d)" "l_status l = ''synced''" "location_enabled d l" "location_is_hot d l"
      "\<forall>x \<in> set (file_locations d). \<not> cold_copy d (l_file_id l) x" "\<forall>t \<in> set (sync_tasks d). \<not> open_task (l_file_id l) t"
      by (auto elim: archivable_rowsD)
    ultimately show ?thesis using t row(2,3) by auto
  qed
  with D N n m show ?thesis unfolding d2 d1 by (intro exI [of _ new1] exI [of _ new2]) simp
qed

lemma record_synced_location_effect:
  assumes "record_synced_location task sp d = (Inr (), d')"
  shows "storages d' = storages d" "projects d' = projects d" "file_references d' = file_references d" "now d' = now d"
    and "\<And>l. l \<in> set (file_locations d) \<Longrightarrow> (if l_file_id l = t_file_id task \<and> l_storage_id l = t_target task
      then l\<lparr>l_status := ''synced'', l_synced_at := Some (now d)\<rparr> else l) \<in> set (file_locations d')"
proof -
  let ?c = "\<lparr>cl_file_id = t_file_id task, cl_storage_id = t_target task, cl_storage_path = sp, cl_status = ''synced''\<rparr>"
  let ?u = "\<lambda>l. if l_file_id l = t_file_id task \<and> l_storage_id l = t_target task then l\<lparr>l_status := ''synced'', l_synced_at := Some (now d)\<rparr> else l"
  obtain r d1 where c: "file_location_create ?c d = (r, d1)" by fastforce
  have "(storages d' = storages d \<and> projects d' = projects d \<and> file_references d' = file_references d \<and> now d' = now d) \<and>
      (\<forall>l \<in> set (file_locations d). ?u l \<in> set (file_locations d'))"
  proof (cases r)
    case (Inr row)
    with assms c have "d' = d1" by (simp add: record_synced_location_def)
    moreover have "(t_file_id task, t_target task) \<notin> (\<lambda>l. (l_file_id l, l_storage_id l)) ` set (file_locations d)"
      and "d1 = (draw d)\<lparr>file_locations := file_locations d @ [row]\<rparr>"
      using c Inr by (auto simp: file_location_create_def Let_def split: if_splits)
    ultimately show ?thesis by (auto simp: image_iff)
  next
    case (Inl e)
    with c have d1: "d1 = draw d" by (auto simp: file_location_create_def Let_def split: if_splits)
    from assms c Inl obtain l where "file_location_update_status_by_file_and_storage (t_file_id task) (t_target task) ''synced'' d1 = (Inr l, d')"
      by (auto simp: record_synced_location_def split: app_error.splits if_splits prod.splits sum.splits)
    then have "d' = d1\<lparr>file_locations := update_where (\<lambda>l. l_file_id l = t_file_id task \<and> l_storage_id l = t_target task)
        (set_location_status ''synced'' (now d1)) (file_locations d1)\<rparr>"
      by (auto simp: file_location_update_status_by_file_and_storage_def split: option.splits)
    then show ?thesis by (auto simp: d1 update_where_def set_location_status_def)
  qed
  then show "storages d' = storages d" "projects d' = projects d" "file_references d' = file_references d" "now d' = now d"
    "\<And>l. l \<in> set (file_locations d) \<Longrightarrow> ?u l \<in> set (file_locations d')" by blast+
qed

lemma push_to_target_location:
  assumes "push_to_target x c reg task sp temp d w = (Some (Inr ()), d', w')"
  shows "record_synced_location task sp d = (Inr (), d')"
  using assms by (auto simp: push_to_target_def split: prod.splits option.splits sum.splits)

text \<open>A hot location that is due is archived by the second phase, when no more than a hundred are due.\<close>

lemma due_gets_archived:
  assumes "l \<in> set (file_locations d)" "archive_due d l" "length (filter (archive_due d) (file_locations d)) \<le> 100"
  shows "l\<lparr>l_status := ''archived''\<rparr> \<in> set (file_locations (snd (process_completed_archives d)))"
proof -
  have "l \<in> set (limit_rows 100 (filter (archive_due d) (file_locations d)))" using assms by (simp add: limit_rows_def)
  then show ?thesis using assms(1) by (auto simp: process_completed_archives_locations table_simps)
qed

lemma archive_dueI:
  assumes "l_status l = ''synced''" "location_is_hot d l" "c \<in> set (file_locations d)" "cold_copy d (l_file_id l) c"
    "r \<in> set (file_references d)" "r_file_id r = l_file_id l" "p \<in> set (projects d)" "p_id p = r_project_id r" "overdue d p l"
  shows "archive_due d l"
  using assms by (auto simp: archive_due_def list_ex_iff)

text \<open>The flags of a location depend on the storage table and the location's storage only.\<close>

lemma location_flags_storages:
  "storages d' = storages d \<Longrightarrow> l_storage_id l' = l_storage_id l \<Longrightarrow>
     location_enabled d' l' = location_enabled d l \<and> location_is_hot d' l' = location_is_hot d l"
  by (simp add: location_enabled_def location_is_hot_def location_storage_def)

lemma archivable_refs_exist:
  assumes ok: "schema_ok d" and "f \<in> set (find_archivable_files n d)"
  shows "af_file_id f \<in> f_id ` set (files d)" "af_hot_storage_id f \<in> s_id ` set (storages d)" "af_project_id f \<in> p_id ` set (projects d)"
proof -
  from assms(2) obtain l p where row: "(l, p) \<in> set (archivable_rows d)" and f: "af_file_id f = l_file_id l" "af_hot_storage_id f = l_storage_id l"
    "af_project_id f = p_id p" by (rule find_archivable_member) blast
  from row have "l \<in> set (file_locations d)" "p \<in> set (projects d)" by (auto elim: archivable_rowsD)
  with schema_okD(6) [OF ok] f show "af_file_id f \<in> f_id ` set (files d)" "af_hot_storage_id f \<in> s_id ` set (storages d)"
    "af_project_id f \<in> p_id ` set (projects d)" by (auto simp: file_locations_ok_def)
qed

lemma archive_loop_creates:
  assumes "supply_fresh d (t_id ` set (sync_tasks d))"
    and "\<forall>g \<in> set fs. af_file_id g \<in> f_id ` set (files d) \<and> af_hot_storage_id g \<in> s_id ` set (storages d) \<and> af_project_id g \<in> p_id ` set (projects d)"
    and "f \<in> set fs" "find_cold_storage (af_file_id f) d = Some cold" "registry_contains (s_id cold) reg"
  shows "\<exists>t \<in> set (sync_tasks (snd (archive_loop reg fs d))). archive_task_for reg d f t"
  using assms
proof (induction fs arbitrary: d)
  case (Cons g gs)
  show ?case
  proof (cases "\<exists>c. find_cold_storage (af_file_id g) d = Some c \<and> registry_contains (s_id c) reg")
    case True
    then obtain c where c: "find_cold_storage (af_file_id g) d = Some c" "registry_contains (s_id c) reg" by blast
    have "s_id c \<in> s_id ` set (storages d)" using head_opt_in_set [OF c(1) [unfolded find_cold_storage_def]] by auto
    with Cons.prems obtain t where new: "sync_task_create \<lparr>ct_file_id = af_file_id g, ct_source = af_hot_storage_id g, ct_target = s_id c,
        ct_project_id = Some (af_project_id g)\<rparr> d = (Inr t, (draw d)\<lparr>sync_tasks := sync_tasks d @ [t]\<rparr>)"
      and t: "t_id t = fresh_id d" "t_file_id t = af_file_id g" "t_source t = af_hot_storage_id g" "t_target t = s_id c" "t_status t = ''pending''"
        "t_project_id t = Some (af_project_id g)"
      by (elim sync_task_create_ok [of d "af_file_id g" "af_hot_storage_id g" "s_id c" "af_project_id g"]) auto
    let ?d1 = "(draw d)\<lparr>sync_tasks := sync_tasks d @ [t]\<rparr>"
    have run: "sync_tasks (snd (archive_loop reg (g # gs) d)) = sync_tasks (snd (archive_loop reg gs ?d1))"
      using c new by (simp add: split_beta)
    show ?thesis
    proof (cases "f = g")
      case True
      have "archive_task_for reg d f t" using t c True by (simp add: archive_task_for_def)
      moreover obtain m d2 where "archive_loop reg gs ?d1 = (m, d2)" by fastforce
      with archive_loop_adds [OF this] have "t \<in> set (sync_tasks (snd (archive_loop reg gs ?d1)))" by auto
      ultimately show ?thesis using run by auto
    next
      case False
      have "supply_fresh (draw d) (t_id ` set (sync_tasks ?d1))" using supply_fresh_draw [OF Cons.prems(1)] t(1) by simp
      then have "supply_fresh ?d1 (t_id ` set (sync_tasks ?d1))" by (rule supply_fresh_cong) simp_all
      moreover have "find_cold_storage (af_file_id f) ?d1 = Some cold" using Cons.prems(4) by (simp add: find_cold_storage_cong [of ?d1 d])
      ultimately have "\<exists>t \<in> set (sync_tasks (snd (archive_loop reg gs ?d1))). archive_task_for reg ?d1 f t"
        using Cons.IH [of ?d1] Cons.prems(2,3,5) False by simp
      then show ?thesis unfolding run by (simp add: archive_task_for_cong [of ?d1 d])
    qed
  next
    case False
    then have "archive_loop reg (g # gs) d = archive_loop reg gs d" by (auto split: option.split)
    moreover have "f \<in> set gs" using Cons.prems(3-5) False by auto
    ultimately show ?thesis using Cons.IH Cons.prems by simp
  qed
qed simp


text \<open>
  a restored copy does not survive the next scan. The restore queues a copy to the first hot storage
  and leaves the last access of the location alone; when the copy has arrived the location is synced, and
  the next second phase archives it again, because the file is still overdue and still has its cold copy.
\<close>

theorem restored_copy_archived_again:
  assumes "schema_ok d" and "h \<in> set (file_locations d)" and "l_status h = ''archived''"
    and "restore_target d = Some hot" and "l_storage_id h = s_id hot"
    and "r \<in> set (file_references d)" and "r_file_id r = l_file_id h" and "p \<in> set (projects d)" and "p_id p = r_project_id r"
    and "overdue d p h" and "k \<in> set (file_locations d)" and "cold_copy d (l_file_id h) k"
    and "restore_file (l_file_id h) d = (Inr task, d1)"
    and "push_to_target x c reg task sp temp d1 w = (Some (Inr ()), d2, w2)"
    and "length (filter (archive_due d2) (file_locations d2)) \<le> 100"
  shows "(\<exists>l \<in> set (file_locations d2). l_id l = l_id h \<and> l_status l = ''synced'') \<and>
    (\<exists>l \<in> set (file_locations (snd (process_completed_archives d2))). l_id l = l_id h \<and> l_status l = ''archived'')"
proof -
  obtain src e d0 where cr: "sync_task_create \<lparr>ct_file_id = l_file_id h, ct_source = src, ct_target = s_id hot, ct_project_id = e\<rparr> d = (Inr task, d0)"
    and d1: "d1 = d0\<lparr>file_locations := update_where (\<lambda>l. l_file_id l = l_file_id h \<and> l_status l = ''archived'')
       (\<lambda>l. l\<lparr>l_status := ''restoring''\<rparr>) (file_locations d0)\<rparr>"
    using assms(13,4) by (auto simp: restore_file_def split: sum.splits option.splits prod.splits)
  from sync_task_create_outcome [OF cr] have task: "t_file_id task = l_file_id h" "t_target task = s_id hot"
    and d0: "d0 = (draw d)\<lparr>sync_tasks := sync_tasks d @ [task]\<rparr>" by auto
  define g where "g = h\<lparr>l_status := ''restoring''\<rparr>"
  define s where "s = g\<lparr>l_status := ''synced'', l_synced_at := Some (now d1)\<rparr>"
  have hot: "hot \<in> set (storages d)" "s_is_hot hot" using head_opt_in_set [OF assms(4) [unfolded restore_target_def]] by auto
  have dist: "distinct (map s_id (storages d))" using schema_okD(2) [OF assms(1)] by (simp add: storages_ok_def)
  have h_hot: "location_is_hot d h" using find_by_key [OF dist hot(1)] assms(5) hot(2) by (simp add: location_is_hot_def location_storage_def)
  have rec: "record_synced_location task sp d1 = (Inr (), d2)" using assms(14) by (rule push_to_target_location)
  note eff = record_synced_location_effect [OF rec]
  have st: "storages d2 = storages d" "projects d2 = projects d" "file_references d2 = file_references d" "now d2 = now d"
    using eff(1-4) unfolding d1 d0 by simp_all
  have "g \<in> set (file_locations d1)" using assms(2,3) by (auto simp: d1 d0 table_simps g_def)
  from eff(5) [OF this] task assms(5) have s2: "s \<in> set (file_locations d2)" by (simp add: s_def g_def)
  have "k \<in> set (file_locations d1)" using assms(11,12) by (auto simp: d1 d0 table_simps cold_copy_def)
  moreover have "\<not> (l_file_id k = t_file_id task \<and> l_storage_id k = t_target task)"
    using h_hot assms(5,12) task(2) by (auto simp: cold_copy_def location_is_hot_def location_storage_def)
  ultimately have k2: "k \<in> set (file_locations d2)" using eff(5) [of k] by (auto split: if_splits)
  have "cold_copy d2 (l_file_id s) k"
    using assms(12) location_flags_storages [OF st(1) refl, of k] by (simp add: cold_copy_def s_def g_def)
  moreover have "overdue d2 p s" using assms(10) by (simp add: overdue_def st(4) s_def g_def cong: option.case_cong)
  moreover have "location_is_hot d2 s" using h_hot location_flags_storages [OF st(1), of s h] by (simp add: s_def g_def)
  ultimately have "archive_due d2 s"
    using archive_dueI [of s d2 k r p] k2 assms(6-9) st by (simp add: s_def g_def)
  from due_gets_archived [OF s2 this assms(15)] s2 show ?thesis
    by (intro conjI bexI [of _ s] bexI [of _ "s\<lparr>l_status := ''archived''\<rparr>"]) (simp_all add: s_def g_def)
qed

section \<open>Concrete instances\<close>

theorem tiering_keeps_files_readable_witness: "file_location_find_for_file 7 (scan_and_archive demo_registry demo_db) \<noteq> []"
proof -
  have "file_location_find_for_file 7 demo_db \<noteq> []" by (simp add: find_for_file_nonempty demo_defs location_enabled_def location_storage_def)
  then show ?thesis using tiering_keeps_files_readable [OF schema_ok_demo, of 7 demo_registry] by blast
qed

lemma demo_archivable: "map af_file_id (find_archivable_files 100 demo_db) = [7]"
  "map_option s_id (find_cold_storage 7 demo_db) = Some 4" "registry_contains 4 demo_registry"
  "fst (create_archive_tasks demo_registry demo_db) = 1"
  by code_simp+

theorem archive_tasks_once_witness:
  "\<exists>new1 new2 d1 d2. create_archive_tasks demo_registry demo_db = (1, d1) \<and> create_archive_tasks demo_registry d1 = (length new2, d2) \<and>
     sync_tasks d1 = new1 \<and> length new1 = 1 \<and> distinct (map t_file_id (new1 @ new2))"
proof -
  obtain d1 where d1: "create_archive_tasks demo_registry demo_db = (1, d1)" using demo_archivable(4) by (metis prod.collapse)
  obtain m d2 where d2: "create_archive_tasks demo_registry d1 = (m, d2)" by fastforce
  have "sync_tasks demo_db = []" by (simp add: demo_defs)
  with archive_tasks_once [OF d1 d2] d1 d2 show ?thesis by auto
qed

lemma demo_archive_push:
  "list_all (\<lambda>task. case push_to_target demo_env demo_sync_cfg demo_registry task ''ab/cd/abcdef'' [''tmp'', ''x.part'']
       (snd (create_archive_tasks demo_registry demo_db)) demo_temp of
       (Some (Inr _), d2, _) \<Rightarrow> length (filter (archive_due d2) (file_locations d2)) \<le> 100 | _ \<Rightarrow> False)
     (sync_tasks (snd (create_archive_tasks demo_registry demo_db)))"
  by code_simp


definition demo_tier_db :: db where
  "demo_tier_db = demo_db\<lparr>file_locations := [demo_location\<lparr>l_status := ''archived''\<rparr>,
     demo_location\<lparr>l_id := 10, l_storage_id := 4\<rparr>]\<rparr>"

lemma schema_ok_demo_tier: "schema_ok demo_tier_db"
  unfolding demo_tier_db_def
  by (rule schema_ok_set_leaf(3) [OF schema_ok_demo]) (simp add: file_locations_ok_def demo_defs)

lemma demo_restore_run:
  "case restore_file 7 demo_tier_db of (Inl _, _) \<Rightarrow> False
   | (Inr task, d1) \<Rightarrow>
      (case push_to_target demo_env demo_sync_cfg demo_registry task ''ab/cd/abcdef'' [''tmp'', ''x.part''] d1 demo_temp of
         (Some (Inr _), d2, _) \<Rightarrow> length (filter (archive_due d2) (file_locations d2)) \<le> 100 | _ \<Rightarrow> False)"
  "map_option s_id (restore_target demo_tier_db) = Some 3"
  by code_simp+

theorem restored_copy_archived_again_witness:
  "\<exists>task d1 d2 w2. restore_file 7 demo_tier_db = (Inr task, d1) \<and>
     push_to_target demo_env demo_sync_cfg demo_registry task ''ab/cd/abcdef'' [''tmp'', ''x.part''] d1 demo_temp = (Some (Inr ()), d2, w2) \<and>
     (\<exists>l \<in> set (file_locations (snd (process_completed_archives d2))). l_id l = 9 \<and> l_status l = ''archived'')"
proof -
  obtain r d1 where r: "restore_file 7 demo_tier_db = (r, d1)" by fastforce
  with demo_restore_run(1) obtain task where task: "r = Inr task" by (cases r) auto
  obtain q d2 w2 where q: "push_to_target demo_env demo_sync_cfg demo_registry task ''ab/cd/abcdef'' [''tmp'', ''x.part''] d1 demo_temp = (q, d2, w2)"
    by (metis prod_cases3)
  have run: "restore_file 7 demo_tier_db = (Inr task, d1)"
    "push_to_target demo_env demo_sync_cfg demo_registry task ''ab/cd/abcdef'' [''tmp'', ''x.part''] d1 demo_temp = (Some (Inr ()), d2, w2)"
    "length (filter (archive_due d2) (file_locations d2)) \<le> 100"
    using demo_restore_run(1) r task q by (auto split: option.splits sum.splits)
  obtain hot where hot: "restore_target demo_tier_db = Some hot" "s_id hot = 3" using demo_restore_run(2) by auto
  let ?h = "demo_location\<lparr>l_status := ''archived''\<rparr>"
  have "overdue demo_tier_db demo_project ?h" by (simp add: overdue_def demo_defs)
  moreover have "cold_copy demo_tier_db (l_file_id ?h) (demo_location\<lparr>l_id := 10, l_storage_id := 4\<rparr>)"
    by (simp add: cold_copy_def demo_tier_db_def demo_defs location_enabled_def location_is_hot_def location_storage_def)
  moreover have "restore_file (l_file_id ?h) demo_tier_db = (Inr task, d1)" using run(1) by (simp add: demo_location_def)
  ultimately have "\<exists>l \<in> set (file_locations (snd (process_completed_archives d2))). l_id l = l_id ?h \<and> l_status l = ''archived''"
    using restored_copy_archived_again [OF schema_ok_demo_tier _ _ hot(1) _ _ _ _ _ _ _ _ _ run(2,3), of ?h demo_reference demo_project
        "demo_location\<lparr>l_id := 10, l_storage_id := 4\<rparr>"] hot(2)
    by (simp add: demo_tier_db_def demo_defs)
  with run show ?thesis by (auto simp: demo_location_def)
qed

end
