(* ===== verification/Metadata.thy ===== *)
theory Metadata
  imports Models_File
begin

text \<open>
  The metadata search language (\<open>src/db/models.rs\<close>, \<open>MetadataFilter\<close> to \<open>execute_bulk_delete\<close>): filter
  trees are compiled into SQL text with numbered parameters and the arguments are bound in a separate
  step. The text is modelled as the strings the code builds; its meaning is that of the syntax tree
  \<open>cond\<close> it prints, evaluated on a row with the bound arguments. Shown: the compiler's text is the
  text of a condition that means what the filter means, whatever the parameter number it starts from;
  the text does not depend on keys and values; a filter is refused exactly when it is nested more than
  32 levels deep; search, summary and bulk deletion select exactly the matching references.
\<close>

section \<open>JSON containment\<close>

text \<open>
  The operator \<open>@>\<close> of PostgreSQL on values whose right-hand side is an object or lies inside one.
\<close>

function jsonb_contains :: "json \<Rightarrow> json \<Rightarrow> bool" where
  "jsonb_contains (JObj a) (JObj b) =
     list_all (\<lambda>(k, v). case map_of a k of None \<Rightarrow> False | Some v' \<Rightarrow> jsonb_contains v' v) b"
| "jsonb_contains (JArr a) (JArr b) = list_all (\<lambda>y. list_ex (\<lambda>z. jsonb_contains z y) a) b"
| "jsonb_contains JNull b = (b = JNull)"
| "jsonb_contains (JBool x) b = (b = JBool x)"
| "jsonb_contains (JNum x) b = (b = JNum x)"
| "jsonb_contains (JStr x) b = (b = JStr x)"
| "jsonb_contains (JObj a) JNull = False"
| "jsonb_contains (JObj a) (JBool b) = False"
| "jsonb_contains (JObj a) (JNum n) = False"
| "jsonb_contains (JObj a) (JStr s) = False"
| "jsonb_contains (JObj a) (JArr b) = False"
| "jsonb_contains (JArr a) JNull = False"
| "jsonb_contains (JArr a) (JBool b) = False"
| "jsonb_contains (JArr a) (JNum n) = False"
| "jsonb_contains (JArr a) (JStr s) = False"
| "jsonb_contains (JArr a) (JObj b) = False"
  by pat_completeness auto

lemma json_size_member: "(k, v) \<in> set b \<Longrightarrow> size v < Suc (size_list (size_prod (\<lambda>_. 0) size) b)"
  by (induction b) auto

lemma json_size_element: "y \<in> set b \<Longrightarrow> size y < Suc (size_list size b)"
  by (induction b) auto

termination jsonb_contains
  by (relation "measure (\<lambda>(a, b). size b)") (auto dest: json_size_member json_size_element)

section \<open>Filters\<close>

datatype metadata_filter =
    FAnd "metadata_filter list"
  | FOr "metadata_filter list"
  | FNot metadata_filter
  | FLeaf string json

text \<open>What a filter means for the metadata of a reference.\<close>

fun filter_matches :: "metadata_filter \<Rightarrow> json \<Rightarrow> bool" where
  "filter_matches (FAnd fs) m = list_all (\<lambda>f. filter_matches f m) fs"
| "filter_matches (FOr fs) m = list_ex (\<lambda>f. filter_matches f m) fs"
| "filter_matches (FNot f) m = (\<not> filter_matches f m)"
| "filter_matches (FLeaf k v) m = jsonb_contains m (JObj [(k, v)])"

fun filter_height :: "metadata_filter \<Rightarrow> nat" where
  "filter_height (FAnd fs) = Suc (foldr (\<lambda>f n. max (filter_height f) n) fs 0)"
| "filter_height (FOr fs) = Suc (foldr (\<lambda>f n. max (filter_height f) n) fs 0)"
| "filter_height (FNot f) = Suc (filter_height f)"
| "filter_height (FLeaf k v) = 1"

section \<open>MetadataFilterCompiler\<close>

record compiler =
  next_param :: nat
  params :: "json list"

definition compiler_new :: "nat \<Rightarrow> compiler" where
  "compiler_new start_param = \<lparr>next_param = start_param, params = []\<rparr>"

definition MAX_DEPTH :: nat where
  "MAX_DEPTH = 32"

definition too_deep :: app_error where
  "too_deep = BadRequest ''Filter nesting too deep (max 32 levels)''"

fun compile_inner :: "metadata_filter \<Rightarrow> nat \<Rightarrow> compiler \<Rightarrow> string app_result \<times> compiler"
and compile_parts :: "metadata_filter list \<Rightarrow> nat \<Rightarrow> compiler \<Rightarrow> string list app_result \<times> compiler" where
  "compile_inner (FLeaf key val) depth c =
     (if MAX_DEPTH \<le> depth then (Inl too_deep, c)
      else (Inr (''metadata @> $'' @ nat_str (next_param c) @ ''::jsonb''),
            c\<lparr>next_param := next_param c + 1, params := params c @ [JObj [(key, val)]]\<rparr>))"
| "compile_inner (FAnd fs) depth c =
     (if MAX_DEPTH \<le> depth then (Inl too_deep, c)
      else if fs = [] then (Inr ''TRUE'', c)
      else case compile_parts fs (depth + 1) c of
             (Inl e, c') \<Rightarrow> (Inl e, c')
           | (Inr parts, c') \<Rightarrow> (Inr (''('' @ join_str '' AND '' parts @ '')''), c'))"
| "compile_inner (FOr fs) depth c =
     (if MAX_DEPTH \<le> depth then (Inl too_deep, c)
      else if fs = [] then (Inr ''FALSE'', c)
      else case compile_parts fs (depth + 1) c of
             (Inl e, c') \<Rightarrow> (Inl e, c')
           | (Inr parts, c') \<Rightarrow> (Inr (''('' @ join_str '' OR '' parts @ '')''), c'))"
| "compile_inner (FNot f) depth c =
     (if MAX_DEPTH \<le> depth then (Inl too_deep, c)
      else case compile_inner f (depth + 1) c of
             (Inl e, c') \<Rightarrow> (Inl e, c')
           | (Inr inner, c') \<Rightarrow> (Inr (''NOT ('' @ inner @ '')''), c'))"
| "compile_parts [] depth c = (Inr [], c)"
| "compile_parts (f # fs) depth c =
     (case compile_inner f depth c of
        (Inl e, c1) \<Rightarrow> (Inl e, c1)
      | (Inr s, c1) \<Rightarrow>
         (case compile_parts fs depth c1 of
            (Inl e, c2) \<Rightarrow> (Inl e, c2)
          | (Inr ss, c2) \<Rightarrow> (Inr (s # ss), c2)))"

definition compile_filter :: "metadata_filter \<Rightarrow> compiler \<Rightarrow> string app_result \<times> compiler" where
  "compile_filter f c = compile_inner f 0 c"

section \<open>SQL conditions\<close>

text \<open>Bound arguments; parameter \<open>$i\<close> is the \<open>i\<close>-th of them.\<close>

datatype sql_arg = AUuid uuid | AJson json | ATime time | AInt int | AText string

datatype cond =
    CTrue
  | CFalse
  | CMeta nat
  | CAnd "cond list"
  | COr "cond list"
  | CNot cond
  | CNameIlike nat
  | CCreated string nat
  | CSize string nat
  | CNotAccessed nat
  | CAll "cond list"

fun cond_text :: "cond \<Rightarrow> string" where
  "cond_text CTrue = ''TRUE''"
| "cond_text CFalse = ''FALSE''"
| "cond_text (CMeta i) = ''metadata @> $'' @ nat_str i @ ''::jsonb''"
| "cond_text (CAnd cs) = ''('' @ join_str '' AND '' (map cond_text cs) @ '')''"
| "cond_text (COr cs) = ''('' @ join_str '' OR '' (map cond_text cs) @ '')''"
| "cond_text (CNot c) = ''NOT ('' @ cond_text c @ '')''"
| "cond_text (CNameIlike i) = ''fr.original_name ILIKE $'' @ nat_str i"
| "cond_text (CCreated rel i) = ''fr.created_at '' @ rel @ '' $'' @ nat_str i"
| "cond_text (CSize rel i) = ''f.size '' @ rel @ '' $'' @ nat_str i"
| "cond_text (CNotAccessed i) =
     ''NOT EXISTS (SELECT 1 FROM file_locations fl WHERE fl.file_id = fr.file_id AND (fl.last_accessed_at IS NULL OR fl.last_accessed_at >= $''
       @ nat_str i @ ''))''"
| "cond_text (CAll cs) = join_str '' AND '' (map cond_text cs)"

definition compare_by :: "string \<Rightarrow> int \<Rightarrow> int \<Rightarrow> bool" where
  "compare_by rel x y =
     (if rel = ''<'' then x < y else if rel = ''>'' then y < x
      else if rel = ''<='' then x \<le> y else if rel = ''>='' then y \<le> x else False)"

text \<open>\<open>ILIKE\<close> on ASCII: percent sign, underscore and backslash are pattern characters.\<close>

definition lower :: "char \<Rightarrow> char" where
  "lower c = (let n = of_char c :: nat in if 65 \<le> n \<and> n \<le> 90 then char_of (n + 32) else c)"

fun like_pat :: "string \<Rightarrow> string \<Rightarrow> bool" where
  "like_pat [] s = (s = [])"
| "like_pat (p # ps) [] = (p = CHR ''%'' \<and> like_pat ps [])"
| "like_pat (p # ps) (c # s) =
     (if p = CHR ''%'' then like_pat ps (c # s) \<or> like_pat (p # ps) s
      else if p = CHR ''_'' then like_pat ps s
      else if p = CHR 0x5C then (case ps of [] \<Rightarrow> False | q # qs \<Rightarrow> q = c \<and> like_pat qs s)
      else p = c \<and> like_pat ps s)"

definition ilike :: "string \<Rightarrow> string \<Rightarrow> bool" where
  "ilike s pat = like_pat (map lower pat) (map lower s)"

definition file_size_of :: "db \<Rightarrow> uuid \<Rightarrow> int option" where
  "file_size_of d fid = map_option f_size (find (\<lambda>f. f_id f = fid) (files d))"

definition arg_at :: "sql_arg list \<Rightarrow> nat \<Rightarrow> sql_arg option" where
  "arg_at args i = (if 1 \<le> i \<and> i \<le> length args then Some (args ! (i - 1)) else None)"

text \<open>A condition on a reference; \<open>f.size\<close> is the size of the file it is joined with.\<close>

fun cond_holds :: "db \<Rightarrow> sql_arg list \<Rightarrow> cond \<Rightarrow> file_reference \<Rightarrow> bool" where
  "cond_holds d args CTrue r = True"
| "cond_holds d args CFalse r = False"
| "cond_holds d args (CMeta i) r = (case arg_at args i of Some (AJson j) \<Rightarrow> jsonb_contains (r_metadata r) j | _ \<Rightarrow> False)"
| "cond_holds d args (CAnd cs) r = list_all (\<lambda>c. cond_holds d args c r) cs"
| "cond_holds d args (COr cs) r = list_ex (\<lambda>c. cond_holds d args c r) cs"
| "cond_holds d args (CNot c) r = (\<not> cond_holds d args c r)"
| "cond_holds d args (CNameIlike i) r = (case arg_at args i of Some (AText p) \<Rightarrow> ilike (r_original_name r) p | _ \<Rightarrow> False)"
| "cond_holds d args (CCreated rel i) r = (case arg_at args i of Some (ATime t) \<Rightarrow> compare_by rel (r_created_at r) t | _ \<Rightarrow> False)"
| "cond_holds d args (CSize rel i) r =
     (case arg_at args i of Some (AInt n) \<Rightarrow>
        (case file_size_of d (r_file_id r) of Some z \<Rightarrow> compare_by rel z n | None \<Rightarrow> False) | _ \<Rightarrow> False)"
| "cond_holds d args (CNotAccessed i) r =
     (case arg_at args i of Some (ATime t) \<Rightarrow>
        \<not> list_ex (\<lambda>l. l_file_id l = r_file_id r \<and>
            (case l_last_accessed_at l of None \<Rightarrow> True | Some a \<Rightarrow> t \<le> a)) (file_locations d) | _ \<Rightarrow> False)"
| "cond_holds d args (CAll cs) r = list_all (\<lambda>c. cond_holds d args c r) cs"

text \<open>The condition a filter compiles to when its parameters start at \<open>n\<close>, and its parameters.\<close>

fun cond_of :: "metadata_filter \<Rightarrow> nat \<Rightarrow> cond \<times> json list"
and conds_of :: "metadata_filter list \<Rightarrow> nat \<Rightarrow> cond list \<times> json list" where
  "cond_of (FLeaf k v) n = (CMeta n, [JObj [(k, v)]])"
| "cond_of (FAnd fs) n = (if fs = [] then (CTrue, []) else let (cs, ps) = conds_of fs n in (CAnd cs, ps))"
| "cond_of (FOr fs) n = (if fs = [] then (CFalse, []) else let (cs, ps) = conds_of fs n in (COr cs, ps))"
| "cond_of (FNot f) n = (let (c, ps) = cond_of f n in (CNot c, ps))"
| "conds_of [] n = ([], [])"
| "conds_of (f # fs) n =
     (let (c, ps) = cond_of f n; (cs, qs) = conds_of fs (n + length ps) in (c # cs, ps @ qs))"

section \<open>The compiler is correct\<close>

definition advance :: "compiler \<Rightarrow> json list \<Rightarrow> compiler" where
  "advance c ps = c\<lparr>next_param := next_param c + length ps, params := params c @ ps\<rparr>"

lemma advance_simps [simp]:
  "next_param (advance c ps) = next_param c + length ps" "params (advance c ps) = params c @ ps"
  "advance (advance c ps) qs = advance c (ps @ qs)" "advance c [] = c"
  by (simp_all add: advance_def)

lemma compile_ok:
  "depth + filter_height f \<le> MAX_DEPTH \<Longrightarrow>
     compile_inner f depth c =
       (Inr (cond_text (fst (cond_of f (next_param c)))), advance c (snd (cond_of f (next_param c))))"
  "(\<forall>f \<in> set fs. depth + filter_height f \<le> MAX_DEPTH) \<Longrightarrow>
     compile_parts fs depth c =
       (Inr (map cond_text (fst (conds_of fs (next_param c)))), advance c (snd (conds_of fs (next_param c))))"
proof (induction f depth c and fs depth c rule: compile_inner_compile_parts.induct)
  case (2 fs depth c)
  have "\<forall>f \<in> set fs. Suc depth + filter_height f \<le> MAX_DEPTH"
  proof
    fix f assume "f \<in> set fs"
    then have "filter_height f \<le> foldr (\<lambda>f n. max (filter_height f) n) fs 0" by (induction fs) auto
    with 2(2) show "Suc depth + filter_height f \<le> MAX_DEPTH" by simp
  qed
  with 2 show ?case by (auto simp: split_beta Let_def)
next
  case (3 fs depth c)
  have "\<forall>f \<in> set fs. Suc depth + filter_height f \<le> MAX_DEPTH"
  proof
    fix f assume "f \<in> set fs"
    then have "filter_height f \<le> foldr (\<lambda>f n. max (filter_height f) n) fs 0" by (induction fs) auto
    with 3(2) show "Suc depth + filter_height f \<le> MAX_DEPTH" by simp
  qed
  with 3 show ?case by (auto simp: split_beta Let_def)
qed (auto simp: split_beta Let_def advance_def)

lemma foldr_max_ge: "f \<in> set fs \<Longrightarrow> (h f :: nat) \<le> foldr (\<lambda>f n. max (h f) n) fs 0"
  by (induction fs) auto

lemma foldr_max_le: "(\<And>f. f \<in> set fs \<Longrightarrow> (h f :: nat) \<le> m) \<Longrightarrow> foldr (\<lambda>f n. max (h f) n) fs 0 \<le> m"
  by (induction fs) auto

lemma compile_too_deep:
  "MAX_DEPTH < depth + filter_height f \<Longrightarrow> fst (compile_inner f depth c) = Inl too_deep"
  "\<exists>f \<in> set fs. MAX_DEPTH < depth + filter_height f \<Longrightarrow> fst (compile_parts fs depth c) = Inl too_deep"
proof (induction f depth c and fs depth c rule: compile_inner_compile_parts.induct)
  case (2 fs depth c)
  show ?case
  proof (cases "MAX_DEPTH \<le> depth")
    case False
    have "\<exists>f \<in> set fs. MAX_DEPTH < Suc depth + filter_height f"
      using 2(2) False foldr_max_le [of fs filter_height "MAX_DEPTH - Suc depth"] by (fastforce simp: not_less)
    with 2 False show ?thesis by (cases "compile_parts fs (depth + 1) c") auto
  qed simp
next
  case (3 fs depth c)
  show ?case
  proof (cases "MAX_DEPTH \<le> depth")
    case False
    have "\<exists>f \<in> set fs. MAX_DEPTH < Suc depth + filter_height f"
      using 3(2) False foldr_max_le [of fs filter_height "MAX_DEPTH - Suc depth"] by (fastforce simp: not_less)
    with 3 False show ?thesis by (cases "compile_parts fs (depth + 1) c") auto
  qed simp
next
  case (4 f depth c)
  then show ?case by (cases "compile_inner f (depth + 1) c") auto
next
  case (6 f fs depth c)
  show ?case
  proof (cases "depth + filter_height f \<le> MAX_DEPTH")
    case True
    with 6 compile_ok(1) [OF True, of c] show ?thesis
      by (cases "compile_parts fs depth (advance c (snd (cond_of f (next_param c))))") auto
  next
    case False
    with 6 show ?thesis by (cases "compile_inner f depth c") auto
  qed
qed auto

definition binds :: "sql_arg list \<Rightarrow> nat \<Rightarrow> json list \<Rightarrow> bool" where
  "binds args n ps \<longleftrightarrow> (\<forall>i < length ps. arg_at args (n + i) = Some (AJson (ps ! i)))"

lemma binds_append: "binds args n (ps @ qs) \<longleftrightarrow> binds args n ps \<and> binds args (n + length ps) qs"
proof (intro iffI conjI)
  assume b: "binds args n (ps @ qs)"
  show "binds args n ps" unfolding binds_def
  proof (intro allI impI)
    fix i assume "i < length ps"
    then show "arg_at args (n + i) = Some (AJson (ps ! i))" using b by (auto simp: binds_def nth_append dest!: spec [of _ i])
  qed
  show "binds args (n + length ps) qs" unfolding binds_def
  proof (intro allI impI)
    fix i assume "i < length qs"
    then show "arg_at args (n + length ps + i) = Some (AJson (qs ! i))"
      using b by (auto simp: binds_def nth_append add.assoc dest!: spec [of _ "length ps + i"])
  qed
next
  assume b: "binds args n ps \<and> binds args (n + length ps) qs"
  show "binds args n (ps @ qs)" unfolding binds_def
  proof (intro allI impI)
    fix i assume i: "i < length (ps @ qs)"
    show "arg_at args (n + i) = Some (AJson ((ps @ qs) ! i))"
    proof (cases "i < length ps")
      case True
      with b show ?thesis by (simp add: binds_def nth_append)
    next
      case False
      then obtain j where "i = length ps + j" by (metis le_add_diff_inverse not_less)
      with b i show ?thesis by (auto simp: binds_def nth_append add.assoc)
    qed
  qed
qed

lemma list_all_of_map: "map P xs = map Q ys \<Longrightarrow> list_all P xs = list_all Q ys"
  by (induction xs arbitrary: ys) auto

lemma list_ex_of_map: "map P xs = map Q ys \<Longrightarrow> list_ex P xs = list_ex Q ys"
  by (induction xs arbitrary: ys) auto

lemma cond_of_meaning:
  "binds args n (snd (cond_of f n)) \<Longrightarrow> cond_holds d args (fst (cond_of f n)) r = filter_matches f (r_metadata r)"
  "binds args n (snd (conds_of fs n)) \<Longrightarrow>
     map (\<lambda>c. cond_holds d args c r) (fst (conds_of fs n)) = map (\<lambda>f. filter_matches f (r_metadata r)) fs"
proof (induction f n and fs n rule: cond_of_conds_of.induct)
  case (1 k v n)
  then have "arg_at args n = Some (AJson (JObj [(k, v)]))" by (simp add: binds_def)
  then show ?case by simp
next
  case (2 fs n)
  show ?case
  proof (cases "fs = []")
    case False
    with 2 have "map (\<lambda>c. cond_holds d args c r) (fst (conds_of fs n)) = map (\<lambda>f. filter_matches f (r_metadata r)) fs"
      by (simp add: split_beta)
    from list_all_of_map [OF this] False show ?thesis by (simp add: split_beta)
  qed simp
next
  case (3 fs n)
  show ?case
  proof (cases "fs = []")
    case False
    with 3 have "map (\<lambda>c. cond_holds d args c r) (fst (conds_of fs n)) = map (\<lambda>f. filter_matches f (r_metadata r)) fs"
      by (simp add: split_beta)
    from list_ex_of_map [OF this] False show ?thesis by (simp add: split_beta)
  qed simp
next
  case (6 f fs n)
  obtain c ps where "cond_of f n = (c, ps)" by fastforce
  with 6 show ?case by (simp add: split_beta Let_def binds_append)
qed (auto simp: split_beta)

text \<open>
  C8: the compiled condition means what the filter means. Compiling a filter nested at most 32 levels
  deep, with parameters numbered from \<open>n\<close>, yields the text of a condition and a parameter list that
  continues the numbering without gaps; with these parameters bound at their numbers the condition
  holds for a reference exactly when the filter matches its metadata. A deeper filter is refused.
\<close>

theorem compile_filter_correct:
  "(filter_height f \<le> 32 \<longrightarrow>
     (\<exists>c ps. compile_filter f (compiler_new n) = (Inr (cond_text c), \<lparr>next_param = n + length ps, params = ps\<rparr>) \<and>
        (\<forall>d args r. (\<forall>i < length ps. arg_at args (n + i) = Some (AJson (ps ! i))) \<longrightarrow>
           cond_holds d args c r = filter_matches f (r_metadata r)))) \<and>
   (32 < filter_height f \<longrightarrow>
     fst (compile_filter f (compiler_new n)) = Inl (BadRequest ''Filter nesting too deep (max 32 levels)''))"
proof (intro conjI impI)
  assume "filter_height f \<le> 32"
  then have "0 + filter_height f \<le> MAX_DEPTH" by (simp add: MAX_DEPTH_def)
  from compile_ok(1) [OF this, of "compiler_new n"] cond_of_meaning(1) [of _ n f]
  show "\<exists>c ps. compile_filter f (compiler_new n) = (Inr (cond_text c), \<lparr>next_param = n + length ps, params = ps\<rparr>) \<and>
        (\<forall>d args r. (\<forall>i < length ps. arg_at args (n + i) = Some (AJson (ps ! i))) \<longrightarrow>
           cond_holds d args c r = filter_matches f (r_metadata r))"
    by (intro exI [of _ "fst (cond_of f n)"] exI [of _ "snd (cond_of f n)"])
      (simp add: compile_filter_def compiler_new_def advance_def binds_def)
next
  assume "32 < filter_height f"
  with compile_too_deep(1) [of 0 f "compiler_new n"]
  show "fst (compile_filter f (compiler_new n)) = Inl (BadRequest ''Filter nesting too deep (max 32 levels)'')"
    by (simp add: compile_filter_def MAX_DEPTH_def too_deep_def)
qed

theorem compile_filter_correct_witness:
  "\<exists>c ps. compile_filter (FNot (FLeaf ''env'' (JStr ''prod''))) (compiler_new 2) =
     (Inr (cond_text c), \<lparr>next_param = 2 + length ps, params = ps\<rparr>) \<and>
     (\<forall>d args r. (\<forall>i < length ps. arg_at args (2 + i) = Some (AJson (ps ! i))) \<longrightarrow>
        cond_holds d args c r = filter_matches (FNot (FLeaf ''env'' (JStr ''prod''))) (r_metadata r))"
  using compile_filter_correct [of "FNot (FLeaf ''env'' (JStr ''prod''))" 2] by simp

text \<open>Two filters of the same shape: they differ in keys and values only.\<close>

fun same_shape :: "metadata_filter \<Rightarrow> metadata_filter \<Rightarrow> bool" where
  "same_shape (FLeaf _ _) (FLeaf _ _) = True"
| "same_shape (FNot f) (FNot g) = same_shape f g"
| "same_shape (FAnd fs) (FAnd gs) = list_all2 same_shape fs gs"
| "same_shape (FOr fs) (FOr gs) = list_all2 same_shape fs gs"
| "same_shape _ _ = False"

lemma compile_same_shape:
  "same_shape f g \<Longrightarrow> next_param c = next_param c' \<Longrightarrow>
     fst (compile_inner f depth c) = fst (compile_inner g depth c') \<and>
     next_param (snd (compile_inner f depth c)) = next_param (snd (compile_inner g depth c'))"
  "list_all2 same_shape fs gs \<Longrightarrow> next_param c = next_param c' \<Longrightarrow>
     fst (compile_parts fs depth c) = fst (compile_parts gs depth c') \<and>
     next_param (snd (compile_parts fs depth c)) = next_param (snd (compile_parts gs depth c'))"
proof (induction f depth c and fs depth c arbitrary: g c' and gs c' rule: compile_inner_compile_parts.induct)
  case (1 key val depth c)
  then show ?case by (cases g) auto
next
  case (2 fs depth c)
  from 2(2) obtain gs where g: "g = FAnd gs" "list_all2 same_shape fs gs" by (cases g) auto
  then have "(fs = []) = (gs = [])" by auto
  with 2 g show ?case
    by (cases "compile_parts fs (depth + 1) c"; cases "compile_parts gs (depth + 1) c'") (auto split: sum.splits)
next
  case (3 fs depth c)
  from 3(2) obtain gs where g: "g = FOr gs" "list_all2 same_shape fs gs" by (cases g) auto
  then have "(fs = []) = (gs = [])" by auto
  with 3 g show ?case
    by (cases "compile_parts fs (depth + 1) c"; cases "compile_parts gs (depth + 1) c'") (auto split: sum.splits)
next
  case (4 f depth c)
  from 4(2) obtain h where g: "g = FNot h" "same_shape f h" by (cases g) auto
  with 4 show ?case
    by (cases "compile_inner f (depth + 1) c"; cases "compile_inner h (depth + 1) c'") (auto split: sum.splits)
next
  case (5 depth c)
  then show ?case by simp
next
  case (6 f fs depth c)
  from 6(3) obtain h hs where g: "gs = h # hs" "same_shape f h" "list_all2 same_shape fs hs"
    by (auto simp: list_all2_Cons1)
  obtain r1 c1 where f: "compile_inner f depth c = (r1, c1)" by fastforce
  obtain r2 c2 where h: "compile_inner h depth c' = (r2, c2)" by fastforce
  have ih: "r1 = r2" "next_param c1 = next_param c2" using "6.IH"(1) [OF g(2) "6.prems"(2)] f h by auto
  show ?case
  proof (cases r1)
    case (Inr s)
    have "fst (compile_parts fs depth c1) = fst (compile_parts hs depth c2) \<and>
        next_param (snd (compile_parts fs depth c1)) = next_param (snd (compile_parts hs depth c2))"
      using "6.IH"(2) f Inr g(3) ih by auto
    with g f h ih Inr show ?thesis
      by (cases "compile_parts fs depth c1"; cases "compile_parts hs depth c2") (auto split: sum.splits)
  qed (use g f h ih in auto)
qed

text \<open>
  C9: the SQL text carries no user data. Two filters that differ in keys and values only compile to
  the same text (or the same error); keys and values reach the database as bound parameters only.
\<close>

theorem compile_text_independent_of_data:
  assumes "same_shape f g"
  shows "fst (compile_filter f (compiler_new n)) = fst (compile_filter g (compiler_new n))"
  using compile_same_shape(1) [OF assms, of "compiler_new n" "compiler_new n" 0] by (simp add: compile_filter_def)

theorem compile_text_independent_of_data_witness:
  "fst (compile_filter (FLeaf ''a'' JNull) (compiler_new 2)) =
   fst (compile_filter (FLeaf ''x) OR TRUE --'' (JStr ''y'')) (compiler_new 2))"
  using compile_text_independent_of_data [of "FLeaf ''a'' JNull" "FLeaf ''x) OR TRUE --'' (JStr ''y'')" 2] by simp

section \<open>Search\<close>

record search_extras =
  se_name_contains :: "string option"
  se_created_after :: "time option"
  se_created_before :: "time option"

text \<open>An optional condition takes the next parameter number when it is present.\<close>

definition opt_cond :: "'a option \<Rightarrow> (nat \<Rightarrow> cond) \<Rightarrow> cond list \<times> nat \<Rightarrow> cond list \<times> nat" where
  "opt_cond v mk acc = (if v \<noteq> None then (fst acc @ [mk (snd acc)], snd acc + 1) else acc)"

definition extras_conds :: "search_extras \<Rightarrow> nat \<Rightarrow> cond list \<times> nat" where
  "extras_conds e start =
     opt_cond (se_created_before e) (CCreated ''<='')
       (opt_cond (se_created_after e) (CCreated ''>='')
          (opt_cond (se_name_contains e) CNameIlike ([], start)))"

definition extras_clause :: "search_extras \<Rightarrow> nat \<Rightarrow> string \<times> nat" where
  "extras_clause e start =
     (let (cs, idx) = extras_conds e start
      in (if cs = [] then [] else '' AND '' @ join_str '' AND '' (map cond_text cs), idx))"

definition extras_bind :: "search_extras \<Rightarrow> sql_arg list" where
  "extras_bind e =
     (case se_name_contains e of None \<Rightarrow> [] | Some n \<Rightarrow> [AText (''%'' @ n @ ''%'')]) @
     (case se_created_after e of None \<Rightarrow> [] | Some t \<Rightarrow> [ATime t]) @
     (case se_created_before e of None \<Rightarrow> [] | Some t \<Rightarrow> [ATime t])"

text \<open>
  The part the search queries share: the text after \<open>fr.project_id = $1 AND\<close>, the condition it denotes,
  the next free parameter number and the bound arguments.
\<close>

definition search_where ::
    "uuid \<Rightarrow> metadata_filter option \<Rightarrow> search_extras \<Rightarrow> (string \<times> cond \<times> nat \<times> sql_arg list) app_result" where
  "search_where pid filters e =
     (case (case filters of Some f \<Rightarrow> compile_filter f (compiler_new 2) | None \<Rightarrow> (Inr ''TRUE'', compiler_new 2)) of
        (Inl err, _) \<Rightarrow> Inl err
      | (Inr filter_clause, c) \<Rightarrow>
         (let jsonb_params = params c;
              (clause, idx) = extras_clause e (length jsonb_params + 2);
              fc = (case filters of Some f \<Rightarrow> fst (cond_of f 2) | None \<Rightarrow> CTrue)
          in Inr (filter_clause @ clause,
                  CAll (fc # fst (extras_conds e (length jsonb_params + 2))),
                  idx,
                  AUuid pid # map AJson jsonb_params @ extras_bind e)))"

definition selected :: "db \<Rightarrow> cond \<Rightarrow> sql_arg list \<Rightarrow> file_reference list" where
  "selected d c args =
     filter (\<lambda>r. arg_at args 1 = Some (AUuid (r_project_id r)) \<and> cond_holds d args c r) (file_references d)"

record search_result =
  sr_results :: "file_reference list"
  sr_total :: int
  sr_page :: int
  sr_per_page :: int

definition int_arg :: "sql_arg list \<Rightarrow> nat \<Rightarrow> int" where
  "int_arg args i = (case arg_at args i of Some (AInt n) \<Rightarrow> n | _ \<Rightarrow> 0)"

definition search_by_metadata ::
    "uuid \<Rightarrow> metadata_filter option \<Rightarrow> search_extras \<Rightarrow> int \<Rightarrow> int \<Rightarrow> db \<Rightarrow> search_result app_result" where
  "search_by_metadata pid filters e page per_page d =
     (let limit = clamp_i64 1 100 per_page;
          offset = sat_i64 (sat_i64 (max page 1 - 1) * limit)
      in case search_where pid filters e of
           Inl err \<Rightarrow> Inl err
         | Inr (sql, c, limit_idx, args) \<Rightarrow>
            (let data_args = args @ [AInt limit, AInt offset]
             in Inr \<lparr>sr_results = limit_rows (int_arg data_args limit_idx) (offset_rows (int_arg data_args (limit_idx + 1))
                        (order_desc r_created_at (selected d c data_args))),
                     sr_total = int (length (selected d c args)), sr_page = max page 1, sr_per_page = limit\<rparr>))"

text \<open>\<open>JOIN files f ON f.id = fr.file_id\<close>: the sizes of the joined rows.\<close>

definition joined_sizes :: "db \<Rightarrow> file_reference list \<Rightarrow> int list" where
  "joined_sizes d rs = concat (map (\<lambda>r. map f_size (filter (\<lambda>f. f_id f = r_file_id r) (files d))) rs)"

definition search_all_for_filter ::
    "uuid \<Rightarrow> metadata_filter option \<Rightarrow> search_extras \<Rightarrow> db \<Rightarrow> (file_reference list \<times> int) app_result" where
  "search_all_for_filter pid filters e d =
     (case search_where pid filters e of
        Inl err \<Rightarrow> Inl err
      | Inr (sql, c, idx, args) \<Rightarrow>
         Inr (order_desc r_created_at (selected d c args), sum_list (joined_sizes d (selected d c args))))"

record search_summary =
  ss_total_files :: int
  ss_total_size :: int
  ss_earliest :: "time option"
  ss_latest :: "time option"
  ss_timeline :: "(int \<times> int \<times> int) list"

definition date_of :: "time \<Rightarrow> int" where
  "date_of t = t div (86400 * 1000000)"

definition has_file :: "db \<Rightarrow> file_reference \<Rightarrow> bool" where
  "has_file d r = list_ex (\<lambda>f. f_id f = r_file_id r) (files d)"

definition search_summary_for ::
    "uuid \<Rightarrow> metadata_filter option \<Rightarrow> search_extras \<Rightarrow> db \<Rightarrow> search_summary app_result" where
  "search_summary_for pid filters e d =
     (case search_where pid filters e of
        Inl err \<Rightarrow> Inl err
      | Inr (sql, c, idx, args) \<Rightarrow>
         (let rows = filter (has_file d) (selected d c args);
              times = map r_created_at rows;
              dates = sort (remdups (map date_of times))
          in Inr \<lparr>ss_total_files = int (length rows), ss_total_size = sum_list (joined_sizes d rows),
                  ss_earliest = (if times = [] then None else Some (Min (set times))),
                  ss_latest = (if times = [] then None else Some (Max (set times))),
                  ss_timeline = map (\<lambda>day. (let rs = filter (\<lambda>r. date_of (r_created_at r) = day) rows
                                           in (day, int (length rs), sum_list (joined_sizes d rs)))) dates\<rparr>))"

fun object_keys :: "json \<Rightarrow> string list option" where
  "object_keys (JObj kvs) = Some (map fst kvs)"
| "object_keys _ = None"

text \<open>\<open>jsonb_object_keys\<close> raises an error on a value that is not an object.\<close>

definition distinct_metadata_keys :: "uuid \<Rightarrow> db \<Rightarrow> string list app_result" where
  "distinct_metadata_keys pid d =
     (let metas = map r_metadata (filter (\<lambda>r. r_project_id r = pid) (file_references d))
      in if list_ex (\<lambda>m. object_keys m = None) metas
         then Inl (Database (OtherDbError ''cannot call jsonb_object_keys on a non-object''))
         else Inr (sort (remdups (concat (map (\<lambda>m. the (object_keys m)) metas)))))"

definition file_reference_update_metadata :: "uuid \<Rightarrow> json \<Rightarrow> db \<Rightarrow> file_reference app_result \<times> db" where
  "file_reference_update_metadata i metadata d =
     (case find (\<lambda>r. r_id r = i) (file_references d) of
        None \<Rightarrow> (Inl (NotFound (''File reference '' @ uuid_str i @ '' not found'')), d)
      | Some r \<Rightarrow> (Inr (r\<lparr>r_metadata := metadata\<rparr>),
          d\<lparr>file_references := update_where (\<lambda>r. r_id r = i) (\<lambda>r. r\<lparr>r_metadata := metadata\<rparr>) (file_references d)\<rparr>))"

text \<open>What a search is meant to find.\<close>

definition search_matches :: "uuid \<Rightarrow> metadata_filter option \<Rightarrow> search_extras \<Rightarrow> file_reference \<Rightarrow> bool" where
  "search_matches pid filters e r \<longleftrightarrow> r_project_id r = pid \<and>
     (case filters of None \<Rightarrow> True | Some f \<Rightarrow> filter_matches f (r_metadata r)) \<and>
     (case se_name_contains e of None \<Rightarrow> True | Some n \<Rightarrow> ilike (r_original_name r) (''%'' @ n @ ''%'')) \<and>
     (case se_created_after e of None \<Rightarrow> True | Some t \<Rightarrow> t \<le> r_created_at r) \<and>
     (case se_created_before e of None \<Rightarrow> True | Some t \<Rightarrow> r_created_at r \<le> t)"

lemma arg_at_Cons: "arg_at (a # args) (Suc (Suc i)) = arg_at args (Suc i)"
  by (simp add: arg_at_def)

lemma arg_at_append: "arg_at (xs @ ys) i = (if i \<le> length xs then arg_at xs i else arg_at ys (i - length xs))"
  by (auto simp: arg_at_def nth_append)

lemma binds_middle: "binds (a # map AJson ps @ rest) 2 ps"
proof -
  have "arg_at (a # map AJson ps @ rest) (2 + i) = Some (AJson (ps ! i))" if "i < length ps" for i
    using that by (simp add: arg_at_def nth_append)
  then show ?thesis by (simp add: binds_def)
qed

text \<open>The arguments bound last, at the numbers their conditions carry.\<close>

lemma arg_at_tail:
  "arg_at (map AJson ps @ rest) (Suc (length ps)) = arg_at rest (Suc 0)"
  "arg_at (map AJson ps @ rest) (Suc (Suc (length ps))) = arg_at rest (Suc (Suc 0))"
  "arg_at (map AJson ps @ rest) (Suc (Suc (Suc (length ps)))) = arg_at rest (Suc (Suc (Suc 0)))"
  "arg_at (map AJson ps @ rest) (Suc (Suc (Suc (Suc (length ps))))) = arg_at rest (Suc (Suc (Suc (Suc 0))))"
  "arg_at (map AJson ps @ rest) (Suc (Suc (Suc (Suc (Suc (length ps)))))) = arg_at rest (Suc (Suc (Suc (Suc (Suc 0)))))"
  by (auto simp: arg_at_def nth_append numeral_eq_Suc)

lemma arg_at_Suc: "arg_at (a # as) (Suc 0) = Some a" "arg_at (a # as) (Suc (Suc i)) = arg_at as (Suc i)"
  by (simp_all add: arg_at_def)

lemma extras_hold:
  "list_all (\<lambda>c. cond_holds d (a # map AJson ps @ extras_bind e @ rest) c r) (fst (extras_conds e (length ps + 2))) \<longleftrightarrow>
     (case se_name_contains e of None \<Rightarrow> True | Some n \<Rightarrow> ilike (r_original_name r) (''%'' @ n @ ''%'')) \<and>
     (case se_created_after e of None \<Rightarrow> True | Some t \<Rightarrow> t \<le> r_created_at r) \<and>
     (case se_created_before e of None \<Rightarrow> True | Some t \<Rightarrow> r_created_at r \<le> t)"
  by (cases "se_name_contains e"; cases "se_created_after e"; cases "se_created_before e")
    (simp_all add: extras_conds_def extras_bind_def opt_cond_def arg_at_tail arg_at_Suc compare_by_def)

lemma extras_index: "snd (extras_conds e n) = n + length (extras_bind e)"
  by (cases "se_name_contains e"; cases "se_created_after e"; cases "se_created_before e")
    (simp_all add: extras_conds_def extras_bind_def opt_cond_def)

lemma join_str_Cons: "join_str sep (x # xs) = x @ (if xs = [] then [] else sep @ join_str sep xs)"
  by (cases xs) auto

definition filters_ok :: "metadata_filter option \<Rightarrow> bool" where
  "filters_ok filters = (case filters of None \<Rightarrow> True | Some f \<Rightarrow> filter_height f \<le> 32)"

lemma search_where_ok:
  assumes "filters_ok filters"
  obtains c args where "search_where pid filters e = Inr (cond_text c, c, length args + 1, args)"
    "\<And>d rest. selected d c (args @ rest) = filter (search_matches pid filters e) (file_references d)"
proof -
  define fc where "fc = (case filters of Some f \<Rightarrow> fst (cond_of f 2) | None \<Rightarrow> CTrue)"
  define ps where "ps = (case filters of Some f \<Rightarrow> snd (cond_of f 2) | None \<Rightarrow> [])"
  define args where "args = AUuid pid # map AJson ps @ extras_bind e"
  define c where "c = CAll (fc # fst (extras_conds e (length ps + 2)))"
  have comp: "(case filters of Some f \<Rightarrow> compile_filter f (compiler_new 2) | None \<Rightarrow> (Inr ''TRUE'', compiler_new 2)) =
      (Inr (cond_text fc), \<lparr>next_param = 2 + length ps, params = ps\<rparr>)"
    using assms compile_ok(1) [of 0 _ "compiler_new 2"]
    by (auto simp: filters_ok_def fc_def ps_def compile_filter_def compiler_new_def advance_def MAX_DEPTH_def split: option.splits)
  have fcm: "cond_holds d (args @ rest) fc r = (case filters of None \<Rightarrow> True | Some f \<Rightarrow> filter_matches f (r_metadata r))" for d rest r
  proof (cases filters)
    case (Some f)
    have "binds (args @ rest) 2 ps" using binds_middle [of "AUuid pid" ps "extras_bind e @ rest"] by (simp add: args_def)
    with Some cond_of_meaning(1) [of "args @ rest" 2 f] show ?thesis by (simp add: fc_def ps_def)
  qed (simp add: fc_def)
  have "selected d c (args @ rest) = filter (search_matches pid filters e) (file_references d)" for d rest
    unfolding selected_def
  proof (rule filter_cong)
    fix r
    have "arg_at (args @ rest) 1 = Some (AUuid pid)" by (simp add: args_def arg_at_def)
    with fcm extras_hold [of d "AUuid pid" ps e rest r]
    show "(arg_at (args @ rest) 1 = Some (AUuid (r_project_id r)) \<and> cond_holds d (args @ rest) c r) = search_matches pid filters e r"
      by (auto simp: c_def search_matches_def args_def)
  qed simp
  moreover have "search_where pid filters e = Inr (cond_text c, c, length args + 1, args)"
    by (simp add: search_where_def comp extras_clause_def split_beta Let_def extras_index c_def join_str_Cons fc_def [symmetric]
        args_def)
  ultimately show ?thesis by (rule that [rotated])
qed

lemma search_where_deep:
  assumes "\<not> filters_ok filters"
  shows "search_where pid filters e = Inl (BadRequest ''Filter nesting too deep (max 32 levels)'')"
proof -
  from assms obtain f where f: "filters = Some f" "32 < filter_height f"
    by (auto simp: filters_ok_def split: option.splits)
  then have "fst (compile_filter f (compiler_new 2)) = Inl too_deep"
    using compile_too_deep(1) [of 0 f] by (simp add: compile_filter_def MAX_DEPTH_def)
  with f show ?thesis
    by (cases "compile_filter f (compiler_new 2)") (simp add: search_where_def too_deep_def)
qed

text \<open>
  C10: search is exact. A search returns the requested page of exactly those references of the project
  that match the filter, the name and the dates, newest first, with the number of all matches; a page
  has at most 100 entries whatever is asked for, and a filter nested too deeply is a bad request.
\<close>

theorem search_by_metadata_exact:
  "(filters_ok filters \<longrightarrow>
     (let limit = clamp_i64 1 100 per_page; all = filter (search_matches pid filters e) (file_references d)
      in search_by_metadata pid filters e page per_page d =
           Inr \<lparr>sr_results = limit_rows limit (offset_rows (sat_i64 (sat_i64 (max page 1 - 1) * limit)) (order_desc r_created_at all)),
                sr_total = int (length all), sr_page = max page 1, sr_per_page = limit\<rparr> \<and> 1 \<le> limit \<and> limit \<le> 100)) \<and>
   (\<not> filters_ok filters \<longrightarrow>
     search_by_metadata pid filters e page per_page d = Inl (BadRequest ''Filter nesting too deep (max 32 levels)''))"
proof (intro conjI impI)
  assume "filters_ok filters"
  then obtain c args where w: "search_where pid filters e = Inr (cond_text c, c, length args + 1, args)"
    and s: "\<And>d rest. selected d c (args @ rest) = filter (search_matches pid filters e) (file_references d)"
    by (rule search_where_ok [of filters pid e]) blast
  have i: "int_arg (args @ [AInt x, AInt y]) (Suc (length args)) = x"
    "int_arg (args @ [AInt x, AInt y]) (Suc (Suc (length args))) = y" for x y
    by (simp_all add: int_arg_def arg_at_def nth_append)
  have "selected d c args = filter (search_matches pid filters e) (file_references d)" using s [of d "[]"] by simp
  then show "let limit = clamp_i64 1 100 per_page; all = filter (search_matches pid filters e) (file_references d)
      in search_by_metadata pid filters e page per_page d =
           Inr \<lparr>sr_results = limit_rows limit (offset_rows (sat_i64 (sat_i64 (max page 1 - 1) * limit)) (order_desc r_created_at all)),
                sr_total = int (length all), sr_page = max page 1, sr_per_page = limit\<rparr> \<and> 1 \<le> limit \<and> limit \<le> 100"
    by (simp add: search_by_metadata_def w s i Let_def clamp_i64_def)
qed (simp add: search_by_metadata_def search_where_deep Let_def)

theorem search_by_metadata_exact_witness:
  "search_by_metadata 2 (Some (FLeaf ''env'' (JStr ''prod''))) \<lparr>se_name_contains = None, se_created_after = None, se_created_before = None\<rparr>
     1 500 demo_db = Inr \<lparr>sr_results = [demo_reference], sr_total = 1, sr_page = 1, sr_per_page = 100\<rparr>"
  using search_by_metadata_exact [of "Some (FLeaf ''env'' (JStr ''prod''))" 500 2
      "\<lparr>se_name_contains = None, se_created_after = None, se_created_before = None\<rparr>" demo_db 1]
  by (simp add: filters_ok_def Let_def clamp_i64_def search_matches_def demo_db_def demo_reference_def empty_db_def
      limit_rows_def offset_rows_def order_desc_def sat_i64_def i64_max_def i64_min_def)

section \<open>Bulk delete\<close>

record bulk_delete_filters =
  bf_metadata :: "metadata_filter option"
  bf_created_before :: "time option"
  bf_created_after :: "time option"
  bf_size_min :: "int option"
  bf_size_max :: "int option"
  bf_last_accessed_before :: "time option"

definition has_any_filter :: "bulk_delete_filters \<Rightarrow> bool" where
  "has_any_filter b \<longleftrightarrow> bf_metadata b \<noteq> None \<or> bf_created_before b \<noteq> None \<or> bf_created_after b \<noteq> None \<or>
     bf_size_min b \<noteq> None \<or> bf_size_max b \<noteq> None \<or> bf_last_accessed_before b \<noteq> None"

text \<open>The conditions after the metadata condition, numbered from the given accumulator on.\<close>

definition bulk_tail :: "bulk_delete_filters \<Rightarrow> cond list \<times> nat \<Rightarrow> cond list \<times> nat" where
  "bulk_tail b acc =
     opt_cond (bf_last_accessed_before b) CNotAccessed
       (opt_cond (bf_size_max b) (CSize ''<='')
          (opt_cond (bf_size_min b) (CSize ''>='')
             (opt_cond (bf_created_after b) (CCreated ''>'')
                (opt_cond (bf_created_before b) (CCreated ''<'') acc))))"

text \<open>
  The result: the text, the condition it denotes, the metadata parameters, whether the query has to
  join \<open>files\<close>, and the next parameter number.
\<close>

definition build_bulk_delete_clause ::
    "bulk_delete_filters \<Rightarrow> nat \<Rightarrow> (string \<times> cond \<times> json list \<times> bool \<times> nat) app_result" where
  "build_bulk_delete_clause b start_param =
     (case (case bf_metadata b of
              None \<Rightarrow> Inr ([], [])
            | Some mf \<Rightarrow> (case compile_filter mf (compiler_new start_param) of
                           (Inl e, _) \<Rightarrow> Inl e
                         | (Inr clause, c) \<Rightarrow> Inr ([(clause, fst (cond_of mf start_param))], params c))) of
        Inl e \<Rightarrow> Inl e
      | Inr (meta, metadata_params) \<Rightarrow>
         (let (tail, idx) = bulk_tail b ([], start_param + length metadata_params);
              conditions = map fst meta @ map cond_text tail;
              needs_files_join = (bf_size_min b \<noteq> None \<or> bf_size_max b \<noteq> None)
          in Inr (if conditions = [] then ''TRUE'' else join_str '' AND '' conditions,
                  if conditions = [] then CTrue else CAll (map snd meta @ tail),
                  metadata_params, needs_files_join, idx)))"

definition bulk_bind_tail :: "bulk_delete_filters \<Rightarrow> sql_arg list" where
  "bulk_bind_tail b =
     (case bf_created_before b of None \<Rightarrow> [] | Some t \<Rightarrow> [ATime t]) @
     (case bf_created_after b of None \<Rightarrow> [] | Some t \<Rightarrow> [ATime t]) @
     (case bf_size_min b of None \<Rightarrow> [] | Some n \<Rightarrow> [AInt n]) @
     (case bf_size_max b of None \<Rightarrow> [] | Some n \<Rightarrow> [AInt n]) @
     (case bf_last_accessed_before b of None \<Rightarrow> [] | Some t \<Rightarrow> [ATime t])"

definition bind_bulk_delete_args :: "uuid \<Rightarrow> bulk_delete_filters \<Rightarrow> json list \<Rightarrow> sql_arg list" where
  "bind_bulk_delete_args pid b metadata_params = AUuid pid # map AJson metadata_params @ bulk_bind_tail b"

record bulk_delete_preview =
  bp_matching_references :: int
  bp_total_size :: int

definition preview_bulk_delete :: "uuid \<Rightarrow> bulk_delete_filters \<Rightarrow> db \<Rightarrow> bulk_delete_preview app_result" where
  "preview_bulk_delete pid b d =
     (case build_bulk_delete_clause b 2 of
        Inl e \<Rightarrow> Inl e
      | Inr (sql, c, mps, needs_join, idx) \<Rightarrow>
         (let args = bind_bulk_delete_args pid b mps;
              rows = filter (has_file d) (selected d c args)
          in Inr \<lparr>bp_matching_references = int (length rows), bp_total_size = sum_list (joined_sizes d rows)\<rparr>))"

text \<open>
  \<open>DELETE ... WHERE id IN (SELECT fr.id ...) RETURNING file_id\<close>; the subquery joins \<open>files\<close> only when a
  size is compared.
\<close>

definition execute_bulk_delete :: "uuid \<Rightarrow> bulk_delete_filters \<Rightarrow> db \<Rightarrow> (int \<times> uuid list) app_result \<times> db" where
  "execute_bulk_delete pid b d =
     (case build_bulk_delete_clause b 2 of
        Inl e \<Rightarrow> (Inl e, d)
      | Inr (sql, c, mps, needs_join, idx) \<Rightarrow>
         (let args = bind_bulk_delete_args pid b mps;
              sub = (if needs_join then filter (has_file d) (selected d c args) else selected d c args);
              doomed = filter (\<lambda>r. r_id r \<in> r_id ` set sub) (file_references d)
          in (Inr (int (length doomed), map r_file_id doomed),
              d\<lparr>file_references := delete_where (\<lambda>r. r_id r \<in> r_id ` set sub) (file_references d)\<rparr>)))"

text \<open>What a bulk delete is meant to select.\<close>

definition bulk_matches :: "db \<Rightarrow> uuid \<Rightarrow> bulk_delete_filters \<Rightarrow> file_reference \<Rightarrow> bool" where
  "bulk_matches d pid b r \<longleftrightarrow> r_project_id r = pid \<and>
     (case bf_metadata b of None \<Rightarrow> True | Some f \<Rightarrow> filter_matches f (r_metadata r)) \<and>
     (case bf_created_before b of None \<Rightarrow> True | Some t \<Rightarrow> r_created_at r < t) \<and>
     (case bf_created_after b of None \<Rightarrow> True | Some t \<Rightarrow> t < r_created_at r) \<and>
     (case bf_size_min b of None \<Rightarrow> True | Some n \<Rightarrow> (\<exists>z. file_size_of d (r_file_id r) = Some z \<and> n \<le> z)) \<and>
     (case bf_size_max b of None \<Rightarrow> True | Some n \<Rightarrow> (\<exists>z. file_size_of d (r_file_id r) = Some z \<and> z \<le> n)) \<and>
     (case bf_last_accessed_before b of None \<Rightarrow> True | Some t \<Rightarrow>
        (\<forall>l \<in> set (file_locations d). l_file_id l = r_file_id r \<longrightarrow> (\<exists>a. l_last_accessed_at l = Some a \<and> a < t)))"

lemma bulk_tail_hold:
  "list_all (\<lambda>c. cond_holds d (a # map AJson ps @ bulk_bind_tail b) c r) (fst (bulk_tail b ([], Suc (Suc (length ps))))) \<longleftrightarrow>
     (case bf_created_before b of None \<Rightarrow> True | Some t \<Rightarrow> r_created_at r < t) \<and>
     (case bf_created_after b of None \<Rightarrow> True | Some t \<Rightarrow> t < r_created_at r) \<and>
     (case bf_size_min b of None \<Rightarrow> True | Some n \<Rightarrow> (\<exists>z. file_size_of d (r_file_id r) = Some z \<and> n \<le> z)) \<and>
     (case bf_size_max b of None \<Rightarrow> True | Some n \<Rightarrow> (\<exists>z. file_size_of d (r_file_id r) = Some z \<and> z \<le> n)) \<and>
     (case bf_last_accessed_before b of None \<Rightarrow> True | Some t \<Rightarrow>
        (\<forall>l \<in> set (file_locations d). l_file_id l = r_file_id r \<longrightarrow> (\<exists>x. l_last_accessed_at l = Some x \<and> x < t)))"
proof -
  have acc: "(\<not> list_ex (\<lambda>l. l_file_id l = r_file_id r \<and> (case l_last_accessed_at l of None \<Rightarrow> True | Some x \<Rightarrow> t \<le> x)) (file_locations d)) \<longleftrightarrow>
      (\<forall>l \<in> set (file_locations d). l_file_id l = r_file_id r \<longrightarrow> (\<exists>x. l_last_accessed_at l = Some x \<and> x < t))" for t
    by (auto simp: list_ex_iff not_le split: option.splits)
  have size: "(case file_size_of d i of None \<Rightarrow> False | Some z \<Rightarrow> P z) \<longleftrightarrow> (\<exists>z. file_size_of d i = Some z \<and> P z)" for P i
    by (auto split: option.splits)
  show ?thesis
    by (cases "bf_created_before b"; cases "bf_created_after b"; cases "bf_size_min b"; cases "bf_size_max b";
        cases "bf_last_accessed_before b")
      (simp_all add: bulk_tail_def bulk_bind_tail_def opt_cond_def arg_at_tail arg_at_Suc compare_by_def acc size)
qed

lemma build_bulk_delete_clause_ok:
  assumes "filters_ok (bf_metadata b)"
  obtains c ps idx where
    "build_bulk_delete_clause b 2 = Inr (cond_text c, c, ps, bf_size_min b \<noteq> None \<or> bf_size_max b \<noteq> None, idx)"
    "\<And>d pid. selected d c (bind_bulk_delete_args pid b ps) = filter (bulk_matches d pid b) (file_references d)"
proof -
  define meta where "meta = (case bf_metadata b of None \<Rightarrow> [] | Some f \<Rightarrow> [fst (cond_of f 2)])"
  define ps where "ps = (case bf_metadata b of Some f \<Rightarrow> snd (cond_of f 2) | None \<Rightarrow> [])"
  define cs where "cs = meta @ fst (bulk_tail b ([], Suc (Suc (length ps))))"
  define c where "c = (if cs = [] then CTrue else CAll cs)"
  have comp: "(case bf_metadata b of None \<Rightarrow> Inr ([], [])
            | Some mf \<Rightarrow> (case compile_filter mf (compiler_new 2) of
                           (Inl e, _) \<Rightarrow> Inl e
                         | (Inr clause, c) \<Rightarrow> Inr ([(clause, fst (cond_of mf 2))], params c))) =
      Inr (map (\<lambda>c. (cond_text c, c)) meta, ps)"
    using assms compile_ok(1) [of 0 _ "compiler_new 2"]
    by (auto simp: filters_ok_def meta_def ps_def compile_filter_def compiler_new_def advance_def MAX_DEPTH_def split: option.splits)
  have "build_bulk_delete_clause b 2 =
      Inr (cond_text c, c, ps, bf_size_min b \<noteq> None \<or> bf_size_max b \<noteq> None, snd (bulk_tail b ([], Suc (Suc (length ps)))))"
    by (simp add: build_bulk_delete_clause_def comp Let_def split_beta c_def cs_def o_def)
  moreover have "selected d c (bind_bulk_delete_args pid b ps) = filter (bulk_matches d pid b) (file_references d)" for d pid
    unfolding selected_def
  proof (rule filter_cong)
    fix r
    let ?args = "bind_bulk_delete_args pid b ps"
    have "arg_at ?args 1 = Some (AUuid pid)" by (simp add: bind_bulk_delete_args_def arg_at_def)
    moreover have "list_all (\<lambda>c. cond_holds d ?args c r) meta = (case bf_metadata b of None \<Rightarrow> True | Some f \<Rightarrow> filter_matches f (r_metadata r))"
    proof (cases "bf_metadata b")
      case (Some f)
      have "binds ?args 2 ps" using binds_middle [of "AUuid pid" ps] by (simp add: bind_bulk_delete_args_def)
      with Some cond_of_meaning(1) [of ?args 2 f] show ?thesis by (simp add: meta_def ps_def)
    qed (simp add: meta_def)
    moreover have "cond_holds d ?args c r = list_all (\<lambda>c. cond_holds d ?args c r) cs" by (simp add: c_def)
    ultimately show "(arg_at ?args 1 = Some (AUuid (r_project_id r)) \<and> cond_holds d ?args c r) = bulk_matches d pid b r"
      using bulk_tail_hold [of d "AUuid pid" ps b r]
      by (auto simp: cs_def bulk_matches_def bind_bulk_delete_args_def)
  qed simp
  ultimately show ?thesis by (rule that)
qed

lemma bulk_selected_rows:
  assumes "schema_ok d"
  shows "filter (has_file d) (filter (bulk_matches d pid b) (file_references d)) = filter (bulk_matches d pid b) (file_references d)"
    and "filter (\<lambda>r. r_id r \<in> r_id ` set (filter (bulk_matches d pid b) (file_references d))) (file_references d) =
      filter (bulk_matches d pid b) (file_references d)"
    and "delete_where (\<lambda>r. r_id r \<in> r_id ` set (filter (bulk_matches d pid b) (file_references d))) (file_references d) =
      delete_where (bulk_matches d pid b) (file_references d)"
proof -
  let ?rows = "filter (bulk_matches d pid b) (file_references d)"
  have "\<forall>r \<in> set (file_references d). has_file d r"
    using schema_okD(5) [OF assms] unfolding has_file_def list_ex_iff file_references_ok_def by (metis imageE)
  then show "filter (has_file d) ?rows = ?rows" by (auto intro: filter_cong)
  have dist: "distinct (map r_id (file_references d))" using schema_okD(5) [OF assms] by (simp add: file_references_ok_def)
  have ids: "r \<in> set (file_references d) \<Longrightarrow> r_id r \<in> r_id ` set ?rows \<longleftrightarrow> bulk_matches d pid b r" for r
    using distinct_key_unique [OF dist] by auto
  then show "filter (\<lambda>r. r_id r \<in> r_id ` set ?rows) (file_references d) = ?rows"
    "delete_where (\<lambda>r. r_id r \<in> r_id ` set ?rows) (file_references d) = delete_where (bulk_matches d pid b) (file_references d)"
    by (auto simp: delete_where_def intro!: filter_cong)
qed

lemma execute_bulk_delete_exact:
  assumes "schema_ok d" and "filters_ok (bf_metadata b)"
  shows "execute_bulk_delete pid b d =
     (Inr (count_where (bulk_matches d pid b) (file_references d), map r_file_id (filter (bulk_matches d pid b) (file_references d))),
      d\<lparr>file_references := delete_where (bulk_matches d pid b) (file_references d)\<rparr>)"
proof -
  from assms(2) obtain c ps idx where bc:
    "build_bulk_delete_clause b 2 = Inr (cond_text c, c, ps, bf_size_min b \<noteq> None \<or> bf_size_max b \<noteq> None, idx)"
    and sel: "\<And>d pid. selected d c (bind_bulk_delete_args pid b ps) = filter (bulk_matches d pid b) (file_references d)"
    by (rule build_bulk_delete_clause_ok) blast
  show ?thesis
    by (simp add: execute_bulk_delete_def bc sel bulk_selected_rows [OF assms(1)] Let_def count_where_def del: filter_filter set_filter)
qed

text \<open>
  C11: a bulk delete removes exactly what its preview announced. Under the schema constraints both
  select the same references, those of the project that satisfy every given filter; the delete removes
  them and no other, returns their files, and its count is the previewed one.
\<close>

theorem bulk_delete_matches_preview:
  assumes "schema_ok d" and "filters_ok (bf_metadata b)"
  shows "execute_bulk_delete pid b d =
     (Inr (count_where (bulk_matches d pid b) (file_references d), map r_file_id (filter (bulk_matches d pid b) (file_references d))),
      d\<lparr>file_references := delete_where (bulk_matches d pid b) (file_references d)\<rparr>) \<and>
    (\<exists>p. preview_bulk_delete pid b d = Inr p \<and>
       bp_matching_references p = count_where (bulk_matches d pid b) (file_references d) \<and>
       bp_total_size p = sum_list (joined_sizes d (filter (bulk_matches d pid b) (file_references d))))"
proof -
  from assms(2) obtain c ps idx where bc:
    "build_bulk_delete_clause b 2 = Inr (cond_text c, c, ps, bf_size_min b \<noteq> None \<or> bf_size_max b \<noteq> None, idx)"
    and sel: "\<And>d pid. selected d c (bind_bulk_delete_args pid b ps) = filter (bulk_matches d pid b) (file_references d)"
    by (rule build_bulk_delete_clause_ok) blast
  show ?thesis unfolding execute_bulk_delete_exact [OF assms]
    by (simp add: preview_bulk_delete_def bc sel bulk_selected_rows [OF assms(1)] Let_def count_where_def del: filter_filter set_filter)
qed

theorem bulk_delete_matches_preview_witness:
  "fst (execute_bulk_delete 2 \<lparr>bf_metadata = None, bf_created_before = Some 5, bf_created_after = None, bf_size_min = Some 2,
      bf_size_max = None, bf_last_accessed_before = None\<rparr> demo_db) = Inr (1, [7])"
proof -
  let ?b = "\<lparr>bf_metadata = None, bf_created_before = Some 5, bf_created_after = None, bf_size_min = Some 2,
      bf_size_max = None, bf_last_accessed_before = None\<rparr>"
  have "bulk_matches demo_db 2 ?b demo_reference" by (simp add: bulk_matches_def demo_defs file_size_of_def)
  with bulk_delete_matches_preview [OF schema_ok_demo, of ?b 2] show ?thesis
    by (simp add: filters_ok_def count_where_def demo_db_def demo_reference_def empty_db_def)
qed

end
