(* ===== verification/Models_User.thy ===== *)
theory Models_User
  imports Models_Project
begin

text \<open>
  Accounts (\<open>src/db/models.rs\<close>: \<open>User\<close>, \<open>RefreshToken\<close>, \<open>UserProject\<close>, \<open>UserStorage\<close>): users, the hashes
  of their refresh tokens, and their assignments to projects and storages. Deleting a user follows
  the foreign keys of the migrations: owned projects forbid it, tokens, assignments, links and
  upload sessions go with the user, access events lose the reference. Shown: every statement keeps
  the schema constraints, and consuming a refresh token removes it.
\<close>

section \<open>User\<close>

record create_user_row =
  cu_username :: string
  cu_password_hash :: string
  cu_role :: string

definition user_create :: "create_user_row \<Rightarrow> db \<Rightarrow> user app_result \<times> db" where
  "user_create input d =
     (let row = \<lparr>u_id = fresh_id d, u_username = cu_username input, u_password_hash = cu_password_hash input,
                 u_role = cu_role input, u_created_at = now d, u_updated_at = now d\<rparr>
      in if \<not> (u_role row = ''admin'' \<or> u_role row = ''user'')
         then (Inl (Database CheckViolation), draw d)
         else if u_id row \<in> u_id ` set (users d) \<or> u_username row \<in> u_username ` set (users d)
         then (Inl (Database UniqueViolation), draw d)
         else (Inr row, (draw d)\<lparr>users := users d @ [row]\<rparr>))"

definition user_not_found :: "uuid \<Rightarrow> app_error" where
  "user_not_found i = NotFound (''User '' @ uuid_str i @ '' not found'')"

definition user_find_by_id :: "uuid \<Rightarrow> db \<Rightarrow> user app_result" where
  "user_find_by_id i d = ok_or (user_not_found i) (find (\<lambda>u. u_id u = i) (users d))"

definition user_find_by_username :: "string \<Rightarrow> db \<Rightarrow> user option" where
  "user_find_by_username name d = find (\<lambda>u. u_username u = name) (users d)"

definition user_list :: "db \<Rightarrow> user list" where
  "user_list d = order_asc u_created_at (users d)"

definition user_delete :: "uuid \<Rightarrow> db \<Rightarrow> unit app_result \<times> db" where
  "user_delete i d =
     (if \<not> list_ex (\<lambda>u. u_id u = i) (users d) then (Inl (user_not_found i), d)
      else if list_ex (\<lambda>p. p_owner_id p = Some i) (projects d)
      then (Inl (Database ForeignKeyViolation), d)
      else (Inr (), d\<lparr>users := delete_where (\<lambda>u. u_id u = i) (users d),
              refresh_tokens := delete_where (\<lambda>t. rt_user_id t = i) (refresh_tokens d),
              user_projects := delete_where (\<lambda>x. up_user_id x = i) (user_projects d),
              user_storages := delete_where (\<lambda>x. us_user_id x = i) (user_storages d),
              shared_links := delete_where (\<lambda>l. sl_created_by l = i) (shared_links d),
              upload_sessions := delete_where (\<lambda>s. up_sess_user_id s = i) (upload_sessions d),
              file_access_events :=
                update_where (\<lambda>e. ev_user_id e = Some i) (\<lambda>e. e\<lparr>ev_user_id := None\<rparr>) (file_access_events d)\<rparr>))"

definition user_count :: "db \<Rightarrow> int" where
  "user_count d = int (length (users d))"

definition user_update_role :: "uuid \<Rightarrow> string \<Rightarrow> db \<Rightarrow> user app_result \<times> db" where
  "user_update_role i role d =
     (case find (\<lambda>u. u_id u = i) (users d) of
        None \<Rightarrow> (Inl (user_not_found i), d)
      | Some u \<Rightarrow>
         (if \<not> (role = ''admin'' \<or> role = ''user'') then (Inl (Database CheckViolation), d)
          else (let upd = (\<lambda>u::user. u\<lparr>u_role := role, u_updated_at := now d\<rparr>)
                in (Inr (upd u), d\<lparr>users := update_where (\<lambda>u. u_id u = i) upd (users d)\<rparr>))))"

definition user_update_password_hash :: "uuid \<Rightarrow> string \<Rightarrow> db \<Rightarrow> user app_result \<times> db" where
  "user_update_password_hash i h d =
     (case find (\<lambda>u. u_id u = i) (users d) of
        None \<Rightarrow> (Inl (user_not_found i), d)
      | Some u \<Rightarrow>
         (let upd = (\<lambda>u::user. u\<lparr>u_password_hash := h, u_updated_at := now d\<rparr>)
          in (Inr (upd u), d\<lparr>users := update_where (\<lambda>u. u_id u = i) upd (users d)\<rparr>)))"

section \<open>RefreshToken\<close>

record create_refresh_token =
  crt_user_id :: uuid
  crt_token_hash :: string
  crt_expires_at :: time

definition refresh_token_create :: "create_refresh_token \<Rightarrow> db \<Rightarrow> refresh_token app_result \<times> db" where
  "refresh_token_create input d =
     (let row = \<lparr>rt_id = fresh_id d, rt_user_id = crt_user_id input, rt_token_hash = crt_token_hash input,
                 rt_expires_at = crt_expires_at input, rt_created_at = now d\<rparr>
      in if rt_id row \<in> rt_id ` set (refresh_tokens d) \<or> rt_token_hash row \<in> rt_token_hash ` set (refresh_tokens d)
         then (Inl (Database UniqueViolation), draw d)
         else if rt_user_id row \<notin> u_id ` set (users d)
         then (Inl (Database ForeignKeyViolation), draw d)
         else (Inr row, (draw d)\<lparr>refresh_tokens := refresh_tokens d @ [row]\<rparr>))"

definition refresh_token_find_by_hash :: "string \<Rightarrow> db \<Rightarrow> refresh_token option" where
  "refresh_token_find_by_hash h d = find (\<lambda>t. rt_token_hash t = h \<and> now d < rt_expires_at t) (refresh_tokens d)"

definition refresh_token_delete_by_user_id :: "uuid \<Rightarrow> db \<Rightarrow> unit app_result \<times> db" where
  "refresh_token_delete_by_user_id i d =
     (Inr (), d\<lparr>refresh_tokens := delete_where (\<lambda>t. rt_user_id t = i) (refresh_tokens d)\<rparr>)"

definition refresh_token_consume_by_hash :: "string \<Rightarrow> db \<Rightarrow> refresh_token option \<times> db" where
  "refresh_token_consume_by_hash h d =
     (find (\<lambda>t. rt_token_hash t = h \<and> now d < rt_expires_at t) (refresh_tokens d),
      d\<lparr>refresh_tokens := delete_where (\<lambda>t. rt_token_hash t = h \<and> now d < rt_expires_at t) (refresh_tokens d)\<rparr>)"

definition refresh_token_delete_by_hash :: "string \<Rightarrow> db \<Rightarrow> unit app_result \<times> db" where
  "refresh_token_delete_by_hash h d =
     (Inr (), d\<lparr>refresh_tokens := delete_where (\<lambda>t. rt_token_hash t = h) (refresh_tokens d)\<rparr>)"

definition refresh_token_delete_expired :: "db \<Rightarrow> int \<times> db" where
  "refresh_token_delete_expired d =
     (count_where (\<lambda>t. rt_expires_at t \<le> now d) (refresh_tokens d),
      d\<lparr>refresh_tokens := delete_where (\<lambda>t. rt_expires_at t \<le> now d) (refresh_tokens d)\<rparr>)"

section \<open>UserProject\<close>

record member_info =
  mi_id :: uuid
  mi_username :: string
  mi_role :: string
  mi_created_at :: time
  mi_updated_at :: time
  mi_assigned_at :: time
  mi_assignment_role :: "string option"

record project_assignment =
  pa_id :: uuid
  pa_name :: string
  pa_slug :: string
  pa_hot_to_cold_days :: "int option"
  pa_owner_id :: "uuid option"
  pa_created_at :: time
  pa_updated_at :: time
  pa_assignment_role :: string

definition user_project_create :: "uuid \<Rightarrow> uuid \<Rightarrow> string \<Rightarrow> db \<Rightarrow> user_project app_result \<times> db" where
  "user_project_create uid pid role d =
     (let row = \<lparr>up_id = fresh_id d, up_user_id = uid, up_project_id = pid, up_role = role, up_created_at = now d\<rparr>
      in if up_id row \<in> up_id ` set (user_projects d) \<or>
            (uid, pid) \<in> (\<lambda>x. (up_user_id x, up_project_id x)) ` set (user_projects d)
         then (Inl (Conflict ''User is already assigned to this project''), draw d)
         else if uid \<notin> u_id ` set (users d) \<or> pid \<notin> p_id ` set (projects d)
         then (Inl (Database ForeignKeyViolation), draw d)
         else (Inr row, (draw d)\<lparr>user_projects := user_projects d @ [row]\<rparr>))"

definition user_project_list_for_project :: "uuid \<Rightarrow> db \<Rightarrow> member_info list" where
  "user_project_list_for_project pid d =
     sort_key mi_username (concat (map (\<lambda>u. map
       (\<lambda>x. \<lparr>mi_id = u_id u, mi_username = u_username u, mi_role = u_role u, mi_created_at = u_created_at u,
             mi_updated_at = u_updated_at u, mi_assigned_at = up_created_at x, mi_assignment_role = Some (up_role x)\<rparr>)
       (filter (\<lambda>x. up_user_id x = u_id u \<and> up_project_id x = pid) (user_projects d))) (users d)))"

definition user_project_list_for_user :: "uuid \<Rightarrow> db \<Rightarrow> project_assignment list" where
  "user_project_list_for_user uid d =
     order_desc pa_created_at (concat (map (\<lambda>p. map
       (\<lambda>x. \<lparr>pa_id = p_id p, pa_name = p_name p, pa_slug = p_slug p, pa_hot_to_cold_days = p_hot_to_cold_days p,
             pa_owner_id = p_owner_id p, pa_created_at = p_created_at p, pa_updated_at = p_updated_at p,
             pa_assignment_role = up_role x\<rparr>)
       (filter (\<lambda>x. up_project_id x = p_id p \<and> up_user_id x = uid) (user_projects d)))
       (filter (\<lambda>p. p_deleted_at p = None) (projects d))))"

definition assigned_to :: "uuid \<Rightarrow> uuid \<Rightarrow> user_project \<Rightarrow> bool" where
  "assigned_to uid pid x \<longleftrightarrow> up_user_id x = uid \<and> up_project_id x = pid"

definition user_project_delete :: "uuid \<Rightarrow> uuid \<Rightarrow> db \<Rightarrow> unit app_result \<times> db" where
  "user_project_delete uid pid d =
     (if list_ex (assigned_to uid pid) (user_projects d)
      then (Inr (), d\<lparr>user_projects := delete_where (assigned_to uid pid) (user_projects d)\<rparr>)
      else (Inl (NotFound ''User project assignment not found''), d))"

definition user_project_update_role :: "uuid \<Rightarrow> uuid \<Rightarrow> string \<Rightarrow> db \<Rightarrow> user_project app_result \<times> db" where
  "user_project_update_role uid pid role d =
     (case find (assigned_to uid pid) (user_projects d) of
        None \<Rightarrow> (Inl (NotFound ''User project assignment not found''), d)
      | Some x \<Rightarrow> (Inr (x\<lparr>up_role := role\<rparr>),
          d\<lparr>user_projects := update_where (assigned_to uid pid) (\<lambda>x. x\<lparr>up_role := role\<rparr>) (user_projects d)\<rparr>))"

definition user_project_get_role :: "uuid \<Rightarrow> uuid \<Rightarrow> db \<Rightarrow> string option" where
  "user_project_get_role uid pid d = map_option up_role (find (assigned_to uid pid) (user_projects d))"

definition user_project_is_member :: "uuid \<Rightarrow> uuid \<Rightarrow> db \<Rightarrow> bool" where
  "user_project_is_member uid pid d = list_ex (assigned_to uid pid) (user_projects d)"

section \<open>UserStorage\<close>

definition user_storage_create :: "uuid \<Rightarrow> uuid \<Rightarrow> db \<Rightarrow> user_storage app_result \<times> db" where
  "user_storage_create uid sid d =
     (let row = \<lparr>us_id = fresh_id d, us_user_id = uid, us_storage_id = sid, us_created_at = now d\<rparr>
      in if us_id row \<in> us_id ` set (user_storages d) \<or>
            (uid, sid) \<in> (\<lambda>x. (us_user_id x, us_storage_id x)) ` set (user_storages d)
         then (Inl (Conflict ''User is already assigned to this storage''), draw d)
         else if uid \<notin> u_id ` set (users d) \<or> sid \<notin> s_id ` set (storages d)
         then (Inl (Database ForeignKeyViolation), draw d)
         else (Inr row, (draw d)\<lparr>user_storages := user_storages d @ [row]\<rparr>))"

definition user_storage_list_for_storage :: "uuid \<Rightarrow> db \<Rightarrow> member_info list" where
  "user_storage_list_for_storage sid d =
     sort_key mi_username (concat (map (\<lambda>u. map
       (\<lambda>x. \<lparr>mi_id = u_id u, mi_username = u_username u, mi_role = u_role u, mi_created_at = u_created_at u,
             mi_updated_at = u_updated_at u, mi_assigned_at = us_created_at x, mi_assignment_role = None\<rparr>)
       (filter (\<lambda>x. us_user_id x = u_id u \<and> us_storage_id x = sid) (user_storages d))) (users d)))"

definition user_storage_list_for_user :: "uuid \<Rightarrow> db \<Rightarrow> storage list" where
  "user_storage_list_for_user uid d =
     order_desc s_created_at (concat (map (\<lambda>s. map (\<lambda>_. s)
       (filter (\<lambda>x. us_storage_id x = s_id s \<and> us_user_id x = uid) (user_storages d))) (storages d)))"

definition user_storage_delete :: "uuid \<Rightarrow> uuid \<Rightarrow> db \<Rightarrow> unit app_result \<times> db" where
  "user_storage_delete uid sid d =
     (if list_ex (\<lambda>x. us_user_id x = uid \<and> us_storage_id x = sid) (user_storages d)
      then (Inr (), d\<lparr>user_storages := delete_where (\<lambda>x. us_user_id x = uid \<and> us_storage_id x = sid) (user_storages d)\<rparr>)
      else (Inl (NotFound ''User storage assignment not found''), d))"

definition user_storage_is_member :: "uuid \<Rightarrow> uuid \<Rightarrow> db \<Rightarrow> bool" where
  "user_storage_is_member uid sid d = list_ex (\<lambda>x. us_user_id x = uid \<and> us_storage_id x = sid) (user_storages d)"

section \<open>The schema constraints are kept\<close>

lemma schema_ok_set_users:
  assumes ok: "schema_ok d" and sub: "u_id ` set (users d) \<subseteq> u_id ` set us" and us: "users_ok us"
  shows "schema_ok (d\<lparr>users := us\<rparr>)"
proof -
  have u: "i \<in> u_id ` set (users d) \<Longrightarrow> i \<in> u_id ` set us" for i using sub by blast
  have "projects_ok us (projects d)" using schema_okD(1) [OF ok] u by (simp add: projects_ok_def)
  moreover have "refresh_tokens_ok us (refresh_tokens d)" using schema_okD(10) [OF ok] u by (simp add: refresh_tokens_ok_def)
  moreover have "user_projects_ok us (projects d) (user_projects d)" using schema_okD(11) [OF ok] u by (simp add: user_projects_ok_def)
  moreover have "user_storages_ok us (storages d) (user_storages d)" using schema_okD(12) [OF ok] u by (simp add: user_storages_ok_def)
  moreover have "shared_links_ok (files d) (projects d) us (shared_links d)" using schema_okD(13) [OF ok] u by (simp add: shared_links_ok_def)
  moreover have "upload_sessions_ok (projects d) us (upload_sessions d)" using schema_okD(14) [OF ok] u by (simp add: upload_sessions_ok_def)
  moreover have "access_events_ok (files d) (storages d) us (file_access_events d)" using schema_okD(15) [OF ok] u by (simp add: access_events_ok_def)
  ultimately show ?thesis using us schema_okD [OF ok] by (simp add: schema_ok_def)
qed

lemma user_create_schema [schema_intros]:
  assumes "schema_ok d"
  shows "schema_ok (snd (user_create input d))"
proof -
  have sub: "u_id ` set (users d) \<subseteq> u_id ` set (users d @ [r])" for r by auto
  show ?thesis
    using assms schema_ok_set_users [of "draw d", simplified, OF assms sub] schema_okD(9) [OF assms]
    by (auto simp: user_create_def Let_def users_ok_def)
qed

lemma users_ok_update:
  assumes "users_ok us" and "\<And>u. u_id (f u) = u_id u" "\<And>u. u_username (f u) = u_username u"
    and "\<And>u. u \<in> set us \<Longrightarrow> u_role (f u) = ''admin'' \<or> u_role (f u) = ''user''"
  shows "users_ok (update_where P f us)"
  using assms by (auto simp: users_ok_def map_update_where table_simps)

lemma schema_ok_update_users:
  assumes ok: "schema_ok d" and "\<And>u. u_id (f u) = u_id u" "\<And>u. u_username (f u) = u_username u"
    and "\<And>u. u \<in> set (users d) \<Longrightarrow> u_role (f u) = ''admin'' \<or> u_role (f u) = ''user''"
  shows "schema_ok (d\<lparr>users := update_where P f (users d)\<rparr>)"
proof (rule schema_ok_set_users [OF ok])
  have "map u_id (update_where P f (users d)) = map u_id (users d)" using assms(2) by (rule map_update_where)
  then show "u_id ` set (users d) \<subseteq> u_id ` set (update_where P f (users d))" by (metis list.set_map order_refl)
  show "users_ok (update_where P f (users d))" using schema_okD(9) [OF ok] assms(2-4) by (rule users_ok_update)
qed

lemma user_update_role_schema [schema_intros]:
  "schema_ok d \<Longrightarrow> schema_ok (snd (user_update_role i role d))"
  by (auto simp: user_update_role_def Let_def schema_ok_update_users split: option.split)

lemma user_update_password_hash_schema [schema_intros]:
  "schema_ok d \<Longrightarrow> schema_ok (snd (user_update_password_hash i h d))"
  using schema_okD(9) [of d]
  by (auto simp: user_update_password_hash_def Let_def users_ok_def intro!: schema_ok_update_users split: option.split)

lemma user_delete_schema [schema_intros]:
  assumes ok: "schema_ok d"
  shows "schema_ok (snd (user_delete i d))"
proof (cases "list_ex (\<lambda>u. u_id u = i) (users d) \<and> \<not> list_ex (\<lambda>p. p_owner_id p = Some i) (projects d)")
  case True
  let ?us = "delete_where (\<lambda>u. u_id u = i) (users d)"
  have keep: "x \<noteq> i \<Longrightarrow> x \<in> u_id ` set (users d) \<Longrightarrow> x \<in> u_id ` set ?us" for x by (auto simp: table_simps)
  note dd = distinct_map_delete_where table_simps
  have "projects_ok ?us (projects d)"
    using schema_okD(1) [OF ok] keep True by (auto simp: projects_ok_def list_ex_iff)
  moreover have "users_ok ?us" using schema_okD(9) [OF ok] by (simp add: users_ok_def dd)
  moreover have "refresh_tokens_ok ?us (delete_where (\<lambda>t. rt_user_id t = i) (refresh_tokens d))"
    using schema_okD(10) [OF ok] keep by (simp add: refresh_tokens_ok_def dd)
  moreover have "user_projects_ok ?us (projects d) (delete_where (\<lambda>x. up_user_id x = i) (user_projects d))"
    using schema_okD(11) [OF ok] keep by (simp add: user_projects_ok_def dd)
  moreover have "user_storages_ok ?us (storages d) (delete_where (\<lambda>x. us_user_id x = i) (user_storages d))"
    using schema_okD(12) [OF ok] keep by (simp add: user_storages_ok_def dd)
  moreover have "shared_links_ok (files d) (projects d) ?us (delete_where (\<lambda>l. sl_created_by l = i) (shared_links d))"
    using schema_okD(13) [OF ok] keep by (simp add: shared_links_ok_def dd)
  moreover have "upload_sessions_ok (projects d) ?us (delete_where (\<lambda>s. up_sess_user_id s = i) (upload_sessions d))"
    using schema_okD(14) [OF ok] keep by (simp add: upload_sessions_ok_def dd)
  moreover have "access_events_ok (files d) (storages d) ?us
      (update_where (\<lambda>e. ev_user_id e = Some i) (\<lambda>e. e\<lparr>ev_user_id := None\<rparr>) (file_access_events d))"
    using schema_okD(15) [OF ok] keep by (auto simp: access_events_ok_def map_update_where table_simps)
  ultimately show ?thesis
    using True schema_okD [OF ok] by (simp add: user_delete_def schema_ok_def)
qed (use ok in \<open>auto simp: user_delete_def\<close>)

lemma refresh_token_create_schema [schema_intros]:
  "schema_ok d \<Longrightarrow> schema_ok (snd (refresh_token_create input d))"
  using schema_okD(10) [of d]
  by (simp add: refresh_token_create_def Let_def schema_ok_set_leaf(5) [of "draw d", simplified] refresh_tokens_ok_def)

lemma refresh_tokens_delete_schema [schema_intros]:
  "schema_ok d \<Longrightarrow> schema_ok (d\<lparr>refresh_tokens := delete_where P (refresh_tokens d)\<rparr>)"
  using schema_okD(10) [of d]
  by (simp add: schema_ok_set_leaf(5) refresh_tokens_ok_def distinct_map_delete_where table_simps)

lemma refresh_token_ops_schema [schema_intros]:
  assumes "schema_ok d"
  shows "schema_ok (snd (refresh_token_delete_by_user_id i d))" "schema_ok (snd (refresh_token_consume_by_hash h d))"
    "schema_ok (snd (refresh_token_delete_by_hash h d))" "schema_ok (snd (refresh_token_delete_expired d))"
  using assms
  by (simp_all add: refresh_token_delete_by_user_id_def refresh_token_consume_by_hash_def
      refresh_token_delete_by_hash_def refresh_token_delete_expired_def refresh_tokens_delete_schema)

lemma user_project_create_schema [schema_intros]:
  "schema_ok d \<Longrightarrow> schema_ok (snd (user_project_create uid pid role d))"
  using schema_okD(11) [of d]
  by (simp add: user_project_create_def Let_def schema_ok_set_leaf(6) [of "draw d", simplified] user_projects_ok_def)

lemma user_project_delete_schema [schema_intros]:
  "schema_ok d \<Longrightarrow> schema_ok (snd (user_project_delete uid pid d))"
  using schema_okD(11) [of d]
  by (simp add: user_project_delete_def schema_ok_set_leaf(6) user_projects_ok_def distinct_map_delete_where table_simps)

lemma user_project_update_role_schema [schema_intros]:
  assumes ok: "schema_ok d"
  shows "schema_ok (snd (user_project_update_role uid pid role d))"
proof -
  have "user_projects_ok (users d) (projects d)
      (update_where (assigned_to uid pid) (\<lambda>x. x\<lparr>up_role := role\<rparr>) (user_projects d))"
    using schema_okD(11) [OF ok] by (auto simp: user_projects_ok_def map_update_where table_simps)
  with ok show ?thesis by (simp add: user_project_update_role_def schema_ok_set_leaf(6) split: option.split)
qed

lemma user_storage_create_schema [schema_intros]:
  "schema_ok d \<Longrightarrow> schema_ok (snd (user_storage_create uid sid d))"
  using schema_okD(12) [of d]
  by (simp add: user_storage_create_def Let_def schema_ok_set_leaf(7) [of "draw d", simplified] user_storages_ok_def)

lemma user_storage_delete_schema [schema_intros]:
  "schema_ok d \<Longrightarrow> schema_ok (snd (user_storage_delete uid sid d))"
  using schema_okD(12) [of d]
  by (simp add: user_storage_delete_def schema_ok_set_leaf(7) user_storages_ok_def distinct_map_delete_where table_simps)

section \<open>Lookups\<close>

lemma user_find_by_id_unique:
  assumes "schema_ok d" and "u \<in> set (users d)"
  shows "user_find_by_id (u_id u) d = Inr u"
  using find_by_key [of u_id "users d" u] schema_okD(9) [OF assms(1)] assms(2)
  by (simp add: user_find_by_id_def users_ok_def ok_or_def)

lemma user_find_by_id_Inr: "user_find_by_id i d = Inr u \<Longrightarrow> u \<in> set (users d) \<and> u_id u = i"
  using find_Some_in_set by (fastforce simp: user_find_by_id_def)

lemma get_role_member: "user_project_get_role uid pid d \<noteq> None \<longleftrightarrow> user_project_is_member uid pid d"
  by (auto simp: user_project_get_role_def user_project_is_member_def find_None_iff list_ex_iff)

lemma consumed_token_gone:
  "refresh_token_consume_by_hash h d = (Some t, d') \<Longrightarrow> refresh_tokens_ok us (refresh_tokens d) \<Longrightarrow>
     h \<notin> rt_token_hash ` set (refresh_tokens d')"
proof -
  assume c: "refresh_token_consume_by_hash h d = (Some t, d')" and ok: "refresh_tokens_ok us (refresh_tokens d)"
  from c have f: "find (\<lambda>t. rt_token_hash t = h \<and> now d < rt_expires_at t) (refresh_tokens d) = Some t"
    and d': "refresh_tokens d' = delete_where (\<lambda>t. rt_token_hash t = h \<and> now d < rt_expires_at t) (refresh_tokens d)"
    by (auto simp: refresh_token_consume_by_hash_def)
  from f have t: "t \<in> set (refresh_tokens d)" "rt_token_hash t = h" "now d < rt_expires_at t"
    using find_Some_in_set by fastforce+
  have "distinct (map rt_token_hash (refresh_tokens d))" using ok by (simp add: refresh_tokens_ok_def)
  then show ?thesis using t distinct_key_unique [of rt_token_hash "refresh_tokens d"] unfolding d' by (fastforce simp: table_simps)
qed

end
