(* ===== verification/Crypto.thy ===== *)
theory Crypto
  imports Schema "HOL-Library.Countable"
begin

text \<open>
  The cryptographic libraries the sources call (Argon2, JSON Web Tokens, SHA-256, base64 and the
  parser of UUID texts), as a record of functions, with the documented behaviour the code relies on.
  A JWT library function gets the key, the leeway in seconds and the current time in seconds.
\<close>

record crypto =
  cx_hash_password :: "bytes \<Rightarrow> string \<Rightarrow> string + string"
  cx_parse_hash :: "string \<Rightarrow> bool"
  cx_verify :: "string \<Rightarrow> string \<Rightarrow> bool"
  cx_jwt_encode :: "string \<Rightarrow> json \<Rightarrow> string + string"
  cx_jwt_decode :: "string \<Rightarrow> int \<Rightarrow> int \<Rightarrow> string \<Rightarrow> string + json"
  cx_sha256 :: "bytes \<Rightarrow> bytes"
  cx_parse_uuid :: "string \<Rightarrow> uuid option"
  cx_b64url :: "bytes \<Rightarrow> string"

text \<open>A hash verifies its own password and no other one, and it is well formed.\<close>

definition password_law :: "crypto \<Rightarrow> bool" where
  "password_law c \<longleftrightarrow> (\<forall>salt pw h. cx_hash_password c salt pw = Inr h \<longrightarrow>
     cx_parse_hash c h \<and> (\<forall>pw'. cx_verify c pw' h \<longleftrightarrow> pw' = pw))"

text \<open>A signed token yields its claims under the same key until it expires, leeway included.\<close>

definition jwt_law :: "crypto \<Rightarrow> bool" where
  "jwt_law c \<longleftrightarrow> (\<forall>k j e tok lw t. json_get j ''exp'' = Some (JNum e) \<longrightarrow> cx_jwt_encode c k j = Inr tok \<longrightarrow>
     (if t - lw \<le> e then cx_jwt_decode c k lw t tok = Inr j else \<exists>msg. cx_jwt_decode c k lw t tok = Inl msg))"

definition uuid_law :: "crypto \<Rightarrow> bool" where
  "uuid_law c \<longleftrightarrow> (\<forall>u < 2 ^ 128. cx_parse_uuid c (uuid_str u) = Some u)"

lemma jwt_law_decode:
  "jwt_law c \<Longrightarrow> json_get j ''exp'' = Some (JNum e) \<Longrightarrow> cx_jwt_encode c k j = Inr tok \<Longrightarrow> t - lw \<le> e \<Longrightarrow>
     cx_jwt_decode c k lw t tok = Inr j"
  by (auto simp: jwt_law_def)

lemma jwt_law_expired:
  "jwt_law c \<Longrightarrow> json_get j ''exp'' = Some (JNum e) \<Longrightarrow> cx_jwt_encode c k j = Inr tok \<Longrightarrow> e < t - lw \<Longrightarrow>
     \<exists>msg. cx_jwt_decode c k lw t tok = Inl msg"
  by (fastforce simp: jwt_law_def)

section \<open>Texts of UUIDs\<close>

text \<open>The number an UUID text denotes.\<close>

definition hex_value :: "char \<Rightarrow> nat" where
  "hex_value c = (let n = of_char c in if n < 97 then n - 48 else n - 87)"

definition hex_number :: "nat \<Rightarrow> string \<Rightarrow> nat" where
  "hex_number n s = foldl (\<lambda>n c. 16 * n + hex_value c) n s"

definition uuid_number :: "string \<Rightarrow> uuid" where
  "uuid_number s = hex_number 0 (filter (\<lambda>c. c \<noteq> CHR ''-'') s)"

lemma digit_char_facts:
  assumes "v < 16"
  shows "hex_value (digit_char v) = v" "digit_char v \<noteq> CHR ''-''"
proof -
  have code: "(of_char (digit_char v) :: nat) = (if v < 10 then 48 + v else 87 + v)"
    using assms by (simp add: digit_char_def)
  then show "hex_value (digit_char v) = v" by (simp add: hex_value_def Let_def)
  from code have "(of_char (digit_char v) :: nat) \<noteq> of_char CHR ''-''" by simp
  then show "digit_char v \<noteq> CHR ''-''" by metis
qed

lemma hex_number_digits: "hex_number 0 (hex_digits k u) = u mod 16 ^ k"
proof (induction k arbitrary: u)
  case (Suc k)
  have "hex_number 0 (hex_digits (Suc k) u) = 16 * (u div 16 mod 16 ^ k) + u mod 16"
    using Suc [of "u div 16"] by (simp add: hex_number_def digit_char_facts)
  also have "\<dots> = u mod (16 * 16 ^ k)" by (simp add: mod_mult2_eq)
  finally show ?case by simp
qed (simp add: hex_number_def)

lemma hex_digits_no_dash: "CHR ''-'' \<notin> set (hex_digits k u)"
  using digit_char_facts(2) by (induction k arbitrary: u) (auto simp: eq_commute)

lemma uuid_number_str:
  assumes "u < 2 ^ 128"
  shows "uuid_number (uuid_str u) = u"
proof -
  define h where "h = hex_digits 32 u"
  have keep: "filter (\<lambda>c. c \<noteq> CHR ''-'') (take a (drop b h)) = take a (drop b h)" for a b
    using hex_digits_no_dash [of 32 u] by (auto simp: h_def [symmetric] intro!: filter_True dest!: in_set_takeD in_set_dropD)
  have keeps: "filter (\<lambda>c. c \<noteq> CHR ''-'') (take 8 h) = take 8 h" "filter (\<lambda>c. c \<noteq> CHR ''-'') (drop 20 h) = drop 20 h"
    using keep [of 8 0] keep [of "length h" 20] by simp_all
  have "drop 16 h = take 4 (drop 16 h) @ drop 20 h" "drop 12 h = take 4 (drop 12 h) @ drop 16 h"
    "drop 8 h = take 4 (drop 8 h) @ drop 12 h"
    using append_take_drop_id [of 4 "drop 16 h"] append_take_drop_id [of 4 "drop 12 h"]
      append_take_drop_id [of 4 "drop 8 h"] by simp_all
  then have "take 8 h @ take 4 (drop 8 h) @ take 4 (drop 12 h) @ take 4 (drop 16 h) @ drop 20 h = h"
    by (metis append_take_drop_id)
  then have "filter (\<lambda>c. c \<noteq> CHR ''-'') (uuid_str u) = h"
    using keep keeps by (simp add: uuid_str_def h_def [symmetric] Let_def)
  moreover have "(16::nat) ^ 32 = 2 ^ 128" by simp
  ultimately show ?thesis using assms hex_number_digits [of 32 u] by (simp add: uuid_number_def h_def)
qed

lemma uuid_str_inj: "uuid_str a = uuid_str b \<Longrightarrow> a < 2 ^ 128 \<Longrightarrow> b < 2 ^ 128 \<Longrightarrow> a = b"
  by (metis uuid_number_str)

section \<open>A concrete instance\<close>

instance json :: countable
  by countable_datatype

definition demo_crypto :: crypto where
  "demo_crypto = \<lparr>cx_hash_password = (\<lambda>salt pw. Inr (''h'' @ pw)), cx_parse_hash = (\<lambda>h. prefix ''h'' h),
     cx_verify = (\<lambda>pw h. h = ''h'' @ pw),
     cx_jwt_encode = (\<lambda>k j. Inr (replicate (to_nat (k, j)) CHR ''x'')),
     cx_jwt_decode = (\<lambda>k lw t tok. let (k', j) = from_nat (length tok) in
        if k' \<noteq> k then Inl ''InvalidSignature''
        else (case json_get j ''exp'' of
                Some (JNum e) \<Rightarrow> if t - lw \<le> e then Inr j else Inl ''ExpiredSignature''
              | _ \<Rightarrow> Inl ''MissingRequiredClaim'')),
     cx_sha256 = (\<lambda>b. b), cx_parse_uuid = (\<lambda>s. Some (uuid_number s)),
     cx_b64url = hex_digits 32 \<circ> length\<rparr>"

lemma demo_crypto_laws: "password_law demo_crypto" "jwt_law demo_crypto" "uuid_law demo_crypto"
  by (auto simp: password_law_def jwt_law_def uuid_law_def demo_crypto_def uuid_number_str)

end
