(* ===== verification/Access.thy ===== *)
theory Access
  imports Models_File Models_User Crypto
begin

text \<open>
  Who may do what: access tokens and passwords (\<open>src/services/auth_service.rs\<close>), the extractors that turn
  an \<open>Authorization\<close> header into a user (\<open>src/api/auth.rs\<close>) and the access checks of the request handlers
  (\<open>src/api/files.rs\<close>, \<open>src/api/shared_links.rs\<close>). Shown: the token of a user authenticates as that user
  until it expires, and the access checks grant exactly what membership, ownership and the roles give.
\<close>

section \<open>AuthService\<close>

record claims =
  cl_sub :: string
  cl_role :: string
  cl_exp :: int

text \<open>\<open>usize\<close> has 64 bits; arithmetic on it wraps around.\<close>

definition usize :: "int \<Rightarrow> int" where
  "usize n = n mod 2 ^ 64"

definition claims_json :: "claims \<Rightarrow> json" where
  "claims_json cl = JObj [(''sub'', JStr (cl_sub cl)), (''role'', JStr (cl_role cl)), (''exp'', JNum (cl_exp cl))]"

text \<open>Deserialisation: every field has to be there, with its type.\<close>

definition claims_of_json :: "json \<Rightarrow> claims option" where
  "claims_of_json j =
     (case (json_get j ''sub'', json_get j ''role'', as_u64 (json_get j ''exp'')) of
        (Some (JStr s), Some (JStr r), Some e) \<Rightarrow> if int e < 2 ^ 64 then Some \<lparr>cl_sub = s, cl_role = r, cl_exp = int e\<rparr> else None
      | _ \<Rightarrow> None)"

record auth_service =
  as_jwt_secret :: string
  as_access_token_ttl_secs :: int
  as_refresh_token_ttl_secs :: int

definition timestamp :: "time \<Rightarrow> int" where
  "timestamp t = t div 1000000"

definition hash_password :: "crypto \<Rightarrow> bytes \<Rightarrow> string \<Rightarrow> string + string" where
  "hash_password c salt password = cx_hash_password c salt password"

definition verify_password :: "crypto \<Rightarrow> string \<Rightarrow> string \<Rightarrow> bool" where
  "verify_password c password h = (if cx_parse_hash c h then cx_verify c password h else False)"

definition access_claims :: "auth_service \<Rightarrow> uuid \<Rightarrow> string \<Rightarrow> time \<Rightarrow> claims" where
  "access_claims a uid role t =
     \<lparr>cl_sub = uuid_str uid, cl_role = role, cl_exp = usize (usize (timestamp t) + usize (as_access_token_ttl_secs a))\<rparr>"

definition generate_access_token :: "crypto \<Rightarrow> auth_service \<Rightarrow> uuid \<Rightarrow> string \<Rightarrow> time \<Rightarrow> string + string" where
  "generate_access_token c a uid role t =
     cx_jwt_encode c (as_jwt_secret a) (claims_json (access_claims a uid role t))"

definition generate_refresh_token :: "bytes \<Rightarrow> string" where
  "generate_refresh_token random_bytes = concat (map (\<lambda>b. hex_digits 2 (unat b)) random_bytes)"

text \<open>A payload that does not deserialise is an error of the JWT library as well.\<close>

definition validate_access_token :: "crypto \<Rightarrow> auth_service \<Rightarrow> string \<Rightarrow> time \<Rightarrow> string + claims" where
  "validate_access_token c a token t =
     (case cx_jwt_decode c (as_jwt_secret a) 0 (timestamp t) token of
        Inl e \<Rightarrow> Inl e
      | Inr j \<Rightarrow> (case claims_of_json j of None \<Rightarrow> Inl ''JSON error'' | Some cl \<Rightarrow> Inr cl))"

definition hash_refresh_token :: "crypto \<Rightarrow> string \<Rightarrow> string" where
  "hash_refresh_token c token =
     concat (map (\<lambda>b. hex_digits 2 (unat b)) (cx_sha256 c (map (\<lambda>ch. word_of_nat (of_char ch)) token)))"

section \<open>The user of a request\<close>

record authenticated_user =
  au_user_id :: uuid
  au_role :: string

definition is_admin :: "authenticated_user \<Rightarrow> bool" where
  "is_admin u \<longleftrightarrow> au_role u = ''admin''"

definition is_owner :: "authenticated_user \<Rightarrow> uuid option \<Rightarrow> bool" where
  "is_owner u owner = (case owner of Some oid \<Rightarrow> oid = au_user_id u | None \<Rightarrow> False)"

definition require_admin :: "authenticated_user \<Rightarrow> unit app_result" where
  "require_admin u = (if is_admin u then Inr () else Inl (Forbidden ''Admin access required''))"

definition require_owner_or_admin :: "authenticated_user \<Rightarrow> uuid option \<Rightarrow> unit app_result" where
  "require_owner_or_admin u owner =
     (if is_admin u \<or> is_owner u owner then Inr () else Inl (Forbidden ''Access denied: not the owner''))"

definition extract_user ::
    "crypto \<Rightarrow> auth_service \<Rightarrow> string option \<Rightarrow> time \<Rightarrow> authenticated_user app_result" where
  "extract_user c a header t =
     (case header of
        None \<Rightarrow> Inl (Unauthorized ''Missing Authorization header'')
      | Some h \<Rightarrow>
         (if \<not> prefix ''Bearer '' h
          then Inl (Unauthorized ''Invalid Authorization header format, expected: Bearer <token>'')
          else (case validate_access_token c a (drop 7 h) t of
                  Inl e \<Rightarrow> Inl (Unauthorized (''Invalid token: '' @ e))
                | Inr cl \<Rightarrow> (case cx_parse_uuid c (cl_sub cl) of
                              None \<Rightarrow> Inl (Unauthorized ''Invalid user ID in token'')
                            | Some uid \<Rightarrow> Inr \<lparr>au_user_id = uid, au_role = cl_role cl\<rparr>))))"

definition extract_admin :: "crypto \<Rightarrow> auth_service \<Rightarrow> string option \<Rightarrow> time \<Rightarrow> uuid app_result" where
  "extract_admin c a header t =
     (case extract_user c a header t of
        Inl e \<Rightarrow> Inl e
      | Inr u \<Rightarrow> (case require_admin u of Inl e \<Rightarrow> Inl e | Inr _ \<Rightarrow> Inr (au_user_id u)))"

section \<open>Guarded requests\<close>

text \<open>
  A handler that checks a guard before anything else: what the guard refuses is refused with the guard's
  error and leaves the state alone. A successful request was therefore allowed.
\<close>

locale guarded =
  fixes guard :: "'s \<Rightarrow> 'g app_result" and act :: "'s \<Rightarrow> 'r app_result \<times> 's"
  assumes refused: "guard s = Inl e \<Longrightarrow> act s = (Inl e, s)"
begin

lemma success_allowed: "act s = (Inr v, s') \<Longrightarrow> \<exists>g. guard s = Inr g"
  by (cases "guard s") (auto dest: refused)

lemma denied_unchanged: "guard s = Inl e \<Longrightarrow> snd (act s) = s"
  by (simp add: refused)

end

section \<open>Access to projects and files\<close>

definition check_project_access :: "authenticated_user \<Rightarrow> project \<Rightarrow> db \<Rightarrow> unit app_result" where
  "check_project_access u p d =
     (if is_admin u \<or> is_owner u (p_owner_id p) then Inr ()
      else if user_project_is_member (au_user_id u) (p_id p) d then Inr ()
      else Inl (Forbidden ''Access denied: not a project member''))"

definition require_project_write_access :: "authenticated_user \<Rightarrow> project \<Rightarrow> db \<Rightarrow> unit app_result" where
  "require_project_write_access u p d =
     (if is_admin u \<or> is_owner u (p_owner_id p) then Inr ()
      else if user_project_get_role (au_user_id u) (p_id p) d = Some ''writer'' then Inr ()
      else Inl (Forbidden ''Access denied: writer, owner, or admin access required''))"

definition check_file_access :: "uuid \<Rightarrow> authenticated_user \<Rightarrow> db \<Rightarrow> unit app_result" where
  "check_file_access fid u d =
     (if au_role u = ''admin'' then Inr ()
      else if list_ex (\<lambda>r. r_file_id r = fid \<and>
             list_ex (\<lambda>p. p_id p = r_project_id r \<and> p_deleted_at p = None \<and>
               (p_owner_id p = Some (au_user_id u) \<or>
                list_ex (\<lambda>x. up_project_id x = p_id p \<and> up_user_id x = au_user_id u) (user_projects d)))
             (projects d)) (file_references d)
      then Inr ()
      else Inl (Forbidden ''Access denied: not a member''))"

definition check_file_write_access :: "uuid \<Rightarrow> authenticated_user \<Rightarrow> db \<Rightarrow> unit app_result" where
  "check_file_write_access fid u d =
     (if au_role u = ''admin'' then Inr ()
      else if list_ex (\<lambda>r. r_file_id r = fid \<and>
             list_ex (\<lambda>p. p_id p = r_project_id r \<and> p_deleted_at p = None \<and>
               (p_owner_id p = Some (au_user_id u) \<or>
                list_ex (\<lambda>x. up_project_id x = p_id p \<and> up_user_id x = au_user_id u \<and> up_role x = ''writer'') (user_projects d)))
             (projects d)) (file_references d)
      then Inr ()
      else Inl (Forbidden ''Access denied: writer, owner, or admin required''))"

section \<open>What the checks grant\<close>

text \<open>The rights of a user on a project, as the tables give them.\<close>

definition may_read :: "authenticated_user \<Rightarrow> project \<Rightarrow> db \<Rightarrow> bool" where
  "may_read u p d \<longleftrightarrow> au_role u = ''admin'' \<or> p_owner_id p = Some (au_user_id u) \<or>
     (\<exists>x \<in> set (user_projects d). up_user_id x = au_user_id u \<and> up_project_id x = p_id p)"

definition may_write :: "authenticated_user \<Rightarrow> project \<Rightarrow> db \<Rightarrow> bool" where
  "may_write u p d \<longleftrightarrow> au_role u = ''admin'' \<or> p_owner_id p = Some (au_user_id u) \<or>
     (\<exists>x \<in> set (user_projects d). up_user_id x = au_user_id u \<and> up_project_id x = p_id p \<and> up_role x = ''writer'')"

lemma is_owner_iff: "is_owner u owner \<longleftrightarrow> owner = Some (au_user_id u)"
  by (auto simp: is_owner_def split: option.splits)

lemma check_project_access_iff: "check_project_access u p d = Inr () \<longleftrightarrow> may_read u p d"
  by (auto simp: check_project_access_def may_read_def is_admin_def is_owner_iff user_project_is_member_def
      assigned_to_def list_ex_iff)

lemma get_role_iff:
  assumes "user_projects_ok us ps (user_projects d)"
  shows "user_project_get_role uid pid d = Some role \<longleftrightarrow>
     (\<exists>x \<in> set (user_projects d). up_user_id x = uid \<and> up_project_id x = pid \<and> up_role x = role)"
proof
  assume "user_project_get_role uid pid d = Some role"
  then obtain x where "find (assigned_to uid pid) (user_projects d) = Some x" "up_role x = role"
    by (auto simp: user_project_get_role_def)
  then show "\<exists>x \<in> set (user_projects d). up_user_id x = uid \<and> up_project_id x = pid \<and> up_role x = role"
    using find_Some_in_set [of "assigned_to uid pid"] by (auto simp: assigned_to_def)
next
  assume "\<exists>x \<in> set (user_projects d). up_user_id x = uid \<and> up_project_id x = pid \<and> up_role x = role"
  then obtain x where x: "x \<in> set (user_projects d)" "up_user_id x = uid" "up_project_id x = pid" "up_role x = role" by blast
  have "find (\<lambda>y. (up_user_id y, up_project_id y) = (up_user_id x, up_project_id x)) (user_projects d) = Some x"
    using assms x(1) by (intro find_by_key) (simp_all add: user_projects_ok_def)
  moreover have "(\<lambda>y. (up_user_id y, up_project_id y) = (up_user_id x, up_project_id x)) = assigned_to uid pid"
    using x by (auto simp: assigned_to_def)
  ultimately show "user_project_get_role uid pid d = Some role" using x by (simp add: user_project_get_role_def)
qed

lemma require_project_write_access_iff:
  assumes "schema_ok d"
  shows "require_project_write_access u p d = Inr () \<longleftrightarrow> may_write u p d"
  using get_role_iff [OF schema_okD(11) [OF assms]]
  by (simp add: require_project_write_access_def may_write_def is_admin_def is_owner_iff)

lemma check_file_access_iff:
  "check_file_access fid u d = Inr () \<longleftrightarrow> au_role u = ''admin'' \<or>
     (\<exists>r \<in> set (file_references d). \<exists>p \<in> set (projects d). r_file_id r = fid \<and> p_id p = r_project_id r \<and>
        p_deleted_at p = None \<and> may_read u p d)"
  by (auto simp: check_file_access_def may_read_def list_ex_iff)

lemma check_file_write_access_iff:
  "check_file_write_access fid u d = Inr () \<longleftrightarrow> au_role u = ''admin'' \<or>
     (\<exists>r \<in> set (file_references d). \<exists>p \<in> set (projects d). r_file_id r = fid \<and> p_id p = r_project_id r \<and>
        p_deleted_at p = None \<and> may_write u p d)"
  by (auto simp: check_file_write_access_def may_write_def list_ex_iff)

text \<open>
  C20: the access checks agree. Access to a project is granted exactly to admins, the owner and
  assigned users, write access exactly to admins, the owner and assigned writers; access to a file is
  granted to non-admins exactly through a live project that references it, with the same distinction;
  and whoever may write may read.
\<close>

theorem access_checks_exact:
  assumes "schema_ok d"
  shows "(check_project_access u p d = Inr () \<longleftrightarrow> may_read u p d) \<and>
    (require_project_write_access u p d = Inr () \<longleftrightarrow> may_write u p d) \<and>
    (check_file_access fid u d = Inr () \<longleftrightarrow> au_role u = ''admin'' \<or>
       (\<exists>r \<in> set (file_references d). \<exists>q \<in> set (projects d). r_file_id r = fid \<and> p_id q = r_project_id r \<and>
          p_deleted_at q = None \<and> may_read u q d)) \<and>
    (check_file_write_access fid u d = Inr () \<longleftrightarrow> au_role u = ''admin'' \<or>
       (\<exists>r \<in> set (file_references d). \<exists>q \<in> set (projects d). r_file_id r = fid \<and> p_id q = r_project_id r \<and>
          p_deleted_at q = None \<and> may_write u q d)) \<and>
    (require_project_write_access u p d = Inr () \<longrightarrow> check_project_access u p d = Inr ()) \<and>
    (check_file_write_access fid u d = Inr () \<longrightarrow> check_file_access fid u d = Inr ())"
proof -
  have mono: "may_write u q d \<Longrightarrow> may_read u q d" for q by (auto simp: may_write_def may_read_def)
  then show ?thesis
    unfolding check_project_access_iff require_project_write_access_iff [OF assms] check_file_access_iff
      check_file_write_access_iff by blast
qed

theorem access_checks_exact_witness:
  "require_project_write_access \<lparr>au_user_id = 1, au_role = ''user''\<rparr> demo_project demo_db = Inr () \<and>
   check_file_access 7 \<lparr>au_user_id = 1, au_role = ''user''\<rparr> demo_db = Inr ()"
  using access_checks_exact [OF schema_ok_demo, of "\<lparr>au_user_id = 1, au_role = ''user''\<rparr>" demo_project 7]
  by (simp add: may_write_def may_read_def demo_defs)

section \<open>Tokens\<close>

text \<open>
  an access token authenticates as the user and role it was issued for, from the moment it is
  issued until its lifetime has passed, and is refused with 401 afterwards.
\<close>

theorem access_token_lifetime:
  assumes "jwt_law c" and "uuid_law c" and "uid < 2 ^ 128"
    and "generate_access_token c a uid role t0 = Inr token"
    and "0 \<le> t0" and "0 \<le> as_access_token_ttl_secs a" and "timestamp t0 + as_access_token_ttl_secs a < 2 ^ 64"
  shows "(timestamp t \<le> timestamp t0 + as_access_token_ttl_secs a \<longrightarrow>
      extract_user c a (Some (''Bearer '' @ token)) t = Inr \<lparr>au_user_id = uid, au_role = role\<rparr>) \<and>
    (timestamp t0 + as_access_token_ttl_secs a < timestamp t \<longrightarrow>
      (\<exists>msg. extract_user c a (Some (''Bearer '' @ token)) t = Inl (Unauthorized msg)))"
proof -
  let ?cl = "access_claims a uid role t0"
  let ?e = "timestamp t0 + as_access_token_ttl_secs a"
  have t0: "0 \<le> timestamp t0" using assms(5) by (simp add: timestamp_def)
  have exp: "cl_exp ?cl = ?e" using assms(6,7) t0 by (simp add: access_claims_def usize_def)
  have enc: "cx_jwt_encode c (as_jwt_secret a) (claims_json ?cl) = Inr token"
    using assms(4) by (simp add: generate_access_token_def)
  have gexp: "json_get (claims_json ?cl) ''exp'' = Some (JNum ?e)" by (simp add: claims_json_def exp)
  have again: "claims_of_json (claims_json ?cl) = Some ?cl"
    using assms(6,7) t0 exp by (cases ?cl) (simp add: claims_of_json_def claims_json_def)
  have sub: "cx_parse_uuid c (cl_sub ?cl) = Some uid" "cl_role ?cl = role"
    using assms(2,3) by (simp_all add: uuid_law_def access_claims_def)
  have "cx_jwt_decode c (as_jwt_secret a) 0 (timestamp t) token = Inr (claims_json ?cl)" if "timestamp t \<le> ?e"
    using jwt_law_decode [OF assms(1) gexp enc, of "timestamp t" 0] that by simp
  moreover have "\<exists>msg. cx_jwt_decode c (as_jwt_secret a) 0 (timestamp t) token = Inl msg" if "?e < timestamp t"
    using jwt_law_expired [OF assms(1) gexp enc, of "timestamp t" 0] that by simp
  ultimately show ?thesis using again sub by (auto simp: extract_user_def validate_access_token_def)
qed

definition demo_auth :: auth_service where
  "demo_auth = \<lparr>as_jwt_secret = ''k'', as_access_token_ttl_secs = 900, as_refresh_token_ttl_secs = 604800\<rparr>"

theorem access_token_lifetime_witness:
  "\<exists>token. generate_access_token demo_crypto demo_auth 1 ''user'' 0 = Inr token \<and>
     extract_user demo_crypto demo_auth (Some (''Bearer '' @ token)) (secs 900) = Inr \<lparr>au_user_id = 1, au_role = ''user''\<rparr> \<and>
     (\<exists>msg. extract_user demo_crypto demo_auth (Some (''Bearer '' @ token)) (secs 901) = Inl (Unauthorized msg))"
proof -
  obtain token where tok: "generate_access_token demo_crypto demo_auth 1 ''user'' 0 = Inr token"
    by (simp add: generate_access_token_def demo_crypto_def)
  note life = access_token_lifetime [OF demo_crypto_laws(2,3) _ tok]
  show ?thesis using tok life [of "secs 900"] life [of "secs 901"] by (simp add: demo_auth_def timestamp_def secs_def)
qed

end
