(* ===== verification/Bulk.thy ===== *)
theory Bulk
  imports Tiering Metadata Access
begin

text \<open>
  Operations on many files: bulk deletion with the removal of files nothing refers to any more
  (\<open>src/services/file_service.rs\<close>, \<open>bulk_delete\<close>), copying everything to one storage and exporting a
  storage as an archive (\<open>src/services/bulk_service.rs\<close>, \<open>src/api/bulk.rs\<close>). The archive library is a
  parameter. An export job runs in a task of its own; \<open>export_step\<close> interleaves starts, runs and
  downloads. Shown: what a bulk delete removes, that \<open>sync_all\<close> queues every missing copy exactly once,
  that an export is delivered at most once and only complete, and that operations that use the
  registered backend of a local storage never reach the copies in the containers of the projects.
\<close>

section \<open>Bulk deletion\<close>

record bulk_delete_result =
  bdr_deleted_references :: int
  bdr_orphaned_files_cleaned :: int
  bdr_freed_bytes :: int

record orphan_info =
  oi_file_id :: uuid
  oi_size :: int
  oi_locations :: "file_location list"

definition orphan_info_of :: "db \<Rightarrow> uuid \<Rightarrow> orphan_info" where
  "orphan_info_of d i = \<lparr>oi_file_id = i,
     oi_size = (case file_size_of d i of None \<Rightarrow> 0 | Some z \<Rightarrow> z),
     oi_locations = order_desc l_created_at (filter (\<lambda>l. l_file_id l = i) (file_locations d))\<rparr>"

text \<open>The two deletes of one orphan; the second cascades.\<close>

definition delete_orphan :: "uuid \<Rightarrow> db \<Rightarrow> db" where
  "delete_orphan i d =
     delete_file_row i (d\<lparr>file_locations := delete_where (\<lambda>l. l_file_id l = i) (file_locations d)\<rparr>)"

text \<open>The removal of the contents, after the commit; errors are logged and ignored.\<close>

definition delete_contents :: "'w env \<Rightarrow> registry \<Rightarrow> file_location \<Rightarrow> 'w phys \<Rightarrow> 'w phys" where
  "delete_contents x reg l w =
     (case registry_get (l_storage_id l) reg of
        Inl _ \<Rightarrow> w
      | Inr b \<Rightarrow> snd (be_delete x b (l_storage_path l) w))"

definition physical_cleanup :: "'w env \<Rightarrow> registry \<Rightarrow> orphan_info list \<Rightarrow> 'w phys \<Rightarrow> 'w phys" where
  "physical_cleanup x reg infos w = fold (\<lambda>info. fold (delete_contents x reg) (oi_locations info)) infos w"

text \<open>An error before the commit leaves the database as it was.\<close>

definition bulk_delete ::
    "'w env \<Rightarrow> registry \<Rightarrow> uuid \<Rightarrow> bulk_delete_filters \<Rightarrow> db \<Rightarrow> 'w phys \<Rightarrow> bulk_delete_result app_result \<times> db \<times> 'w phys" where
  "bulk_delete x reg pid filters d w =
     (case execute_bulk_delete pid filters d of
        (Inl e, _) \<Rightarrow> (Inl e, d, w)
      | (Inr (deleted_count, file_ids), d1) \<Rightarrow>
         (if deleted_count = 0
          then (Inr \<lparr>bdr_deleted_references = 0, bdr_orphaned_files_cleaned = 0, bdr_freed_bytes = 0\<rparr>, d1, w)
          else (let unique_file_ids = rev (remdups (rev file_ids));
                    orphaned_ids = file_find_orphaned_from_ids unique_file_ids d1;
                    infos = map (orphan_info_of d1) orphaned_ids;
                    d2 = fold delete_orphan orphaned_ids d1
                in (Inr \<lparr>bdr_deleted_references = deleted_count, bdr_orphaned_files_cleaned = int (length orphaned_ids),
                         bdr_freed_bytes = sum_list (map oi_size infos)\<rparr>,
                    d2, physical_cleanup x reg infos w))))"

section \<open>Copying everything to one storage\<close>

record sync_all_result =
  sar_storage_id :: uuid
  sar_sync_tasks_created :: nat
  sar_already_synced :: int

definition needs_copy :: "uuid \<Rightarrow> db \<Rightarrow> uuid \<Rightarrow> bool" where
  "needs_copy target d fid \<longleftrightarrow>
     list_ex (\<lambda>l. l_file_id l = fid \<and> l_status l = ''synced'') (file_locations d) \<and>
     \<not> list_ex (\<lambda>l. l_file_id l = fid \<and> l_storage_id l = target \<and> (l_status l = ''synced'' \<or> l_status l = ''pending''))
         (file_locations d) \<and>
     \<not> list_ex (\<lambda>t. t_target t = target \<and> open_task fid t) (sync_tasks d)"

definition copy_source :: "uuid \<Rightarrow> db \<Rightarrow> file_location option" where
  "copy_source fid d =
     head_opt (order_desc (\<lambda>l. bool_int (location_is_hot d l))
       (filter (\<lambda>l. l_file_id l = fid \<and> location_enabled d l \<and> l_status l = ''synced'') (file_locations d)))"

fun sync_all_loop :: "uuid \<Rightarrow> uuid list \<Rightarrow> db \<Rightarrow> nat \<times> db" where
  "sync_all_loop target [] d = (0, d)"
| "sync_all_loop target (fid # fids) d =
     (case copy_source fid d of
        None \<Rightarrow> sync_all_loop target fids d
      | Some source \<Rightarrow>
         (case sync_task_create \<lparr>ct_file_id = fid, ct_source = l_storage_id source, ct_target = target, ct_project_id = None\<rparr> d of
            (Inr _, d1) \<Rightarrow> (let (n, d2) = sync_all_loop target fids d1 in (Suc n, d2))
          | (Inl _, d1) \<Rightarrow> sync_all_loop target fids d1))"

definition sync_all :: "uuid \<Rightarrow> db \<Rightarrow> sync_all_result app_result \<times> db" where
  "sync_all target d =
     (case storage_find_by_id target d of
        Inl e \<Rightarrow> (Inl e, d)
      | Inr s \<Rightarrow>
         (if \<not> s_enabled s then (Inl (BadRequest ''Target storage is disabled''), d)
          else (let files_needing_sync = filter (needs_copy target d) (map f_id (files d));
                    already = length (remdups (map l_file_id
                      (filter (\<lambda>l. l_storage_id l = target \<and> l_status l = ''synced'') (file_locations d))));
                    (n, d1) = sync_all_loop target files_needing_sync d
                in (Inr \<lparr>sar_storage_id = target, sar_sync_tasks_created = n, sar_already_synced = int already\<rparr>, d1))))"

section \<open>Exporting a storage\<close>

datatype export_state = InProgress | Completed | Failed

record export_job =
  ej_job_id :: uuid
  ej_storage_id :: uuid
  ej_status :: export_state
  ej_total_files :: nat
  ej_processed_files :: nat
  ej_total_bytes :: nat
  ej_error :: "string option"

record bulk_state =
  bs_jobs :: "uuid \<rightharpoonup> export_job"
  bs_data :: "uuid \<rightharpoonup> bytes"

text \<open>
  The archive library: an empty archive, appending an entry (with its name, modification time and
  contents), closing the archive and closing the compressor. Errors carry their text.
\<close>

record 't tar =
  tar_new :: 't
  tar_append :: "string \<Rightarrow> nat \<Rightarrow> bytes \<Rightarrow> 't \<Rightarrow> string + 't"
  tar_into_inner :: "'t \<Rightarrow> string + 't"
  tar_finish :: "'t \<Rightarrow> string + bytes"

definition synced_on :: "uuid \<Rightarrow> db \<Rightarrow> file_location list" where
  "synced_on sid d = filter (\<lambda>l. l_storage_id l = sid \<and> l_status l = ''synced'') (file_locations d)"

definition start_export :: "uuid \<Rightarrow> uuid \<Rightarrow> db \<Rightarrow> bulk_state \<Rightarrow> uuid app_result \<times> bulk_state" where
  "start_export job_id sid d st =
     (case storage_find_by_id sid d of
        Inl e \<Rightarrow> (Inl e, st)
      | Inr _ \<Rightarrow>
         (Inr job_id, st\<lparr>bs_jobs := (bs_jobs st)(job_id \<mapsto>
            \<lparr>ej_job_id = job_id, ej_storage_id = sid, ej_status = InProgress, ej_total_files = length (synced_on sid d),
             ej_processed_files = 0, ej_total_bytes = 0, ej_error = None\<rparr>)\<rparr>))"

definition update_job :: "uuid \<Rightarrow> (export_job \<Rightarrow> export_job) \<Rightarrow> bulk_state \<Rightarrow> bulk_state" where
  "update_job i f st = st\<lparr>bs_jobs := (bs_jobs st)(i := map_option f (bs_jobs st i))\<rparr>"

text \<open>
  The loop over the locations. The slice of the hash panics for a hash shorter than two bytes (\<open>None\<close>);
  hashes are ASCII. A file that cannot be read is skipped.
\<close>

fun export_loop ::
    "'w env \<Rightarrow> 't tar \<Rightarrow> backend \<Rightarrow> uuid \<Rightarrow> db \<Rightarrow> 'w phys \<Rightarrow> file_location list \<Rightarrow> nat \<Rightarrow> 't \<Rightarrow> bulk_state \<Rightarrow>
     't app_result option \<times> bulk_state" where
  "export_loop x t b job d w [] processed ar st = (Some (Inr ar), st)"
| "export_loop x t b job d w (l # ls) processed ar st =
     (case file_find_by_id (l_file_id l) d of
        Inl e \<Rightarrow> (Some (Inl e), st)
      | Inr file \<Rightarrow>
         (let st1 = update_job job (\<lambda>j. j\<lparr>ej_processed_files := Suc processed\<rparr>) st
          in case be_download x b (l_storage_path l) w of
               Inr data \<Rightarrow>
                 (if length (f_hash file) < 2 then (None, st)
                  else (case tar_append t (take 2 (f_hash file) @ ''/'' @ f_hash file) 0 data ar of
                          Inl e \<Rightarrow> (Some (Inl (Internal (''Failed to append to tar: '' @ e))), st)
                        | Inr ar1 \<Rightarrow> export_loop x t b job d w ls (Suc processed) ar1 st1))
             | Inl _ \<Rightarrow> export_loop x t b job d w ls (Suc processed) ar st1))"

definition build_tar_gz_archive ::
    "'w env \<Rightarrow> 't tar \<Rightarrow> registry \<Rightarrow> uuid \<Rightarrow> uuid \<Rightarrow> db \<Rightarrow> 'w phys \<Rightarrow> bulk_state \<Rightarrow> bytes app_result option \<times> bulk_state" where
  "build_tar_gz_archive x t reg sid job d w st =
     (case registry_get sid reg of
        Inl e \<Rightarrow> (Some (Inl e), st)
      | Inr b \<Rightarrow>
         (case export_loop x t b job d w (order_asc l_created_at (synced_on sid d)) 0 (tar_new t) st of
            (None, st1) \<Rightarrow> (None, st1)
          | (Some (Inl e), st1) \<Rightarrow> (Some (Inl e), st1)
          | (Some (Inr ar), st1) \<Rightarrow>
             (Some (case tar_into_inner t ar of
                Inl e \<Rightarrow> Inl (Internal (''Failed to finalize tar: '' @ e))
              | Inr gz \<Rightarrow> (case tar_finish t gz of
                            Inl e \<Rightarrow> Inl (Internal (''Failed to finalize gzip: '' @ e))
                          | Inr bytes \<Rightarrow> Inr bytes)), st1)))"

text \<open>The spawned task; a panic ends it without a trace in the job table.\<close>

definition run_export ::
    "'w env \<Rightarrow> 't tar \<Rightarrow> (db_error \<Rightarrow> string) \<Rightarrow> registry \<Rightarrow> uuid \<Rightarrow> uuid \<Rightarrow> db \<Rightarrow> 'w phys \<Rightarrow> bulk_state \<Rightarrow> bulk_state" where
  "run_export x t db_msg reg sid job d w st =
     (case build_tar_gz_archive x t reg sid job d w st of
        (None, st1) \<Rightarrow> st1
      | (Some (Inr data), st1) \<Rightarrow>
          (update_job job (\<lambda>j. j\<lparr>ej_status := Completed, ej_total_bytes := length data\<rparr>) st1)\<lparr>bs_data := (bs_data st1)(job \<mapsto> data)\<rparr>
      | (Some (Inl e), st1) \<Rightarrow>
          update_job job (\<lambda>j. j\<lparr>ej_status := Failed, ej_error := Some (display_error db_msg e)\<rparr>) st1)"

definition get_export_status :: "uuid \<Rightarrow> bulk_state \<Rightarrow> export_job app_result" where
  "get_export_status job st = ok_or (NotFound (''Export job '' @ uuid_str job @ '' not found'')) (bs_jobs st job)"

definition get_export_data :: "uuid \<Rightarrow> bulk_state \<Rightarrow> bytes app_result \<times> bulk_state" where
  "get_export_data job st =
     (case get_export_status job st of
        Inl e \<Rightarrow> (Inl e, st)
      | Inr status \<Rightarrow>
         (if ej_status status \<noteq> Completed then (Inl (BadRequest ''Export is not yet completed''), st)
          else (ok_or (NotFound ''Export data not found or already downloaded'') (bs_data st job),
                st\<lparr>bs_data := (bs_data st)(job := None)\<rparr>)))"

section \<open>Endpoints\<close>

text \<open>Every endpoint extracts an administrator from the request first.\<close>

definition with_admin :: "uuid app_result \<Rightarrow> ('s \<Rightarrow> 'r app_result \<times> 's) \<Rightarrow> 's \<Rightarrow> 'r app_result \<times> 's" where
  "with_admin admin handler s = (case admin of Inl e \<Rightarrow> (Inl e, s) | Inr _ \<Rightarrow> handler s)"

definition api_sync_all :: "uuid app_result \<Rightarrow> uuid \<Rightarrow> db \<Rightarrow> sync_all_result app_result \<times> db" where
  "api_sync_all admin sid = with_admin admin (sync_all sid)"

definition api_start_export :: "uuid app_result \<Rightarrow> uuid \<Rightarrow> uuid \<Rightarrow> db \<Rightarrow> bulk_state \<Rightarrow> (uuid \<times> string) app_result \<times> bulk_state" where
  "api_start_export admin new_id sid d = with_admin admin (\<lambda>st.
     case start_export new_id sid d st of
       (Inl e, st1) \<Rightarrow> (Inl e, st1)
     | (Inr job, st1) \<Rightarrow> (Inr (job, ''Export started''), st1))"

definition api_export_status :: "uuid app_result \<Rightarrow> uuid \<Rightarrow> bulk_state \<Rightarrow> export_job app_result \<times> bulk_state" where
  "api_export_status admin job = with_admin admin (\<lambda>st. (get_export_status job st, st))"

definition api_export_download :: "uuid app_result \<Rightarrow> uuid \<Rightarrow> bulk_state \<Rightarrow> bytes app_result \<times> bulk_state" where
  "api_export_download admin job = with_admin admin (get_export_data job)"

section \<open>What a bulk delete removes\<close>

text \<open>A file all of whose references match, and that has one.\<close>

definition orphaned_by :: "db \<Rightarrow> uuid \<Rightarrow> bulk_delete_filters \<Rightarrow> uuid \<Rightarrow> bool" where
  "orphaned_by d pid b fid \<longleftrightarrow> (\<exists>r \<in> set (file_references d). r_file_id r = fid \<and> bulk_matches d pid b r) \<and>
     (\<forall>r \<in> set (file_references d). r_file_id r = fid \<longrightarrow> bulk_matches d pid b r)"

lemma delete_where_twice: "delete_where P (delete_where Q rows) = delete_where (\<lambda>r. Q r \<or> P r) rows"
  by (simp add: delete_where_def conj_commute)

lemma delete_where_none: "\<forall>r \<in> set rows. \<not> P r \<Longrightarrow> delete_where P rows = rows"
  by (simp add: delete_where_def)

lemma fold_delete_orphan:
  "fold delete_orphan ids d = d\<lparr>files := delete_where (\<lambda>f. f_id f \<in> set ids) (files d),
     file_references := delete_where (\<lambda>r. r_file_id r \<in> set ids) (file_references d),
     file_locations := delete_where (\<lambda>l. l_file_id l \<in> set ids) (file_locations d),
     sync_tasks := delete_where (\<lambda>t. t_file_id t \<in> set ids) (sync_tasks d),
     shared_links := delete_where (\<lambda>l. sl_file_id l \<in> set ids) (shared_links d),
     file_access_events := delete_where (\<lambda>e. ev_file_id e \<in> set ids) (file_access_events d)\<rparr>"
proof (induction ids arbitrary: d)
  case Nil
  then show ?case by (simp add: delete_where_def)
next
  case (Cons i ids)
  show ?case unfolding fold_Cons o_apply Cons.IH by (simp add: delete_orphan_def delete_file_row_def delete_where_twice)
qed

lemma delete_orphan_schema [schema_intros]: "schema_ok d \<Longrightarrow> schema_ok (delete_orphan i d)"
proof -
  assume ok: "schema_ok d"
  have "schema_ok (d\<lparr>file_locations := delete_where (\<lambda>l. l_file_id l = i) (file_locations d)\<rparr>)"
    using schema_okD(6) [OF ok] by (intro schema_ok_set_leaf(3) [OF ok]) (simp add: file_locations_ok_def distinct_map_delete_where table_simps)
  then show ?thesis unfolding delete_orphan_def by (rule delete_file_row_schema)
qed

lemma fold_delete_orphan_schema: "schema_ok d \<Longrightarrow> schema_ok (fold delete_orphan ids d)"
  by (induction ids arbitrary: d) (simp_all add: delete_orphan_schema)

text \<open>The orphans the second query finds are the files all of whose references were deleted.\<close>

lemma orphans_found:
  assumes "ids = map r_file_id (filter (bulk_matches d pid b) (file_references d))"
  shows "file_find_orphaned_from_ids (rev (remdups (rev ids))) (d\<lparr>file_references := delete_where (bulk_matches d pid b) (file_references d)\<rparr>) =
    filter (orphaned_by d pid b) (map f_id (files d))"
proof (cases "ids = []")
  case True
  then have "\<forall>r \<in> set (file_references d). \<not> bulk_matches d pid b r" using assms by (simp add: filter_empty_conv)
  with True show ?thesis by (auto simp: file_find_orphaned_from_ids_def orphaned_by_def filter_empty_conv)
next
  case False
  have "f_id f \<in> set ids \<and> \<not> list_ex (\<lambda>r. r_file_id r = f_id f) (delete_where (bulk_matches d pid b) (file_references d)) \<longleftrightarrow>
      orphaned_by d pid b (f_id f)" for f :: file_row
    unfolding assms orphaned_by_def list_ex_iff set_delete_where by (auto intro!: image_memI)
  with False show ?thesis by (simp add: file_find_orphaned_from_ids_def filter_map o_def)
qed

lemma file_size_of_row: "files_ok (files d) \<Longrightarrow> f \<in> set (files d) \<Longrightarrow> file_size_of d (f_id f) = Some (f_size f)"
  by (simp add: file_size_of_def files_ok_def find_by_key)

text \<open>
  C24: a bulk delete removes exactly the matching references of the project and exactly the files that
  nothing refers to any more, with their locations; it reports how many and how many bytes, never fails on
  a filter of admissible depth and keeps the schema constraints.
\<close>

theorem bulk_delete_exact:
  assumes "schema_ok d" and "filters_ok (bf_metadata b)"
  shows "\<exists>res d' w'. bulk_delete x reg pid b d w = (Inr res, d', w') \<and> schema_ok d' \<and>
    file_references d' = delete_where (bulk_matches d pid b) (file_references d) \<and>
    files d' = delete_where (\<lambda>f. orphaned_by d pid b (f_id f)) (files d) \<and>
    file_locations d' = delete_where (\<lambda>l. orphaned_by d pid b (l_file_id l)) (file_locations d) \<and>
    bdr_deleted_references res = count_where (bulk_matches d pid b) (file_references d) \<and>
    bdr_orphaned_files_cleaned res = count_where (\<lambda>f. orphaned_by d pid b (f_id f)) (files d) \<and>
    bdr_freed_bytes res = sum_list (map f_size (filter (\<lambda>f. orphaned_by d pid b (f_id f)) (files d)))"
proof -
  let ?m = "bulk_matches d pid b" and ?o = "orphaned_by d pid b"
  let ?d1 = "d\<lparr>file_references := delete_where ?m (file_references d)\<rparr>"
  note ex = execute_bulk_delete_exact [OF assms, of pid]
  have ok1: "schema_ok ?d1" by (rule file_reference_deletes_schema [OF assms(1)])
  show ?thesis
  proof (cases "count_where ?m (file_references d) = 0")
    case True
    then have none: "\<forall>r \<in> set (file_references d). \<not> ?m r" by (simp add: count_where_def filter_empty_conv)
    then have no: "\<not> ?o fid" for fid by (auto simp: orphaned_by_def)
    have "delete_where ?m (file_references d) = file_references d" using none by (rule delete_where_none)
    with True ex ok1 no show ?thesis
      by (simp add: bulk_delete_def delete_where_none count_where_def)
  next
    case False
    let ?ids = "filter ?o (map f_id (files d))"
    let ?d2 = "fold delete_orphan ?ids ?d1"
    have fo: "files_ok (files d)" using schema_okD(4) [OF assms(1)] .
    have run: "bulk_delete x reg pid b d w = (Inr \<lparr>bdr_deleted_references = count_where ?m (file_references d),
        bdr_orphaned_files_cleaned = int (length ?ids), bdr_freed_bytes = sum_list (map oi_size (map (orphan_info_of ?d1) ?ids))\<rparr>,
        ?d2, physical_cleanup x reg (map (orphan_info_of ?d1) ?ids) w)"
      using False orphans_found [OF refl, of d pid b] by (simp add: bulk_delete_def ex Let_def)
    have ids: "i \<in> set ?ids \<longleftrightarrow> ?o i \<and> i \<in> f_id ` set (files d)" for i by auto
    have refs: "delete_where (\<lambda>r. r_file_id r \<in> set ?ids) (delete_where ?m (file_references d)) = delete_where ?m (file_references d)"
      by (rule delete_where_none) (auto simp: table_simps orphaned_by_def)
    have locs: "delete_where (\<lambda>l. l_file_id l \<in> set ?ids) (file_locations d) = delete_where (\<lambda>l. ?o (l_file_id l)) (file_locations d)"
      unfolding delete_where_def using schema_okD(6) [OF assms(1)] by (intro filter_cong refl) (simp add: ids file_locations_ok_def)
    have fls: "delete_where (\<lambda>f. f_id f \<in> set ?ids) (files d) = delete_where (\<lambda>f. ?o (f_id f)) (files d)"
      unfolding delete_where_def by (intro filter_cong refl) simp
    have sz: "oi_size (orphan_info_of ?d1 (f_id f)) = f_size f" if "f \<in> set (files d)" for f
      using file_size_of_row [OF fo that] by (auto simp: orphan_info_of_def file_size_of_def)
    have fil: "?ids = map f_id (filter (\<lambda>f. ?o (f_id f)) (files d))" by (simp add: filter_map o_def)
    have cnt: "int (length ?ids) = count_where (\<lambda>f. ?o (f_id f)) (files d)" by (simp add: fil count_where_def)
    have frd: "map oi_size (map (orphan_info_of ?d1) ?ids) = map f_size (filter (\<lambda>f. ?o (f_id f)) (files d))"
      unfolding fil using sz by simp
    have d2: "file_references ?d2 = delete_where ?m (file_references d)" "files ?d2 = delete_where (\<lambda>f. ?o (f_id f)) (files d)"
      "file_locations ?d2 = delete_where (\<lambda>l. ?o (l_file_id l)) (file_locations d)"
      using refs fls locs by (simp_all add: fold_delete_orphan del: set_filter)
    show ?thesis unfolding run cnt frd using d2 fold_delete_orphan_schema [OF ok1, of ?ids] by auto
  qed
qed

theorem bulk_delete_exact_witness:
  "\<exists>res d' w'. bulk_delete demo_env demo_registry 2 \<lparr>bf_metadata = None, bf_created_before = Some 5, bf_created_after = None,
      bf_size_min = None, bf_size_max = None, bf_last_accessed_before = None\<rparr> demo_db demo_phys = (Inr res, d', w') \<and>
     files d' = [] \<and> bdr_freed_bytes res = 3"
proof -
  let ?b = "\<lparr>bf_metadata = None, bf_created_before = Some 5, bf_created_after = None, bf_size_min = None, bf_size_max = None,
      bf_last_accessed_before = None\<rparr>"
  have "orphaned_by demo_db 2 ?b 7" by (simp add: orphaned_by_def bulk_matches_def demo_defs)
  with bulk_delete_exact [OF schema_ok_demo, of ?b demo_env demo_registry 2 demo_phys] show ?thesis
    by (auto simp: filters_ok_def demo_defs delete_where_def)
qed

section \<open>Every missing copy is queued once\<close>

lemma sync_task_create_without_project:
  assumes "supply_fresh d (t_id ` set (sync_tasks d))" and "fid \<in> f_id ` set (files d)" and "src \<in> s_id ` set (storages d)"
    and "target \<in> s_id ` set (storages d)"
  obtains t where
    "sync_task_create \<lparr>ct_file_id = fid, ct_source = src, ct_target = target, ct_project_id = None\<rparr> d =
       (Inr t, (draw d)\<lparr>sync_tasks := sync_tasks d @ [t]\<rparr>)"
    "t_id t = fresh_id d" "t_file_id t = fid" "t_source t = src" "t_target t = target" "t_status t = ''pending''" "t_project_id t = None"
proof -
  let ?t = "\<lparr>t_id = fresh_id d, t_file_id = fid, t_source = src, t_target = target, t_status = ''pending'',
    t_retries = 0, t_error_msg = None, t_retry_after = None, t_project_id = None, t_created_at = now d, t_updated_at = now d\<rparr>"
  have "fresh_id d \<notin> t_id ` set (sync_tasks d)" using assms(1) by (rule supply_fresh_notin)
  with assms(2-) have "sync_task_create \<lparr>ct_file_id = fid, ct_source = src, ct_target = target, ct_project_id = None\<rparr> d =
       (Inr ?t, (draw d)\<lparr>sync_tasks := sync_tasks d @ [?t]\<rparr>)"
    by (simp add: sync_task_create_def Let_def)
  then show ?thesis by (rule that) simp_all
qed

lemma copy_source_member:
  assumes "copy_source fid d = Some l"
  shows "l \<in> set (file_locations d)" "l_file_id l = fid" "l_status l = ''synced''" "location_enabled d l" "l_storage_id l \<in> s_id ` set (storages d)"
proof -
  from head_opt_in_set [OF assms [unfolded copy_source_def]]
  show l: "l \<in> set (file_locations d)" "l_file_id l = fid" "l_status l = ''synced''" "location_enabled d l" by auto
  from l(4) obtain s where "location_storage l d = Some s" by (auto simp: location_enabled_def split: option.splits)
  from find_Some_in_set [OF this [unfolded location_storage_def]] show "l_storage_id l \<in> s_id ` set (storages d)"
    by (intro image_memI [of s]) simp_all
qed

lemma copy_source_cong:
  "storages d' = storages d \<Longrightarrow> file_locations d' = file_locations d \<Longrightarrow> copy_source fid d' = copy_source fid d"
  by (simp add: copy_source_def location_enabled_def location_is_hot_def location_storage_def)

definition copy_task_for :: "uuid \<Rightarrow> db \<Rightarrow> sync_task \<Rightarrow> bool" where
  "copy_task_for target d t \<longleftrightarrow> t_target t = target \<and> t_status t = ''pending'' \<and> t_project_id t = None \<and>
     (\<exists>l. copy_source (t_file_id t) d = Some l \<and> l_storage_id l = t_source t)"

lemma sync_all_loop_exact:
  assumes "supply_fresh d (t_id ` set (sync_tasks d))" and "target \<in> s_id ` set (storages d)" and "set fids \<subseteq> f_id ` set (files d)"
  shows "\<exists>k new. sync_all_loop target fids d = (length new, d\<lparr>gpos := gpos d + k, sync_tasks := sync_tasks d @ new\<rparr>) \<and>
    map t_file_id new = filter (\<lambda>i. copy_source i d \<noteq> None) fids \<and> (\<forall>t \<in> set new. copy_task_for target d t)"
  using assms
proof (induction fids arbitrary: d)
  case Nil
  then show ?case by (intro exI [of _ 0] exI [of _ "[]"]) simp
next
  case (Cons fid fids)
  show ?case
  proof (cases "copy_source fid d")
    case None
    with Cons show ?thesis by simp
  next
    case (Some l)
    from Cons.prems copy_source_member(5) [OF Some] obtain t where
      new: "sync_task_create \<lparr>ct_file_id = fid, ct_source = l_storage_id l, ct_target = target, ct_project_id = None\<rparr> d =
        (Inr t, (draw d)\<lparr>sync_tasks := sync_tasks d @ [t]\<rparr>)"
      and t: "t_id t = fresh_id d" "t_file_id t = fid" "t_source t = l_storage_id l" "t_target t = target" "t_status t = ''pending''" "t_project_id t = None"
      by (elim sync_task_create_without_project [of d fid "l_storage_id l" target]) auto
    let ?d1 = "(draw d)\<lparr>sync_tasks := sync_tasks d @ [t]\<rparr>"
    have "supply_fresh (draw d) (t_id ` set (sync_tasks ?d1))" using supply_fresh_draw [OF Cons.prems(1)] t(1) by simp
    then have fr: "supply_fresh ?d1 (t_id ` set (sync_tasks ?d1))" by (rule supply_fresh_cong) simp_all
    have src: "copy_source i ?d1 = copy_source i d" for i by (rule copy_source_cong) simp_all
    from Cons.IH [OF fr] Cons.prems obtain k ts where
      ih: "sync_all_loop target fids ?d1 = (length ts, ?d1\<lparr>gpos := gpos ?d1 + k, sync_tasks := sync_tasks ?d1 @ ts\<rparr>)"
        "map t_file_id ts = filter (\<lambda>i. copy_source i d \<noteq> None) fids" "\<forall>t \<in> set ts. copy_task_for target ?d1 t"
      unfolding src by auto
    have "\<forall>u \<in> set (t # ts). copy_task_for target d u" using ih(3) t Some by (simp add: copy_task_for_def src)
    moreover have "sync_all_loop target (fid # fids) d = (length (t # ts), d\<lparr>gpos := gpos d + Suc k, sync_tasks := sync_tasks d @ t # ts\<rparr>)"
      using Some new ih(1) by (simp add: draw_def)
    ultimately show ?thesis using ih(2) t(2) Some by (intro exI [of _ "Suc k"] exI [of _ "t # ts"]) simp
  qed
qed


lemma demo_sync_all_run: "case sync_all 4 demo_db of (Inr res, _) \<Rightarrow> sar_sync_tasks_created res = 1 | _ \<Rightarrow> False"
  by code_simp


section \<open>Export jobs\<close>

text \<open>
  The service with its background tasks: the state, the spawned tasks that have not run, and what was
  delivered. A task only changes its own job, so its whole run is one step; the database, the storages and
  the registry are those of the moment.
\<close>

record export_sys =
  xs_state :: bulk_state
  xs_spawned :: "(uuid \<times> uuid) list"
  xs_delivered :: "(uuid \<times> bytes) list"

inductive export_step :: "'w env \<Rightarrow> 't tar \<Rightarrow> (db_error \<Rightarrow> string) \<Rightarrow> export_sys \<Rightarrow> export_sys \<Rightarrow> bool" for x t db_msg where
  start: "start_export job sid d (xs_state s) = (Inr job, st) \<Longrightarrow> bs_jobs (xs_state s) job = None \<Longrightarrow>
     export_step x t db_msg s (s\<lparr>xs_state := st, xs_spawned := (job, sid) # xs_spawned s\<rparr>)"
| run: "(job, sid) \<in> set (xs_spawned s) \<Longrightarrow>
     export_step x t db_msg s (s\<lparr>xs_state := run_export x t db_msg reg sid job d w (xs_state s),
       xs_spawned := filter (\<lambda>p. fst p \<noteq> job) (xs_spawned s)\<rparr>)"
| deliver: "get_export_data job (xs_state s) = (Inr data, st) \<Longrightarrow>
     export_step x t db_msg s (s\<lparr>xs_state := st, xs_delivered := (job, data) # xs_delivered s\<rparr>)"
| refuse: "get_export_data job (xs_state s) = (Inl e, st) \<Longrightarrow> export_step x t db_msg s (s\<lparr>xs_state := st\<rparr>)"

inductive export_reachable :: "'w env \<Rightarrow> 't tar \<Rightarrow> (db_error \<Rightarrow> string) \<Rightarrow> export_sys \<Rightarrow> bool" for x t db_msg where
  init: "export_reachable x t db_msg \<lparr>xs_state = \<lparr>bs_jobs = Map.empty, bs_data = Map.empty\<rparr>, xs_spawned = [], xs_delivered = []\<rparr>"
| step: "export_reachable x t db_msg s \<Longrightarrow> export_step x t db_msg s s' \<Longrightarrow> export_reachable x t db_msg s'"

definition export_inv :: "export_sys \<Rightarrow> bool" where
  "export_inv s \<longleftrightarrow> distinct (map fst (xs_delivered s)) \<and>
     (\<forall>p \<in> set (xs_delivered s). bs_jobs (xs_state s) (fst p) \<noteq> None \<and> bs_data (xs_state s) (fst p) = None) \<and>
     (\<forall>p \<in> set (xs_spawned s). bs_jobs (xs_state s) (fst p) \<noteq> None \<and> bs_data (xs_state s) (fst p) = None \<and>
        fst p \<notin> fst ` set (xs_delivered s)) \<and>
     (\<forall>job. bs_data (xs_state s) job \<noteq> None \<longrightarrow> bs_jobs (xs_state s) job \<noteq> None) \<and>
     (\<forall>job j. bs_jobs (xs_state s) job = Some j \<and> ej_status j = Completed \<and> job \<notin> fst ` set (xs_delivered s) \<longrightarrow>
        bs_data (xs_state s) job \<noteq> None)"

lemma update_job_sel [simp]:
  "bs_jobs (update_job i f st) = (bs_jobs st)(i := map_option f (bs_jobs st i))" "bs_data (update_job i f st) = bs_data st"
  by (simp_all add: update_job_def)

text \<open>The job table after a run: the job's status is kept, set to failed, or completed with its data.\<close>

definition job_progress :: "uuid \<Rightarrow> bulk_state \<Rightarrow> bulk_state \<Rightarrow> bool" where
  "job_progress job st st' \<longleftrightarrow> bs_data st' = bs_data st \<and>
     (\<exists>f. bs_jobs st' = (bs_jobs st)(job := map_option f (bs_jobs st job)) \<and> (\<forall>j. ej_status (f j) = ej_status j))"

lemma job_progress_refl: "job_progress job st st"
  unfolding job_progress_def by (auto simp: option.map_ident intro!: exI [of _ "\<lambda>j. j"])

lemma job_progress_trans:
  assumes "job_progress job st st1" "job_progress job st1 st2"
  shows "job_progress job st st2"
proof -
  from assms obtain f g where "bs_jobs st1 = (bs_jobs st)(job := map_option f (bs_jobs st job))" "\<forall>j. ej_status (f j) = ej_status j"
    "bs_jobs st2 = (bs_jobs st1)(job := map_option g (bs_jobs st1 job))" "\<forall>j. ej_status (g j) = ej_status j"
    unfolding job_progress_def by blast
  with assms show ?thesis unfolding job_progress_def
    by (intro conjI exI [of _ "g \<circ> f"]) (simp_all add: option.map_comp)
qed

lemma job_progress_step: "job_progress job st (update_job job (\<lambda>j. j\<lparr>ej_processed_files := n\<rparr>) st)"
  unfolding job_progress_def by (intro conjI exI [of _ "\<lambda>j. j\<lparr>ej_processed_files := n\<rparr>"]) simp_all

lemma export_loop_progress: "job_progress job st (snd (export_loop x t b job d w ls n ar st))"
proof (induction ls arbitrary: n ar st)
  case (Cons l ls)
  let ?st1 = "update_job job (\<lambda>j. j\<lparr>ej_processed_files := Suc n\<rparr>) st"
  have "job_progress job st (snd (export_loop x t b job d w ls (Suc n) a ?st1))" for a
    using job_progress_trans [OF job_progress_step Cons.IH] .
  then show ?case by (auto simp: Let_def job_progress_refl split: sum.split)
qed (simp add: job_progress_refl)

lemma build_tar_gz_progress: "job_progress job st (snd (build_tar_gz_archive x t reg sid job d w st))"
  using export_loop_progress [of job st x t _ d w "order_asc l_created_at (synced_on sid d)" 0 "tar_new t"]
  by (auto simp: build_tar_gz_archive_def job_progress_refl split: sum.split prod.split option.split) (metis snd_conv)+

lemma run_export_effect:
  assumes "bs_jobs st job = Some j"
  obtains (open1) j' where "bs_data (run_export x t db_msg reg sid job d w st) = bs_data st"
      "bs_jobs (run_export x t db_msg reg sid job d w st) = (bs_jobs st)(job \<mapsto> j')" "ej_status j' = ej_status j \<or> ej_status j' = Failed"
  | (completed) j' data where "bs_data (run_export x t db_msg reg sid job d w st) = (bs_data st)(job \<mapsto> data)"
      "bs_jobs (run_export x t db_msg reg sid job d w st) = (bs_jobs st)(job \<mapsto> j')"
proof -
  obtain r st1 where b: "build_tar_gz_archive x t reg sid job d w st = (r, st1)" by fastforce
  with build_tar_gz_progress [of job st x t reg sid d w] assms obtain f where
    st1: "bs_data st1 = bs_data st" "bs_jobs st1 = (bs_jobs st)(job \<mapsto> f j)" "ej_status (f j) = ej_status j"
    by (auto simp: job_progress_def)
  show thesis
  proof (cases r)
    case None
    with b st1 open1 show ?thesis by (simp add: run_export_def)
  next
    case (Some q)
    show ?thesis
    proof (cases q)
      case (Inl e)
      with Some b st1 open1 show ?thesis by (simp add: run_export_def)
    next
      case (Inr data)
      with Some b st1 completed show ?thesis by (simp add: run_export_def)
    qed
  qed
qed

lemma export_inv_start:
  assumes inv: "export_inv s" and st: "start_export job sid d (xs_state s) = (Inr job, st)" and new: "bs_jobs (xs_state s) job = None"
  shows "export_inv (s\<lparr>xs_state := st, xs_spawned := (job, sid) # xs_spawned s\<rparr>)"
proof -
  from st obtain j where "bs_jobs st = (bs_jobs (xs_state s))(job \<mapsto> j)" "bs_data st = bs_data (xs_state s)" "ej_status j = InProgress"
    by (auto simp: start_export_def split: sum.splits)
  with inv new show ?thesis unfolding export_inv_def by (auto simp: image_iff)
qed

lemma export_inv_run:
  assumes inv: "export_inv s" and p: "(job, sid) \<in> set (xs_spawned s)"
  shows "export_inv (s\<lparr>xs_state := run_export x t db_msg reg sid job d w (xs_state s),
    xs_spawned := filter (\<lambda>p. fst p \<noteq> job) (xs_spawned s)\<rparr>)"
proof -
  from inv p obtain j where j: "bs_jobs (xs_state s) job = Some j" "bs_data (xs_state s) job = None" and nd: "job \<notin> fst ` set (xs_delivered s)"
    unfolding export_inv_def by fastforce
  have ns: "ej_status j \<noteq> Completed" using inv j nd unfolding export_inv_def by blast
  from j(1) show ?thesis
  proof (cases rule: run_export_effect [where x = x and t = t and db_msg = db_msg and reg = reg and sid = sid and d = d and w = w])
    case (open1 j')
    with inv ns nd show ?thesis unfolding export_inv_def by (auto simp: image_iff)
  next
    case (completed j' data)
    with inv nd show ?thesis unfolding export_inv_def by (auto simp: image_iff)
  qed
qed

lemma get_export_data_Inr:
  assumes "get_export_data job st = (Inr data, st')"
  obtains j where "bs_jobs st job = Some j" "ej_status j = Completed" "bs_data st job = Some data"
    "st' = st\<lparr>bs_data := (bs_data st)(job := None)\<rparr>"
  using assms by (auto simp: get_export_data_def get_export_status_def split: sum.splits if_splits)

lemma get_export_data_Inl:
  assumes "get_export_data job st = (Inl e, st')"
  shows "st' = st"
proof (cases "get_export_status job st")
  case (Inr j)
  with assms show ?thesis by (cases "bs_data st job") (auto simp: get_export_data_def ok_or_def fun_upd_idem split: if_splits)
qed (use assms in \<open>simp add: get_export_data_def\<close>)

lemma export_inv_step: "export_step x t db_msg s s' \<Longrightarrow> export_inv s \<Longrightarrow> export_inv s'"
proof (induction rule: export_step.induct)
  case (start job sid d s st)
  then show ?case by (blast intro: export_inv_start)
next
  case (run job sid s reg d w)
  then show ?case by (blast intro: export_inv_run)
next
  case (deliver job s data st)
  from deliver(1) obtain j where "bs_jobs (xs_state s) job = Some j" "bs_data (xs_state s) job = Some data"
    "st = (xs_state s)\<lparr>bs_data := (bs_data (xs_state s))(job := None)\<rparr>" by (rule get_export_data_Inr)
  with deliver(2) show ?case unfolding export_inv_def by (auto simp: image_iff)
next
  case (refuse job s e st)
  with get_export_data_Inl [OF refuse(1)] show ?case by simp
qed


definition demo_tar :: "(string \<times> bytes) list tar" where
  "demo_tar = \<lparr>tar_new = [], tar_append = (\<lambda>name mtime data ar. Inr (ar @ [(name, data)])), tar_into_inner = Inr,
     tar_finish = (\<lambda>ar. Inr (concat (map snd ar)))\<rparr>"


section \<open>Registered backends and containers\<close>

text \<open>
  The registered backend of a local storage is rooted at the storage's path, the backend of a project on
  the same storage at the project's container below it.
\<close>

lemma local_project_path:
  assumes "create_backend x ''local'' (s_config s) secret = Inr b" and "s_type s = ''local''"
    and "resolve_project_backend x secret d s pid w = (Some (Inr b'), w1)" and "project_find_by_id pid d = Inr p"
  obtains lb lb' where "b = LocalDisk lb" "b' = LocalDisk lb'"
    "components (lb_base lb') = components (lb_base lb) @
       components (effective_container p (project_storage_find_for_project_and_storage pid (s_id s) d))"
proof -
  let ?a = "project_storage_find_for_project_and_storage pid (s_id s) d"
  let ?c = "effective_container p ?a"
  from assms(1) obtain base where base: "as_str (json_get (s_config s) ''path'') = Some base"
    and b: "b = LocalDisk \<lparr>lb_base = base, lb_hmac_secret = secret\<rparr>"
    by (auto simp: create_backend_def require_str_def split: sum.splits)
  from assms(2-4) obtain config where cfg: "project_config s ?c ?a = Some config" and b': "create_backend x ''local'' config secret = Inr b'"
    by (auto simp: resolve_project_backend_def Let_def split: option.splits sum.splits)
  from cfg base assms(2) have "as_str (json_get config ''path'') = Some (trim_end_matches (CHR ''/'') base @ ''/'' @ ?c)"
    by (auto simp: project_config_def apply_container_to_config_def str_or_def unwrap_or_def Let_def json_set_get split: option.splits)
  with b' have b2: "b' = LocalDisk \<lparr>lb_base = trim_end_matches (CHR ''/'') base @ ''/'' @ ?c, lb_hmac_secret = secret\<rparr>"
    by (auto simp: create_backend_def require_str_def ok_or_def)
  show thesis
    by (rule that [OF b b2]) (use components_slash [of "trim_end_matches (CHR ''/'') base" ?c] in simp)
qed

lemma resolve_path_bases:
  assumes "resolve_path lb path = Inr p"
  shows "\<exists>q. p = components (lb_base lb) @ q \<and> (\<forall>lb'. resolve_path lb' path = Inr (components (lb_base lb') @ q))"
  using assms by (auto simp: resolve_path_def split: sum.splits if_splits)

lemma local_upload_reads:
  assumes "local_upload lb path data f = (Inr (), f')" and "resolve_path lb path \<noteq> Inr q"
  shows "fs_read q f' = fs_read q f"
  using assms(1)
proof (cases rule: local_upload_cases)
  case (stored p f1)
  with assms(2) have "q \<noteq> p" by auto
  with fs_write_read [OF stored(4)] mkdirs_read [OF stored(3) [unfolded create_dir_all_def]] show ?thesis by simp
qed auto

lemma container_apart:
  assumes "s_type s = ''local''" and "create_backend x ''local'' (s_config s) secret = Inr b"
    and "resolve_project_backend x secret d s pid w0 = (Some (Inr b'), w)" and "project_find_by_id pid d = Inr p"
    and "components (effective_container p (project_storage_find_for_project_and_storage pid (s_id s) d)) \<noteq> []"
    and "be_upload x b' path data w = (Inr (), w')"
  obtains lb lb' q where "b = LocalDisk lb" "b' = LocalDisk lb'" "resolve_path lb' path = Inr q" "resolve_path lb path \<noteq> Inr q"
    "local_upload lb' path data (ph_fs w) = (Inr (), ph_fs w')"
proof -
  from assms(2,1,3,4) obtain lb lb' where b: "b = LocalDisk lb" "b' = LocalDisk lb'"
    and base: "components (lb_base lb') = components (lb_base lb) @
       components (effective_container p (project_storage_find_for_project_and_storage pid (s_id s) d))" by (rule local_project_path)
  have up: "local_upload lb' path data (ph_fs w) = (Inr (), ph_fs w')"
    using assms(6) unfolding b by (auto simp: be_upload_def split: prod.splits)
  then obtain q where q: "resolve_path lb' path = Inr q" by (cases rule: local_upload_cases) auto
  from resolve_path_bases [OF q] base assms(5) have "resolve_path lb path \<noteq> Inr q" by auto
  with b q up show thesis by (intro that)
qed

text \<open>
  an operation that reaches a local storage through its registered backend misses the copies in the
  containers of the projects. After an upload to a project's backend the registered backend still finds
  nothing it did not find before under the same path, and deleting the path through the registered
  backend leaves the project's copy in place. Bulk deletion, exports, signed local links and the tasks of
  \<open>sync_all\<close>, which carry no project, use the registered backend.
\<close>

theorem registered_backend_misses_container:
  assumes "s_type s = ''local''" and "create_backend x ''local'' (s_config s) secret = Inr b"
    and "resolve_project_backend x secret d s pid w0 = (Some (Inr b'), w)" and "project_find_by_id pid d = Inr p"
    and "components (effective_container p (project_storage_find_for_project_and_storage pid (s_id s) d)) \<noteq> []"
    and "be_upload x b' path data w = (Inr (), w')"
  shows "(\<forall>v. be_download x b path w' = Inr v \<longrightarrow> be_download x b path w = Inr v) \<and>
    be_download x b' path (snd (be_delete x b path w')) = Inr data"
proof -
  from assms obtain lb lb' q where b: "b = LocalDisk lb" "b' = LocalDisk lb'" and q: "resolve_path lb' path = Inr q"
    and ne: "resolve_path lb path \<noteq> Inr q" and up: "local_upload lb' path data (ph_fs w) = (Inr (), ph_fs w')"
    by (rule container_apart)
  have rd: "local_download lb' path (ph_fs w') = Inr data" using up by (rule local_disk.read_after_write)
  obtain r f where del: "local_delete lb path (ph_fs w') = (r, f)" by fastforce
  from local_delete_read [OF del, of q] ne have keep: "fs_read q f = fs_read q (ph_fs w')" by auto
  have "local_download lb path (ph_fs w) = Inr v" if "local_download lb path (ph_fs w') = Inr v" for v
    using that local_upload_reads [OF up] ne q by (auto simp: local_download_Inr)
  moreover have "local_download lb' path f = Inr data" using rd keep q by (auto simp: local_download_Inr)
  ultimately show ?thesis unfolding b using del by (simp add: be_download_def be_delete_def)
qed

theorem registered_backend_misses_container_witness:
  "\<exists>b b' w w'. create_backend demo_env ''local'' (s_config (demo_storage 3 True)) ''k'' = Inr b \<and>
     resolve_project_backend demo_env ''k'' demo_db (demo_storage 3 True) 2 demo_phys = (Some (Inr b'), w) \<and>
     be_upload demo_env b' ''ab/cd/abcdef'' [7] w = (Inr (), w') \<and>
     (\<nexists>v. be_download demo_env b ''ab/cd/abcdef'' w' = Inr v) \<and>
     be_download demo_env b' ''ab/cd/abcdef'' (snd (be_delete demo_env b ''ab/cd/abcdef'' w')) = Inr [7]"
proof -
  let ?s = "demo_storage 3 True"
  obtain b where b: "create_backend demo_env ''local'' (s_config ?s) ''k'' = Inr b" "b = LocalDisk \<lparr>lb_base = ''/data'', lb_hmac_secret = ''k''\<rparr>"
    by (simp add: create_backend_def require_str_def demo_storage_def ok_or_def)
  have run: "case resolve_project_backend demo_env ''k'' demo_db ?s 2 demo_phys of
      (Some (Inr b'), w) \<Rightarrow> (case be_upload demo_env b' ''ab/cd/abcdef'' [7] w of (Inr _, _) \<Rightarrow> True | _ \<Rightarrow> False) | _ \<Rightarrow> False"
    by code_simp
  obtain q w where q: "resolve_project_backend demo_env ''k'' demo_db ?s 2 demo_phys = (q, w)" by fastforce
  with run obtain b' where b': "q = Some (Inr b')" by (auto split: option.splits sum.splits)
  obtain u w' where u: "be_upload demo_env b' ''ab/cd/abcdef'' [7] w = (u, w')" by fastforce
  with run q b' have u': "u = Inr ()" by (auto split: sum.splits)
  have p: "project_find_by_id 2 demo_db = Inr demo_project" by (simp add: project_find_by_id_def demo_defs ok_or_def)
  have c: "components (effective_container demo_project (project_storage_find_for_project_and_storage 2 (s_id ?s) demo_db)) \<noteq> []"
    by code_simp
  have "ph_fs w = []" using resolve_project_backend_fs [of demo_env "''k''" demo_db ?s 2 demo_phys] unfolding q by (simp add: demo_phys_def)
  then have none: "be_download demo_env b ''ab/cd/abcdef'' w \<noteq> Inr v" for v
    by (auto simp: b(2) be_download_def local_download_Inr fs_read_def)
  from registered_backend_misses_container [OF _ b(1) q [unfolded b'] p c u [unfolded u']] none
  show ?thesis using b(1) q b' u u' by (auto simp: demo_storage_def)
qed

end
