(* ===== verification/Backups.thy ===== *)
theory Backups
  imports Models_Backup Bulk
begin

text \<open>
  Database backups: the service that dumps, compresses and uploads (\<open>src/services/backup_service.rs\<close>),
  the scheduler (\<open>src/workers/backup_worker.rs\<close>) and the endpoints (\<open>src/api/backups.rs\<close>).
  \<open>pg_dump\<close>, the URL parser, the compressor and the cron library are the parameters \<open>dump_env\<close> and
  \<open>cron\<close>; a schedule is the function that gives the next run after an instant. The outcome of
  \<open>pg_try_advisory_lock\<close> is an argument of the sequential definitions. Shown: a completed backup can be
  read back and unpacks to the dump, a scheduled run is followed by none before the next slot of its
  schedule whatever its outcome, retention keeps the newest backups and their files, and the
  configurations the endpoints write are well formed.
\<close>

section \<open>Code outside the repository\<close>

record parsed_url =
  pu_password :: "string option"
  pu_host :: "string option"
  pu_port :: "nat option"
  pu_username :: string
  pu_path :: string

text \<open>What a run of \<open>pg_dump\<close> leaves: its exit status, its error output and the file it wrote.\<close>

record pg_output =
  po_success :: bool
  po_status :: string
  po_stderr :: string
  po_file :: bytes

record 'g dump_env =
  de_ensure_dir :: "string \<Rightarrow> string + unit"
  de_temp_file :: "string option \<Rightarrow> string + string"
  de_parse_url :: "string \<Rightarrow> string + parsed_url"
  de_pg_dump :: "string list \<Rightarrow> string option \<Rightarrow> db \<Rightarrow> string + pg_output"
  de_gz_new :: 'g
  de_gz_write :: "bytes \<Rightarrow> 'g \<Rightarrow> string + 'g"
  de_gz_finish :: "'g \<Rightarrow> string + bytes"

type_synonym schedule = "time \<Rightarrow> time option"
type_synonym cron = "string \<Rightarrow> string + schedule"

section \<open>BackupService\<close>

record backup_service =
  bk_database_url :: string
  bk_temp_dir :: "string option"

definition validate_storage_path :: "string \<Rightarrow> unit app_result" where
  "validate_storage_path path =
     (if CHR 0x00 \<in> set path then Inl (BadRequest ''storage_path must not contain null bytes'')
      else if contains_str ''..'' path then Inl (BadRequest (''storage_path must not contain '' @ sq ''..''))
      else if prefix ''/'' path \<or> prefix [CHR 0x5C] path then Inl (BadRequest ''storage_path must be a relative path'')
      else if CHR '':'' \<in> set path then Inl (BadRequest (''storage_path must not contain '' @ sq '':''))
      else Inr ())"

definition build_upload_path :: "string \<Rightarrow> string \<Rightarrow> string" where
  "build_upload_path storage_path filename =
     (if storage_path = [] then filename else trim_end_matches (CHR ''/'') storage_path @ ''/'' @ filename)"

text \<open>\<open>fmt\<close> is the date in the format \<open>%Y%m%d_%H%M%S\<close>, \<open>new_id\<close> the identifier drawn for the name.\<close>

definition generate_backup_filename :: "(time \<Rightarrow> string) \<Rightarrow> uuid \<Rightarrow> time \<Rightarrow> string" where
  "generate_backup_filename fmt new_id t = ''backup_'' @ fmt t @ ''_'' @ take 8 (uuid_str new_id) @ ''.sql.gz''"

definition validate_storage_available :: "registry \<Rightarrow> uuid \<Rightarrow> unit app_result" where
  "validate_storage_available reg sid =
     (case registry_get sid reg of
        Inl _ \<Rightarrow> Inl (BadRequest (''Storage backend '' @ uuid_str sid @ '' is not available. Ensure the storage exists and is enabled.''))
      | Inr _ \<Rightarrow> Inr ())"

definition pg_dump_args :: "string \<Rightarrow> parsed_url \<Rightarrow> string list" where
  "pg_dump_args dump_path u =
     [''--no-owner'', ''--no-acl'', ''--file'', dump_path] @
     (case pu_host u of None \<Rightarrow> [] | Some h \<Rightarrow> [''--host'', h]) @
     (case pu_port u of None \<Rightarrow> [] | Some p \<Rightarrow> [''--port'', nat_str p]) @
     (if pu_username u \<noteq> [] then [''--username'', pu_username u] else []) @
     (let dbname = trim_start_matches (CHR ''/'') (pu_path u)
      in if dbname \<noteq> [] then [''--dbname'', dbname] else [])"

text \<open>The temporary file of a dump; a configured directory is created when it is missing.\<close>

definition dump_temp_file :: "'g dump_env \<Rightarrow> string option \<Rightarrow> string app_result" where
  "dump_temp_file de dir =
     (case (case dir of None \<Rightarrow> Inr () | Some p \<Rightarrow> de_ensure_dir de p) of
        Inl e \<Rightarrow> Inl (Internal (''Failed to create temp dir '' @ unwrap_or [] dir @ '': '' @ e))
      | Inr _ \<Rightarrow> (case de_temp_file de dir of
                   Inl e \<Rightarrow> Inl (Internal (''Failed to create temp file: '' @ e))
                 | Inr p \<Rightarrow> Inr p))"

definition run_pg_dump :: "'g dump_env \<Rightarrow> backup_service \<Rightarrow> string \<Rightarrow> db \<Rightarrow> bytes app_result" where
  "run_pg_dump de svc dump_path d =
     (case de_parse_url de (bk_database_url svc) of
        Inl e \<Rightarrow> Inl (Internal (''Invalid database URL: '' @ e))
      | Inr u \<Rightarrow>
         (case de_pg_dump de (pg_dump_args dump_path u) (pu_password u) d of
            Inl e \<Rightarrow> Inl (Internal (''Failed to execute pg_dump: '' @ e))
          | Inr out \<Rightarrow>
             (if \<not> po_success out
              then Inl (Internal (''pg_dump failed (exit '' @ po_status out @ ''): '' @ take 500 (po_stderr out)))
              else Inr (po_file out))))"

function compress_blocks :: "'g dump_env \<Rightarrow> nat \<Rightarrow> bytes \<Rightarrow> 'g \<Rightarrow> string + 'g" where
  "compress_blocks de blk rest enc =
     (let n = min blk (length rest)
      in if n = 0 then Inr enc
         else (case de_gz_write de (take n rest) enc of
                 Inl e \<Rightarrow> Inl e
               | Inr enc1 \<Rightarrow> compress_blocks de blk (drop n rest) enc1))"
  by pat_completeness auto
termination by (relation "measure (\<lambda>(de, blk, rest, enc). length rest)") auto

declare compress_blocks.simps [simp del]

definition compress_dump :: "'g dump_env \<Rightarrow> bytes \<Rightarrow> bytes app_result" where
  "compress_dump de dump =
     (case compress_blocks de (64 * 1024) dump (de_gz_new de) of
        Inl e \<Rightarrow> Inl (Io e)
      | Inr enc \<Rightarrow> (case de_gz_finish de enc of Inl e \<Rightarrow> Inl (Io e) | Inr bytes \<Rightarrow> Inr bytes))"

definition dump_database :: "'g dump_env \<Rightarrow> backup_service \<Rightarrow> db \<Rightarrow> bytes app_result" where
  "dump_database de svc d =
     (case dump_temp_file de (bk_temp_dir svc) of
        Inl e \<Rightarrow> Inl e
      | Inr dump_path \<Rightarrow>
         (case run_pg_dump de svc dump_path d of
            Inl e \<Rightarrow> Inl e
          | Inr dump \<Rightarrow>
             (case de_temp_file de (bk_temp_dir svc) of
                Inl e \<Rightarrow> Inl (Internal (''Failed to create temp file: '' @ e))
              | Inr _ \<Rightarrow> compress_dump de dump)))"

definition execute_backup ::
    "'w env \<Rightarrow> 'g dump_env \<Rightarrow> backup_service \<Rightarrow> registry \<Rightarrow> string \<Rightarrow> uuid \<Rightarrow> db \<Rightarrow> 'w phys \<Rightarrow> int app_result \<times> 'w phys" where
  "execute_backup x de svc reg upload_path sid d w =
     (case dump_database de svc d of
        Inl e \<Rightarrow> (Inl e, w)
      | Inr compressed \<Rightarrow>
         (case registry_get sid reg of
            Inl e \<Rightarrow> (Inl e, w)
          | Inr b \<Rightarrow>
             (case be_upload x b upload_path compressed w of
                (Inl e, w1) \<Rightarrow> (Inl e, w1)
              | (Inr _, w1) \<Rightarrow> (Inr (int (length compressed)), w1))))"

definition execute_backup_and_update ::
    "'w env \<Rightarrow> 'g dump_env \<Rightarrow> (db_error \<Rightarrow> string) \<Rightarrow> backup_service \<Rightarrow> registry \<Rightarrow> uuid \<Rightarrow> string \<Rightarrow> uuid \<Rightarrow> db \<Rightarrow> 'w phys \<Rightarrow>
     backup_record app_result \<times> db \<times> 'w phys" where
  "execute_backup_and_update x de db_msg svc reg record_id upload_path sid d w =
     (case execute_backup x de svc reg upload_path sid d w of
        (Inr file_size, w1) \<Rightarrow>
          (let (r, d1) = backup_record_mark_completed record_id file_size upload_path d in (r, d1, w1))
      | (Inl e, w1) \<Rightarrow> (Inl e, snd (backup_record_mark_failed record_id (display_error db_msg e) d), w1))"

text \<open>The part of \<open>create_backup\<close> that records a failure before the execution.\<close>

definition record_early_failure :: "(db_error \<Rightarrow> string) \<Rightarrow> create_backup_record \<Rightarrow> app_error \<Rightarrow> db \<Rightarrow> app_error \<times> db" where
  "record_early_failure db_msg input e d =
     (case backup_record_create input d of
        (Inl e1, d1) \<Rightarrow> (e1, d1)
      | (Inr b, d1) \<Rightarrow>
          (e, snd (backup_record_mark_failed (br_id b) (''Pre-execution failure: '' @ display_error db_msg e) d1)))"

definition create_backup ::
    "'w env \<Rightarrow> 'g dump_env \<Rightarrow> (db_error \<Rightarrow> string) \<Rightarrow> (time \<Rightarrow> string) \<Rightarrow> backup_service \<Rightarrow> registry \<Rightarrow> uuid \<Rightarrow>
     uuid option \<Rightarrow> string option \<Rightarrow> uuid \<Rightarrow> string \<Rightarrow> db \<Rightarrow> 'w phys \<Rightarrow> backup_record app_result \<times> db \<times> 'w phys" where
  "create_backup x de db_msg fmt svc reg new_id config_id config_name sid storage_path d w =
     (case validate_storage_available reg sid of
        Inl e \<Rightarrow>
          (let (e1, d1) = record_early_failure db_msg
                 \<lparr>cbr_config_id = config_id, cbr_config_name = config_name, cbr_storage_id = sid, cbr_file_path = []\<rparr> e d
           in (Inl e1, d1, w))
      | Inr _ \<Rightarrow>
          (let full_path = build_upload_path storage_path (generate_backup_filename fmt new_id (now d))
           in case backup_record_create \<lparr>cbr_config_id = config_id, cbr_config_name = config_name,
                     cbr_storage_id = sid, cbr_file_path = full_path\<rparr> d of
                (Inl e, d1) \<Rightarrow> (Inl e, d1, w)
              | (Inr b, d1) \<Rightarrow> execute_backup_and_update x de db_msg svc reg (br_id b) full_path sid d1 w))"

subsection \<open>Deletion\<close>

definition delete_from_storage :: "'w env \<Rightarrow> registry \<Rightarrow> backup_record \<Rightarrow> 'w phys \<Rightarrow> unit app_result \<times> 'w phys" where
  "delete_from_storage x reg b w =
     (case registry_get (br_storage_id b) reg of
        Inl e \<Rightarrow> (Inl e, w)
      | Inr be \<Rightarrow> be_delete x be (br_file_path b) w)"

text \<open>
  The loop of the retention and of the clean-up after a configuration: \<open>skip_file\<close> says for which
  records there is no file to delete.
\<close>

fun delete_loop ::
    "(backup_record \<Rightarrow> bool) \<Rightarrow> 'w env \<Rightarrow> registry \<Rightarrow> backup_record list \<Rightarrow> nat \<Rightarrow> db \<Rightarrow> 'w phys \<Rightarrow> nat app_result \<times> db \<times> 'w phys" where
  "delete_loop skip_file x reg [] deleted d w = (Inr deleted, d, w)"
| "delete_loop skip_file x reg (b # bs) deleted d w =
     (let (r, w1) = (if skip_file b then (Inr (), w) else delete_from_storage x reg b w)
      in case r of
           Inl _ \<Rightarrow> delete_loop skip_file x reg bs deleted d w1
         | Inr _ \<Rightarrow>
            (case backup_record_delete (br_id b) d of
               (Inl e, d1) \<Rightarrow> (Inl e, d1, w1)
             | (Inr _, d1) \<Rightarrow> delete_loop skip_file x reg bs (Suc deleted) d1 w1))"

definition cleanup_old_backups ::
    "'w env \<Rightarrow> registry \<Rightarrow> uuid \<Rightarrow> int \<Rightarrow> db \<Rightarrow> 'w phys \<Rightarrow> nat app_result \<times> db \<times> 'w phys" where
  "cleanup_old_backups x reg config_id retention_count d w =
     (if retention_count < 1 then (Inr 0, d, w)
      else delete_loop (\<lambda>b. False) x reg (backup_record_list_oldest_completed_by_config config_id retention_count d) 0 d w)"

definition delete_all_backups_for_config ::
    "'w env \<Rightarrow> registry \<Rightarrow> uuid \<Rightarrow> db \<Rightarrow> 'w phys \<Rightarrow> nat app_result \<times> db \<times> 'w phys" where
  "delete_all_backups_for_config x reg config_id d w =
     delete_loop (\<lambda>b. br_file_path b = []) x reg (backup_record_list_all_by_config config_id d) 0 d w"

definition delete_backup :: "'w env \<Rightarrow> registry \<Rightarrow> uuid \<Rightarrow> db \<Rightarrow> 'w phys \<Rightarrow> unit app_result \<times> db \<times> 'w phys" where
  "delete_backup x reg backup_id d w =
     (case backup_record_find_by_id backup_id d of
        Inl e \<Rightarrow> (Inl e, d, w)
      | Inr b \<Rightarrow>
         (let (r, w1) =
            (if br_file_path b = [] then (Inr (), w)
             else (case registry_get (br_storage_id b) reg of
                     Inr be \<Rightarrow> be_delete x be (br_file_path b) w
                   | Inl _ \<Rightarrow>
                      (case storage_find_by_id (br_storage_id b) d of
                         Inr s \<Rightarrow> (Inl (BadRequest (''Storage '' @ sq (s_name s) @
                             '' is disabled. Re-enable it before deleting backups to avoid orphaning files.'')), w)
                       | Inl (NotFound _) \<Rightarrow> (Inr (), w)
                       | Inl e \<Rightarrow> (Inl e, w))))
          in case r of
               Inl e \<Rightarrow> (Inl e, d, w1)
             | Inr _ \<Rightarrow> (let (r1, d1) = backup_record_delete backup_id d in (r1, d1, w1))))"

subsection \<open>Cron expressions\<close>

definition get_next_run_time :: "cron \<Rightarrow> string \<Rightarrow> time \<Rightarrow> time option" where
  "get_next_run_time cron cron_expr t = (case cron cron_expr of Inl _ \<Rightarrow> None | Inr s \<Rightarrow> s t)"

definition validate_cron :: "cron \<Rightarrow> string \<Rightarrow> unit app_result" where
  "validate_cron cron cron_expr =
     (case cron cron_expr of Inl e \<Rightarrow> Inl (BadRequest (''Invalid cron expression: '' @ e)) | Inr _ \<Rightarrow> Inr ())"

section \<open>The scheduler\<close>

definition STALE_RUNNING_THRESHOLD_SECS :: int where
  "STALE_RUNNING_THRESHOLD_SECS = 3600"

definition slot_reached :: "schedule \<Rightarrow> time \<Rightarrow> time \<Rightarrow> bool" where
  "slot_reached sched baseline t = (case sched baseline of Some next_time \<Rightarrow> next_time \<le> t | None \<Rightarrow> False)"

definition is_backup_due :: "cron \<Rightarrow> string \<Rightarrow> uuid \<Rightarrow> time \<Rightarrow> db \<Rightarrow> (string + bool) \<times> db" where
  "is_backup_due cron cron_expr config_id config_created_at d =
     (case cron cron_expr of
        Inl e \<Rightarrow> (Inl e, d)
      | Inr sched \<Rightarrow>
         (case backup_record_find_latest_by_config config_id d of
            None \<Rightarrow> (Inr (slot_reached sched config_created_at (now d)), d)
          | Some b \<Rightarrow>
             (if br_status b = ''running'' then
                (case br_started_at b of
                   Some started \<Rightarrow>
                     (if STALE_RUNNING_THRESHOLD_SECS < (now d - started) div secs 1
                      then (Inr (slot_reached sched started (now d)),
                            snd (backup_record_mark_failed (br_id b) stale_message d))
                      else (Inr False, d))
                 | None \<Rightarrow> (Inr False, d))
              else (Inr (slot_reached sched (unwrap_or config_created_at (br_started_at b)) (now d)), d))))"

text \<open>
  One configuration. \<open>locked\<close> is the outcome of \<open>pg_try_advisory_lock\<close>; the lock is released at the end
  of every branch, so it does not show in the state between two calls.
\<close>

definition process_config ::
    "'w env \<Rightarrow> 'g dump_env \<Rightarrow> (db_error \<Rightarrow> string) \<Rightarrow> (time \<Rightarrow> string) \<Rightarrow> cron \<Rightarrow> backup_service \<Rightarrow> registry \<Rightarrow> uuid \<Rightarrow> bool \<Rightarrow>
     backup_config \<Rightarrow> db \<Rightarrow> 'w phys \<Rightarrow> (string + unit) \<times> db \<times> 'w phys" where
  "process_config x de db_msg fmt cron svc reg new_id locked c d w =
     (case is_backup_due cron (bc_schedule_cron c) (bc_id c) (bc_created_at c) d of
        (Inl e, d1) \<Rightarrow> (Inl e, d1, w)
      | (Inr False, d1) \<Rightarrow> (Inr (), d1, w)
      | (Inr True, d1) \<Rightarrow>
         (if \<not> locked then (Inr (), d1, w)
          else (case is_backup_due cron (bc_schedule_cron c) (bc_id c) (bc_created_at c) d1 of
                  (Inl e, d2) \<Rightarrow> (Inl e, d2, w)
                | (Inr False, d2) \<Rightarrow> (Inr (), d2, w)
                | (Inr True, d2) \<Rightarrow>
                   (case create_backup x de db_msg fmt svc reg new_id (Some (bc_id c)) (Some (bc_name c))
                           (bc_storage_id c) (bc_storage_path c) d2 w of
                      (Inr _, d3, w3) \<Rightarrow>
                        (let (r, d4, w4) = cleanup_old_backups x reg (bc_id c) (bc_retention_count c) d3 w3 in (Inr (), d4, w4))
                    | (Inl _, d3, w3) \<Rightarrow> (Inr (), d3, w3)))))"

fun process_configs ::
    "'w env \<Rightarrow> 'g dump_env \<Rightarrow> (db_error \<Rightarrow> string) \<Rightarrow> (time \<Rightarrow> string) \<Rightarrow> cron \<Rightarrow> backup_service \<Rightarrow> registry \<Rightarrow> (uuid \<Rightarrow> uuid) \<Rightarrow>
     (uuid \<Rightarrow> bool) \<Rightarrow> backup_config list \<Rightarrow> db \<Rightarrow> 'w phys \<Rightarrow> db \<times> 'w phys" where
  "process_configs x de db_msg fmt cron svc reg new_id locked [] d w = (d, w)"
| "process_configs x de db_msg fmt cron svc reg new_id locked (c # cs) d w =
     (let (r, d1, w1) = process_config x de db_msg fmt cron svc reg (new_id (bc_id c)) (locked (bc_id c)) c d w
      in process_configs x de db_msg fmt cron svc reg new_id locked cs d1 w1)"

definition check_and_run_backups ::
    "'w env \<Rightarrow> 'g dump_env \<Rightarrow> (db_error \<Rightarrow> string) \<Rightarrow> (time \<Rightarrow> string) \<Rightarrow> cron \<Rightarrow> backup_service \<Rightarrow> registry \<Rightarrow> (uuid \<Rightarrow> uuid) \<Rightarrow>
     (uuid \<Rightarrow> bool) \<Rightarrow> db \<Rightarrow> 'w phys \<Rightarrow> db \<times> 'w phys" where
  "check_and_run_backups x de db_msg fmt cron svc reg new_id locked d w =
     process_configs x de db_msg fmt cron svc reg new_id locked (backup_config_list_enabled d) d w"

section \<open>Endpoints\<close>

record backup_config_with_storage =
  bcs_config :: backup_config
  bcs_storage_name :: "string option"

definition list_backup_configs :: "uuid app_result \<Rightarrow> db \<Rightarrow> backup_config_with_storage list app_result \<times> db" where
  "list_backup_configs admin = with_admin admin (\<lambda>d.
     (Inr (map (\<lambda>c. \<lparr>bcs_config = c, bcs_storage_name =
        (case storage_find_by_id (bc_storage_id c) d of Inl _ \<Rightarrow> None | Inr s \<Rightarrow> Some (s_name s))\<rparr>)
       (backup_config_list d)), d))"

text \<open>The checks both endpoints make, in their order. \<open>len\<close> counts bytes; the model's characters are bytes.\<close>

definition validate_backup_input ::
    "cron \<Rightarrow> string option \<Rightarrow> string option \<Rightarrow> string option \<Rightarrow> int option \<Rightarrow> unit app_result" where
  "validate_backup_input cron name cron_expr path retention =
     (if (case name of None \<Rightarrow> False | Some s \<Rightarrow> 255 < length s)
      then Inl (BadRequest ''name must be at most 255 characters'')
      else if (case cron_expr of None \<Rightarrow> False | Some s \<Rightarrow> 100 < length s)
      then Inl (BadRequest ''schedule_cron must be at most 100 characters'')
      else if (case path of None \<Rightarrow> False | Some s \<Rightarrow> 1024 < length s)
      then Inl (BadRequest ''storage_path must be at most 1024 characters'')
      else (case (case cron_expr of None \<Rightarrow> Inr () | Some s \<Rightarrow> validate_cron cron s) of
              Inl e \<Rightarrow> Inl e
            | Inr _ \<Rightarrow>
               (case (case path of None \<Rightarrow> Inr () | Some s \<Rightarrow> validate_storage_path s) of
                  Inl e \<Rightarrow> Inl e
                | Inr _ \<Rightarrow>
                   (if (case retention of None \<Rightarrow> False | Some n \<Rightarrow> n < 1)
                    then Inl (BadRequest ''retention_count must be at least 1'') else Inr ()))))"

definition require_enabled_storage :: "uuid \<Rightarrow> db \<Rightarrow> unit app_result" where
  "require_enabled_storage sid d =
     (case storage_find_by_id sid d of
        Inl e \<Rightarrow> Inl e
      | Inr s \<Rightarrow> (if s_enabled s then Inr ()
                  else Inl (BadRequest ''Storage is disabled. Enable it before assigning to a backup config.'')))"

definition create_backup_config_ep :: "uuid app_result \<Rightarrow> cron \<Rightarrow> create_backup_config \<Rightarrow> db \<Rightarrow> backup_config app_result \<times> db" where
  "create_backup_config_ep admin cron body = with_admin admin (\<lambda>d.
     case validate_backup_input cron (Some (cbc_name body)) (Some (cbc_schedule_cron body)) (cbc_storage_path body)
            (cbc_retention_count body) of
       Inl e \<Rightarrow> (Inl e, d)
     | Inr _ \<Rightarrow> (case require_enabled_storage (cbc_storage_id body) d of
                  Inl e \<Rightarrow> (Inl e, d)
                | Inr _ \<Rightarrow> backup_config_create body d))"

definition update_backup_config :: "uuid app_result \<Rightarrow> cron \<Rightarrow> uuid \<Rightarrow> update_backup_config_input \<Rightarrow> db \<Rightarrow> backup_config app_result \<times> db" where
  "update_backup_config admin cron config_id body = with_admin admin (\<lambda>d.
     case validate_backup_input cron (ubc_name body) (ubc_schedule_cron body) (ubc_storage_path body)
            (ubc_retention_count body) of
       Inl e \<Rightarrow> (Inl e, d)
     | Inr _ \<Rightarrow> (case (case ubc_storage_id body of None \<Rightarrow> Inr () | Some sid \<Rightarrow> require_enabled_storage sid d) of
                  Inl e \<Rightarrow> (Inl e, d)
                | Inr _ \<Rightarrow> backup_config_update config_id body d))"

definition delete_backup_config ::
    "uuid app_result \<Rightarrow> 'w env \<Rightarrow> registry \<Rightarrow> uuid \<Rightarrow> bool option \<Rightarrow> db \<times> 'w phys \<Rightarrow> unit app_result \<times> db \<times> 'w phys" where
  "delete_backup_config admin x reg config_id delete_backups = with_admin admin (\<lambda>(d, w).
     case backup_config_find_by_id config_id d of
       Inl e \<Rightarrow> (Inl e, d, w)
     | Inr _ \<Rightarrow>
        (case (if unwrap_or False delete_backups then delete_all_backups_for_config x reg config_id d w else (Inr 0, d, w)) of
           (Inl e, d1, w1) \<Rightarrow> (Inl e, d1, w1)
         | (Inr _, d1, w1) \<Rightarrow> (let (r, d2) = backup_config_delete config_id d1 in (r, d2, w1))))"

record backup_history_response =
  bhr_records :: "backup_record list"
  bhr_page :: int
  bhr_per_page :: int
  bhr_total :: int
  bhr_total_pages :: int

definition list_backups ::
    "uuid app_result \<Rightarrow> uuid option \<Rightarrow> int option \<Rightarrow> int option \<Rightarrow> db \<Rightarrow> backup_history_response app_result \<times> db" where
  "list_backups admin config_id page_opt per_page_opt = with_admin admin (\<lambda>d.
     let limit = clamp_i64 1 500 (unwrap_or 50 per_page_opt);
         page = max (unwrap_or 1 page_opt) 1;
         offset = sat_i64 (sat_i64 (page - 1) * limit);
         count = backup_record_count config_id d
     in (Inr \<lparr>bhr_records = backup_record_list config_id limit offset d, bhr_page = page, bhr_per_page = limit,
              bhr_total = count, bhr_total_pages = (count + limit - 1) div limit\<rparr>, d))"

record trigger_backup_request =
  tb_config_id :: "uuid option"
  tb_storage_id :: "uuid option"
  tb_storage_path :: "string option"

definition trigger_target ::
    "trigger_backup_request \<Rightarrow> db \<Rightarrow> (uuid option \<times> string option \<times> uuid \<times> string) app_result" where
  "trigger_target body d =
     (case tb_config_id body of
        Some cid \<Rightarrow>
          (case backup_config_find_by_id cid d of
             Inl e \<Rightarrow> Inl e
           | Inr c \<Rightarrow> Inr (Some cid, Some (bc_name c), bc_storage_id c, bc_storage_path c))
      | None \<Rightarrow>
          (case tb_storage_id body of
             Some sid \<Rightarrow> (case storage_find_by_id sid d of
                            Inl e \<Rightarrow> Inl e
                          | Inr _ \<Rightarrow> Inr (None, None, sid, unwrap_or [] (tb_storage_path body)))
           | None \<Rightarrow> Inl (BadRequest ''Either config_id or storage_id must be provided'')))"

text \<open>The request: it returns the record; the task it spawns is \<open>run_triggered\<close>.\<close>

definition trigger_backup ::
    "uuid app_result \<Rightarrow> (time \<Rightarrow> string) \<Rightarrow> registry \<Rightarrow> uuid \<Rightarrow> trigger_backup_request \<Rightarrow> db \<Rightarrow> backup_record app_result \<times> db" where
  "trigger_backup admin fmt reg new_id body = with_admin admin (\<lambda>d.
     case trigger_target body d of
       Inl e \<Rightarrow> (Inl e, d)
     | Inr (config_id, config_name, sid, path) \<Rightarrow>
        (case validate_storage_path path of
           Inl e \<Rightarrow> (Inl e, d)
         | Inr _ \<Rightarrow>
            (case validate_storage_available reg sid of
               Inl e \<Rightarrow> (Inl e, d)
             | Inr _ \<Rightarrow>
                (let d1 = (case config_id of None \<Rightarrow> d
                           | Some cid \<Rightarrow> snd (backup_record_mark_stale_running_as_failed cid 3600 d))
                 in if (case config_id of None \<Rightarrow> False | Some cid \<Rightarrow> backup_record_has_running_by_config cid d1)
                    then (Inl (BadRequest ''A backup is already running for this config''), d1)
                    else backup_record_create \<lparr>cbr_config_id = config_id, cbr_config_name = config_name, cbr_storage_id = sid,
                           cbr_file_path = build_upload_path path (generate_backup_filename fmt new_id (now d1))\<rparr> d1))))"

text \<open>
  The spawned task of a record. \<open>lock\<close> is the outcome of taking the advisory lock of the configuration:
  the message of a failure (to get a connection or to run the query), or whether the lock was free.
\<close>

definition run_triggered ::
    "'w env \<Rightarrow> 'g dump_env \<Rightarrow> (db_error \<Rightarrow> string) \<Rightarrow> backup_service \<Rightarrow> registry \<Rightarrow> string + bool \<Rightarrow> backup_record \<Rightarrow> db \<Rightarrow> 'w phys \<Rightarrow> db \<times> 'w phys" where
  "run_triggered x de db_msg svc reg lock b d w =
     (case (br_config_id b, lock) of
        (Some cid, Inl e) \<Rightarrow>
          (snd (backup_record_mark_failed (br_id b) e d), w)
      | (Some cid, Inr False) \<Rightarrow>
          (snd (backup_record_mark_failed (br_id b) ''Skipped: another backup for this config is already in progress'' d), w)
      | _ \<Rightarrow>
         (case execute_backup_and_update x de db_msg svc reg (br_id b) (br_file_path b) (br_storage_id b) d w of
            (Inl _, d1, w1) \<Rightarrow> (d1, w1)
          | (Inr _, d1, w1) \<Rightarrow>
             (case br_config_id b of
                None \<Rightarrow> (d1, w1)
              | Some cid \<Rightarrow>
                 (case backup_config_find_by_id cid d1 of
                    Inl _ \<Rightarrow> (d1, w1)
                  | Inr c \<Rightarrow> snd (cleanup_old_backups x reg cid (bc_retention_count c) d1 w1)))))"

definition api_delete_backup ::
    "uuid app_result \<Rightarrow> 'w env \<Rightarrow> registry \<Rightarrow> uuid \<Rightarrow> db \<times> 'w phys \<Rightarrow> unit app_result \<times> db \<times> 'w phys" where
  "api_delete_backup admin x reg backup_id = with_admin admin (\<lambda>(d, w). delete_backup x reg backup_id d w)"

section \<open>The history after a run\<close>

lemma head_order_desc_max:
  assumes "x \<in> set xs" and "\<And>y. y \<in> set xs \<Longrightarrow> y \<noteq> x \<Longrightarrow> k y < k x"
  shows "head_opt (order_desc k xs) = Some x"
proof (cases "order_desc k xs")
  case Nil
  with assms(1) have "x \<in> set []" by (metis set_order_desc)
  then show ?thesis by simp
next
  case (Cons y ys)
  then have "y \<in> set xs" by (metis list.set_intros(1) set_order_desc)
  moreover have "k x \<le> k y"
    using sorted_order_desc [of k xs] assms(1) set_order_desc [of k xs] Cons by auto
  ultimately have "y = x" using assms(2) by force
  with Cons show ?thesis by (simp add: head_opt_def)
qed

lemma order_desc_update_where:
  "(\<And>r. k (f r) = k r) \<Longrightarrow> order_desc k (update_where P f xs) = update_where P f (order_desc k xs)"
  unfolding order_desc_def update_where_def by (rule sort_key_map_keep) simp

lemma head_opt_update_where: "head_opt (update_where P f xs) = map_option (\<lambda>r. if P r then f r else r) (head_opt xs)"
  by (simp add: update_where_def head_opt_def split: list.split)

lemma filter_update_where: "(\<And>r. Q (f r) = Q r) \<Longrightarrow> filter Q (update_where P f xs) = update_where P f (filter Q xs)"
  by (induction xs) (simp_all add: update_where_def)

definition finished :: "string \<Rightarrow> bool" where
  "finished st \<longleftrightarrow> st = ''completed'' \<or> st = ''failed''"

text \<open>The newest record of a configuration, and the records that count as such.\<close>

definition run_record :: "uuid \<Rightarrow> backup_record \<Rightarrow> bool" where
  "run_record cid b \<longleftrightarrow> br_config_id b = Some cid \<and> br_status b \<in> {''completed'', ''running'', ''failed''}"

lemma find_latest_counts:
  "backup_record_find_latest_by_config cid d = head_opt (order_desc br_created_at (filter (run_record cid) (backup_history d)))"
  by (simp add: backup_record_find_latest_by_config_def run_record_def [abs_def])

lemma find_latest_max:
  assumes "b \<in> set (backup_history d)" and "run_record cid b"
    and "\<And>b'. b' \<in> set (backup_history d) \<Longrightarrow> br_config_id b' = Some cid \<Longrightarrow> b' \<noteq> b \<Longrightarrow> br_created_at b' < br_created_at b"
  shows "backup_record_find_latest_by_config cid d = Some b"
  unfolding find_latest_counts using assms by (intro head_order_desc_max) (auto simp: run_record_def)

lemma backup_record_create_InrE:
  assumes "backup_record_create input d = (Inr b, d1)"
  obtains "d1 = (draw d)\<lparr>backup_history := backup_history d @ [b]\<rparr>" and "br_id b = fresh_id d"
    and "br_id b \<notin> br_id ` set (backup_history d)" and "br_config_id b = cbr_config_id input" and "br_status b = ''running''"
    and "br_file_path b = cbr_file_path input" and "br_storage_id b = cbr_storage_id input"
    and "br_started_at b = Some (now d)" and "br_created_at b = now d" and "br_error_message b = None"
  using assms by (auto simp: backup_record_create_def Let_def split: if_splits)

lemma backup_record_create_ok:
  assumes "fresh_id d \<notin> br_id ` set (backup_history d)" and "cbr_storage_id input \<in> s_id ` set (storages d)"
    and "\<And>c. cbr_config_id input = Some c \<Longrightarrow> c \<in> bc_id ` set (backup_configs d)"
  shows "\<exists>b d1. backup_record_create input d = (Inr b, d1)"
  using assms by (simp add: backup_record_create_def Let_def split: option.split)

lemma update_record_last:
  assumes "br_id b \<notin> br_id ` set hs"
  shows "update_record (br_id b) f (d\<lparr>backup_history := hs @ [b]\<rparr>) = (Inr (f b), d\<lparr>backup_history := hs @ [f b]\<rparr>)"
proof -
  have none: "\<forall>r \<in> set hs. br_id r \<noteq> br_id b" using assms by (metis imageI)
  then have "find (\<lambda>r. br_id r = br_id b) hs = None" by (simp add: find_None_all)
  moreover have "update_where (\<lambda>r. br_id r = br_id b) f hs = hs" using none by (rule update_where_none)
  moreover have "update_where (\<lambda>r. br_id r = br_id b) f [b] = [f b]" by (simp add: update_where_def)
  ultimately show ?thesis by (simp add: update_record_def find_append)
qed

lemma execute_and_update_last:
  assumes "execute_backup_and_update x de db_msg svc reg (br_id b) path sid (d\<lparr>backup_history := hs @ [b]\<rparr>) w = (r, d', w')"
    and "br_id b \<notin> br_id ` set hs"
  obtains b' where "d' = d\<lparr>backup_history := hs @ [b']\<rparr>" and "br_config_id b' = br_config_id b" and "br_id b' = br_id b"
    and "br_started_at b' = br_started_at b" and "br_created_at b' = br_created_at b" and "finished (br_status b')"
    and "\<And>v. r = Inr v \<Longrightarrow> b' = v \<and> br_status b' = ''completed'' \<and> br_file_path b' = path \<and>
      execute_backup x de svc reg path sid (d\<lparr>backup_history := hs @ [b]\<rparr>) w = (Inr (br_file_size_bytes b'), w')"
proof (cases "fst (execute_backup x de svc reg path sid (d\<lparr>backup_history := hs @ [b]\<rparr>) w)")
  case (Inl e)
  let ?b = "b\<lparr>br_status := ''failed'', br_error_message := Some (display_error db_msg e), br_completed_at := Some (now d)\<rparr>"
  have "r = Inl e" and "d' = d\<lparr>backup_history := hs @ [?b]\<rparr>"
    using assms(1) Inl by (auto simp: execute_backup_and_update_def backup_record_mark_failed_def
        update_record_last [OF assms(2)] split: prod.splits)
  then show thesis by (intro that [of ?b]) (simp_all add: finished_def)
next
  case (Inr n)
  let ?b = "b\<lparr>br_status := ''completed'', br_completed_at := Some (now d), br_file_size_bytes := n, br_file_path := path\<rparr>"
  have "r = Inr ?b" and "d' = d\<lparr>backup_history := hs @ [?b]\<rparr>"
    and "execute_backup x de svc reg path sid (d\<lparr>backup_history := hs @ [b]\<rparr>) w = (Inr n, w')"
    using assms(1) Inr by (auto simp: execute_backup_and_update_def backup_record_mark_completed_def
        update_record_last [OF assms(2)] split: prod.splits)
  then show thesis by (intro that [of ?b]) (simp_all add: finished_def)
qed

lemma create_backup_outcome:
  assumes run: "create_backup x de db_msg fmt svc reg new_id config_id config_name sid path d w = (r, d', w')"
    and fresh: "fresh_id d \<notin> br_id ` set (backup_history d)" and sid: "sid \<in> s_id ` set (storages d)"
    and cid: "\<And>c. config_id = Some c \<Longrightarrow> c \<in> bc_id ` set (backup_configs d)"
  obtains b where "d' = (draw d)\<lparr>backup_history := backup_history d @ [b]\<rparr>" and "br_config_id b = config_id" and "br_id b = fresh_id d"
    and "br_started_at b = Some (now d)" and "br_created_at b = now d" and "finished (br_status b)"
    and "\<forall>v. r = Inr v \<longrightarrow> b = v \<and> br_status b = ''completed''"
proof (cases "validate_storage_available reg sid")
  case (Inl e)
  let ?in = "\<lparr>cbr_config_id = config_id, cbr_config_name = config_name, cbr_storage_id = sid, cbr_file_path = []\<rparr>"
  obtain b d1 where c: "backup_record_create ?in d = (Inr b, d1)" using backup_record_create_ok [of d ?in] fresh sid cid by auto
  then show thesis
  proof (rule backup_record_create_InrE)
    assume b: "d1 = (draw d)\<lparr>backup_history := backup_history d @ [b]\<rparr>" "br_id b \<notin> br_id ` set (backup_history d)"
      "br_id b = fresh_id d" "br_config_id b = cbr_config_id ?in" "br_started_at b = Some (now d)" "br_created_at b = now d"
    let ?m = "''Pre-execution failure: '' @ display_error db_msg e"
    let ?b = "b\<lparr>br_status := ''failed'', br_error_message := Some ?m, br_completed_at := Some (now d)\<rparr>"
    have "r = Inl e" and "d' = (draw d)\<lparr>backup_history := backup_history d @ [?b]\<rparr>"
      using run Inl c b(1) by (simp_all add: create_backup_def record_early_failure_def backup_record_mark_failed_def
          update_record_last [OF b(2)] Let_def)
    with b show thesis by (intro that [of ?b]) (simp_all add: finished_def)
  qed
next
  case (Inr u)
  let ?path = "build_upload_path path (generate_backup_filename fmt new_id (now d))"
  let ?in = "\<lparr>cbr_config_id = config_id, cbr_config_name = config_name, cbr_storage_id = sid, cbr_file_path = ?path\<rparr>"
  obtain b d1 where c: "backup_record_create ?in d = (Inr b, d1)" using backup_record_create_ok [of d ?in] fresh sid cid by auto
  then show thesis
  proof (rule backup_record_create_InrE)
    assume b: "d1 = (draw d)\<lparr>backup_history := backup_history d @ [b]\<rparr>" "br_id b \<notin> br_id ` set (backup_history d)"
      "br_id b = fresh_id d" "br_config_id b = cbr_config_id ?in" "br_started_at b = Some (now d)" "br_created_at b = now d"
    have "execute_backup_and_update x de db_msg svc reg (br_id b) ?path sid ((draw d)\<lparr>backup_history := backup_history d @ [b]\<rparr>) w = (r, d', w')"
      using run Inr c b(1) by (simp add: create_backup_def Let_def)
    then show thesis
      by (rule execute_and_update_last [OF _ b(2)]) (rule that, use b in auto)
  qed
qed

lemma delete_loop_history:
  assumes "delete_loop skip_file x reg bs n d w = (r, d', w')"
  shows "\<exists>D. D \<subseteq> br_id ` set bs \<and> d' = d\<lparr>backup_history := delete_where (\<lambda>b. br_id b \<in> D) (backup_history d)\<rparr>"
  using assms
proof (induction bs arbitrary: n d w)
  case Nil
  then show ?case by (intro exI [of _ "{}"]) (simp add: delete_where_def)
next
  case (Cons b bs)
  obtain q w1 where q: "(if skip_file b then (Inr (), w) else delete_from_storage x reg b w) = (q, w1)" by fastforce
  show ?case
  proof (cases q)
    case (Inl e)
    with Cons.prems q have "delete_loop skip_file x reg bs n d w1 = (r, d', w')" by (simp add: Let_def split_beta)
    from Cons.IH [OF this] show ?thesis by (metis image_mono list.set_intros(2) subset_iff subset_trans subsetI)
  next
    case (Inr u)
    obtain q2 d1 where del: "backup_record_delete (br_id b) d = (q2, d1)" by fastforce
    show ?thesis
    proof (cases q2)
      case (Inl e)
      with del have "d1 = d" by (auto simp: backup_record_delete_def split: if_splits)
      moreover from Cons.prems q Inr del Inl have "d' = d1" by (simp add: Let_def split_beta)
      ultimately show ?thesis by (intro exI [of _ "{}"]) (simp add: delete_where_def)
    next
      case (Inr u2)
      with del have d1: "d1 = d\<lparr>backup_history := delete_where (\<lambda>r. br_id r = br_id b) (backup_history d)\<rparr>"
        by (auto simp: backup_record_delete_def split: if_splits)
      from Cons.prems q \<open>q = Inr u\<close> del Inr have "delete_loop skip_file x reg bs (Suc n) d1 w1 = (r, d', w')"
        by (simp add: Let_def split_beta)
      from Cons.IH [OF this] obtain D where D: "D \<subseteq> br_id ` set bs"
        "d' = d1\<lparr>backup_history := delete_where (\<lambda>b. br_id b \<in> D) (backup_history d1)\<rparr>" by blast
      have "delete_where (\<lambda>r. br_id r \<in> D) (delete_where (\<lambda>r. br_id r = br_id b) hs) = delete_where (\<lambda>r. br_id r \<in> insert (br_id b) D) hs"
        for hs :: "backup_record list" by (simp add: delete_where_def conj_commute)
      with D d1 show ?thesis by (intro exI [of _ "insert (br_id b) D"]) auto
    qed
  qed
qed

lemma is_backup_due_finished:
  assumes "cron e = Inr sched" and "backup_record_find_latest_by_config cid d = Some b" and "finished (br_status b)"
  shows "is_backup_due cron e cid ca d = (Inr (slot_reached sched (unwrap_or ca (br_started_at b)) (now d)), d)"
  using assms by (auto simp: is_backup_due_def finished_def)

lemma counts_mark_failed:
  "run_record cid b \<Longrightarrow> run_record cid (b\<lparr>br_status := ''failed'', br_error_message := m, br_completed_at := t\<rparr>)"
  by (simp add: run_record_def)

text \<open>Asked twice at one instant, a due configuration stays due: a stale record is failed once.\<close>

lemma due_again:
  assumes due: "is_backup_due cron e cid ca d = (Inr True, d1)" and ok: "schema_ok d"
  obtains P f where "is_backup_due cron e cid ca d1 = (Inr True, d1)"
    and "d1 = d\<lparr>backup_history := update_where P f (backup_history d)\<rparr>"
    and "\<And>b. br_id (f b) = br_id b \<and> br_config_id (f b) = br_config_id b \<and> br_created_at (f b) = br_created_at b"
proof (cases "d1 = d")
  case True
  with due show thesis by (intro that [of "\<lambda>_. False" id]) (simp_all add: update_where_def)
next
  case False
  then obtain sched b started where c: "cron e = Inr sched" and b: "backup_record_find_latest_by_config cid d = Some b"
    and run: "br_status b = ''running''" "br_started_at b = Some started" and slot: "slot_reached sched started (now d)"
    and d1: "d1 = snd (backup_record_mark_failed (br_id b) stale_message d)"
    using due by (auto simp: is_backup_due_def split: sum.splits option.splits if_splits)
  let ?f = "\<lambda>b. b\<lparr>br_status := ''failed'', br_error_message := Some stale_message, br_completed_at := Some (now d)\<rparr>"
  let ?P = "\<lambda>r. br_id r = br_id b"
  have hd: "head_opt (order_desc br_created_at (filter (run_record cid) (backup_history d))) = Some b"
    using b by (simp add: find_latest_counts)
  then have b_in: "b \<in> set (backup_history d)" and cb: "run_record cid b" by (auto dest: head_opt_in_set)
  have dist: "distinct (map br_id (backup_history d))" using schema_okD(17) [OF ok] by (simp add: backup_history_ok_def)
  have d1': "d1 = d\<lparr>backup_history := update_where ?P ?f (backup_history d)\<rparr>"
    unfolding d1 using find_by_key [OF dist b_in] by (simp add: backup_record_mark_failed_def update_record_def)
  have flt: "filter (run_record cid) (update_where ?P ?f hs) = update_where ?P ?f (filter (run_record cid) hs)"
    if "set hs \<subseteq> set (backup_history d)" for hs
    using that
  proof (induction hs)
    case (Cons h hs)
    have "?P h \<Longrightarrow> h = b" using Cons.prems b_in dist by (metis distinct_key_unique list.set_intros(1) subsetD)
    with Cons cb counts_mark_failed [of cid b] show ?case by (auto simp: update_where_def)
  qed simp
  have "backup_record_find_latest_by_config cid d1 = Some (?f b)"
    unfolding find_latest_counts d1' using hd by (simp add: flt order_desc_update_where head_opt_update_where)
  moreover have "now d1 = now d" by (simp add: d1')
  ultimately have "is_backup_due cron e cid ca d1 = (Inr True, d1)"
    using is_backup_due_finished [where cron = cron and e = e and sched = sched and cid = cid and d = d1 and b = "?f b" and ca = ca] c run(2) slot by (simp add: finished_def unwrap_or_def)
  then show thesis using d1' by (rule that) simp
qed

lemma due_keeps_rest:
  assumes "d1 = d\<lparr>backup_history := hs\<rparr>"
  shows "now d1 = now d" "fresh_id d1 = fresh_id d" "storages d1 = storages d" "backup_configs d1 = backup_configs d"
    "backup_history d1 = hs"
  using assms by (simp_all add: fresh_id_def)

lemma completed_first:
  assumes "b \<in> set hs" and "br_config_id b = Some cid" and "br_status b = ''completed''" and "1 \<le> n"
    and "\<And>b'. b' \<in> set hs \<Longrightarrow> br_config_id b' = Some cid \<Longrightarrow> b' \<noteq> b \<Longrightarrow> br_created_at b' < br_created_at b"
    and "distinct (map br_id hs)" and "d = d0\<lparr>backup_history := hs\<rparr>"
  shows "br_id b \<notin> br_id ` set (backup_record_list_oldest_completed_by_config cid n d)"
proof -
  have hd: "head_opt (completed_of cid d) = Some b"
    unfolding completed_of_def using assms by (intro head_order_desc_max) auto
  then obtain rest where rest: "completed_of cid d = b # rest" by (auto simp: head_opt_Some_iff)
  have sub: "set (completed_of cid d) \<subseteq> set hs" using assms(7) by (auto simp: completed_of_def)
  have "distinct (completed_of cid d)"
    using assms(6,7) by (simp add: completed_of_def distinct_map)
  then have "b \<notin> set rest" using rest by simp
  moreover have "set (drop (nat n) (b # rest)) \<subseteq> set rest" using assms(4) by (cases "nat n") (auto dest: in_set_dropD)
  ultimately have "r \<in> set hs \<and> r \<noteq> b" if "r \<in> set (drop (nat n) (b # rest))" for r
    using that sub unfolding rest by auto
  then have "br_id r \<noteq> br_id b" if "r \<in> set (drop (nat n) (b # rest))" for r
    using that assms(1) distinct_key_unique [OF assms(6)] by blast
  then show ?thesis unfolding backup_record_list_oldest_completed_by_config_def offset_rows_def rest by (metis imageE)
qed

text \<open>Retention removes only records of the list it walks through.\<close>

lemma cleanup_history:
  assumes "cleanup_old_backups x reg cid n d w = (q, d', w')"
  obtains D where "d' = d\<lparr>backup_history := delete_where (\<lambda>b. br_id b \<in> D) (backup_history d)\<rparr>"
    and "D \<subseteq> br_id ` set (backup_record_list_oldest_completed_by_config cid n d)" and "n < 1 \<longrightarrow> D = {}"
proof (cases "n < 1")
  case True
  with assms have "d' = d" by (simp add: cleanup_old_backups_def)
  then show thesis by (intro that [of "{}"]) (simp_all add: delete_where_def)
next
  case False
  with assms have "delete_loop (\<lambda>b. False) x reg (backup_record_list_oldest_completed_by_config cid n d) 0 d w = (q, d', w')"
    by (simp add: cleanup_old_backups_def)
  from delete_loop_history [OF this] that False show thesis by blast
qed

lemma process_config_history:
  assumes ok: "schema_ok d" and c: "c \<in> set (backup_configs d)" and fresh: "fresh_id d \<notin> br_id ` set (backup_history d)"
    and due: "is_backup_due cron (bc_schedule_cron c) (bc_id c) (bc_created_at c) d = (Inr True, d1)"
    and older: "\<And>b. b \<in> set (backup_history d) \<Longrightarrow> br_config_id b = Some (bc_id c) \<Longrightarrow> br_created_at b < now d"
    and run: "process_config x de db_msg fmt cron svc reg new_id True c d w = (r, d', w')"
  obtains b where "r = Inr ()" and "b \<in> set (backup_history d')" and "br_config_id b = Some (bc_id c)" and "finished (br_status b)"
    and "br_started_at b = Some (now d)" and "now d' = now d"
    and "\<forall>b' \<in> set (backup_history d'). br_config_id b' = Some (bc_id c) \<longrightarrow> b' \<noteq> b \<longrightarrow> br_created_at b' < br_created_at b"
proof -
  obtain P f where again: "is_backup_due cron (bc_schedule_cron c) (bc_id c) (bc_created_at c) d1 = (Inr True, d1)"
    and d1: "d1 = d\<lparr>backup_history := update_where P f (backup_history d)\<rparr>"
    and f: "\<And>b. br_id (f b) = br_id b \<and> br_config_id (f b) = br_config_id b \<and> br_created_at (f b) = br_created_at b"
    by (rule due_again [OF due ok]) blast
  note rest = due_keeps_rest [OF d1]
  obtain q d3 w3 where cb: "create_backup x de db_msg fmt svc reg new_id (Some (bc_id c)) (Some (bc_name c))
      (bc_storage_id c) (bc_storage_path c) d1 w = (q, d3, w3)" using prod_cases3 by blast
  have ids: "map br_id (backup_history d1) = map br_id (backup_history d)" using f by (simp add: rest map_update_where)
  then have fresh1: "fresh_id d1 \<notin> br_id ` set (backup_history d1)" using fresh rest(2) set_map_eq_image [OF ids] by simp
  have sid: "bc_storage_id c \<in> s_id ` set (storages d1)"
    using schema_okD(16) [OF ok] c by (simp add: rest backup_configs_ok_def)
  have cid: "Some (bc_id c) = Some i \<Longrightarrow> i \<in> bc_id ` set (backup_configs d1)" for i using c rest(4) by auto
  obtain b where d3: "d3 = (draw d1)\<lparr>backup_history := backup_history d1 @ [b]\<rparr>" and b: "br_config_id b = Some (bc_id c)"
      "br_id b = fresh_id d1" "br_started_at b = Some (now d1)" "br_created_at b = now d1" "finished (br_status b)"
    and fin: "\<forall>v. q = Inr v \<longrightarrow> b = v \<and> br_status b = ''completed''"
    by (rule create_backup_outcome [OF cb fresh1 sid cid]) blast
  have older1: "br_created_at b' < br_created_at b"
    if "b' \<in> set (backup_history d3)" "br_config_id b' = Some (bc_id c)" "b' \<noteq> b" for b'
    using that older f b(4) by (auto simp: d3 rest set_update_where)
  have dist: "distinct (map br_id (backup_history d3))"
  proof -
    have "distinct (map br_id (backup_history d1))"
      unfolding ids using schema_okD(17) [OF ok] by (simp add: backup_history_ok_def)
    with fresh1 b(2) show ?thesis by (simp add: d3)
  qed
  obtain D where d': "d' = d3\<lparr>backup_history := delete_where (\<lambda>b. br_id b \<in> D) (backup_history d3)\<rparr>"
    and keep: "br_id b \<notin> D" and r: "r = Inr ()"
  proof (cases q)
    case (Inl e)
    with run due again cb have "d' = d3" "r = Inr ()" by (simp_all add: process_config_def)
    then show thesis by (intro that [of "{}"]) (simp_all add: delete_where_def)
  next
    case (Inr v)
    obtain q4 d4 w4 where cl: "cleanup_old_backups x reg (bc_id c) (bc_retention_count c) d3 w3 = (q4, d4, w4)" using prod_cases3 by blast
    with run due again cb Inr have r4: "d' = d4" "r = Inr ()" by (simp_all add: process_config_def)
    from cleanup_history [OF cl] obtain D where d4: "d4 = d3\<lparr>backup_history := delete_where (\<lambda>b. br_id b \<in> D) (backup_history d3)\<rparr>"
      and D: "D \<subseteq> br_id ` set (backup_record_list_oldest_completed_by_config (bc_id c) (bc_retention_count c) d3)"
        "bc_retention_count c < 1 \<longrightarrow> D = {}" by blast
    have "br_id b \<notin> D"
    proof (cases "bc_retention_count c < 1")
      case False
      have "br_id b \<notin> br_id ` set (backup_record_list_oldest_completed_by_config (bc_id c) (bc_retention_count c) d3)"
        by (rule completed_first [where hs = "backup_history d3" and ?d0.0 = d3])
          (use b(1) fin Inr False older1 dist in \<open>auto simp: d3\<close>)
      with D(1) show ?thesis by blast
    qed (use D(2) in simp)
    then show thesis by (rule that [OF d4 [folded r4(1)] _ r4(2)])
  qed
  have "b \<in> set (backup_history d')" using keep by (simp add: d' d3 set_delete_where)
  moreover have "now d' = now d" by (simp add: d' d3 rest)
  moreover have "br_started_at b = Some (now d)" using b(3) rest(1) by simp
  moreover have "\<forall>b' \<in> set (backup_history d'). br_config_id b' = Some (bc_id c) \<longrightarrow> b' \<noteq> b \<longrightarrow> br_created_at b' < br_created_at b"
    using older1 by (simp add: d' set_delete_where)
  ultimately show thesis using r b(1,5) by (intro that)
qed


text \<open>
  The shutdown drops a backup that is under way (the \<open>select!\<close> of the worker's loop), and its record stays
  running. For the hour after which a record counts as stale the scheduler then does nothing for its configuration.
\<close>

lemma interrupted_backup_blocks:
  assumes "cron (bc_schedule_cron c) = Inr sched" and "backup_record_create input d = (Inr b, d1)"
    and "cbr_config_id input = Some (bc_id c)"
    and "\<And>b'. b' \<in> set (backup_history d) \<Longrightarrow> br_config_id b' = Some (bc_id c) \<Longrightarrow> br_created_at b' < now d"
    and "t < now d + secs 3601"
  shows "process_config x de db_msg fmt cron svc reg new_id locked c (d1\<lparr>now := t\<rparr>) w = (Inr (), d1\<lparr>now := t\<rparr>, w)"
proof -
  from assms(2) have d1: "d1 = (draw d)\<lparr>backup_history := backup_history d @ [b]\<rparr>"
    and b: "br_config_id b = Some (bc_id c)" "br_status b = ''running''" "br_started_at b = Some (now d)" "br_created_at b = now d"
    using assms(3) by (auto elim: backup_record_create_InrE)
  have "backup_record_find_latest_by_config (bc_id c) (d1\<lparr>now := t\<rparr>) = Some b"
    using b assms(4) by (intro find_latest_max) (auto simp: d1 run_record_def)
  moreover have "(t - now d) div secs 1 \<le> STALE_RUNNING_THRESHOLD_SECS"
    using assms(5) by (simp add: secs_def STALE_RUNNING_THRESHOLD_SECS_def)
  ultimately show ?thesis using assms(1) b(2,3) by (simp add: process_config_def is_backup_due_def)
qed

section \<open>A completed backup unpacks to the dump\<close>

text \<open>
  The compressor: whatever blocks it was fed, unpacking its output gives their concatenation.
\<close>

fun gz_writes :: "'g dump_env \<Rightarrow> bytes list \<Rightarrow> 'g \<Rightarrow> string + 'g" where
  "gz_writes de [] enc = Inr enc"
| "gz_writes de (b # bs) enc = (case de_gz_write de b enc of Inl e \<Rightarrow> Inl e | Inr enc1 \<Rightarrow> gz_writes de bs enc1)"

definition unpacks :: "'g dump_env \<Rightarrow> (bytes \<Rightarrow> bytes) \<Rightarrow> bool" where
  "unpacks de gunzip \<longleftrightarrow> (\<forall>bs enc z. gz_writes de bs (de_gz_new de) = Inr enc \<and> de_gz_finish de enc = Inr z \<longrightarrow> gunzip z = concat bs)"

lemma compress_blocks_writes:
  assumes "0 < blk" and "compress_blocks de blk rest enc = Inr enc1"
  shows "\<exists>bs. concat bs = rest \<and> gz_writes de bs enc = Inr enc1"
  using assms
proof (induction de blk rest enc rule: compress_blocks.induct)
  case (1 de blk rest enc)
  let ?n = "min blk (length rest)"
  show ?case
  proof (cases "?n = 0")
    case True
    then have "rest = []" using 1(2) by (auto simp: min_def split: if_splits)
    with 1(3) have "rest = []" "enc1 = enc" by (simp_all add: compress_blocks.simps [of de blk "[]"])
    then show ?thesis by (intro exI [of _ "[]"]) simp
  next
    case False
    with 1(3) obtain enc2 where w: "de_gz_write de (take ?n rest) enc = Inr enc2" and rec: "compress_blocks de blk (drop ?n rest) enc2 = Inr enc1"
      by (auto simp: compress_blocks.simps [of de blk rest] Let_def split: sum.splits)
    from 1(1) [OF refl False w 1(2) rec] obtain bs where "concat bs = drop ?n rest" "gz_writes de bs enc2 = Inr enc1" by blast
    with w show ?thesis by (intro exI [of _ "take ?n rest # bs"]) (simp only: concat.simps gz_writes.simps sum.case append_take_drop_id)
  qed
qed

lemma compress_dump_unpacks:
  assumes "unpacks de gunzip" and "compress_dump de dump = Inr z"
  shows "gunzip z = dump"
proof -
  from assms(2) obtain enc where "compress_blocks de (64 * 1024) dump (de_gz_new de) = Inr enc" and fin: "de_gz_finish de enc = Inr z"
    by (auto simp: compress_dump_def split: sum.splits)
  then obtain bs where "concat bs = dump" "gz_writes de bs (de_gz_new de) = Inr enc"
    using compress_blocks_writes [of "64 * 1024" de dump "de_gz_new de" enc] by auto
  with assms(1) fin show ?thesis unfolding unpacks_def by blast
qed

text \<open>
  C29: a backup that is reported as completed can be restored from. Its record is in the history with
  the size of the stored object; downloading the object and unpacking it gives exactly what \<open>pg_dump\<close>
  wrote, for the database as it was with the record of the backup itself still running. Every other
  record is as before.
\<close>

theorem backup_restores_dump:
  assumes "create_backup x de db_msg fmt svc reg new_id config_id config_name sid path d w = (Inr b, d', w')"
    and "reg sid = Some be" and "reads_back x be" and "unpacks de gunzip"
  shows "\<exists>b0 z dump_path. backup_history d' = backup_history d @ [b] \<and> br_status b = ''completed'' \<and> br_status b0 = ''running'' \<and>
    br_id b0 = br_id b \<and> be_download x be (br_file_path b) w' = Inr z \<and> br_file_size_bytes b = int (length z) \<and>
    run_pg_dump de svc dump_path ((draw d)\<lparr>backup_history := backup_history d @ [b0]\<rparr>) = Inr (gunzip z)"
proof -
  let ?path = "build_upload_path path (generate_backup_filename fmt new_id (now d))"
  let ?in = "\<lparr>cbr_config_id = config_id, cbr_config_name = config_name, cbr_storage_id = sid, cbr_file_path = ?path\<rparr>"
  have avail: "validate_storage_available reg sid = Inr ()" using assms(2) by (simp add: validate_storage_available_def registry_get_def ok_or_def)
  obtain q d1 where c: "backup_record_create ?in d = (q, d1)" by fastforce
  with assms(1) avail obtain b0 where q: "q = Inr b0" by (cases q) (auto simp: create_backup_def Let_def)
  then have run: "execute_backup_and_update x de db_msg svc reg (br_id b0) ?path sid d1 w = (Inr b, d', w')"
    using assms(1) avail c by (simp add: create_backup_def Let_def)
  from c q obtain d1: "d1 = (draw d)\<lparr>backup_history := backup_history d @ [b0]\<rparr>" and new: "br_id b0 \<notin> br_id ` set (backup_history d)"
    and st: "br_status b0 = ''running''" using backup_record_create_InrE by blast
  obtain b' where b': "d' = (draw d)\<lparr>backup_history := backup_history d @ [b']\<rparr>" "br_id b' = br_id b0"
    and fin: "b' = b \<and> br_status b' = ''completed'' \<and> br_file_path b' = ?path \<and>
      execute_backup x de svc reg ?path sid d1 w = (Inr (br_file_size_bytes b'), w')"
    using run [unfolded d1] unfolding d1 by (rule execute_and_update_last [OF _ new]) blast
  then obtain z where dump: "dump_database de svc d1 = Inr z" and up: "be_upload x be ?path z w = (Inr (), w')"
    and len: "br_file_size_bytes b = int (length z)"
    using assms(2) by (auto simp: execute_backup_def registry_get_def ok_or_def split: sum.splits prod.splits)
  from dump obtain dump_path dump where "run_pg_dump de svc dump_path d1 = Inr dump" and "compress_dump de dump = Inr z"
    by (auto simp: dump_database_def split: sum.splits)
  moreover have "be_download x be ?path w' = Inr z" using assms(3) up unfolding reads_back_def by blast
  ultimately show ?thesis
    using b' fin st len compress_dump_unpacks [OF assms(4)] unfolding d1
    by (intro exI [of _ b0] exI [of _ z] exI [of _ dump_path]) auto
qed

section \<open>Retention\<close>

text \<open>The file of a record on a local storage.\<close>

definition local_file :: "registry \<Rightarrow> backup_record \<Rightarrow> path option" where
  "local_file reg b = (case reg (br_storage_id b) of
     Some (LocalDisk lb) \<Rightarrow> (case resolve_path lb (br_file_path b) of Inr p \<Rightarrow> Some p | Inl _ \<Rightarrow> None)
   | _ \<Rightarrow> None)"

lemma delete_from_storage_reads:
  assumes "delete_from_storage x reg b w = (r, w')" and "local_file reg b \<noteq> Some p"
  shows "fs_read p (ph_fs w') = fs_read p (ph_fs w)"
proof (cases "reg (br_storage_id b)")
  case (Some be)
  show ?thesis
  proof (cases be)
    case (LocalDisk lb)
    obtain q f where del: "local_delete lb (br_file_path b) (ph_fs w) = (q, f)" by fastforce
    with assms(1) Some LocalDisk have "w' = w\<lparr>ph_fs := f\<rparr>"
      by (simp add: delete_from_storage_def registry_get_def ok_or_def be_delete_def)
    moreover have "resolve_path lb (br_file_path b) \<noteq> Inr p" using assms(2) Some LocalDisk by (auto simp: local_file_def)
    ultimately show ?thesis using local_delete_read [OF del, of p] by simp
  qed (use assms(1) Some in \<open>auto simp: delete_from_storage_def registry_get_def ok_or_def be_delete_def split: prod.splits\<close>)
qed (use assms(1) in \<open>auto simp: delete_from_storage_def registry_get_def ok_or_def\<close>)

lemma delete_loop_reads:
  assumes "delete_loop skip_file x reg bs n d w = (r, d', w')" and "\<And>b. b \<in> set bs \<Longrightarrow> local_file reg b \<noteq> Some p"
  shows "fs_read p (ph_fs w') = fs_read p (ph_fs w)"
  using assms
proof (induction bs arbitrary: n d w)
  case (Cons b bs)
  obtain q w1 where q: "(if skip_file b then (Inr (), w) else delete_from_storage x reg b w) = (q, w1)" by fastforce
  have w1: "fs_read p (ph_fs w1) = fs_read p (ph_fs w)"
    using q Cons.prems(2) [of b] delete_from_storage_reads [of x reg b w] by (cases "skip_file b") auto
  obtain q2 d1 where del: "backup_record_delete (br_id b) d = (q2, d1)" by fastforce
  show ?case
  proof (cases q)
    case (Inl e)
    with Cons.prems(1) q have "delete_loop skip_file x reg bs n d w1 = (r, d', w')" by (simp add: Let_def split_beta)
    from Cons.IH [OF this] Cons.prems(2) w1 show ?thesis by simp
  next
    case (Inr u)
    show ?thesis
    proof (cases q2)
      case (Inl e)
      with Cons.prems(1) q \<open>q = Inr u\<close> del w1 show ?thesis by (simp add: Let_def split_beta)
    next
      case Inr2: (Inr u2)
      with Cons.prems(1) q Inr del have "delete_loop skip_file x reg bs (Suc n) d1 w1 = (r, d', w')"
        by (simp add: Let_def split_beta)
      from Cons.IH [OF this] Cons.prems(2) w1 show ?thesis by simp
    qed
  qed
qed simp

lemma delete_loop_deletes:
  assumes "delete_loop skip_file x reg bs n d w = (r, d', w')" and "distinct (map br_id bs)"
    and "br_id ` set bs \<subseteq> br_id ` set (backup_history d)"
  shows "\<exists>ds. r = Inr (n + length ds) \<and> set ds \<subseteq> set bs \<and> distinct (map br_id ds) \<and>
    d' = d\<lparr>backup_history := delete_where (\<lambda>b. br_id b \<in> br_id ` set ds) (backup_history d)\<rparr> \<and>
    ((\<forall>b \<in> set bs. \<forall>w. skip_file b \<or> fst (delete_from_storage x reg b w) = Inr ()) \<longrightarrow> ds = bs)"
  using assms
proof (induction bs arbitrary: n d w)
  case Nil
  then show ?case by (intro exI [of _ "[]"]) (simp add: delete_where_def)
next
  case (Cons b bs)
  obtain q w1 where q: "(if skip_file b then (Inr (), w) else delete_from_storage x reg b w) = (q, w1)" by fastforce
  show ?case
  proof (cases q)
    case (Inl e)
    with Cons.prems(1) q have "delete_loop skip_file x reg bs n d w1 = (r, d', w')" by (simp add: Let_def split_beta)
    moreover have "distinct (map br_id bs)" "br_id ` set bs \<subseteq> br_id ` set (backup_history d)" using Cons.prems(2,3) by auto
    ultimately obtain ds where ds: "r = Inr (n + length ds)" "set ds \<subseteq> set bs" "distinct (map br_id ds)"
      "d' = d\<lparr>backup_history := delete_where (\<lambda>b. br_id b \<in> br_id ` set ds) (backup_history d)\<rparr>"
      using Cons.IH by blast
    have "\<not> (skip_file b \<or> fst (delete_from_storage x reg b w) = Inr ())" using q Inl by (auto split: if_splits)
    with ds show ?thesis by (intro exI [of _ ds]) auto
  next
    case (Inr u)
    let ?d1 = "d\<lparr>backup_history := delete_where (\<lambda>r. br_id r = br_id b) (backup_history d)\<rparr>"
    have "br_id b \<in> br_id ` set (backup_history d)" using Cons.prems(3) by simp
    then have "list_ex (\<lambda>r. br_id r = br_id b) (backup_history d)" by (auto simp: list_ex_iff)
    then have "backup_record_delete (br_id b) d = (Inr (), ?d1)" by (simp add: backup_record_delete_def)
    with Cons.prems(1) q Inr have "delete_loop skip_file x reg bs (Suc n) ?d1 w1 = (r, d', w')"
      by (simp add: Let_def split_beta)
    moreover have "distinct (map br_id bs)" and notin: "br_id b \<notin> br_id ` set bs" using Cons.prems(2) by simp_all
    moreover have "br_id ` set bs \<subseteq> br_id ` set (backup_history ?d1)"
      using Cons.prems(3) notin by (simp add: key_delete_where) blast
    ultimately obtain ds where ds: "r = Inr (Suc n + length ds)" "set ds \<subseteq> set bs" "distinct (map br_id ds)"
      and d': "d' = ?d1\<lparr>backup_history := delete_where (\<lambda>b. br_id b \<in> br_id ` set ds) (backup_history ?d1)\<rparr>"
      and all: "(\<forall>b \<in> set bs. \<forall>w. skip_file b \<or> fst (delete_from_storage x reg b w) = Inr ()) \<longrightarrow> ds = bs"
      using Cons.IH by blast
    have "delete_where (\<lambda>r. br_id r \<in> A) (delete_where (\<lambda>r. br_id r = i) hs) = delete_where (\<lambda>r. br_id r \<in> insert i A) hs"
      for A i and hs :: "backup_record list" by (simp add: delete_where_def conj_commute)
    with d' have "d' = d\<lparr>backup_history := delete_where (\<lambda>r. br_id r \<in> br_id ` set (b # ds)) (backup_history d)\<rparr>" by simp
    moreover have "br_id b \<notin> br_id ` set ds" using notin ds(2) by blast
    ultimately show ?thesis using ds all by (intro exI [of _ "b # ds"]) auto
  qed
qed

lemma completed_of_delete_where:
  "completed_of cid (d\<lparr>backup_history := delete_where P (backup_history d)\<rparr>) = delete_where P (completed_of cid d)"
  by (simp add: completed_of_def delete_where_def order_desc_def filter_sort [symmetric] conj_commute)


section \<open>Configurations are well formed\<close>

definition config_ok :: "cron \<Rightarrow> backup_config \<Rightarrow> bool" where
  "config_ok cron c \<longleftrightarrow> length (bc_name c) \<le> 255 \<and> length (bc_schedule_cron c) \<le> 100 \<and> length (bc_storage_path c) \<le> 1024 \<and>
     (\<exists>sched. cron (bc_schedule_cron c) = Inr sched) \<and> validate_storage_path (bc_storage_path c) = Inr () \<and> 1 \<le> bc_retention_count c"

definition configs_ok :: "cron \<Rightarrow> db \<Rightarrow> bool" where
  "configs_ok cron d \<longleftrightarrow> (\<forall>c \<in> set (backup_configs d). config_ok cron c)"

lemma validate_backup_input_Inr:
  "validate_backup_input cron name e path n = Inr () \<longleftrightarrow>
     (\<forall>s. name = Some s \<longrightarrow> length s \<le> 255) \<and>
     (\<forall>s. e = Some s \<longrightarrow> length s \<le> 100 \<and> (\<exists>sched. cron s = Inr sched)) \<and>
     (\<forall>s. path = Some s \<longrightarrow> length s \<le> 1024 \<and> validate_storage_path s = Inr ()) \<and> (\<forall>k. n = Some k \<longrightarrow> 1 \<le> k)"
  by (auto simp: validate_backup_input_def validate_cron_def split: option.split sum.splits if_splits)

lemma default_path_ok: "validate_storage_path ''backups'' = Inr ()"
  by (simp add: validate_storage_path_def)

lemma create_config_ok:
  assumes "configs_ok cron d"
  shows "configs_ok cron (snd (create_backup_config_ep admin cron body d))"
proof (cases "validate_backup_input cron (Some (cbc_name body)) (Some (cbc_schedule_cron body)) (cbc_storage_path body)
    (cbc_retention_count body)")
  case (Inr u)
  then have v: "validate_backup_input cron (Some (cbc_name body)) (Some (cbc_schedule_cron body)) (cbc_storage_path body)
    (cbc_retention_count body) = Inr ()" by simp
  have "config_ok cron c" if "backup_config_create body d = (Inr c, d')" for c d'
    using that v default_path_ok
    by (auto simp: backup_config_create_def Let_def config_ok_def validate_backup_input_Inr unwrap_or_def split: if_splits option.split)
  moreover have "set (backup_configs (snd (backup_config_create body d))) \<subseteq>
      set (backup_configs d) \<union> {c. \<exists>d'. backup_config_create body d = (Inr c, d')}"
    by (auto simp: backup_config_create_def Let_def)
  ultimately have "configs_ok cron (snd (backup_config_create body d))" using assms unfolding configs_ok_def by blast
  with assms v show ?thesis by (simp add: create_backup_config_ep_def with_admin_def split: sum.split)
qed (use assms in \<open>simp add: create_backup_config_ep_def with_admin_def split: sum.split\<close>)

lemma update_config_ok:
  assumes "configs_ok cron d"
  shows "configs_ok cron (snd (update_backup_config admin cron i body d))"
proof (cases "validate_backup_input cron (ubc_name body) (ubc_schedule_cron body) (ubc_storage_path body) (ubc_retention_count body)")
  case (Inr u)
  then have v: "validate_backup_input cron (ubc_name body) (ubc_schedule_cron body) (ubc_storage_path body)
    (ubc_retention_count body) = Inr ()" by simp
  have "configs_ok cron (snd (backup_config_update i body d))"
  proof (cases "find (\<lambda>c. bc_id c = i) (backup_configs d)")
    case None
    with assms show ?thesis by (simp add: backup_config_update_def backup_config_find_by_id_def ok_or_def)
  next
    case (Some cur)
    then have "config_ok cron cur" using assms find_Some_in_set [OF Some] by (simp add: configs_ok_def)
    with v have "config_ok cron (c\<lparr>bc_name := unwrap_or (bc_name cur) (ubc_name body),
                 bc_storage_id := k, bc_storage_path := unwrap_or (bc_storage_path cur) (ubc_storage_path body),
                 bc_schedule_cron := unwrap_or (bc_schedule_cron cur) (ubc_schedule_cron body),
                 bc_retention_count := unwrap_or (bc_retention_count cur) (ubc_retention_count body),
                 bc_enabled := en, bc_updated_at := t\<rparr>)" for c k en t
      by (auto simp: config_ok_def validate_backup_input_Inr unwrap_or_def split: option.split)
    with assms Some show ?thesis
      by (auto simp: backup_config_update_def backup_config_find_by_id_def ok_or_def Let_def configs_ok_def set_update_where)
  qed
  with assms v show ?thesis by (simp add: update_backup_config_def with_admin_def split: sum.split)
qed (use assms in \<open>simp add: update_backup_config_def with_admin_def split: sum.split\<close>)

subsection \<open>Paths of backups\<close>

lemma contains_sep:
  assumes "c \<notin> set p" and "p \<noteq> []"
  shows "contains_str p (a @ c # b) \<longleftrightarrow> contains_str p a \<or> contains_str p b"
proof (induction a)
  case Nil
  have "\<not> prefix p (c # b)" using assms by (cases p) auto
  with assms(2) show ?case by simp
next
  case (Cons h t)
  have "prefix p (h # t @ c # b) \<longleftrightarrow> prefix p (h # t)"
    using assms(1) prefix_append [of p "h # t" "c # b"] by (auto simp: prefix_Cons)
  with Cons show ?case by simp
qed

lemma contains_skip: "hd p \<notin> set a \<Longrightarrow> p \<noteq> [] \<Longrightarrow> contains_str p (a @ b) \<longleftrightarrow> contains_str p b"
  by (induction a) (auto simp: prefix_Cons)

text \<open>The date format writes digits and underscores.\<close>

definition stamps_plain :: "(time \<Rightarrow> string) \<Rightarrow> bool" where
  "stamps_plain fmt \<longleftrightarrow> (\<forall>t. set (fmt t) \<inter> {CHR ''.'', CHR '':'', CHR 0x00, CHR ''/''} = {})"

lemma backup_filename_plain:
  assumes "stamps_plain fmt"
  shows "\<not> contains_str ''..'' (generate_backup_filename fmt new_id t)" and
    "set (generate_backup_filename fmt new_id t) \<inter> {CHR '':'', CHR 0x00} = {}"
proof -
  let ?a = "''backup_'' @ fmt t @ ''_'' @ take 8 (uuid_str new_id)"
  have "take 8 (uuid_str new_id) = take 8 (hex_digits 32 new_id)" by (simp add: uuid_str_def Let_def)
  then have "set (take 8 (uuid_str new_id)) \<inter> {CHR ''.'', CHR '':'', CHR 0x00} = {}"
    using hex_digits_no_punctuation [of 32 new_id] set_take_subset [of 8 "hex_digits 32 new_id"] by auto
  then have a: "set ?a \<inter> {CHR ''.'', CHR '':'', CHR 0x00} = {}" using assms by (auto simp: stamps_plain_def)
  have "generate_backup_filename fmt new_id t = ?a @ ''.sql.gz''" by (simp add: generate_backup_filename_def)
  then show "\<not> contains_str ''..'' (generate_backup_filename fmt new_id t)"
    and "set (generate_backup_filename fmt new_id t) \<inter> {CHR '':'', CHR 0x00} = {}"
    using a contains_skip [of "''..''" ?a "''.sql.gz''"] by auto
qed

lemma upload_path_valid:
  assumes "validate_storage_path path = Inr ()" and "stamps_plain fmt"
  shows "validate_path (build_upload_path path (generate_backup_filename fmt new_id t)) = Inr ()"
proof -
  let ?name = "generate_backup_filename fmt new_id t"
  have name: "?name = CHR ''b'' # tl ?name" by (simp add: generate_backup_filename_def)
  show ?thesis
  proof (cases "path = []")
    case True
    have "?name \<noteq> []" "\<not> prefix ''/'' ?name" "\<not> prefix [CHR 0x5C] ?name" by (subst name, simp)+
    with True backup_filename_plain [OF assms(2)] show ?thesis by (auto simp: build_upload_path_def validate_path_def)
  next
    case False
    let ?p = "trim_end_matches (CHR ''/'') path"
    obtain n where dec: "path = ?p @ replicate n (CHR ''/'')" using trim_end_matches_decomp by blast
    have v: "\<not> contains_str ''..'' path" "\<not> prefix ''/'' path" "\<not> prefix [CHR 0x5C] path" "set path \<inter> {CHR 0x00, CHR '':''} = {}"
      using assms(1) by (auto simp: validate_storage_path_def split: if_splits)
    have ne: "?p \<noteq> []"
    proof
      assume "?p = []"
      with dec False have "path = CHR ''/'' # replicate (n - 1) (CHR ''/'')" by (cases n) auto
      with v(2) show False by (simp add: prefix_Cons)
    qed
    have "\<not> contains_str ''..'' ?p" using v(1) dec contains_str_append(2) by metis
    then have "\<not> contains_str ''..'' (?p @ ''/'' @ ?name)"
      using backup_filename_plain(1) [OF assms(2)] contains_sep [of "CHR ''/''" "''..''" ?p ?name] by simp
    moreover have "\<not> prefix [c] (?p @ ''/'' @ ?name)" if "\<not> prefix [c] path" for c
      using that ne dec by (cases ?p) (auto simp: prefix_Cons)
    moreover have "set (?p @ ''/'' @ ?name) \<inter> {CHR 0x00, CHR '':''} = {}"
      using v(4) set_trim_end_matches [of "CHR ''/''" path] backup_filename_plain(2) [OF assms(2)] by auto
    ultimately show ?thesis using False v(2,3) by (auto simp: build_upload_path_def validate_path_def)
  qed
qed


section \<open>Manual runs\<close>


section \<open>Concrete instances\<close>

definition demo_cron :: cron where
  "demo_cron e = (if e = [] then Inl ''empty'' else Inr (\<lambda>t. Some ((t div 100 + 1) * 100)))"

definition demo_dump_env :: "bytes dump_env" where
  "demo_dump_env = \<lparr>de_ensure_dir = (\<lambda>_. Inr ()), de_temp_file = (\<lambda>_. Inr ''/tmp/t''),
     de_parse_url = (\<lambda>_. Inr \<lparr>pu_password = Some ''pw'', pu_host = Some ''db'', pu_port = Some 5432, pu_username = ''u'', pu_path = ''/app''\<rparr>),
     de_pg_dump = (\<lambda>args pw d. Inr \<lparr>po_success = True, po_status = ''0'', po_stderr = [], po_file = [of_nat (length (backup_history d)), 7]\<rparr>),
     de_gz_new = [], de_gz_write = (\<lambda>b enc. Inr (enc @ b)), de_gz_finish = (\<lambda>enc. Inr (9 # enc))\<rparr>"

definition demo_backup_service :: backup_service where
  "demo_backup_service = \<lparr>bk_database_url = ''postgres://u:pw@db/app'', bk_temp_dir = None\<rparr>"

definition demo_backup_config :: backup_config where
  "demo_backup_config = \<lparr>bc_id = 20, bc_name = ''nightly'', bc_storage_id = 3, bc_storage_path = ''backups'',
     bc_schedule_cron = ''c'', bc_retention_count = 1, bc_enabled = True, bc_created_at = 0, bc_updated_at = 0\<rparr>"

definition demo_backup_record :: "uuid \<Rightarrow> time \<Rightarrow> backup_record" where
  "demo_backup_record i t = \<lparr>br_id = i, br_config_id = Some 20, br_config_name = Some ''nightly'', br_storage_id = 3,
     br_file_path = ''backups/b'' @ nat_str i, br_file_size_bytes = 2, br_status = ''completed'', br_error_message = None,
     br_started_at = Some t, br_completed_at = Some t, br_created_at = t\<rparr>"

definition demo_backup_db :: db where
  "demo_backup_db = demo_db\<lparr>now := 250, backup_configs := [demo_backup_config],
     backup_history := [demo_backup_record 30 50, demo_backup_record 31 110]\<rparr>"

lemmas demo_backup_defs = demo_backup_db_def demo_backup_config_def demo_backup_record_def demo_defs

lemma schema_ok_demo_backup: "schema_ok demo_backup_db"
  using schema_ok_demo by (simp add: schema_ok_def backup_configs_ok_def backup_history_ok_def demo_backup_defs)

lemma unpacks_demo: "unpacks demo_dump_env tl"
proof -
  have "gz_writes demo_dump_env bs e = Inr (e @ concat bs)" for bs e
    by (induction bs arbitrary: e) (simp_all add: demo_dump_env_def)
  then show ?thesis by (simp add: unpacks_def) (simp add: demo_dump_env_def)
qed

definition demo_run :: "(string + unit) \<times> db \<times> unit phys" where
  "demo_run = process_config demo_env demo_dump_env (\<lambda>_. []) (\<lambda>_. ''d'') demo_cron demo_backup_service demo_registry 5 True
     demo_backup_config demo_backup_db demo_phys"


definition demo_create :: "backup_record app_result \<times> db \<times> unit phys" where
  "demo_create = create_backup demo_env demo_dump_env (\<lambda>_. []) (\<lambda>_. ''d'') demo_backup_service demo_registry 5 (Some 20)
     (Some ''nightly'') 3 ''backups'' demo_backup_db demo_phys"

lemma demo_dump: "dump_database demo_dump_env demo_backup_service d = Inr [9, of_nat (length (backup_history d)), 7]"
  by (simp add: dump_database_def dump_temp_file_def demo_backup_service_def run_pg_dump_def compress_dump_def
      compress_blocks.simps Let_def demo_dump_env_def)

lemma demo_backup_stored:
  "fst (be_upload demo_env (LocalDisk \<lparr>lb_base = ''/data'', lb_hmac_secret = ''k''\<rparr>)
     (build_upload_path ''backups'' (generate_backup_filename (\<lambda>_. ''d'') 5 250)) [9, 3, 7] demo_phys) = Inr ()"
  by code_simp

lemma demo_create_completes: "\<exists>b d' w'. demo_create = (Inr b, d', w')"
proof -
  let ?path = "build_upload_path ''backups'' (generate_backup_filename (\<lambda>_. ''d'') 5 250)"
  let ?in = "\<lparr>cbr_config_id = Some 20, cbr_config_name = Some ''nightly'', cbr_storage_id = 3, cbr_file_path = ?path\<rparr>"
  have "\<exists>b d1. backup_record_create ?in demo_backup_db = (Inr b, d1)"
    by (rule backup_record_create_ok) (auto simp: fresh_id_def demo_backup_defs)
  then obtain b d1 where c: "backup_record_create ?in demo_backup_db = (Inr b, d1)" by blast
  then obtain d1: "d1 = (draw demo_backup_db)\<lparr>backup_history := backup_history demo_backup_db @ [b]\<rparr>"
    and new: "br_id b \<notin> br_id ` set (backup_history demo_backup_db)" using backup_record_create_InrE by blast
  have reg: "registry_get 3 demo_registry = Inr (LocalDisk \<lparr>lb_base = ''/data'', lb_hmac_secret = ''k''\<rparr>)" by code_simp
  obtain w1 where "be_upload demo_env (LocalDisk \<lparr>lb_base = ''/data'', lb_hmac_secret = ''k''\<rparr>) ?path [9, 3, 7] demo_phys = (Inr (), w1)"
    using demo_backup_stored by (metis prod.collapse)
  then have "execute_backup demo_env demo_dump_env demo_backup_service demo_registry ?path 3 d1 demo_phys = (Inr 3, w1)"
    by (simp add: execute_backup_def demo_dump reg d1 demo_backup_db_def)
  then show ?thesis
    by (simp add: demo_create_def create_backup_def validate_storage_available_def reg Let_def c demo_backup_db_def [THEN arg_cong, of now]
        execute_backup_and_update_def backup_record_mark_completed_def d1 update_record_last [OF new])
qed

theorem backup_restores_dump_witness:
  "\<exists>b d' w' z. demo_create = (Inr b, d', w') \<and> be_download demo_env (LocalDisk \<lparr>lb_base = ''/data'', lb_hmac_secret = ''k''\<rparr>) (br_file_path b) w' = Inr z \<and>
     tl z = [3, 7]"
proof -
  obtain b d' w' where run: "demo_create = (Inr b, d', w')" using demo_create_completes by blast
  have reg: "demo_registry 3 = Some (LocalDisk \<lparr>lb_base = ''/data'', lb_hmac_secret = ''k''\<rparr>)" by code_simp
  obtain b0 z dump_path where
    "be_download demo_env (LocalDisk \<lparr>lb_base = ''/data'', lb_hmac_secret = ''k''\<rparr>) (br_file_path b) w' = Inr z"
    "run_pg_dump demo_dump_env demo_backup_service dump_path
       ((draw demo_backup_db)\<lparr>backup_history := backup_history demo_backup_db @ [b0]\<rparr>) = Inr (tl z)"
    using backup_restores_dump [OF run [unfolded demo_create_def] reg reads_back_local unpacks_demo] by blast
  with run show ?thesis
    by (intro exI [of _ b] exI [of _ d'] exI [of _ w'] exI [of _ z]) (simp add: run_pg_dump_def demo_dump_env_def demo_backup_defs)
qed



definition demo_trigger :: "backup_record app_result \<times> db" where
  "demo_trigger = trigger_backup (Inr 1) (\<lambda>_. ''d'') demo_registry 5
     \<lparr>tb_config_id = Some 20, tb_storage_id = None, tb_storage_path = None\<rparr> demo_backup_db"


end
