(* ===== verification/Models_Link.thy ===== *)
theory Models_Link
  imports Models_File Models_User Crypto
begin

text \<open>
  Shared links and the log of file accesses (\<open>src/db/models.rs\<close>: \<open>SharedLink\<close> and \<open>FileAccessEvent\<close>).
  Random bytes (the token of a link, the salt of a password hash) are arguments. Shown: the schema
  constraints are kept, and the counter of a link never passes its limit.
\<close>

section \<open>SharedLink\<close>

definition password_protected :: "shared_link \<Rightarrow> bool" where
  "password_protected l \<longleftrightarrow> sl_password_hash l \<noteq> None"

record create_shared_link_row =
  csl_file_id :: uuid
  csl_project_id :: uuid
  csl_original_name :: string
  csl_created_by :: uuid
  csl_password :: "string option"
  csl_expires_at :: "time option"
  csl_max_downloads :: "int option"

definition generate_token :: "crypto \<Rightarrow> bytes \<Rightarrow> string" where
  "generate_token c random_bytes = cx_b64url c random_bytes"

definition hash_link_password :: "crypto \<Rightarrow> bytes \<Rightarrow> string option \<Rightarrow> string option app_result" where
  "hash_link_password c salt password =
     (case password of
        None \<Rightarrow> Inr None
      | Some pw \<Rightarrow> (case cx_hash_password c salt pw of
                      Inl e \<Rightarrow> Inl (Internal (''Password hashing failed: '' @ e))
                    | Inr h \<Rightarrow> Inr (Some h)))"

definition shared_link_create ::
    "crypto \<Rightarrow> bytes \<Rightarrow> bytes \<Rightarrow> create_shared_link_row \<Rightarrow> db \<Rightarrow> shared_link app_result \<times> db" where
  "shared_link_create c rnd salt input d =
     (case hash_link_password c salt (csl_password input) of
        Inl e \<Rightarrow> (Inl e, d)
      | Inr h \<Rightarrow>
         (let row = \<lparr>sl_id = fresh_id d, sl_token = generate_token c rnd, sl_file_id = csl_file_id input,
                     sl_project_id = csl_project_id input, sl_original_name = csl_original_name input,
                     sl_created_by = csl_created_by input, sl_password_hash = h,
                     sl_expires_at = csl_expires_at input, sl_max_downloads = csl_max_downloads input,
                     sl_download_count = 0, sl_last_accessed_at = None, sl_is_active = True, sl_created_at = now d\<rparr>
          in if sl_id row \<in> sl_id ` set (shared_links d) \<or> sl_token row \<in> sl_token ` set (shared_links d)
             then (Inl (Database UniqueViolation), draw d)
             else if sl_file_id row \<notin> f_id ` set (files d) \<or> sl_project_id row \<notin> p_id ` set (projects d) \<or>
                     sl_created_by row \<notin> u_id ` set (users d)
             then (Inl (Database ForeignKeyViolation), draw d)
             else (Inr row, (draw d)\<lparr>shared_links := shared_links d @ [row]\<rparr>)))"

definition shared_link_find_by_token :: "string \<Rightarrow> db \<Rightarrow> shared_link app_result" where
  "shared_link_find_by_token token d =
     ok_or (NotFound ''Shared link not found'') (find (\<lambda>l. sl_token l = token) (shared_links d))"

definition link_not_found :: "uuid \<Rightarrow> app_error" where
  "link_not_found i = NotFound (''Shared link '' @ uuid_str i @ '' not found'')"

definition shared_link_find_by_id :: "uuid \<Rightarrow> db \<Rightarrow> shared_link app_result" where
  "shared_link_find_by_id i d = ok_or (link_not_found i) (find (\<lambda>l. sl_id l = i) (shared_links d))"

definition shared_link_list_by_project :: "uuid \<Rightarrow> db \<Rightarrow> shared_link list" where
  "shared_link_list_by_project pid d =
     order_desc sl_created_at (filter (\<lambda>l. sl_project_id l = pid) (shared_links d))"

text \<open>The condition of the atomic increment.\<close>

definition below_limit :: "shared_link \<Rightarrow> bool" where
  "below_limit l \<longleftrightarrow> (case sl_max_downloads l of None \<Rightarrow> True | Some m \<Rightarrow> sl_download_count l < m)"

definition increment_download_count :: "uuid \<Rightarrow> db \<Rightarrow> bool \<times> db" where
  "increment_download_count i d =
     (list_ex (\<lambda>l. sl_id l = i \<and> below_limit l) (shared_links d),
      d\<lparr>shared_links := update_where (\<lambda>l. sl_id l = i \<and> below_limit l)
          (\<lambda>l. l\<lparr>sl_download_count := sl_download_count l + 1, sl_last_accessed_at := Some (now d)\<rparr>) (shared_links d)\<rparr>)"

definition shared_link_deactivate :: "uuid \<Rightarrow> db \<Rightarrow> shared_link app_result \<times> db" where
  "shared_link_deactivate i d =
     (case find (\<lambda>l. sl_id l = i) (shared_links d) of
        None \<Rightarrow> (Inl (link_not_found i), d)
      | Some l \<Rightarrow> (Inr (l\<lparr>sl_is_active := False\<rparr>),
          d\<lparr>shared_links := update_where (\<lambda>l. sl_id l = i) (\<lambda>l. l\<lparr>sl_is_active := False\<rparr>) (shared_links d)\<rparr>))"

definition shared_link_delete :: "uuid \<Rightarrow> db \<Rightarrow> unit app_result \<times> db" where
  "shared_link_delete i d =
     (if list_ex (\<lambda>l. sl_id l = i) (shared_links d)
      then (Inr (), d\<lparr>shared_links := delete_where (\<lambda>l. sl_id l = i) (shared_links d)\<rparr>)
      else (Inl (link_not_found i), d))"

definition shared_link_delete_by_user :: "uuid \<Rightarrow> db \<Rightarrow> unit app_result \<times> db" where
  "shared_link_delete_by_user uid d =
     (Inr (), d\<lparr>shared_links := delete_where (\<lambda>l. sl_created_by l = uid) (shared_links d)\<rparr>)"

definition link_verify_password :: "crypto \<Rightarrow> string \<Rightarrow> string \<Rightarrow> bool" where
  "link_verify_password c password h = (if cx_parse_hash c h then cx_verify c password h else False)"

section \<open>FileAccessEvent\<close>

record record_access_event =
  rae_file_id :: uuid
  rae_project_id :: "uuid option"
  rae_storage_id :: "uuid option"
  rae_access_kind :: string
  rae_user_id :: "uuid option"
  rae_bytes :: "int option"

text \<open>A failing insert is logged and forgotten.\<close>

definition access_event_record :: "record_access_event \<Rightarrow> db \<Rightarrow> db" where
  "access_event_record ev d =
     (let row = \<lparr>ev_id = fresh_id d, ev_file_id = rae_file_id ev, ev_project_id = rae_project_id ev,
                 ev_storage_id = rae_storage_id ev, ev_access_kind = rae_access_kind ev,
                 ev_user_id = rae_user_id ev, ev_bytes = rae_bytes ev, ev_created_at = now d\<rparr>
      in if ev_id row \<in> ev_id ` set (file_access_events d) \<or> ev_file_id row \<notin> f_id ` set (files d) \<or>
            (\<exists>s \<in> set_option (ev_storage_id row). s \<notin> s_id ` set (storages d)) \<or>
            (\<exists>u \<in> set_option (ev_user_id row). u \<notin> u_id ` set (users d))
         then draw d
         else (draw d)\<lparr>file_access_events := file_access_events d @ [row]\<rparr>)"

definition access_event_prune_older_than :: "time \<Rightarrow> db \<Rightarrow> int \<times> db" where
  "access_event_prune_older_than cutoff d =
     (count_where (\<lambda>e. ev_created_at e < cutoff) (file_access_events d),
      d\<lparr>file_access_events := delete_where (\<lambda>e. ev_created_at e < cutoff) (file_access_events d)\<rparr>)"

section \<open>The schema constraints are kept\<close>

lemma shared_link_create_schema [schema_intros]:
  "schema_ok d \<Longrightarrow> schema_ok (snd (shared_link_create c rnd salt input d))"
  using schema_okD(13) [of d]
  by (simp add: shared_link_create_def Let_def schema_ok_set_leaf(8) [of "draw d", simplified] shared_links_ok_def
      split: sum.split)

lemma shared_links_ok_update:
  assumes "shared_links_ok fs ps us ls"
    and "\<And>l. sl_id (f l) = sl_id l" "\<And>l. sl_token (f l) = sl_token l" "\<And>l. sl_file_id (f l) = sl_file_id l"
      "\<And>l. sl_project_id (f l) = sl_project_id l" "\<And>l. sl_created_by (f l) = sl_created_by l"
  shows "shared_links_ok fs ps us (update_where P f ls)"
  using assms by (auto simp: shared_links_ok_def map_update_where table_simps)

lemma shared_links_ok_delete: "shared_links_ok fs ps us ls \<Longrightarrow> shared_links_ok fs ps us (delete_where P ls)"
  by (simp add: shared_links_ok_def distinct_map_delete_where table_simps)

lemma shared_link_ops_schema [schema_intros]:
  assumes "schema_ok d"
  shows "schema_ok (snd (increment_download_count i d))" "schema_ok (snd (shared_link_deactivate i d))"
    "schema_ok (snd (shared_link_delete i d))" "schema_ok (snd (shared_link_delete_by_user u d))"
  using assms schema_okD(13) [OF assms]
  by (simp_all add: increment_download_count_def shared_link_deactivate_def shared_link_delete_def
      shared_link_delete_by_user_def schema_ok_set_leaf(8) shared_links_ok_update shared_links_ok_delete split: option.split)

lemma access_event_record_schema [schema_intros]:
  assumes "schema_ok d"
  shows "schema_ok (access_event_record ev d)"
proof -
  have "access_events_ok (files d) (storages d) (users d) (file_access_events d)" by (rule schema_okD(15) [OF assms])
  with assms show ?thesis
    by (auto simp: access_event_record_def Let_def access_events_ok_def
        intro!: schema_ok_set_leaf(10) [of "draw d", simplified])
qed

lemma access_events_ok_delete: "access_events_ok fs ss us evs \<Longrightarrow> access_events_ok fs ss us (delete_where P evs)"
  unfolding access_events_ok_def table_simps by (blast intro: distinct_map_delete_where)

lemma access_event_prune_schema [schema_intros]:
  "schema_ok d \<Longrightarrow> schema_ok (snd (access_event_prune_older_than t d))"
  using schema_okD(15) [of d]
  by (simp add: access_event_prune_older_than_def schema_ok_set_leaf(10) access_events_ok_delete)

section \<open>The counter\<close>

text \<open>Every link counts between 0 and its limit.\<close>

definition link_count_ok :: "shared_link \<Rightarrow> bool" where
  "link_count_ok l \<longleftrightarrow> 0 \<le> sl_download_count l \<and>
     (\<forall>m. sl_max_downloads l = Some m \<longrightarrow> 0 < m \<longrightarrow> sl_download_count l \<le> m)"

lemma increment_keeps_count_ok:
  "\<forall>l \<in> set (shared_links d). link_count_ok l \<Longrightarrow> \<forall>l \<in> set (shared_links (snd (increment_download_count i d))). link_count_ok l"
  by (auto simp: increment_download_count_def table_simps link_count_ok_def below_limit_def split: option.splits)

lemma increment_download_count_row:
  assumes "shared_links_ok fs ps us (shared_links d)" and "l \<in> set (shared_links d)"
  shows "fst (increment_download_count (sl_id l) d) = below_limit l"
    "below_limit l \<Longrightarrow> l\<lparr>sl_download_count := sl_download_count l + 1, sl_last_accessed_at := Some (now d)\<rparr>
        \<in> set (shared_links (snd (increment_download_count (sl_id l) d)))"
    "\<not> below_limit l \<Longrightarrow> shared_links (snd (increment_download_count (sl_id l) d)) = shared_links d"
proof -
  have uniq: "l' = l" if "l' \<in> set (shared_links d)" "sl_id l' = sl_id l" for l'
    using assms that distinct_key_unique [of sl_id "shared_links d"] by (simp add: shared_links_ok_def)
  show "fst (increment_download_count (sl_id l) d) = below_limit l"
    using assms(2) uniq by (auto simp: increment_download_count_def list_ex_iff)
  show "l\<lparr>sl_download_count := sl_download_count l + 1, sl_last_accessed_at := Some (now d)\<rparr>
        \<in> set (shared_links (snd (increment_download_count (sl_id l) d)))" if "below_limit l"
    using that assms(2) by (auto simp: increment_download_count_def table_simps)
  show "shared_links (snd (increment_download_count (sl_id l) d)) = shared_links d" if "\<not> below_limit l"
    using that uniq by (auto simp: increment_download_count_def intro!: update_where_none)
qed

end
