(* ===== verification/Uploads.thy ===== *)
theory Uploads
  imports File_Service Access Models_Link
begin

text \<open>
  Resumable uploads: the sessions (\<open>src/db/models.rs\<close>, \<open>UploadSession\<close>), the tus endpoints
  (\<open>src/api/uploads.rs\<close>) and the worker that removes what abandoned uploads leave behind
  (\<open>src/workers/upload_cleanup_worker.rs\<close>). Each chunk is appended to a temporary file; when all bytes
  have arrived the file goes to \<open>finalize_upload\<close>. Shown: a run of successful chunks stores exactly their
  concatenation; a chunk is accepted only at the recorded offset; and two defects, the removal of the
  temporary files of live uploads and the growth of a temporary file by a refused chunk.
\<close>

section \<open>UploadSession\<close>

record create_upload_session =
  cus_project_id :: uuid
  cus_user_id :: uuid
  cus_original_name :: string
  cus_content_type :: string
  cus_total_size :: int
  cus_temp_path :: string
  cus_metadata :: json
  cus_expires_at :: time

definition upload_session_create :: "create_upload_session \<Rightarrow> db \<Rightarrow> upload_session app_result \<times> db" where
  "upload_session_create input d =
     (let row = \<lparr>up_sess_id = fresh_id d, up_sess_project_id = cus_project_id input, up_sess_user_id = cus_user_id input,
                 up_sess_original_name = cus_original_name input, up_sess_content_type = cus_content_type input,
                 up_sess_total_size = cus_total_size input, up_sess_offset = 0, up_sess_temp_path = cus_temp_path input,
                 up_sess_metadata = cus_metadata input, up_sess_status = ''in_progress'', up_sess_created_at = now d,
                 up_sess_updated_at = now d, up_sess_expires_at = cus_expires_at input\<rparr>
      in if up_sess_id row \<in> up_sess_id ` set (upload_sessions d)
         then (Inl (Database UniqueViolation), draw d)
         else if up_sess_project_id row \<notin> p_id ` set (projects d) \<or> up_sess_user_id row \<notin> u_id ` set (users d)
         then (Inl (Database ForeignKeyViolation), draw d)
         else (Inr row, (draw d)\<lparr>upload_sessions := upload_sessions d @ [row]\<rparr>))"

definition upload_session_find_by_id :: "uuid \<Rightarrow> db \<Rightarrow> upload_session app_result" where
  "upload_session_find_by_id i d =
     ok_or (NotFound (''Upload session '' @ uuid_str i @ '' not found'')) (find (\<lambda>s. up_sess_id s = i) (upload_sessions d))"

definition upload_session_advance_offset :: "uuid \<Rightarrow> int \<Rightarrow> int \<Rightarrow> db \<Rightarrow> upload_session option \<times> db" where
  "upload_session_advance_offset i expected new d =
     (let P = (\<lambda>s. up_sess_id s = i \<and> up_sess_offset s = expected \<and> up_sess_status s = ''in_progress'');
          upd = (\<lambda>s::upload_session. s\<lparr>up_sess_offset := new, up_sess_updated_at := now d\<rparr>)
      in (map_option upd (find P (upload_sessions d)), d\<lparr>upload_sessions := update_where P upd (upload_sessions d)\<rparr>))"

definition upload_session_mark_status :: "uuid \<Rightarrow> string \<Rightarrow> db \<Rightarrow> unit app_result \<times> db" where
  "upload_session_mark_status i status d =
     (Inr (), d\<lparr>upload_sessions := update_where (\<lambda>s. up_sess_id s = i)
        (\<lambda>s. s\<lparr>up_sess_status := status, up_sess_updated_at := now d\<rparr>) (upload_sessions d)\<rparr>)"

definition upload_session_delete :: "uuid \<Rightarrow> db \<Rightarrow> unit app_result \<times> db" where
  "upload_session_delete i d =
     (Inr (), d\<lparr>upload_sessions := delete_where (\<lambda>s. up_sess_id s = i) (upload_sessions d)\<rparr>)"

definition upload_session_find_expired :: "int \<Rightarrow> db \<Rightarrow> upload_session list" where
  "upload_session_find_expired limit d =
     limit_rows limit (order_asc up_sess_expires_at
       (filter (\<lambda>s. up_sess_expires_at s < now d \<and> up_sess_status s = ''in_progress'') (upload_sessions d)))"

definition terminal_before :: "time \<Rightarrow> upload_session \<Rightarrow> bool" where
  "terminal_before t s \<longleftrightarrow> up_sess_status s \<in> {''completed'', ''aborted''} \<and> up_sess_updated_at s < t"

definition upload_session_prune_terminal :: "time \<Rightarrow> db \<Rightarrow> int \<times> db" where
  "upload_session_prune_terminal older_than d =
     (count_where (terminal_before older_than) (upload_sessions d),
      d\<lparr>upload_sessions := delete_where (terminal_before older_than) (upload_sessions d)\<rparr>)"

section \<open>Request headers\<close>

text \<open>\<open>str::parse::<i64>\<close>.\<close>

definition digit_value :: "char \<Rightarrow> int option" where
  "digit_value c = (let n = of_char c :: nat in if 48 \<le> n \<and> n \<le> 57 then Some (int n - 48) else None)"

fun parse_digits :: "int \<Rightarrow> string \<Rightarrow> int option" where
  "parse_digits acc [] = Some acc"
| "parse_digits acc (c # cs) = (case digit_value c of None \<Rightarrow> None | Some v \<Rightarrow> parse_digits (10 * acc + v) cs)"

definition parse_i64 :: "string \<Rightarrow> int option" where
  "parse_i64 s =
     (let (sign, ds) = (case s of c # cs \<Rightarrow> if c = CHR ''-'' then (-1, cs) else if c = CHR ''+'' then (1, cs) else (1, s)
                        | [] \<Rightarrow> (1, []))
      in if ds = [] then None
         else (case parse_digits 0 ds of
                 None \<Rightarrow> None
               | Some v \<Rightarrow> if is_i64 (sign * v) then Some (sign * v) else None))"

text \<open>\<open>String::from_utf8\<close> accepts exactly the well-formed UTF-8 sequences.\<close>

definition cont_byte :: "nat \<Rightarrow> bool" where
  "cont_byte b \<longleftrightarrow> 0x80 \<le> b \<and> b \<le> 0xBF"

definition second_ok :: "nat \<Rightarrow> nat \<Rightarrow> bool" where
  "second_ok b0 b1 \<longleftrightarrow>
     (if b0 = 0xE0 then 0xA0 \<le> b1 \<and> b1 \<le> 0xBF else if b0 = 0xED then 0x80 \<le> b1 \<and> b1 \<le> 0x9F
      else if b0 = 0xF0 then 0x90 \<le> b1 \<and> b1 \<le> 0xBF else if b0 = 0xF4 then 0x80 \<le> b1 \<and> b1 \<le> 0x8F
      else cont_byte b1)"

fun valid_utf8 :: "nat list \<Rightarrow> bool" where
  "valid_utf8 [] = True"
| "valid_utf8 (b0 # bs) =
     (if b0 < 0x80 then valid_utf8 bs
      else if 0xC2 \<le> b0 \<and> b0 \<le> 0xDF then (case bs of b1 # r \<Rightarrow> cont_byte b1 \<and> valid_utf8 r | _ \<Rightarrow> False)
      else if 0xE0 \<le> b0 \<and> b0 \<le> 0xEF then
        (case bs of b1 # b2 # r \<Rightarrow> second_ok b0 b1 \<and> cont_byte b2 \<and> valid_utf8 r | _ \<Rightarrow> False)
      else if 0xF0 \<le> b0 \<and> b0 \<le> 0xF4 then
        (case bs of b1 # b2 # b3 # r \<Rightarrow> second_ok b0 b1 \<and> cont_byte b2 \<and> cont_byte b3 \<and> valid_utf8 r | _ \<Rightarrow> False)
      else False)"

definition from_utf8 :: "bytes \<Rightarrow> string option" where
  "from_utf8 bs = (if valid_utf8 (map unat bs) then Some (map (\<lambda>b. char_of (unat b)) bs) else None)"

text \<open>\<open>splitn(2, sep)\<close>: the part before the first separator and the rest.\<close>

definition split_first :: "char \<Rightarrow> string \<Rightarrow> string \<times> string" where
  "split_first c s = (takeWhile (\<lambda>x. x \<noteq> c) s, drop 1 (dropWhile (\<lambda>x. x \<noteq> c) s))"

definition tus_pair :: "'w env \<Rightarrow> string \<Rightarrow> (string \<times> string) list \<Rightarrow> (string \<times> string) list" where
  "tus_pair x pair out =
     (let pair = trim pair
      in if pair = [] then out
         else (let (key, val_b64) = split_first (CHR '' '') pair;
                   val = (case x_b64_decode x val_b64 of Inl _ \<Rightarrow> [] | Inr bs \<Rightarrow> unwrap_or [] (from_utf8 bs))
               in if key \<noteq> [] then assoc_set key val out else out))"

definition parse_tus_metadata :: "'w env \<Rightarrow> string \<Rightarrow> (string \<times> string) list" where
  "parse_tus_metadata x raw = fold (tus_pair x) (split_on (CHR '','') raw) []"

definition validate_flat_metadata :: "json \<Rightarrow> unit app_result" where
  "validate_flat_metadata v =
     (case v of
        JObj kvs \<Rightarrow>
          (case find (\<lambda>(k, val). case val of JArr _ \<Rightarrow> True | JObj _ \<Rightarrow> True | _ \<Rightarrow> False) kvs of
             None \<Rightarrow> Inr ()
           | Some (k, _) \<Rightarrow> Inl (BadRequest (''Metadata value for key '' @ sq k @
               '' must be a string, number, boolean, or null; nested objects and arrays are not allowed'')))
      | _ \<Rightarrow> Inl (BadRequest ''Metadata must be a JSON object''))"

section \<open>Endpoints\<close>

record upload_cfg =
  uc_local_temp_path :: string
  uc_session_ttl_secs :: int
  uc_max_file_size :: int

definition path_join :: "string \<Rightarrow> string \<Rightarrow> string" where
  "path_join a b = (if a = [] then b else if last a = CHR ''/'' then a @ b else a @ ''/'' @ b)"

definition uploads_dir :: "string \<Rightarrow> string" where
  "uploads_dir local_temp_path = path_join local_temp_path ''uploads''"

definition temp_path_for :: "string \<Rightarrow> uuid \<Rightarrow> string" where
  "temp_path_for local_temp_path i = path_join (uploads_dir local_temp_path) (uuid_str i @ ''.part'')"

definition require_write :: "authenticated_user \<Rightarrow> uuid \<Rightarrow> db \<Rightarrow> project app_result" where
  "require_write u pid d =
     (case project_find_by_id pid d of
        Inl e \<Rightarrow> Inl e
      | Inr p \<Rightarrow> (case require_project_write_access u p d of Inl e \<Rightarrow> Inl e | Inr _ \<Rightarrow> Inr p))"

definition load_owned_session :: "authenticated_user \<Rightarrow> uuid \<Rightarrow> db \<Rightarrow> upload_session app_result" where
  "load_owned_session u i d =
     (case upload_session_find_by_id i d of
        Inl e \<Rightarrow> Inl e
      | Inr s \<Rightarrow> (if \<not> is_admin u \<and> up_sess_user_id s \<noteq> au_user_id u
                   then Inl (Forbidden ''Access denied: not the upload owner'')
                   else Inr s))"

definition nonempty_or :: "string \<Rightarrow> string option \<Rightarrow> string" where
  "nonempty_or dflt s = (case s of None \<Rightarrow> dflt | Some v \<Rightarrow> if v = [] then dflt else v)"

text \<open>The length of the upload, from its header.\<close>

definition upload_length :: "upload_cfg \<Rightarrow> string option \<Rightarrow> int app_result" where
  "upload_length cfg header =
     (case (case header of None \<Rightarrow> None | Some s \<Rightarrow> parse_i64 s) of
        None \<Rightarrow> Inl (BadRequest ''Missing or invalid Upload-Length'')
      | Some n \<Rightarrow>
         (if n \<le> 0 then Inl (BadRequest ''Upload-Length must be positive'')
          else if 0 < uc_max_file_size cfg \<and> uc_max_file_size cfg < n
          then Inl (BadRequest (''File exceeds maximum allowed size of '' @ int_str (uc_max_file_size cfg) @ '' bytes''))
          else Inr n))"

text \<open>The member \<open>meta\<close> of the metadata header; \<open>from_str\<close> is the JSON parser.\<close>

definition upload_meta :: "(string \<Rightarrow> string + json) \<Rightarrow> (string \<times> string) list \<Rightarrow> json app_result" where
  "upload_meta from_str meta_map =
     (case map_of meta_map ''meta'' of
        Some js \<Rightarrow>
          (if js \<noteq> [] then
             (case from_str js of
                Inl e \<Rightarrow> Inl (BadRequest (''Invalid metadata JSON: '' @ e))
              | Inr v \<Rightarrow> (case validate_flat_metadata v of Inl e \<Rightarrow> Inl e | Inr _ \<Rightarrow> Inr v))
           else Inr (JObj []))
      | None \<Rightarrow> Inr (JObj []))"

definition upload_create ::
    "'w env \<Rightarrow> (string \<Rightarrow> string + json) \<Rightarrow> upload_cfg \<Rightarrow> uuid \<Rightarrow> authenticated_user \<Rightarrow> uuid \<Rightarrow> string option \<Rightarrow>
     string option \<Rightarrow> db \<Rightarrow> 'w phys \<Rightarrow> uuid app_result \<times> db \<times> 'w phys" where
  "upload_create x from_str cfg new_id u pid length_header metadata_header d w =
     (case require_write u pid d of
        Inl e \<Rightarrow> (Inl e, d, w)
      | Inr _ \<Rightarrow>
         (case upload_length cfg length_header of
            Inl e \<Rightarrow> (Inl e, d, w)
          | Inr total_size \<Rightarrow>
             (let meta_map = (case metadata_header of None \<Rightarrow> [] | Some h \<Rightarrow> parse_tus_metadata x h)
              in case upload_meta from_str meta_map of
                   Inl e \<Rightarrow> (Inl e, d, w)
                 | Inr metadata \<Rightarrow>
                    (let temp_path = temp_path_for (uc_local_temp_path cfg) new_id
                     in case create_dir_all (components (uploads_dir (uc_local_temp_path cfg))) (ph_fs w) of
                          None \<Rightarrow> (Inl (Internal ''Failed to create uploads dir''), d, w)
                        | Some f1 \<Rightarrow>
                           (case fs_write (components temp_path) [] f1 of
                              None \<Rightarrow> (Inl (Internal ''Failed to create temp file''), d, w\<lparr>ph_fs := f1\<rparr>)
                            | Some f2 \<Rightarrow>
                               (case upload_session_create
                                       \<lparr>cus_project_id = pid, cus_user_id = au_user_id u,
                                        cus_original_name = nonempty_or ''unnamed'' (map_of meta_map ''filename''),
                                        cus_content_type = nonempty_or ''application/octet-stream'' (map_of meta_map ''filetype''),
                                        cus_total_size = total_size, cus_temp_path = temp_path, cus_metadata = metadata,
                                        cus_expires_at = now d + secs (uc_session_ttl_secs cfg)\<rparr> d of
                                  (Inl e, d1) \<Rightarrow> (Inl e, d1, w\<lparr>ph_fs := f2\<rparr>)
                                | (Inr s, d1) \<Rightarrow> (Inr (up_sess_id s), d1, w\<lparr>ph_fs := f2\<rparr>)))))))"

definition upload_head :: "authenticated_user \<Rightarrow> uuid \<Rightarrow> db \<Rightarrow> (int \<times> int) app_result" where
  "upload_head u i d =
     (case load_owned_session u i d of
        Inl e \<Rightarrow> Inl e
      | Inr s \<Rightarrow> Inr (up_sess_offset s, up_sess_total_size s))"

text \<open>
  The loop over the payload, appending to the open file. A piece of the payload is a read error or a
  chunk of bytes. What was appended before an error stays.
\<close>

fun append_chunks :: "upload_session \<Rightarrow> path \<Rightarrow> int \<Rightarrow> (string + bytes) list \<Rightarrow> fs \<Rightarrow> int app_result \<times> fs" where
  "append_chunks s p written [] f = (Inr written, f)"
| "append_chunks s p written (chunk # chunks) f =
     (case chunk of
        Inl e \<Rightarrow> (Inl (BadRequest (''Payload read error: '' @ e)), f)
      | Inr bs \<Rightarrow>
         (if up_sess_total_size s < up_sess_offset s + written + int (length bs)
          then (Inl (BadRequest ''Chunk exceeds declared Upload-Length''), f)
          else (case fs_read p f of
                  None \<Rightarrow> (Inl (Internal ''Failed to write chunk''), f)
                | Some old \<Rightarrow> append_chunks s p (written + int (length bs)) chunks (fs_put p (Contents (old @ bs)) f))))"

text \<open>\<open>remove_file\<close>, its error ignored.\<close>

definition remove_file :: "path \<Rightarrow> fs \<Rightarrow> fs" where
  "remove_file p f = (if fs_read p f \<noteq> None then fs_del p f else f)"

text \<open>The completion of an upload whose bytes have all arrived.\<close>

definition complete_upload ::
    "'w env \<Rightarrow> bool \<Rightarrow> string \<Rightarrow> registry \<Rightarrow> upload_session \<Rightarrow> db \<Rightarrow> 'w phys \<Rightarrow> unit app_result \<times> db \<times> 'w phys" where
  "complete_upload x rename_ok secret reg s d w =
     (let p = components (up_sess_temp_path s)
      in case finalize_upload x rename_ok secret reg (up_sess_project_id s) (up_sess_original_name s)
               (up_sess_content_type s) p (up_sess_metadata s) d w of
           (Inl e, d1, w1) \<Rightarrow> (Inl e, d1, w1)
         | (Inr _, d1, w1) \<Rightarrow>
             (Inr (), snd (upload_session_mark_status (up_sess_id s) ''completed'' d1), w1\<lparr>ph_fs := remove_file p (ph_fs w1)\<rparr>))"

definition upload_patch ::
    "'w env \<Rightarrow> bool \<Rightarrow> string \<Rightarrow> registry \<Rightarrow> authenticated_user \<Rightarrow> uuid \<Rightarrow> string option \<Rightarrow> (string + bytes) list \<Rightarrow>
     db \<Rightarrow> 'w phys \<Rightarrow> int app_result \<times> db \<times> 'w phys" where
  "upload_patch x rename_ok secret reg u i offset_header payload d w =
     (case load_owned_session u i d of
        Inl e \<Rightarrow> (Inl e, d, w)
      | Inr s \<Rightarrow>
         (if up_sess_status s \<noteq> ''in_progress''
          then (Inl (BadRequest (''Upload session is '' @ up_sess_status s)), d, w)
          else case (case offset_header of None \<Rightarrow> None | Some h \<Rightarrow> parse_i64 h) of
            None \<Rightarrow> (Inl (BadRequest ''Missing or invalid Upload-Offset''), d, w)
          | Some client_offset \<Rightarrow>
             (if client_offset \<noteq> up_sess_offset s
              then (Inl (Conflict (''Upload-Offset '' @ int_str client_offset @ '' does not match server offset '' @
                      int_str (up_sess_offset s))), d, w)
              else (let p = components (up_sess_temp_path s)
                    in if fs_read p (ph_fs w) = None then (Inl (Internal ''Failed to open temp file''), d, w)
                       else case append_chunks s p 0 payload (ph_fs w) of
                         (Inl e, f1) \<Rightarrow> (Inl e, d, w\<lparr>ph_fs := f1\<rparr>)
                       | (Inr written, f1) \<Rightarrow>
                          (let w1 = w\<lparr>ph_fs := f1\<rparr>
                           in case upload_session_advance_offset i (up_sess_offset s) (up_sess_offset s + written) d of
                                (None, d1) \<Rightarrow> (Inl (Conflict ''Concurrent modification of upload session''), d1, w1)
                              | (Some updated, d1) \<Rightarrow>
                                 (if up_sess_total_size updated \<le> up_sess_offset updated
                                  then (case complete_upload x rename_ok secret reg updated d1 w1 of
                                          (Inl e, d2, w2) \<Rightarrow> (Inl e, d2, w2)
                                        | (Inr _, d2, w2) \<Rightarrow> (Inr (up_sess_offset updated), d2, w2))
                                  else (Inr (up_sess_offset updated), d1, w1)))))))"

definition upload_terminate ::
    "authenticated_user \<Rightarrow> uuid \<Rightarrow> db \<Rightarrow> 'w phys \<Rightarrow> unit app_result \<times> db \<times> 'w phys" where
  "upload_terminate u i d w =
     (case load_owned_session u i d of
        Inl e \<Rightarrow> (Inl e, d, w)
      | Inr s \<Rightarrow> (Inr (), snd (upload_session_delete i d),
                    w\<lparr>ph_fs := remove_file (components (up_sess_temp_path s)) (ph_fs w)\<rparr>))"

section \<open>The cleanup worker\<close>

record cleanup_worker =
  cw_uploads_dir :: string
  cw_ttl :: time
  cw_retention :: "time option"

definition cleanup_new :: "string \<Rightarrow> int \<Rightarrow> int \<Rightarrow> cleanup_worker" where
  "cleanup_new local_temp_path ttl_secs retention_days =
     \<lparr>cw_uploads_dir = path_join local_temp_path ''uploads'', cw_ttl = secs (max ttl_secs 60),
      cw_retention = (if retention_days = 0 then None else Some (days retention_days))\<rparr>"

definition sweep_expired :: "db \<Rightarrow> fs \<Rightarrow> db \<times> fs" where
  "sweep_expired d f =
     fold (\<lambda>s (d, f). (snd (upload_session_mark_status (up_sess_id s) ''aborted'' d),
                         remove_file (components (up_sess_temp_path s)) f))
       (upload_session_find_expired 500 d) (d, f)"

definition cleanup_prune_terminal :: "cleanup_worker \<Rightarrow> db \<Rightarrow> db" where
  "cleanup_prune_terminal cw d = snd (upload_session_prune_terminal (now d - cw_ttl cw) d)"

definition prune_access_events :: "cleanup_worker \<Rightarrow> db \<Rightarrow> db" where
  "prune_access_events cw d =
     (case cw_retention cw of None \<Rightarrow> d | Some r \<Rightarrow> snd (access_event_prune_older_than (now d - r) d))"

text \<open>\<open>file_stem\<close> and \<open>extension\<close> of a file name.\<close>

definition stem_extension :: "string \<Rightarrow> string \<times> string option" where
  "stem_extension name =
     (case rsplit_once (CHR ''.'') name of
        None \<Rightarrow> (name, None)
      | Some (stem, ext) \<Rightarrow> if stem = [] then (name, None) else (stem, Some ext))"

definition orphan_entry :: "crypto \<Rightarrow> db \<Rightarrow> string \<Rightarrow> bool" where
  "orphan_entry c d name =
     (let (stem, ext) = stem_extension name
      in if ext \<noteq> Some ''part'' then False
         else (case cx_parse_uuid c stem of
                 None \<Rightarrow> False
               | Some i \<Rightarrow> \<not> (case upload_session_find_by_id i d of
                               Inr s \<Rightarrow> up_sess_status s = ''in_progress''
                             | Inl _ \<Rightarrow> False)))"

definition reconcile_orphans :: "crypto \<Rightarrow> cleanup_worker \<Rightarrow> db \<Rightarrow> fs \<Rightarrow> fs" where
  "reconcile_orphans c cw d f =
     (let dir = components (cw_uploads_dir cw);
          entries = map fst (filter (\<lambda>e. fst e \<noteq> [] \<and> butlast (fst e) = dir) f)
      in if map_of f dir \<noteq> Some Dir then f
         else fold (\<lambda>p f. if orphan_entry c d (last p) then remove_file p f else f) entries f)"

definition sweep :: "crypto \<Rightarrow> cleanup_worker \<Rightarrow> bool \<Rightarrow> db \<Rightarrow> fs \<Rightarrow> db \<times> fs" where
  "sweep c cw locked d f =
     (if \<not> locked then (d, f)
      else (let (d1, f1) = sweep_expired d f;
                d2 = cleanup_prune_terminal cw d1;
                f2 = reconcile_orphans c cw d2 f1
            in (prune_access_events cw d2, f2)))"

section \<open>The schema constraints are kept\<close>

lemma upload_session_create_schema [schema_intros]:
  "schema_ok d \<Longrightarrow> schema_ok (snd (upload_session_create input d))"
  using schema_okD(14) [of d]
  by (simp add: upload_session_create_def Let_def schema_ok_set_leaf(9) [of "draw d", simplified] upload_sessions_ok_def)

lemma upload_sessions_ok_update:
  assumes "upload_sessions_ok ps us ses" and "\<And>s. up_sess_id (f s) = up_sess_id s"
    "\<And>s. up_sess_project_id (f s) = up_sess_project_id s" "\<And>s. up_sess_user_id (f s) = up_sess_user_id s"
  shows "upload_sessions_ok ps us (update_where P f ses)"
  using assms by (auto simp: upload_sessions_ok_def map_update_where table_simps)

lemma upload_sessions_ok_delete: "upload_sessions_ok ps us ses \<Longrightarrow> upload_sessions_ok ps us (delete_where P ses)"
  by (simp add: upload_sessions_ok_def distinct_map_delete_where table_simps)

lemma upload_session_ops_schema [schema_intros]:
  assumes "schema_ok d"
  shows "schema_ok (snd (upload_session_advance_offset i a b d))" "schema_ok (snd (upload_session_mark_status i st d))"
    "schema_ok (snd (upload_session_delete i d))" "schema_ok (snd (upload_session_prune_terminal t d))"
  using assms schema_okD(14) [OF assms]
  by (simp_all add: upload_session_advance_offset_def upload_session_mark_status_def upload_session_delete_def
      upload_session_prune_terminal_def Let_def schema_ok_set_leaf(9) upload_sessions_ok_update upload_sessions_ok_delete)

section \<open>A finished upload\<close>

lemma finalize_upload_InrE:
  assumes "finalize_upload x ro secret reg pid name ct temp meta d w = (Inr res, d', w')" and "fs_read temp (ph_fs w) = Some data"
  obtains fl is_new d1 primary d2 where
    "file_create_or_find \<lparr>cf_hash = compute_sha256 x data, cf_size = int (length data), cf_content_type = ct\<rparr> d = (Inr (fl, is_new), d1)"
    "d2 = d1 \<or> d2 = snd (create_primary_location (f_id fl) (s_id primary) (content_addressed_path (compute_sha256 x data)) d1)"
    "record_references_and_sync reg pid fl is_new primary name meta (storage_list_for_project pid d1) d2 = (Inr res, d')"
proof -
  let ?cf = "\<lparr>cf_hash = compute_sha256 x data, cf_size = int (length data), cf_content_type = ct\<rparr>"
  let ?path = "content_addressed_path (compute_sha256 x data)"
  have h: "hash_file_sha256 x temp (ph_fs w) = Inr (compute_sha256 x data, int (length data))"
    using assms(2) by (simp add: hash_file_sha256_def hash_blocks_all compute_sha256_def)
  obtain r0 d1 where c: "file_create_or_find ?cf d = (r0, d1)" by fastforce
  then obtain fl is_new where r0: "r0 = Inr (fl, is_new)"
    using assms(1) h by (cases r0) (auto simp: finalize_upload_def Let_def)
  let ?ss = "storage_list_for_project pid d1"
  have ne: "?ss \<noteq> []" using assms(1) h c r0 by (auto simp: finalize_upload_def Let_def)
  obtain primary where pr: "find_primary_storage reg ?ss = Inr primary"
    using assms(1) h c r0 ne by (cases "find_primary_storage reg ?ss") (auto simp: finalize_upload_def Let_def)
  have "\<exists>d2. (d2 = d1 \<or> d2 = snd (create_primary_location (f_id fl) (s_id primary) ?path d1)) \<and>
      record_references_and_sync reg pid fl is_new primary name meta ?ss d2 = (Inr res, d')"
    using assms(1) h c r0 ne pr
    by (auto simp: finalize_upload_def Let_def split: if_splits prod.splits sum.splits)
  then show ?thesis using that c r0 by blast
qed

lemma sessions_frame [simp]:
  "upload_sessions (snd (file_create_or_find i d)) = upload_sessions d"
  "upload_sessions (snd (create_primary_location fid sid path d)) = upload_sessions d"
  "upload_sessions (snd (sync_task_create t d)) = upload_sessions d"
  "upload_sessions (snd (file_reference_create r d)) = upload_sessions d"
  by (simp_all add: file_create_or_find_def file_create_def create_primary_location_def file_location_create_def
      sync_task_create_def file_reference_create_def Let_def is_unique_violation_iff split: option.split)

lemma schedule_syncs_sessions [simp]:
  "upload_sessions (snd (schedule_syncs reg fid src pid ex ss d)) = upload_sessions d"
  by (induction ss arbitrary: d; simp add: schedule_syncs_snd del: schedule_syncs.simps(2))

lemma finalize_upload_stores:
  assumes "finalize_upload x ro secret reg pid name ct temp meta d w = (Inr res, d', w')" and "fs_read temp (ph_fs w) = Some data"
  shows "upload_sessions d' = upload_sessions d"
    "\<exists>f \<in> set (files d'). \<exists>r \<in> set (file_references d'). f_hash f = compute_sha256 x data \<and>
       r_file_id r = f_id f \<and> r_project_id r = pid \<and> r_original_name r = name \<and> r_metadata r = meta"
proof -
  from assms obtain fl is_new d1 primary d2 where c:
    "file_create_or_find \<lparr>cf_hash = compute_sha256 x data, cf_size = int (length data), cf_content_type = ct\<rparr> d = (Inr (fl, is_new), d1)"
    and d2: "d2 = d1 \<or> d2 = snd (create_primary_location (f_id fl) (s_id primary) (content_addressed_path (compute_sha256 x data)) d1)"
    and rr: "record_references_and_sync reg pid fl is_new primary name meta (storage_list_for_project pid d1) d2 = (Inr res, d')"
    by (rule finalize_upload_InrE) blast
  from rr obtain ref d3 src where
    fr: "file_reference_create \<lparr>cr_file_id = f_id fl, cr_project_id = pid, cr_original_name = name, cr_metadata = meta\<rparr> d2 = (Inr ref, d3)"
    and sy: "schedule_syncs reg (f_id fl) src pid (l_storage_id ` set (file_location_find_all_for_file (f_id fl) d3))
        (storage_list_for_project pid d1) d3 = (ur_sync_tasks_created res, d')"
    by (rule record_references_and_sync_InrE) blast
  have d': "upload_sessions d' = upload_sessions d3" "files d' = files d3" "file_references d' = file_references d3"
    using schedule_syncs_sessions schedule_syncs_frame(1,5) sy by (metis snd_conv)+
  note ref = file_reference_create_Inr [OF fr]
  have "upload_sessions d2 = upload_sessions d1" "files d2 = files d1" using d2 by auto
  moreover have "upload_sessions d1 = upload_sessions d" using sessions_frame(1) c by (metis snd_conv)
  ultimately show "upload_sessions d' = upload_sessions d" using d' ref by simp
  from c have "fl \<in> set (files d1) \<and> f_hash fl = compute_sha256 x data"
    by (rule file_create_or_find_cases) auto
  then have "fl \<in> set (files d')" "f_hash fl = compute_sha256 x data" using d' ref \<open>files d2 = files d1\<close> by auto
  moreover have "ref \<in> set (file_references d')" using d' ref by simp
  ultimately show "\<exists>f \<in> set (files d'). \<exists>r \<in> set (file_references d'). f_hash f = compute_sha256 x data \<and>
       r_file_id r = f_id f \<and> r_project_id r = pid \<and> r_original_name r = name \<and> r_metadata r = meta"
    using ref by (intro bexI [of _ fl] bexI [of _ ref]) simp_all
qed

section \<open>Chunks\<close>

lemma fs_read_put: "fs_read q (fs_put p n f) = (if q = p then (case n of Contents b \<Rightarrow> Some b | Dir \<Rightarrow> None) else fs_read q f)"
proof -
  have "map_of (filter (\<lambda>x. fst x \<noteq> p) f) q = (if q = p then None else map_of f q)" by (induction f) auto
  then show ?thesis by (auto simp: fs_read_def fs_put_def split: fs_node.split)
qed

lemma append_chunks_Inr:
  assumes "append_chunks s p n payload f = (Inr m, f')" and "fs_read p f = Some old"
  shows "\<exists>bss. payload = map Inr bss \<and> m = n + int (length (concat bss)) \<and> fs_read p f' = Some (old @ concat bss) \<and>
    (up_sess_offset s + n \<le> up_sess_total_size s \<longrightarrow> up_sess_offset s + m \<le> up_sess_total_size s)"
  using assms
proof (induction payload arbitrary: n f old)
  case (Cons c cs)
  then obtain bs where c: "c = Inr bs" and le: "up_sess_offset s + n + int (length bs) \<le> up_sess_total_size s"
    and rest: "append_chunks s p (n + int (length bs)) cs (fs_put p (Contents (old @ bs)) f) = (Inr m, f')"
    by (auto split: sum.splits if_splits)
  have "fs_read p (fs_put p (Contents (old @ bs)) f) = Some (old @ bs)" by (simp add: fs_read_put)
  from Cons.IH [OF rest this] obtain bss where "cs = map Inr bss" "m = n + int (length bs) + int (length (concat bss))"
    "fs_read p f' = Some ((old @ bs) @ concat bss)" "up_sess_offset s + m \<le> up_sess_total_size s" using le by auto
  then show ?case using c by (intro exI [of _ "bs # bss"]) auto
qed (auto intro: exI [of _ "[]"])

lemma load_owned_session_Inr:
  "load_owned_session u i d = Inr s \<Longrightarrow> s \<in> set (upload_sessions d) \<and> up_sess_id s = i"
  using find_Some_in_set [of "\<lambda>s. up_sess_id s = i" "upload_sessions d" s]
  by (auto simp: load_owned_session_def upload_session_find_by_id_def split: sum.splits if_splits)

lemma upload_patch_InrE:
  assumes "upload_patch x ro secret reg u i h payload d w = (Inr off, d', w')"
  obtains s old written f1 upd d1 where "load_owned_session u i d = Inr s" "up_sess_status s = ''in_progress''"
    "fs_read (components (up_sess_temp_path s)) (ph_fs w) = Some old"
    "append_chunks s (components (up_sess_temp_path s)) 0 payload (ph_fs w) = (Inr written, f1)"
    "upload_session_advance_offset i (up_sess_offset s) (up_sess_offset s + written) d = (Some upd, d1)"
    "off = up_sess_offset upd"
    "if up_sess_total_size upd \<le> off then complete_upload x ro secret reg upd d1 (w\<lparr>ph_fs := f1\<rparr>) = (Inr (), d', w')
     else d' = d1 \<and> w' = w\<lparr>ph_fs := f1\<rparr>"
proof -
  obtain s where s: "load_owned_session u i d = Inr s"
    using assms by (cases "load_owned_session u i d") (auto simp: upload_patch_def)
  let ?p = "components (up_sess_temp_path s)"
  have st: "up_sess_status s = ''in_progress''" using assms s by (auto simp: upload_patch_def split: if_splits)
  have cl: "(case h of None \<Rightarrow> None | Some v \<Rightarrow> parse_i64 v) = Some (up_sess_offset s)"
    using assms s st by (cases "case h of None \<Rightarrow> None | Some v \<Rightarrow> parse_i64 v") (auto simp: upload_patch_def split: if_splits)
  obtain old where old: "fs_read ?p (ph_fs w) = Some old"
    using assms s st cl by (cases "fs_read ?p (ph_fs w)") (auto simp: upload_patch_def Let_def)
  obtain r f1 where a: "append_chunks s ?p 0 payload (ph_fs w) = (r, f1)" by fastforce
  then obtain written where r: "r = Inr written"
    using assms s st cl old by (cases r) (auto simp: upload_patch_def Let_def)
  obtain o1 d1 where adv: "upload_session_advance_offset i (up_sess_offset s) (up_sess_offset s + written) d = (o1, d1)" by fastforce
  then obtain upd where o1: "o1 = Some upd"
    using assms s st cl old a r by (cases o1) (auto simp: upload_patch_def Let_def)
  obtain rc d2 w2 where co: "complete_upload x ro secret reg upd d1 (w\<lparr>ph_fs := f1\<rparr>) = (rc, d2, w2)" using prod_cases3 by blast
  note eq = assms [unfolded upload_patch_def s sum.case cl option.case Let_def a [unfolded r] prod.case adv [unfolded o1] co] st old
  have "off = up_sess_offset upd \<and> (if up_sess_total_size upd \<le> off then (rc, d2, w2) = (Inr (), d', w')
     else d' = d1 \<and> w' = w\<lparr>ph_fs := f1\<rparr>)"
    using eq by (cases rc) (auto split: if_splits)
  then show ?thesis using that [OF s st old a [unfolded r] adv [unfolded o1]] co by auto
qed

text \<open>
  An upload under way, with the recorded offset and the contents of its temporary file, and a finished one;
  in the ordinary case the offset is the length of the contents.
\<close>

definition upload_at :: "upload_session \<Rightarrow> int \<Rightarrow> bytes \<Rightarrow> db \<Rightarrow> 'w phys \<Rightarrow> bool" where
  "upload_at s n tmp d w \<longleftrightarrow> schema_ok d \<and> up_sess_status s = ''in_progress'' \<and> n \<le> up_sess_total_size s \<and>
     (\<exists>t. s\<lparr>up_sess_offset := n, up_sess_updated_at := t\<rparr> \<in> set (upload_sessions d)) \<and>
     fs_read (components (up_sess_temp_path s)) (ph_fs w) = Some tmp"

definition upload_finished :: "'w env \<Rightarrow> upload_session \<Rightarrow> int \<Rightarrow> bytes \<Rightarrow> db \<Rightarrow> bool" where
  "upload_finished x s n tmp d \<longleftrightarrow> distinct (map up_sess_id (upload_sessions d)) \<and>
     (\<exists>t. s\<lparr>up_sess_offset := n, up_sess_status := ''completed'', up_sess_updated_at := t\<rparr> \<in> set (upload_sessions d)) \<and>
     (\<exists>f \<in> set (files d). \<exists>r \<in> set (file_references d). f_hash f = compute_sha256 x tmp \<and> r_file_id r = f_id f \<and>
        r_project_id r = up_sess_project_id s \<and> r_original_name r = up_sess_original_name s \<and> r_metadata r = up_sess_metadata s)"

abbreviation upload_open :: "upload_session \<Rightarrow> bytes \<Rightarrow> db \<Rightarrow> 'w phys \<Rightarrow> bool" where
  "upload_open s data d w \<equiv> upload_at s (int (length data)) data d w"

abbreviation upload_done :: "'w env \<Rightarrow> upload_session \<Rightarrow> bytes \<Rightarrow> db \<Rightarrow> bool" where
  "upload_done x s data d \<equiv> upload_finished x s (int (length data)) data d"

lemma session_unique:
  "distinct (map up_sess_id (upload_sessions d)) \<Longrightarrow> load_owned_session u (up_sess_id k) d = Inr s \<Longrightarrow> k \<in> set (upload_sessions d) \<Longrightarrow> s = k"
  by (metis distinct_key_unique load_owned_session_Inr)

lemma advance_offset_row:
  assumes "upload_session_advance_offset (up_sess_id k) (up_sess_offset k) new d = (Some upd, d1)" and "k \<in> set (upload_sessions d)"
    and "distinct (map up_sess_id (upload_sessions d))" and "up_sess_status k = ''in_progress''"
  shows "upd = k\<lparr>up_sess_offset := new, up_sess_updated_at := now d\<rparr>" "upd \<in> set (upload_sessions d1)"
    "map up_sess_id (upload_sessions d1) = map up_sess_id (upload_sessions d)" "files d1 = files d"
proof -
  let ?P = "\<lambda>s. up_sess_id s = up_sess_id k \<and> up_sess_offset s = up_sess_offset k \<and> up_sess_status s = ''in_progress''"
  let ?f = "\<lambda>s::upload_session. s\<lparr>up_sess_offset := new, up_sess_updated_at := now d\<rparr>"
  from assms(1) obtain s where s: "find ?P (upload_sessions d) = Some s" "upd = ?f s"
    and d1: "d1 = d\<lparr>upload_sessions := update_where ?P ?f (upload_sessions d)\<rparr>"
    by (auto simp: upload_session_advance_offset_def Let_def)
  from find_Some_in_set [OF s(1)] have "s = k" using assms(2,3) by (metis distinct_key_unique)
  with s show u: "upd = k\<lparr>up_sess_offset := new, up_sess_updated_at := now d\<rparr>" by simp
  have "?f k \<in> ?f ` {r \<in> set (upload_sessions d). ?P r}" using assms(2,4) by blast
  then show "upd \<in> set (upload_sessions d1)" unfolding u d1 by (simp add: table_simps)
  show "map up_sess_id (upload_sessions d1) = map up_sess_id (upload_sessions d)" "files d1 = files d"
    by (simp_all add: d1 map_update_where)
qed

lemma complete_upload_done:
  assumes "complete_upload x ro secret reg k d w = (Inr (), d', w')" and "fs_read (components (up_sess_temp_path k)) (ph_fs w) = Some tmp"
    and "k \<in> set (upload_sessions d)" and "distinct (map up_sess_id (upload_sessions d))"
  shows "upload_finished x k (up_sess_offset k) tmp d'"
proof -
  obtain r d1 w1 where fin: "finalize_upload x ro secret reg (up_sess_project_id k) (up_sess_original_name k)
      (up_sess_content_type k) (components (up_sess_temp_path k)) (up_sess_metadata k) d w = (r, d1, w1)" using prod_cases3 by blast
  with assms(1) obtain res where r: "r = Inr res" and d': "d' = snd (upload_session_mark_status (up_sess_id k) ''completed'' d1)"
    by (cases r) (auto simp: complete_upload_def Let_def)
  note st = finalize_upload_stores [OF fin [unfolded r] assms(2)]
  let ?f = "\<lambda>s::upload_session. s\<lparr>up_sess_status := ''completed'', up_sess_updated_at := now d1\<rparr>"
  have ses: "upload_sessions d' = update_where (\<lambda>s. up_sess_id s = up_sess_id k) ?f (upload_sessions d)"
    and fs: "files d' = files d1" "file_references d' = file_references d1"
    using st(1) by (simp_all add: d' upload_session_mark_status_def)
  have "?f k \<in> ?f ` {s \<in> set (upload_sessions d). up_sess_id s = up_sess_id k}" using assms(3) by blast
  then have "?f k \<in> set (upload_sessions d')" unfolding ses by (simp add: table_simps)
  moreover have "k\<lparr>up_sess_offset := up_sess_offset k, up_sess_status := ''completed'', up_sess_updated_at := now d1\<rparr> = ?f k"
    by (cases k) simp
  moreover have "distinct (map up_sess_id (upload_sessions d'))" unfolding ses using assms(4) by (simp add: map_update_where)
  ultimately show ?thesis unfolding upload_finished_def fs using st(2) by metis
qed

lemma upload_patch_step:
  assumes op: "upload_at s n tmp d w"
    and pa: "upload_patch x ro secret reg u (up_sess_id s) h payload d w = (Inr off, d', w')"
  shows "\<exists>bss. payload = map Inr bss \<and> off = n + int (length (concat bss)) \<and> off \<le> up_sess_total_size s \<and>
    (if off < up_sess_total_size s then upload_at s off (tmp @ concat bss) d' w' else upload_finished x s off (tmp @ concat bss) d')"
proof -
  from op obtain t where ok: "schema_ok d" and st: "up_sess_status s = ''in_progress''" and len: "n \<le> up_sess_total_size s"
    and row: "s\<lparr>up_sess_offset := n, up_sess_updated_at := t\<rparr> \<in> set (upload_sessions d)"
    and tmp: "fs_read (components (up_sess_temp_path s)) (ph_fs w) = Some tmp" by (auto simp: upload_at_def)
  define k where "k = s\<lparr>up_sess_offset := n, up_sess_updated_at := t\<rparr>"
  have dist: "distinct (map up_sess_id (upload_sessions d))" using schema_okD(14) [OF ok] by (simp add: upload_sessions_ok_def)
  have k: "k \<in> set (upload_sessions d)" "up_sess_id k = up_sess_id s" "up_sess_temp_path k = up_sess_temp_path s"
    "up_sess_offset k = n" "up_sess_total_size k = up_sess_total_size s" "up_sess_status k = ''in_progress''"
    using row st by (simp_all add: k_def)
  from pa obtain k' old written f1 upd d1 where k': "load_owned_session u (up_sess_id s) d = Inr k'"
    and old: "fs_read (components (up_sess_temp_path k')) (ph_fs w) = Some old"
    and ap: "append_chunks k' (components (up_sess_temp_path k')) 0 payload (ph_fs w) = (Inr written, f1)"
    and adv: "upload_session_advance_offset (up_sess_id s) (up_sess_offset k') (up_sess_offset k' + written) d = (Some upd, d1)"
    and off: "off = up_sess_offset upd" and fin: "if up_sess_total_size upd \<le> off
      then complete_upload x ro secret reg upd d1 (w\<lparr>ph_fs := f1\<rparr>) = (Inr (), d', w') else d' = d1 \<and> w' = w\<lparr>ph_fs := f1\<rparr>"
    by (rule upload_patch_InrE) blast
  have kk: "k' = k" by (rule session_unique [OF dist k' [unfolded k(2) [symmetric]] k(1)])
  from old tmp kk k have "old = tmp" by simp
  with append_chunks_Inr [OF ap old] kk k len obtain bss where bss: "payload = map Inr bss" "written = int (length (concat bss))"
    "fs_read (components (up_sess_temp_path s)) f1 = Some (tmp @ concat bss)" "n + written \<le> up_sess_total_size s" by auto
  note upd = advance_offset_row [OF adv [unfolded kk, folded k(2)] k(1) dist k(6)]
  have u: "off = n + int (length (concat bss))" "up_sess_total_size upd = up_sess_total_size s"
    "upd = s\<lparr>up_sess_offset := off, up_sess_updated_at := now d\<rparr>"
    using upd(1) k bss(2) off by (simp_all add: k_def)
  have ok1: "schema_ok d1" using upload_session_ops_schema(1) [OF ok] adv by (metis snd_conv)
  have "if off < up_sess_total_size s then upload_at s off (tmp @ concat bss) d' w' else upload_finished x s off (tmp @ concat bss) d'"
  proof (cases "off < up_sess_total_size s")
    case True
    with fin u have "d' = d1" "w' = w\<lparr>ph_fs := f1\<rparr>" by auto
    with ok1 st bss True u(3) upd(2) show ?thesis by (auto simp: upload_at_def)
  next
    case False
    with fin u(2) have c: "complete_upload x ro secret reg upd d1 (w\<lparr>ph_fs := f1\<rparr>) = (Inr (), d', w')" by simp
    have "fs_read (components (up_sess_temp_path upd)) (ph_fs (w\<lparr>ph_fs := f1\<rparr>)) = Some (tmp @ concat bss)" using bss u(3) by simp
    from complete_upload_done [OF c this upd(2)] dist upd(3) off have "upload_finished x upd off (tmp @ concat bss) d'" by simp
    then have "upload_finished x s off (tmp @ concat bss) d'" unfolding u(3) upload_finished_def by simp
    with False show ?thesis by simp
  qed
  then show ?thesis using bss u(1) by (intro exI [of _ bss]) auto
qed

text \<open>A client's run: the chunks one after the other, as long as each is accepted.\<close>

fun patch_all ::
    "'w env \<Rightarrow> bool \<Rightarrow> string \<Rightarrow> registry \<Rightarrow> authenticated_user \<Rightarrow> uuid \<Rightarrow> (string option \<times> (string + bytes) list) list \<Rightarrow>
     db \<Rightarrow> 'w phys \<Rightarrow> (db \<times> 'w phys) option" where
  "patch_all x ro secret reg u i [] d w = Some (d, w)"
| "patch_all x ro secret reg u i ((h, payload) # reqs) d w =
     (case upload_patch x ro secret reg u i h payload d w of
        (Inr _, d1, w1) \<Rightarrow> patch_all x ro secret reg u i reqs d1 w1
      | _ \<Rightarrow> None)"

lemma done_refuses:
  assumes "upload_done x s data d"
  shows "fst (upload_patch x' ro secret reg u (up_sess_id s) h payload d w) \<noteq> Inr off"
proof
  assume "fst (upload_patch x' ro secret reg u (up_sess_id s) h payload d w) = Inr off"
  then obtain d' w' where "upload_patch x' ro secret reg u (up_sess_id s) h payload d w = (Inr off, d', w')" by (metis prod.collapse)
  then obtain k where k: "load_owned_session u (up_sess_id s) d = Inr k" "up_sess_status k = ''in_progress''"
    by (rule upload_patch_InrE) blast
  from assms obtain t where dist: "distinct (map up_sess_id (upload_sessions d))"
    and row: "s\<lparr>up_sess_offset := int (length data), up_sess_status := ''completed'', up_sess_updated_at := t\<rparr> \<in> set (upload_sessions d)"
    by (auto simp: upload_finished_def)
  from session_unique [OF dist _ row] k(1) have "k = s\<lparr>up_sess_offset := int (length data), up_sess_status := ''completed'', up_sess_updated_at := t\<rparr>"
    by simp
  with k(2) show False by simp
qed


definition demo_session :: upload_session where
  "demo_session = \<lparr>up_sess_id = 40, up_sess_project_id = 2, up_sess_user_id = 1, up_sess_original_name = ''c.txt'',
     up_sess_content_type = ''text/plain'', up_sess_total_size = 3, up_sess_offset = 0, up_sess_temp_path = ''/tmp/uploads/a.part'',
     up_sess_metadata = JObj [], up_sess_status = ''in_progress'', up_sess_created_at = 0, up_sess_updated_at = 0, up_sess_expires_at = 9\<rparr>"

definition demo_upload_db :: db where
  "demo_upload_db = demo_db\<lparr>upload_sessions := [demo_session]\<rparr>"

definition demo_upload_disk :: "unit phys" where
  "demo_upload_disk = \<lparr>ph_fs = [([''tmp'', ''uploads'', ''a.part''], Contents [])], ph_net = ()\<rparr>"

lemma schema_ok_demo_upload: "schema_ok demo_upload_db"
  unfolding demo_upload_db_def
  by (rule schema_ok_set_leaf(9) [OF schema_ok_demo]) (simp add: upload_sessions_ok_def demo_session_def demo_defs)

text \<open>An equation for evaluation, without the block size of 8 MB.\<close>

lemma hash_file_code [code]:
  "hash_file_sha256 x p f = (case fs_read p f of
       None \<Rightarrow> Inl (Internal ''Failed to open temp file for hashing'')
     | Some data \<Rightarrow> Inr (hex_encode (x_sha256 x data), int (length data)))"
  by (simp add: hash_file_sha256_def hash_blocks_all split: option.split)

lemma demo_patches_run:
  "case patch_all demo_env True ''k'' demo_registry \<lparr>au_user_id = 1, au_role = ''user''\<rparr> 40
     [(Some ''0'', [Inr [1], Inr [2]]), (Some ''2'', [Inr [3]])] demo_upload_db demo_upload_disk of None \<Rightarrow> False | Some _ \<Rightarrow> True"
  by code_simp


section \<open>Two defects\<close>

lemma components_join:
  assumes "CHR ''/'' \<notin> set name" and "name \<noteq> []" and "name \<noteq> ''.''"
  shows "components (path_join a name) = components a @ [name]"
proof -
  have n: "components name = [name]" using assms by (simp add: components_def split_on_no_sep)
  show ?thesis
  proof (cases "a \<noteq> [] \<and> last a = CHR ''/''")
    case True
    then obtain a' where a: "a = a' @ [CHR ''/'']" by (metis append_butlast_last_id)
    then show ?thesis
      using n split_on_append_sep [of "CHR ''/''" a' name] split_on_append_sep [of "CHR ''/''" a' "[]"]
      by (simp add: path_join_def components_def)
  next
    case False
    then show ?thesis using n split_on_append_sep [of "CHR ''/''" a name]
      by (cases "a = []") (auto simp: path_join_def components_def)
  qed
qed

lemma uuid_str_chars: "ch \<in> set (uuid_str u) \<Longrightarrow> ch \<noteq> CHR ''/'' \<and> ch \<noteq> CHR ''.''"
proof -
  assume "ch \<in> set (uuid_str u)"
  then have "ch = CHR ''-'' \<or> ch \<in> set (hex_digits 32 u)"
    by (auto simp: uuid_str_def Let_def dest!: in_set_takeD in_set_dropD)
  then show ?thesis using hex_digits_no_punctuation [of 32 u] by auto
qed

lemma temp_path_components:
  "components (temp_path_for base i) = components (uploads_dir base) @ [uuid_str i @ ''.part'']"
proof -
  have "CHR ''/'' \<notin> set (uuid_str i @ ''.part'')" using uuid_str_chars by auto
  moreover have "length (uuid_str i @ ''.part'') = 41" by simp
  then have "uuid_str i @ ''.part'' \<noteq> ''.''" "uuid_str i @ ''.part'' \<noteq> []" by auto
  ultimately show ?thesis unfolding temp_path_for_def by (intro components_join)
qed

lemma stem_extension_part: "stem_extension (uuid_str i @ ''.part'') = (uuid_str i, Some ''part'')"
proof -
  have "takeWhile (\<lambda>ch. ch \<noteq> CHR ''.'') (rev (uuid_str i @ ''.part'')) = rev ''part''"
    "dropWhile (\<lambda>ch. ch \<noteq> CHR ''.'') (rev (uuid_str i @ ''.part'')) = CHR ''.'' # rev (uuid_str i)" by simp_all
  moreover have "uuid_str i \<noteq> []" using length_uuid_str [of i] by (metis length_0_conv zero_neq_numeral)
  ultimately show ?thesis by (simp add: stem_extension_def rsplit_once_def)
qed

lemma fs_read_remove_file: "fs_read q (remove_file p f) = (if q = p then None else fs_read q f)"
  by (auto simp: remove_file_def)

lemma remove_file_dir: "map_of f q = Some Dir \<Longrightarrow> map_of (remove_file p f) q = Some Dir"
  by (auto simp: remove_file_def fs_read_def)

lemma fold_remove_read:
  "fs_read q (fold (\<lambda>p f. if P p then remove_file p f else f) ps f) = (if q \<in> set ps \<and> P q then None else fs_read q f)"
  by (induction ps arbitrary: f) (auto simp: fs_read_remove_file)

lemma reconcile_removes:
  assumes "map_of f (components (cw_uploads_dir cw)) = Some Dir" and "orphan_entry c d name"
  shows "fs_read (components (cw_uploads_dir cw) @ [name]) (reconcile_orphans c cw d f) = None"
proof -
  let ?dir = "components (cw_uploads_dir cw)"
  let ?es = "map fst (filter (\<lambda>e. fst e \<noteq> [] \<and> butlast (fst e) = ?dir) f)"
  have "fs_read (?dir @ [name]) f = None" if "?dir @ [name] \<notin> set ?es"
  proof -
    have "?dir @ [name] \<notin> fst ` set f" using that by force
    then have "map_of f (?dir @ [name]) = None" by (simp add: map_of_eq_None_iff)
    then show ?thesis by (simp add: fs_read_def)
  qed
  then show ?thesis
    using assms fold_remove_read [of "?dir @ [name]" "\<lambda>p. orphan_entry c d (last p)" ?es f]
    by (auto simp: reconcile_orphans_def Let_def)
qed

lemma mkdirs_dirs:
  "mkdirs pre cs f = Some f' \<Longrightarrow> map_of f q = Some Dir \<Longrightarrow> map_of f' q = Some Dir"
  by (induction pre cs f rule: mkdirs.induct) (auto simp: Let_def split: option.splits fs_node.splits if_splits)

lemma mkdirs_creates:
  "mkdirs pre cs f = Some f' \<Longrightarrow> cs \<noteq> [] \<Longrightarrow> map_of f' (pre @ cs) = Some Dir"
proof (induction pre cs f rule: mkdirs.induct)
  case (2 pre c cs f)
  let ?p = "pre @ [c]"
  from 2(3) obtain f1 where f1: "mkdirs ?p cs f1 = Some f'" "map_of f1 ?p = Some Dir"
    and IH: "cs \<noteq> [] \<Longrightarrow> map_of f' (?p @ cs) = Some Dir"
    using 2(1,2) by (auto simp: Let_def split: option.splits fs_node.splits)
  show ?case
  proof (cases "cs = []")
    case True
    with f1 show ?thesis by simp
  qed (use IH in simp)
qed simp

text \<open>The row of a session that has not expired, through the first two phases of a sweep.\<close>

lemma sweep_expired_sessions:
  "upload_sessions (fst (fold (\<lambda>s (d, f). (snd (upload_session_mark_status (up_sess_id s) ''aborted'' d), g s f)) ss (d, f))) =
     upload_sessions (fold (\<lambda>s d. snd (upload_session_mark_status (up_sess_id s) ''aborted'' d)) ss d)"
  by (induction ss arbitrary: d f) auto

lemma mark_others_keeps:
  assumes "s \<in> set (upload_sessions d)" and "\<forall>e \<in> set ss. up_sess_id e \<noteq> up_sess_id s"
  shows "s \<in> set (upload_sessions (fold (\<lambda>s d. snd (upload_session_mark_status (up_sess_id s) ''aborted'' d)) ss d))"
  using assms by (induction ss arbitrary: d) (auto simp: upload_session_mark_status_def table_simps)

lemma sweep_expired_dir:
  "map_of f q = Some Dir \<Longrightarrow> map_of (snd (fold (\<lambda>s (d, f). (h s d, remove_file (g s) f)) ss (d, f))) q = Some Dir"
  by (induction ss arbitrary: d f) (auto simp: remove_file_dir)

lemma mark_fold_ids:
  "map up_sess_id (upload_sessions (fold (\<lambda>s d. snd (upload_session_mark_status (up_sess_id s) ''aborted'' d)) ss d)) =
     map up_sess_id (upload_sessions d)"
  by (induction ss arbitrary: d) (simp_all add: upload_session_mark_status_def map_update_where)

lemma sweep_expired_ids:
  "sweep_expired d f = (d', f') \<Longrightarrow> map up_sess_id (upload_sessions d') = map up_sess_id (upload_sessions d)"
proof -
  assume "sweep_expired d f = (d', f')"
  then have "d' = fst (sweep_expired d f)" by simp
  then show ?thesis by (simp add: sweep_expired_def sweep_expired_sessions mark_fold_ids)
qed

lemma live_session_survives_sweep:
  assumes "schema_ok d" and "s \<in> set (upload_sessions d)" and "up_sess_status s = ''in_progress''" and "now d \<le> up_sess_expires_at s"
  shows "s \<in> set (upload_sessions (cleanup_prune_terminal cw (fst (sweep_expired d f))))"
proof -
  have dist: "distinct (map up_sess_id (upload_sessions d))" using schema_okD(14) [OF assms(1)] by (simp add: upload_sessions_ok_def)
  have "up_sess_id e \<noteq> up_sess_id s" if "e \<in> set (upload_session_find_expired 500 d)" for e
  proof
    assume "up_sess_id e = up_sess_id s"
    moreover have e: "e \<in> set (upload_sessions d)" "up_sess_expires_at e < now d"
      using in_set_limit_rowsD [OF that [unfolded upload_session_find_expired_def]] by auto
    ultimately have "e = s" using dist assms(2) by (metis distinct_key_unique)
    with e assms(4) show False by simp
  qed
  with assms(2) have "s \<in> set (upload_sessions (fst (sweep_expired d f)))"
    unfolding sweep_expired_def sweep_expired_sessions by (intro mark_others_keeps) auto
  with assms(3) show ?thesis
    by (simp add: cleanup_prune_terminal_def upload_session_prune_terminal_def table_simps terminal_before_def)
qed

text \<open>
  the cleanup worker destroys uploads that are under way. The temporary file of an upload is named by
  an identifier drawn in the handler, the session gets another one from the database; the worker looks for
  a session with the identifier in the file name and finds none. So one sweep after a session was created
  removes its temporary file, although the session is in progress and has not expired, and every later
  chunk of the owner is refused with an internal error.
\<close>

theorem sweep_destroys_live_upload:
  assumes "schema_ok d" and "upload_create x from_str cfg new_id u pid lh mh d w = (Inr i, d1, w1)"
    and "new_id \<notin> up_sess_id ` set (upload_sessions d1)" and "uuid_law c" and "new_id < 2 ^ 128"
    and "0 \<le> uc_session_ttl_secs cfg"
    and "cw = cleanup_new (uc_local_temp_path cfg) ttl retention" and "sweep c cw True d1 (ph_fs w1) = (d2, f2)"
    and "parse_i64 h = Some 0"
  shows "(\<exists>s \<in> set (upload_sessions d2). up_sess_id s = i \<and> up_sess_status s = ''in_progress'' \<and> now d1 \<le> up_sess_expires_at s) \<and>
    upload_patch x ro secret reg u i (Some h) payload d2 (w1\<lparr>ph_fs := f2\<rparr>) =
      (Inl (Internal ''Failed to open temp file''), d2, w1\<lparr>ph_fs := f2\<rparr>)"
proof -
  let ?base = "uc_local_temp_path cfg"
  let ?tmp = "temp_path_for ?base new_id"
  let ?dir = "components (uploads_dir ?base)"
  from assms(2) obtain total_size metadata fa fb s where
    dirs: "create_dir_all ?dir (ph_fs w) = Some fa" and wr: "fs_write (components ?tmp) [] fa = Some fb"
    and ins: "upload_session_create \<lparr>cus_project_id = pid, cus_user_id = au_user_id u,
        cus_original_name = nonempty_or ''unnamed'' (map_of (case mh of None \<Rightarrow> [] | Some h \<Rightarrow> parse_tus_metadata x h) ''filename''),
        cus_content_type = nonempty_or ''application/octet-stream'' (map_of (case mh of None \<Rightarrow> [] | Some h \<Rightarrow> parse_tus_metadata x h) ''filetype''),
        cus_total_size = total_size, cus_temp_path = ?tmp, cus_metadata = metadata,
        cus_expires_at = now d + secs (uc_session_ttl_secs cfg)\<rparr> d = (Inr s, d1)"
    and i: "i = up_sess_id s" and w1: "w1 = w\<lparr>ph_fs := fb\<rparr>"
    by (auto simp: upload_create_def Let_def split: sum.splits option.splits prod.splits)
  have ok1: "schema_ok d1" using upload_session_create_schema [OF assms(1)] ins by (metis snd_conv)
  from ins have s: "s \<in> set (upload_sessions d1)" "up_sess_status s = ''in_progress''" "up_sess_offset s = 0"
    "up_sess_user_id s = au_user_id u" "up_sess_temp_path s = ?tmp" "now d1 \<le> up_sess_expires_at s"
    using assms(6) by (auto simp: upload_session_create_def Let_def secs_def split: if_splits)
  obtain da fa' where sw: "sweep_expired d1 (ph_fs w1) = (da, fa')" by fastforce
  define db where "db = cleanup_prune_terminal cw da"
  have d2: "d2 = prune_access_events cw db" and f2: "f2 = reconcile_orphans c cw db fa'"
    using assms(8) sw by (simp_all add: sweep_def db_def Let_def)
  have row: "s \<in> set (upload_sessions db)" using live_session_survives_sweep [OF ok1 s(1,2,6), of cw "ph_fs w1"] sw by (simp add: db_def)
  have ids: "map up_sess_id (upload_sessions da) = map up_sess_id (upload_sessions d1)" using sw by (rule sweep_expired_ids)
  have db_da: "upload_sessions db = delete_where (terminal_before (now da - cw_ttl cw)) (upload_sessions da)"
    by (simp add: db_def cleanup_prune_terminal_def upload_session_prune_terminal_def)
  have "distinct (map up_sess_id (upload_sessions d1))" using schema_okD(14) [OF ok1] by (simp add: upload_sessions_ok_def)
  with ids db_da have dist: "distinct (map up_sess_id (upload_sessions db))" by (simp add: distinct_map_delete_where)
  have "up_sess_id ` set (upload_sessions db) \<subseteq> up_sess_id ` set (upload_sessions d1)"
    using arg_cong [OF ids, of set] db_da by (auto simp: table_simps)
  with assms(3) have "find (\<lambda>s. up_sess_id s = new_id) (upload_sessions db) = None" by (auto simp: find_None_all)
  then have orphan: "orphan_entry c db (uuid_str new_id @ ''.part'')"
    using assms(4,5) by (simp add: orphan_entry_def stem_extension_part uuid_law_def upload_session_find_by_id_def ok_or_def)
  have dn: "?dir = components ?base @ [''uploads'']" unfolding uploads_dir_def by (rule components_join) simp_all
  have "map_of fa ?dir = Some Dir" using mkdirs_creates [OF dirs [unfolded create_dir_all_def]] dn by simp
  with wr have "map_of fb ?dir = Some Dir" by (auto simp: fs_write_def temp_path_components split: if_splits)
  then have "map_of fa' ?dir = Some Dir"
    using sweep_expired_dir [of fb ?dir "\<lambda>s d. snd (upload_session_mark_status (up_sess_id s) ''aborted'' d)"
        "\<lambda>s. components (up_sess_temp_path s)" "upload_session_find_expired 500 d1" d1] sw w1
    by (simp add: sweep_expired_def)
  moreover have cw: "cw_uploads_dir cw = uploads_dir ?base" using assms(7) by (simp add: cleanup_new_def uploads_dir_def)
  ultimately have gone: "fs_read (components ?tmp) f2 = None"
    using reconcile_removes [OF _ orphan, of fa' cw] by (simp add: f2 temp_path_components)
  have ses: "upload_sessions d2 = upload_sessions db"
    by (simp add: d2 prune_access_events_def access_event_prune_older_than_def split: option.split)
  have "find (\<lambda>t. up_sess_id t = up_sess_id s) (upload_sessions d2) = Some s" using find_by_key [OF dist row] ses by simp
  then have "load_owned_session u i d2 = Inr s" using s(4) i by (simp add: load_owned_session_def upload_session_find_by_id_def ok_or_def)
  then have "upload_patch x ro secret reg u i (Some h) payload d2 (w1\<lparr>ph_fs := f2\<rparr>) =
      (Inl (Internal ''Failed to open temp file''), d2, w1\<lparr>ph_fs := f2\<rparr>)"
    using s assms(9) gone by (simp add: upload_patch_def Let_def)
  then show ?thesis using row s i ses by auto
qed

lemma demo_create_runs:
  "case upload_create demo_env (\<lambda>_. Inl []) \<lparr>uc_local_temp_path = ''/tmp'', uc_session_ttl_secs = 60, uc_max_file_size = 0\<rparr> 41
     \<lparr>au_user_id = 1, au_role = ''user''\<rparr> 2 (Some ''3'') None demo_db demo_phys of
     (Inl _, _, _) \<Rightarrow> False | (Inr i, d, w) \<Rightarrow> list_all (\<lambda>s. up_sess_id s \<noteq> 41) (upload_sessions d)"
  by code_simp

theorem sweep_destroys_live_upload_witness:
  "\<exists>i d1 w1 d2 f2. upload_create demo_env (\<lambda>_. Inl []) \<lparr>uc_local_temp_path = ''/tmp'', uc_session_ttl_secs = 60, uc_max_file_size = 0\<rparr> 41
       \<lparr>au_user_id = 1, au_role = ''user''\<rparr> 2 (Some ''3'') None demo_db demo_phys = (Inr i, d1, w1) \<and>
     sweep demo_crypto (cleanup_new ''/tmp'' 60 0) True d1 (ph_fs w1) = (d2, f2) \<and>
     fst (upload_patch demo_env True ''k'' demo_registry \<lparr>au_user_id = 1, au_role = ''user''\<rparr> i (Some ''0'') [Inr [1, 2, 3]] d2
       (w1\<lparr>ph_fs := f2\<rparr>)) = Inl (Internal ''Failed to open temp file'')"
proof -
  let ?cfg = "\<lparr>uc_local_temp_path = ''/tmp'', uc_session_ttl_secs = 60, uc_max_file_size = 0\<rparr>"
  obtain i d1 w1 where cr: "upload_create demo_env (\<lambda>_. Inl []) ?cfg 41 \<lparr>au_user_id = 1, au_role = ''user''\<rparr> 2 (Some ''3'') None demo_db demo_phys =
      (Inr i, d1, w1)" and ids: "list_all (\<lambda>s. up_sess_id s \<noteq> 41) (upload_sessions d1)"
    using demo_create_runs by (auto split: prod.splits sum.splits)
  then have new: "41 \<notin> up_sess_id ` set (upload_sessions d1)" by (auto simp: list_all_iff)
  obtain d2 f2 where sw: "sweep demo_crypto (cleanup_new (uc_local_temp_path ?cfg) 60 0) True d1 (ph_fs w1) = (d2, f2)" by fastforce
  have h: "parse_i64 ''0'' = Some 0" by code_simp
  from sweep_destroys_live_upload [OF schema_ok_demo cr new demo_crypto_laws(3) _ _ refl sw h, of True "''k''" demo_registry "[Inr [1, 2, 3]]"]
  show ?thesis using cr sw by auto
qed

text \<open>
  a refused chunk can corrupt an upload. When a request carries a piece that fits followed by one that
  exceeds the declared length, it is refused with 400 and the recorded offset stays, but the piece that fits
  has already been appended. If the client then sends the remaining bytes at the recorded offset and the
  request is accepted, the upload is completed with a file that has the extra piece in the middle.
\<close>

theorem refused_chunk_corrupts_upload:
  assumes "upload_open s data d w" and "parse_i64 h = Some (int (length data))"
    and "load_owned_session u (up_sess_id s) d \<noteq> Inl (Forbidden ''Access denied: not the upload owner'')"
    and "int (length data + length a) \<le> up_sess_total_size s" and "up_sess_total_size s < int (length data + length a + length b)"
    and "int (length data + length rest) = up_sess_total_size s"
  shows "\<exists>w1. upload_patch x ro secret reg u (up_sess_id s) (Some h) [Inr a, Inr b] d w =
       (Inl (BadRequest ''Chunk exceeds declared Upload-Length''), d, w1) \<and>
     (\<forall>off d2 w2. upload_patch x ro secret reg u (up_sess_id s) (Some h) [Inr rest] d w1 = (Inr off, d2, w2) \<longrightarrow>
        upload_finished x s (up_sess_total_size s) (data @ a @ rest) d2)"
proof -
  let ?p = "components (up_sess_temp_path s)"
  from assms(1) obtain t where ok: "schema_ok d" and st: "up_sess_status s = ''in_progress''"
    and row: "s\<lparr>up_sess_offset := int (length data), up_sess_updated_at := t\<rparr> \<in> set (upload_sessions d)"
    and tmp: "fs_read ?p (ph_fs w) = Some data" by (auto simp: upload_at_def)
  define k where "k = s\<lparr>up_sess_offset := int (length data), up_sess_updated_at := t\<rparr>"
  have k: "k \<in> set (upload_sessions d)" "up_sess_id k = up_sess_id s" "up_sess_temp_path k = up_sess_temp_path s"
    "up_sess_offset k = int (length data)" "up_sess_total_size k = up_sess_total_size s" "up_sess_status k = ''in_progress''"
    using row st by (simp_all add: k_def)
  have dist: "distinct (map up_sess_id (upload_sessions d))" using schema_okD(14) [OF ok] by (simp add: upload_sessions_ok_def)
  then have "upload_session_find_by_id (up_sess_id s) d = Inr k"
    using find_by_key [OF dist k(1)] k(2) by (simp add: upload_session_find_by_id_def ok_or_def)
  with assms(3) have load: "load_owned_session u (up_sess_id s) d = Inr k" by (simp add: load_owned_session_def split: if_splits)
  define w1 where "w1 = w\<lparr>ph_fs := fs_put ?p (Contents (data @ a)) (ph_fs w)\<rparr>"
  have "upload_patch x ro secret reg u (up_sess_id s) (Some h) [Inr a, Inr b] d w =
       (Inl (BadRequest ''Chunk exceeds declared Upload-Length''), d, w1)"
    using load k tmp assms(2,4,5) by (simp add: upload_patch_def Let_def fs_read_put w1_def)
  moreover have "upload_at s (int (length data)) (data @ a) d w1"
    using assms(1) by (simp add: upload_at_def w1_def fs_read_put)
  then have "upload_finished x s (up_sess_total_size s) (data @ a @ rest) d2"
    if "upload_patch x ro secret reg u (up_sess_id s) (Some h) [Inr rest] d w1 = (Inr off, d2, w2)" for off d2 w2
    using upload_patch_step [OF _ that, of "int (length data)" "data @ a"] assms(6) by (auto simp: Cons_eq_map_conv)
  ultimately show ?thesis by blast
qed

lemma demo_refused_run:
  "case upload_patch demo_env True ''k'' demo_registry \<lparr>au_user_id = 1, au_role = ''user''\<rparr> 40 (Some ''0'') [Inr [9], Inr [1, 2, 3]]
       demo_upload_db demo_upload_disk of (_, _, w1) \<Rightarrow>
     case upload_patch demo_env True ''k'' demo_registry \<lparr>au_user_id = 1, au_role = ''user''\<rparr> 40 (Some ''0'') [Inr [1, 2, 3]]
       demo_upload_db w1 of (Inl _, _, _) \<Rightarrow> False | (Inr _, _, _) \<Rightarrow> True"
  by code_simp

theorem refused_chunk_corrupts_upload_witness:
  "\<exists>w1 off d2 w2. upload_patch demo_env True ''k'' demo_registry \<lparr>au_user_id = 1, au_role = ''user''\<rparr> 40 (Some ''0'') [Inr [9], Inr [1, 2, 3]]
       demo_upload_db demo_upload_disk = (Inl (BadRequest ''Chunk exceeds declared Upload-Length''), demo_upload_db, w1) \<and>
     upload_patch demo_env True ''k'' demo_registry \<lparr>au_user_id = 1, au_role = ''user''\<rparr> 40 (Some ''0'') [Inr [1, 2, 3]]
       demo_upload_db w1 = (Inr off, d2, w2) \<and>
     upload_finished demo_env demo_session 3 [9, 1, 2, 3] d2"
proof -
  have "demo_session\<lparr>up_sess_offset := 0, up_sess_updated_at := 0\<rparr> = demo_session" by (simp add: demo_session_def)
  moreover have "fs_read (components (up_sess_temp_path demo_session)) (ph_fs demo_upload_disk) = Some []" by code_simp
  ultimately have op: "upload_open demo_session [] demo_upload_db demo_upload_disk"
    using schema_ok_demo_upload by (auto simp: upload_at_def demo_upload_db_def intro!: exI [of _ 0]) (simp_all add: demo_session_def)
  have h: "parse_i64 ''0'' = Some (int (length ([] :: bytes)))" by code_simp
  have own: "load_owned_session \<lparr>au_user_id = 1, au_role = ''user''\<rparr> (up_sess_id demo_session) demo_upload_db \<noteq>
      Inl (Forbidden ''Access denied: not the upload owner'')"
    by (simp add: load_owned_session_def upload_session_find_by_id_def ok_or_def demo_upload_db_def demo_session_def is_admin_def)
  have i: "up_sess_id demo_session = 40" "up_sess_total_size demo_session = 3" by (simp_all add: demo_session_def)
  from refused_chunk_corrupts_upload [OF op h own, of "[9]" "[1, 2, 3]" "[1, 2, 3]" demo_env True "''k''" demo_registry, unfolded i]
  obtain w1 where w1: "upload_patch demo_env True ''k'' demo_registry \<lparr>au_user_id = 1, au_role = ''user''\<rparr> 40 (Some ''0'')
      [Inr [9], Inr [1, 2, 3]] demo_upload_db demo_upload_disk =
        (Inl (BadRequest ''Chunk exceeds declared Upload-Length''), demo_upload_db, w1)"
    and fin: "\<And>off d2 w2. upload_patch demo_env True ''k'' demo_registry \<lparr>au_user_id = 1, au_role = ''user''\<rparr> 40 (Some ''0'') [Inr [1, 2, 3]]
       demo_upload_db w1 = (Inr off, d2, w2) \<Longrightarrow> upload_finished demo_env demo_session 3 ([] @ [9] @ [1, 2, 3]) d2"
    by auto
  from demo_refused_run obtain off d2 w2 where "upload_patch demo_env True ''k'' demo_registry \<lparr>au_user_id = 1, au_role = ''user''\<rparr> 40
      (Some ''0'') [Inr [1, 2, 3]] demo_upload_db w1 = (Inr off, d2, w2)"
    unfolding w1 by (auto split: prod.splits sum.splits)
  with w1 fin show ?thesis by fastforce
qed

end
