(* ===== verification/Shared_Links.thy ===== *)
theory Shared_Links
  imports File_Service Access Models_Link
begin

text \<open>
  Public links to files: the service (\<open>src/services/shared_link_service.rs\<close>) and its endpoints
  (\<open>src/api/shared_links.rs\<close>). A download first checks the link (\<open>admit_download\<close>), then fetches the
  data and finally counts the download with one atomic statement (\<open>finish_download\<close>); requests may
  interleave between these steps, which \<open>link_step\<close> models. Shown: what a successful download implies,
  that no interleaving delivers a file more often than its link allows, and that a password token is
  good for one link only.
\<close>

section \<open>Service\<close>

record link_service =
  lk_jwt_secret :: string
  lk_hmac_secret :: string

definition dl_key :: "link_service \<Rightarrow> string" where
  "dl_key s = ''dl-token:'' @ lk_jwt_secret s"

record shared_link_info =
  sli_file_name :: string
  sli_file_size :: int
  sli_content_type :: string
  sli_password_required :: bool
  sli_expires_at :: "time option"

record shared_download =
  sd_data :: bytes
  sd_content_type :: string
  sd_file_name :: string
  sd_file_id :: uuid
  sd_project_id :: uuid
  sd_storage_id :: uuid
  sd_file_size :: int

record dl_claims =
  dt_sub :: string
  dt_link_id :: string
  dt_exp :: int

record create_link_input =
  cli_file_id :: uuid
  cli_project_id :: uuid
  cli_user_id :: uuid
  cli_password :: "string option"
  cli_expires_at :: "time option"
  cli_max_downloads :: "int option"

definition DOWNLOAD_TOKEN_TTL_SECS :: int where
  "DOWNLOAD_TOKEN_TTL_SECS = 300"

definition validate_link_accessible :: "shared_link \<Rightarrow> time \<Rightarrow> unit app_result" where
  "validate_link_accessible l t =
     (if \<not> sl_is_active l then Inl (NotFound ''Shared link not found'')
      else (case sl_expires_at l of
              Some e \<Rightarrow> if e < t then Inl (NotFound ''Shared link not found'') else Inr ()
            | None \<Rightarrow> Inr ()))"

definition create_link ::
    "crypto \<Rightarrow> bytes \<Rightarrow> bytes \<Rightarrow> create_link_input \<Rightarrow> db \<Rightarrow> shared_link app_result \<times> db" where
  "create_link c rnd salt input d =
     (case file_find_by_id (cli_file_id input) d of
        Inl e \<Rightarrow> (Inl e, d)
      | Inr file \<Rightarrow>
         (case file_reference_find_by_file_and_project (cli_file_id input) (cli_project_id input) d of
            [] \<Rightarrow> (Inl (NotFound ''File not found in this project''), d)
          | r # _ \<Rightarrow>
             shared_link_create c rnd salt
               \<lparr>csl_file_id = f_id file, csl_project_id = cli_project_id input, csl_original_name = r_original_name r,
                csl_created_by = cli_user_id input, csl_password = cli_password input,
                csl_expires_at = cli_expires_at input, csl_max_downloads = cli_max_downloads input\<rparr> d))"

definition get_link_info :: "string \<Rightarrow> db \<Rightarrow> shared_link_info app_result" where
  "get_link_info token d =
     (case shared_link_find_by_token token d of
        Inl e \<Rightarrow> Inl e
      | Inr l \<Rightarrow>
         (case validate_link_accessible l (now d) of
            Inl e \<Rightarrow> Inl e
          | Inr _ \<Rightarrow>
             (case file_find_by_id (sl_file_id l) d of
                Inl e \<Rightarrow> Inl e
              | Inr f \<Rightarrow> Inr \<lparr>sli_file_name = sl_original_name l, sli_file_size = f_size f,
                             sli_content_type = f_content_type f, sli_password_required = sl_password_hash l \<noteq> None,
                             sli_expires_at = sl_expires_at l\<rparr>)))"

definition dl_claims_json :: "dl_claims \<Rightarrow> json" where
  "dl_claims_json cl =
     JObj [(''sub'', JStr (dt_sub cl)), (''link_id'', JStr (dt_link_id cl)), (''exp'', JNum (dt_exp cl))]"

definition dl_claims_of_json :: "json \<Rightarrow> dl_claims option" where
  "dl_claims_of_json j =
     (case (json_get j ''sub'', json_get j ''link_id'', as_u64 (json_get j ''exp'')) of
        (Some (JStr s), Some (JStr l), Some e) \<Rightarrow>
          if int e < 2 ^ 64 then Some \<lparr>dt_sub = s, dt_link_id = l, dt_exp = int e\<rparr> else None
      | _ \<Rightarrow> None)"

definition generate_download_token ::
    "crypto \<Rightarrow> link_service \<Rightarrow> string \<Rightarrow> uuid \<Rightarrow> time \<Rightarrow> string app_result" where
  "generate_download_token c s token link_id t =
     (case cx_jwt_encode c (dl_key s) (dl_claims_json
            \<lparr>dt_sub = token, dt_link_id = uuid_str link_id, dt_exp = usize (usize (timestamp t) + DOWNLOAD_TOKEN_TTL_SECS)\<rparr>) of
        Inl e \<Rightarrow> Inl (Internal (''Failed to generate download token: '' @ e))
      | Inr tok \<Rightarrow> Inr tok)"

text \<open>The default validation of the JWT library allows a leeway of 60 seconds.\<close>

definition validate_download_token ::
    "crypto \<Rightarrow> link_service \<Rightarrow> string \<Rightarrow> string \<Rightarrow> uuid \<Rightarrow> time \<Rightarrow> unit app_result" where
  "validate_download_token c s dl_token expected_token expected_link_id t =
     (case cx_jwt_decode c (dl_key s) 60 (timestamp t) dl_token of
        Inl _ \<Rightarrow> Inl (Unauthorized ''Invalid or expired download token'')
      | Inr j \<Rightarrow>
         (case dl_claims_of_json j of
            None \<Rightarrow> Inl (Unauthorized ''Invalid or expired download token'')
          | Some cl \<Rightarrow>
             (if dt_sub cl \<noteq> expected_token \<or> dt_link_id cl \<noteq> uuid_str expected_link_id
              then Inl (Unauthorized ''Download token does not match this link'')
              else Inr ())))"

definition link_verify :: "crypto \<Rightarrow> link_service \<Rightarrow> string \<Rightarrow> string \<Rightarrow> db \<Rightarrow> string app_result" where
  "link_verify c s token password d =
     (case shared_link_find_by_token token d of
        Inl e \<Rightarrow> Inl e
      | Inr l \<Rightarrow>
         (case validate_link_accessible l (now d) of
            Inl e \<Rightarrow> Inl e
          | Inr _ \<Rightarrow>
             (case sl_password_hash l of
                None \<Rightarrow> Inl (BadRequest ''This link is not password-protected'')
              | Some h \<Rightarrow>
                 (if \<not> link_verify_password c password h then Inl (Forbidden ''Wrong password'')
                  else generate_download_token c s (sl_token l) (sl_id l) (now d)))))"

text \<open>The checks of a download, made on the row as it is now.\<close>

definition admit_download ::
    "crypto \<Rightarrow> link_service \<Rightarrow> string \<Rightarrow> string option \<Rightarrow> db \<Rightarrow> shared_link app_result" where
  "admit_download c s token dl_token d =
     (case shared_link_find_by_token token d of
        Inl e \<Rightarrow> Inl e
      | Inr l \<Rightarrow>
         (case validate_link_accessible l (now d) of
            Inl e \<Rightarrow> Inl e
          | Inr _ \<Rightarrow>
             (case (if sl_password_hash l \<noteq> None
                    then (case dl_token of
                            None \<Rightarrow> Inl (Unauthorized ''Download token required for password-protected links'')
                          | Some tok \<Rightarrow> validate_download_token c s tok (sl_token l) (sl_id l) (now d))
                    else Inr ()) of
                Inl e \<Rightarrow> Inl e
              | Inr _ \<Rightarrow>
                 (if (case sl_max_downloads l of Some m \<Rightarrow> m \<le> sl_download_count l | None \<Rightarrow> False)
                  then Inl (Forbidden ''Download limit reached'')
                  else Inr l))))"

text \<open>After the data arrived: the access time of the location and the counter of the link.\<close>

definition finish_download :: "shared_link \<Rightarrow> uuid \<Rightarrow> db \<Rightarrow> unit app_result \<times> db" where
  "finish_download l loc_id d =
     (let (ok, d1) = increment_download_count (sl_id l) (snd (file_location_touch_accessed loc_id d))
      in (if ok then Inr () else Inl (Forbidden ''Download limit reached''), d1))"

definition download_via_link ::
    "'w env \<Rightarrow> crypto \<Rightarrow> link_service \<Rightarrow> registry \<Rightarrow> string \<Rightarrow> string option \<Rightarrow> db \<Rightarrow> 'w phys \<Rightarrow>
     shared_download app_result \<times> db \<times> 'w phys" where
  "download_via_link x c s reg token dl_token d w =
     (case admit_download c s token dl_token d of
        Inl e \<Rightarrow> (Inl e, d, w)
      | Inr l \<Rightarrow>
         (case file_find_by_id (sl_file_id l) d of
            Inl e \<Rightarrow> (Inl e, d, w)
          | Inr f \<Rightarrow>
             (let locs = file_location_find_for_file (sl_file_id l) d
              in if locs = [] then (Inl (NotFound ''File not available for download''), d, w)
                 else (let refs = filter (\<lambda>r. r_project_id r = sl_project_id l) (file_reference_find_by_file_id (sl_file_id l) d)
                       in case try_locations x (lk_hmac_secret s) reg d refs locs w of
                            (Inl e, w1) \<Rightarrow> (Inl e, d, w1)
                          | (Inr None, w1) \<Rightarrow>
                              (Inl (Internal (''All storage locations failed for file '' @ uuid_str (sl_file_id l))), d, w1)
                          | (Inr (Some (data, loc)), w1) \<Rightarrow>
                             (case finish_download l (l_id loc) d of
                                (Inl e, d1) \<Rightarrow> (Inl e, d1, w1)
                              | (Inr _, d1) \<Rightarrow>
                                 (Inr \<lparr>sd_data = data, sd_content_type = f_content_type f, sd_file_name = sl_original_name l,
                                       sd_file_id = sl_file_id l, sd_project_id = sl_project_id l,
                                       sd_storage_id = l_storage_id loc, sd_file_size = f_size f\<rparr>, d1, w1))))))"

definition list_links :: "uuid \<Rightarrow> db \<Rightarrow> shared_link list" where
  "list_links pid d = shared_link_list_by_project pid d"

definition deactivate_link :: "uuid \<Rightarrow> uuid \<Rightarrow> string \<Rightarrow> db \<Rightarrow> shared_link app_result \<times> db" where
  "deactivate_link link_id uid role d =
     (case shared_link_find_by_id link_id d of
        Inl e \<Rightarrow> (Inl e, d)
      | Inr l \<Rightarrow>
         (if role \<noteq> ''admin'' \<and> sl_created_by l \<noteq> uid
          then (Inl (Forbidden ''Only the link creator or an admin can deactivate this link''), d)
          else shared_link_deactivate link_id d))"

section \<open>Endpoints\<close>

record create_shared_link_request =
  lr_file_id :: uuid
  lr_password :: "string option"
  lr_expires_in_seconds :: "int option"
  lr_max_downloads :: "int option"

record shared_link_response =
  resp_link :: shared_link
  resp_password_protected :: bool

definition to_response :: "shared_link \<Rightarrow> shared_link_response" where
  "to_response l = \<lparr>resp_link = l, resp_password_protected = password_protected l\<rparr>"

definition validate_link_request :: "create_shared_link_request \<Rightarrow> unit app_result" where
  "validate_link_request body =
     (if lr_password body = Some [] then Inl (BadRequest ''Password must not be empty'')
      else if (case lr_expires_in_seconds body of Some n \<Rightarrow> n \<le> 0 | None \<Rightarrow> False)
      then Inl (BadRequest ''expires_in_seconds must be positive'')
      else if (case lr_expires_in_seconds body of Some n \<Rightarrow> 365 * 24 * 3600 < n | None \<Rightarrow> False)
      then Inl (BadRequest ''expires_in_seconds must not exceed 365 days (31536000 seconds)'')
      else if (case lr_max_downloads body of Some m \<Rightarrow> m \<le> 0 | None \<Rightarrow> False)
      then Inl (BadRequest ''max_downloads must be positive'')
      else Inr ())"

definition create_shared_link ::
    "crypto \<Rightarrow> bytes \<Rightarrow> bytes \<Rightarrow> authenticated_user \<Rightarrow> uuid \<Rightarrow> create_shared_link_request \<Rightarrow> db \<Rightarrow>
     shared_link_response app_result \<times> db" where
  "create_shared_link c rnd salt u pid body d =
     (case project_find_by_id pid d of
        Inl e \<Rightarrow> (Inl e, d)
      | Inr p \<Rightarrow>
         (case require_project_write_access u p d of
            Inl e \<Rightarrow> (Inl e, d)
          | Inr _ \<Rightarrow>
             (case validate_link_request body of
                Inl e \<Rightarrow> (Inl e, d)
              | Inr _ \<Rightarrow>
                 (case create_link c rnd salt \<lparr>cli_file_id = lr_file_id body, cli_project_id = pid, cli_user_id = au_user_id u,
                         cli_password = lr_password body,
                         cli_expires_at = map_option (\<lambda>n. now d + secs n) (lr_expires_in_seconds body),
                         cli_max_downloads = lr_max_downloads body\<rparr> d of
                    (Inl e, d1) \<Rightarrow> (Inl e, d1)
                  | (Inr l, d1) \<Rightarrow> (Inr (to_response l), d1)))))"

definition list_shared_links :: "authenticated_user \<Rightarrow> uuid \<Rightarrow> db \<Rightarrow> shared_link_response list app_result" where
  "list_shared_links u pid d =
     (case project_find_by_id pid d of
        Inl e \<Rightarrow> Inl e
      | Inr p \<Rightarrow> (case check_project_access u p d of
                    Inl e \<Rightarrow> Inl e
                  | Inr _ \<Rightarrow> Inr (map to_response (list_links pid d))))"

definition get_shared_link :: "authenticated_user \<Rightarrow> uuid \<Rightarrow> db \<Rightarrow> shared_link_response app_result" where
  "get_shared_link u link_id d =
     (case shared_link_find_by_id link_id d of
        Inl e \<Rightarrow> Inl e
      | Inr l \<Rightarrow> (if \<not> is_admin u \<and> sl_created_by l \<noteq> au_user_id u
                   then Inl (Forbidden ''Access denied: not the link creator'')
                   else Inr (to_response l)))"

definition deactivate_shared_link :: "authenticated_user \<Rightarrow> uuid \<Rightarrow> db \<Rightarrow> shared_link_response app_result \<times> db" where
  "deactivate_shared_link u link_id d =
     (case deactivate_link link_id (au_user_id u) (au_role u) d of
        (Inl e, d1) \<Rightarrow> (Inl e, d1)
      | (Inr l, d1) \<Rightarrow> (Inr (to_response l), d1))"

text \<open>The file name of the \<open>Content-Disposition\<close> header, without quotes, backslashes and line breaks.\<close>

definition safe_name :: "string \<Rightarrow> string" where
  "safe_name name = filter (\<lambda>ch. ch \<notin> {CHR 0x22, CHR 0x5C, CHR 0x0D, CHR 0x0A}) name"

definition content_disposition :: "string \<Rightarrow> string" where
  "content_disposition name = ''attachment; filename='' @ [CHR 0x22] @ safe_name name @ [CHR 0x22]"

record http_file =
  hf_content_type :: string
  hf_content_disposition :: string
  hf_body :: bytes

definition public_download ::
    "'w env \<Rightarrow> crypto \<Rightarrow> link_service \<Rightarrow> registry \<Rightarrow> string \<Rightarrow> string option \<Rightarrow> db \<Rightarrow> 'w phys \<Rightarrow>
     http_file app_result \<times> db \<times> 'w phys" where
  "public_download x c s reg token dl_token d w =
     (case download_via_link x c s reg token dl_token d w of
        (Inl e, d1, w1) \<Rightarrow> (Inl e, d1, w1)
      | (Inr res, d1, w1) \<Rightarrow>
         (Inr \<lparr>hf_content_type = sd_content_type res, hf_content_disposition = content_disposition (sd_file_name res),
               hf_body = sd_data res\<rparr>,
          access_event_record \<lparr>rae_file_id = sd_file_id res, rae_project_id = Some (sd_project_id res),
             rae_storage_id = Some (sd_storage_id res), rae_access_kind = ''shared_link_download'', rae_user_id = None,
             rae_bytes = Some (sd_file_size res)\<rparr> d1, w1))"

section \<open>What a successful download implies\<close>

text \<open>When a link may be used.\<close>

definition link_usable :: "crypto \<Rightarrow> link_service \<Rightarrow> string option \<Rightarrow> time \<Rightarrow> shared_link \<Rightarrow> bool" where
  "link_usable c s dl_token t l \<longleftrightarrow> sl_is_active l \<and> (\<forall>e. sl_expires_at l = Some e \<longrightarrow> t \<le> e) \<and> below_limit l \<and>
     (sl_password_hash l \<noteq> None \<longrightarrow>
        (\<exists>tok. dl_token = Some tok \<and> validate_download_token c s tok (sl_token l) (sl_id l) t = Inr ()))"

lemma validate_link_accessible_iff:
  "validate_link_accessible l t = Inr () \<longleftrightarrow> sl_is_active l \<and> (\<forall>e. sl_expires_at l = Some e \<longrightarrow> t \<le> e)"
  by (auto simp: validate_link_accessible_def split: option.splits)

lemma shared_link_find_by_token_Inr:
  "shared_link_find_by_token token d = Inr l \<Longrightarrow> l \<in> set (shared_links d) \<and> sl_token l = token"
  using find_Some_in_set by (fastforce simp: shared_link_find_by_token_def)

lemma admit_download_iff:
  "admit_download c s token dl_token d = Inr l \<longleftrightarrow>
     shared_link_find_by_token token d = Inr l \<and> link_usable c s dl_token (now d) l"
proof (cases "shared_link_find_by_token token d")
  case (Inr k)
  have lim: "(case sl_max_downloads k of Some m \<Rightarrow> m \<le> sl_download_count k | None \<Rightarrow> False) = (\<not> below_limit k)" for k
    by (auto simp: below_limit_def split: option.splits)
  show ?thesis
  proof (cases "validate_link_accessible k (now d)")
    case (Inr u)
    then have "sl_is_active k \<and> (\<forall>e. sl_expires_at k = Some e \<longrightarrow> now d \<le> e)"
      by (simp add: validate_link_accessible_iff [symmetric])
    with Inr \<open>shared_link_find_by_token token d = Inr k\<close> show ?thesis
      unfolding admit_download_def
      by (cases "sl_password_hash k"; cases dl_token)
        (auto simp: link_usable_def lim split: sum.splits)
  next
    case (Inl e)
    then have "\<not> (sl_is_active k \<and> (\<forall>e. sl_expires_at k = Some e \<longrightarrow> now d \<le> e))"
      by (simp add: validate_link_accessible_iff [symmetric])
    with Inl \<open>shared_link_find_by_token token d = Inr k\<close> show ?thesis
      by (auto simp: admit_download_def link_usable_def)
  qed
qed (simp add: admit_download_def)

lemma finish_download_Inr:
  assumes "finish_download l loc_id d = (Inr u, d1)" and "shared_links_ok fs ps us (shared_links d)" and "k \<in> set (shared_links d)" and "sl_id k = sl_id l"
  shows "below_limit k" "shared_links d1 = update_where (\<lambda>x. sl_id x = sl_id l)
      (\<lambda>x. x\<lparr>sl_download_count := sl_download_count x + 1, sl_last_accessed_at := Some (now d)\<rparr>) (shared_links d)"
proof -
  let ?d = "snd (file_location_touch_accessed loc_id d)"
  have frame: "shared_links ?d = shared_links d" "now ?d = now d" by (simp_all add: file_location_touch_accessed_def)
  from assms(1) have ok: "increment_download_count (sl_id l) ?d = (True, d1)"
    by (auto simp: finish_download_def split: prod.splits if_splits)
  have uniq: "x = k" if "x \<in> set (shared_links d)" "sl_id x = sl_id l" for x
    using assms(2-4) that distinct_key_unique [of sl_id "shared_links d" x k] by (simp add: shared_links_ok_def)
  from ok frame uniq show b: "below_limit k" by (auto simp: increment_download_count_def list_ex_iff)
  from ok frame have "shared_links d1 = update_where (\<lambda>x. sl_id x = sl_id l \<and> below_limit x)
      (\<lambda>x. x\<lparr>sl_download_count := sl_download_count x + 1, sl_last_accessed_at := Some (now d)\<rparr>) (shared_links d)"
    by (auto simp: increment_download_count_def)
  also have "\<dots> = update_where (\<lambda>x. sl_id x = sl_id l)
      (\<lambda>x. x\<lparr>sl_download_count := sl_download_count x + 1, sl_last_accessed_at := Some (now d)\<rparr>) (shared_links d)"
    by (rule update_where_cong) (use b uniq in auto)
  finally show "shared_links d1 = \<dots>" .
qed

lemma try_locations_from:
  "try_locations x secret reg d refs locs w = (Inr (Some (data, loc)), w1) \<Longrightarrow> loc \<in> set locs"
  by (induction locs arbitrary: w) (auto split: prod.splits option.splits)

lemma download_via_link_InrE:
  assumes "download_via_link x c s reg token dl_token d w = (Inr res, d1, w1)"
  obtains l f loc where "admit_download c s token dl_token d = Inr l" "file_find_by_id (sl_file_id l) d = Inr f"
    "loc \<in> set (file_location_find_for_file (sl_file_id l) d)" "finish_download l (l_id loc) d = (Inr (), d1)"
    "try_locations x (lk_hmac_secret s) reg d
       (filter (\<lambda>r. r_project_id r = sl_project_id l) (file_reference_find_by_file_id (sl_file_id l) d))
       (file_location_find_for_file (sl_file_id l) d) w = (Inr (Some (sd_data res, loc)), w1)"
    "sd_content_type res = f_content_type f" "sd_file_name res = sl_original_name l" "sd_file_id res = sl_file_id l"
    "sd_project_id res = sl_project_id l" "sd_storage_id res = l_storage_id loc" "sd_file_size res = f_size f"
proof -
  from assms obtain l where l: "admit_download c s token dl_token d = Inr l"
    by (auto simp: download_via_link_def split: sum.splits)
  with assms obtain f where f: "file_find_by_id (sl_file_id l) d = Inr f"
    by (auto simp: download_via_link_def split: sum.splits)
  define locs refs where "locs = file_location_find_for_file (sl_file_id l) d"
    and "refs = filter (\<lambda>r. r_project_id r = sl_project_id l) (file_reference_find_by_file_id (sl_file_id l) d)"
  obtain r wt where t: "try_locations x (lk_hmac_secret s) reg d refs locs w = (r, wt)" by fastforce
  from assms l f t obtain data loc where r: "r = Inr (Some (data, loc))"
    by (auto simp: download_via_link_def locs_def [symmetric] refs_def [symmetric] Let_def split: sum.splits option.splits if_splits)
  with assms l f t obtain d' where fin: "finish_download l (l_id loc) d = (Inr (), d')"
    and res: "res = \<lparr>sd_data = data, sd_content_type = f_content_type f, sd_file_name = sl_original_name l,
       sd_file_id = sl_file_id l, sd_project_id = sl_project_id l, sd_storage_id = l_storage_id loc, sd_file_size = f_size f\<rparr>"
    and st: "d1 = d'" "w1 = wt"
    by (auto simp: download_via_link_def locs_def [symmetric] refs_def [symmetric] Let_def split: sum.splits prod.splits if_splits)
  from t r have "loc \<in> set locs" by (auto dest: try_locations_from)
  then show ?thesis
    using that [OF l f] fin t [unfolded r] res st by (simp add: locs_def refs_def)
qed

text \<open>
  C16: a download through a link happens only under the link's conditions. When it succeeds, the token
  names a link that is active, unexpired and below its limit, and a protected link came with a download
  token for this very link; the bytes are the link's file, from a synced copy on an enabled storage; and
  the counter of this link, and of no other, goes up by one.
\<close>

theorem link_download_guarded:
  assumes "schema_ok d" and "download_via_link x c s reg token dl_token d w = (Inr res, d1, w1)"
  shows "\<exists>l \<in> set (shared_links d). sl_token l = token \<and> link_usable c s dl_token (now d) l \<and>
     sd_file_id res = sl_file_id l \<and> sd_file_name res = sl_original_name l \<and>
     (\<exists>loc \<in> set (file_locations d). l_file_id loc = sl_file_id l \<and> l_status loc = ''synced'' \<and>
        l_storage_id loc = sd_storage_id res \<and> location_enabled d loc) \<and>
     shared_links d1 = update_where (\<lambda>k. sl_id k = sl_id l)
       (\<lambda>k. k\<lparr>sl_download_count := sl_download_count k + 1, sl_last_accessed_at := Some (now d)\<rparr>) (shared_links d)"
proof -
  from assms(2) obtain l f loc where l: "admit_download c s token dl_token d = Inr l"
    and loc: "loc \<in> set (file_location_find_for_file (sl_file_id l) d)" and fin: "finish_download l (l_id loc) d = (Inr (), d1)"
    and res: "sd_file_id res = sl_file_id l" "sd_file_name res = sl_original_name l" "sd_storage_id res = l_storage_id loc"
    by (rule download_via_link_InrE) blast
  from l have "shared_link_find_by_token token d = Inr l" and u: "link_usable c s dl_token (now d) l"
    by (simp_all add: admit_download_iff)
  then have mem: "l \<in> set (shared_links d)" and tok: "sl_token l = token" using shared_link_find_by_token_Inr by blast+
  have cnt: "shared_links d1 = update_where (\<lambda>k. sl_id k = sl_id l)
       (\<lambda>k. k\<lparr>sl_download_count := sl_download_count k + 1, sl_last_accessed_at := Some (now d)\<rparr>) (shared_links d)"
    by (rule finish_download_Inr(2) [OF fin schema_okD(13) [OF assms(1)] mem refl])
  have copy: "\<exists>loc \<in> set (file_locations d). l_file_id loc = sl_file_id l \<and> l_status loc = ''synced'' \<and>
        l_storage_id loc = sd_storage_id res \<and> location_enabled d loc"
    using loc res(3) by (intro bexI [of _ loc]) (auto simp: file_location_find_for_file_def)
  show ?thesis by (intro bexI [OF _ mem] conjI; fact tok u res cnt copy)
qed

section \<open>Interleaved downloads\<close>

text \<open>
  Concurrent requests on one link service: the database, the requests that passed the checks and now
  fetch their data, and the links whose data went out. The steps are the statements of the code; a
  request may be interrupted between them by any other. Ordinary time and changes of other tables pass
  in \<open>other\<close>.
\<close>

record link_state =
  ls_db :: db
  ls_pending :: "shared_link list"
  ls_delivered :: "uuid list"

inductive link_step :: "crypto \<Rightarrow> link_service \<Rightarrow> link_state \<Rightarrow> link_state \<Rightarrow> bool" for c s where
  admit: "admit_download c s token dl_token (ls_db st) = Inr l \<Longrightarrow>
    link_step c s st (st\<lparr>ls_pending := l # ls_pending st\<rparr>)"
| deliver: "l \<in> set (ls_pending st) \<Longrightarrow> finish_download l loc_id (ls_db st) = (Inr (), d1) \<Longrightarrow>
    link_step c s st (st\<lparr>ls_db := d1, ls_pending := remove1 l (ls_pending st), ls_delivered := sl_id l # ls_delivered st\<rparr>)"
| refuse: "l \<in> set (ls_pending st) \<Longrightarrow> finish_download l loc_id (ls_db st) = (Inl e, d1) \<Longrightarrow>
    link_step c s st (st\<lparr>ls_db := d1, ls_pending := remove1 l (ls_pending st)\<rparr>)"
| fetch_failed: "l \<in> set (ls_pending st) \<Longrightarrow> link_step c s st (st\<lparr>ls_pending := remove1 l (ls_pending st)\<rparr>)"
| create: "create_shared_link c rnd salt u pid body (ls_db st) = (r, d1) \<Longrightarrow> link_step c s st (st\<lparr>ls_db := d1\<rparr>)"
| deactivate: "deactivate_shared_link u link_id (ls_db st) = (r1, d1) \<Longrightarrow> link_step c s st (st\<lparr>ls_db := d1\<rparr>)"
| other: "shared_links d1 = shared_links (ls_db st) \<Longrightarrow> schema_ok d1 \<Longrightarrow> link_step c s st (st\<lparr>ls_db := d1\<rparr>)"

inductive_cases link_stepE: "link_step c s st st'"

inductive link_reachable :: "crypto \<Rightarrow> link_service \<Rightarrow> db \<Rightarrow> link_state \<Rightarrow> bool" for c s d0 where
  init: "link_reachable c s d0 \<lparr>ls_db = d0, ls_pending = [], ls_delivered = []\<rparr>"
| step: "link_reachable c s d0 st \<Longrightarrow> link_step c s st st' \<Longrightarrow> link_reachable c s d0 st'"

text \<open>The row of a link, followed through the run.\<close>

definition counts :: "shared_link \<Rightarrow> link_state \<Rightarrow> bool" where
  "counts l st \<longleftrightarrow> schema_ok (ls_db st) \<and>
     (\<exists>k \<in> set (shared_links (ls_db st)). sl_id k = sl_id l \<and> sl_max_downloads k = sl_max_downloads l \<and>
        sl_download_count k = sl_download_count l + int (count_list (ls_delivered st) (sl_id l)) \<and>
        (\<forall>m. sl_max_downloads l = Some m \<longrightarrow> sl_download_count k \<le> m))"

lemma create_shared_link_links:
  assumes "create_shared_link c rnd salt u pid body d = (r, d1)"
  shows "set (shared_links d) \<subseteq> set (shared_links d1)" "schema_ok d \<Longrightarrow> schema_ok d1"
proof -
  have row: "set (shared_links d) \<subseteq> set (shared_links (snd (shared_link_create c rnd salt input d)))" for input
    by (auto simp: shared_link_create_def Let_def split: sum.splits)
  have link: "snd (create_link c rnd salt input d) = d \<or> (\<exists>i. snd (create_link c rnd salt input d) = snd (shared_link_create c rnd salt i d))" for input
    by (auto simp: create_link_def split: sum.splits list.splits)
  have cases: "d1 = d \<or> (\<exists>i. d1 = snd (create_link c rnd salt i d))"
    using assms by (auto simp: create_shared_link_def split: sum.splits prod.splits) (metis snd_conv)+
  then consider "d1 = d" | i where "d1 = snd (shared_link_create c rnd salt i d)" using link by metis
  note this_cases = this
  show "set (shared_links d) \<subseteq> set (shared_links d1)" using this_cases row by cases auto
  show "schema_ok d1" if "schema_ok d" using this_cases shared_link_create_schema [OF that] that by cases auto
qed

lemma deactivate_shared_link_links:
  assumes "deactivate_shared_link u link_id d = (r, d1)"
  shows "d1 = d \<or> shared_links d1 = update_where (\<lambda>l. sl_id l = link_id) (\<lambda>l. l\<lparr>sl_is_active := False\<rparr>) (shared_links d)"
    "schema_ok d \<Longrightarrow> schema_ok d1"
proof -
  have s: "d1 = d \<or> d1 = snd (shared_link_deactivate link_id d)"
    using assms by (auto simp: deactivate_shared_link_def deactivate_link_def split: sum.splits prod.splits if_splits)
  then show "d1 = d \<or> shared_links d1 = update_where (\<lambda>l. sl_id l = link_id) (\<lambda>l. l\<lparr>sl_is_active := False\<rparr>) (shared_links d)"
    by (auto simp: shared_link_deactivate_def split: option.splits)
  show "schema_ok d1" if "schema_ok d" using s shared_link_ops_schema(2) [OF that, of link_id] that by metis
qed

lemma finish_download_schema: "schema_ok d \<Longrightarrow> schema_ok (snd (finish_download l loc_id d))"
  by (simp add: finish_download_def split_beta Let_def shared_link_ops_schema file_location_touch_accessed_schema)

lemma counts_deliver:
  assumes "counts l st" and "finish_download p loc_id (ls_db st) = (Inr (), d1)"
  shows "counts l (st\<lparr>ls_db := d1, ls_pending := ps, ls_delivered := sl_id p # ls_delivered st\<rparr>)"
proof -
  let ?inc = "\<lambda>x. x\<lparr>sl_download_count := sl_download_count x + 1, sl_last_accessed_at := Some (now (ls_db st))\<rparr>"
  from assms(1) obtain k where ok: "schema_ok (ls_db st)" and k: "k \<in> set (shared_links (ls_db st))" "sl_id k = sl_id l"
    "sl_max_downloads k = sl_max_downloads l" "sl_download_count k = sl_download_count l + int (count_list (ls_delivered st) (sl_id l))"
    and b: "\<forall>m. sl_max_downloads l = Some m \<longrightarrow> sl_download_count k \<le> m" by (auto simp: counts_def)
  have ok1: "schema_ok d1" using finish_download_schema [OF ok, of p loc_id] assms(2) by simp
  show ?thesis
  proof (cases "sl_id p = sl_id l")
    case True
    with k have kp: "sl_id k = sl_id p" by simp
    note fin = finish_download_Inr [OF assms(2) schema_okD(13) [OF ok] k(1) kp]
    have "?inc k \<in> set (shared_links d1)" using k(1) kp unfolding fin(2) by (auto simp: table_simps)
    moreover have "\<forall>m. sl_max_downloads l = Some m \<longrightarrow> sl_download_count (?inc k) \<le> m"
      using fin(1) k(3) by (auto simp: below_limit_def)
    ultimately show ?thesis using ok1 k True unfolding counts_def by (intro conjI bexI [of _ "?inc k"]) simp_all
  next
    case False
    let ?d = "snd (file_location_touch_accessed loc_id (ls_db st))"
    from assms(2) have "shared_links d1 = update_where (\<lambda>x. sl_id x = sl_id p \<and> below_limit x) ?inc (shared_links (ls_db st))"
      by (auto simp: finish_download_def increment_download_count_def file_location_touch_accessed_def split: if_splits)
    then have "k \<in> set (shared_links d1)" using k(1,2) False by (auto simp: table_simps)
    with False ok1 k b show ?thesis unfolding counts_def by (intro conjI bexI [of _ k]) simp_all
  qed
qed

lemma counts_refuse:
  assumes "counts l st" and "finish_download p loc_id (ls_db st) = (Inl e, d1)"
  shows "counts l (st\<lparr>ls_db := d1, ls_pending := ps\<rparr>)"
proof -
  have "\<not> list_ex (\<lambda>x. sl_id x = sl_id p \<and> below_limit x) (shared_links (ls_db st))"
    using assms(2) by (auto simp: finish_download_def increment_download_count_def file_location_touch_accessed_def split: if_splits)
  then have "shared_links d1 = shared_links (ls_db st)"
    using assms(2)
    by (auto simp: finish_download_def increment_download_count_def file_location_touch_accessed_def list_ex_iff
        intro!: update_where_none split: if_splits)
  moreover have "schema_ok d1" using finish_download_schema [of "ls_db st" p loc_id] assms by (simp add: counts_def)
  ultimately show ?thesis using assms(1) by (simp add: counts_def)
qed

lemma counts_step:
  assumes "link_step c s st st'" and "counts l st"
  shows "counts l st'"
  using assms(1)
proof (cases rule: link_step.cases)
  case (create rnd salt u pid body r d1)
  with assms(2) create_shared_link_links [OF create(2)] show ?thesis unfolding counts_def by auto
next
  case (deactivate u link_id r1 d1)
  from deactivate_shared_link_links [OF deactivate(2)] assms(2) have ok: "schema_ok d1" by (simp add: counts_def)
  from assms(2) obtain k where k: "k \<in> set (shared_links (ls_db st))" "sl_id k = sl_id l \<and> sl_max_downloads k = sl_max_downloads l \<and>
        sl_download_count k = sl_download_count l + int (count_list (ls_delivered st) (sl_id l)) \<and>
        (\<forall>m. sl_max_downloads l = Some m \<longrightarrow> sl_download_count k \<le> m)" unfolding counts_def by blast
  have "k \<in> set (shared_links d1) \<or> k\<lparr>sl_is_active := False\<rparr> \<in> set (shared_links d1)"
    using deactivate_shared_link_links(1) [OF deactivate(2)] k(1) by (auto simp: table_simps)
  then obtain k' where "k' \<in> set (shared_links d1)" "sl_id k' = sl_id k" "sl_max_downloads k' = sl_max_downloads k"
    "sl_download_count k' = sl_download_count k" by auto
  with ok k deactivate show ?thesis unfolding counts_def by (intro conjI bexI [of _ k']) auto
next
  case (deliver p loc_id d1)
  then show ?thesis using assms(2) by (simp add: counts_deliver)
next
  case (refuse p loc_id e d1)
  then show ?thesis using assms(2) by (simp add: counts_refuse)
qed (use assms(2) in \<open>simp_all add: counts_def\<close>)

text \<open>
  C15: the download limit holds under every interleaving. However many requests run at the same time,
  and whatever else happens to links in between, the data of a link with a limit go out at most as often
  as the limit leaves: the count at the start plus the deliveries never exceeds it.
\<close>

theorem concurrent_downloads_bounded:
  assumes "link_reachable c s d0 st" and "schema_ok d0" and "l \<in> set (shared_links d0)"
    and "sl_max_downloads l = Some m" and "sl_download_count l \<le> m"
  shows "sl_download_count l + int (count_list (ls_delivered st) (sl_id l)) \<le> m"
proof -
  from assms(1) have "counts l st"
  proof induction
    case init
    show ?case unfolding counts_def using assms(2-5) by (intro conjI bexI [of _ l]) simp_all
  qed (blast intro: counts_step)
  with assms(4) show ?thesis unfolding counts_def by auto
qed

text \<open>A link to the sample file that may be used once, with a password.\<close>

definition demo_link :: shared_link where
  "demo_link = \<lparr>sl_id = 30, sl_token = ''tok'', sl_file_id = 7, sl_project_id = 2, sl_original_name = ''a.txt'',
     sl_created_by = 1, sl_password_hash = None, sl_expires_at = None, sl_max_downloads = Some 1, sl_download_count = 0,
     sl_last_accessed_at = None, sl_is_active = True, sl_created_at = 0\<rparr>"

definition demo_link_db :: db where
  "demo_link_db = demo_db\<lparr>shared_links := [demo_link]\<rparr>"

lemma schema_ok_demo_link: "schema_ok demo_link_db"
  unfolding demo_link_db_def
  by (rule schema_ok_set_leaf(8) [OF schema_ok_demo]) (simp add: shared_links_ok_def demo_link_def demo_defs)

definition demo_link_service :: link_service where
  "demo_link_service = \<lparr>lk_jwt_secret = ''j'', lk_hmac_secret = ''k''\<rparr>"

text \<open>Two requests pass the checks before either is counted; one of them is refused at the end.\<close>

theorem concurrent_downloads_bounded_witness:
  "\<exists>st. link_reachable demo_crypto demo_link_service demo_link_db st \<and> ls_delivered st = [30] \<and>
     sl_download_count demo_link + int (count_list (ls_delivered st) 30) \<le> 1"
proof -
  let ?c = demo_crypto and ?s = demo_link_service
  let ?start = "\<lparr>ls_db = demo_link_db, ls_pending = [], ls_delivered = []\<rparr>"
  have adm: "admit_download ?c ?s ''tok'' None demo_link_db = Inr demo_link"
    by (simp add: admit_download_iff shared_link_find_by_token_def ok_or_def link_usable_def below_limit_def demo_link_db_def demo_link_def)
  have fin: "\<exists>d1. finish_download demo_link 9 demo_link_db = (Inr (), d1)"
    by (simp add: finish_download_def increment_download_count_def file_location_touch_accessed_def demo_link_db_def demo_link_def
        below_limit_def)
  then obtain d1 where fin: "finish_download demo_link 9 demo_link_db = (Inr (), d1)" ..
  have r0: "link_reachable ?c ?s demo_link_db ?start" by (rule link_reachable.init)
  have r1: "link_reachable ?c ?s demo_link_db (?start\<lparr>ls_pending := [demo_link]\<rparr>)"
    using link_reachable.step [OF r0 link_step.admit [of ?c ?s "''tok''" None]] adm by simp
  have r2: "link_reachable ?c ?s demo_link_db (?start\<lparr>ls_pending := [demo_link, demo_link]\<rparr>)"
    using link_reachable.step [OF r1 link_step.admit [of ?c ?s "''tok''" None]] adm by simp
  have r3: "link_reachable ?c ?s demo_link_db (?start\<lparr>ls_db := d1, ls_pending := [demo_link], ls_delivered := [30]\<rparr>)"
    using link_reachable.step [OF r2 link_step.deliver [of demo_link _ 9]] fin by (simp add: demo_link_def)
  have "sl_id demo_link = 30" "sl_max_downloads demo_link = Some 1" "sl_download_count demo_link \<le> 1"
    "demo_link \<in> set (shared_links demo_link_db)" by (simp_all add: demo_link_def demo_link_db_def)
  with concurrent_downloads_bounded [OF r3 schema_ok_demo_link, of demo_link 1] r3 show ?thesis by auto
qed

section \<open>Download tokens\<close>

text \<open>
  C17: the password of a link opens this link and no other. When the right password was given, the token
  is accepted for this link for its lifetime of 300 seconds and the leeway of 60, and refused afterwards;
  for a link with another identifier it is always refused; an access token of an account is never
  accepted as a download token.
\<close>

theorem download_token_bound_to_link:
  assumes "jwt_law c" and "link_verify c s token password d = Inr tok"
    and "0 \<le> now d" and "timestamp (now d) + 300 < 2 ^ 64"
    and "cx_jwt_encode c (dl_key s) (claims_json cl) = Inr acc"
  shows "\<exists>l \<in> set (shared_links d). sl_token l = token \<and>
     (\<exists>h. sl_password_hash l = Some h \<and> cx_verify c password h) \<and>
     (validate_download_token c s tok token (sl_id l) t = Inr () \<longleftrightarrow> timestamp t \<le> timestamp (now d) + 360) \<and>
     (\<forall>i token'. sl_id l < 2 ^ 128 \<longrightarrow> i < 2 ^ 128 \<longrightarrow> i \<noteq> sl_id l \<longrightarrow> validate_download_token c s tok token' i t \<noteq> Inr ()) \<and>
     validate_download_token c s acc token (sl_id l) t \<noteq> Inr ()"
proof -
  let ?iat = "timestamp (now d)"
  from assms(2) obtain l h where find: "shared_link_find_by_token token d = Inr l" and h: "sl_password_hash l = Some h"
    and pw: "link_verify_password c password h" and gen: "generate_download_token c s (sl_token l) (sl_id l) (now d) = Inr tok"
    by (auto simp: link_verify_def split: sum.splits option.splits if_splits)
  from find have l: "l \<in> set (shared_links d)" "sl_token l = token" using shared_link_find_by_token_Inr by blast+
  define cls where "cls = \<lparr>dt_sub = token, dt_link_id = uuid_str (sl_id l), dt_exp = ?iat + 300\<rparr>"
  have t0: "0 \<le> ?iat" using assms(3) by (simp add: timestamp_def)
  then have "usize (usize ?iat + DOWNLOAD_TOKEN_TTL_SECS) = ?iat + 300"
    using assms(4) by (simp add: usize_def DOWNLOAD_TOKEN_TTL_SECS_def)
  with gen l(2) have enc: "cx_jwt_encode c (dl_key s) (dl_claims_json cls) = Inr tok"
    by (auto simp: generate_download_token_def cls_def split: sum.splits)
  have ex: "json_get (dl_claims_json cls) ''exp'' = Some (JNum (?iat + 300))" by (simp add: dl_claims_json_def cls_def)
  have cl: "dl_claims_of_json (dl_claims_json cls) = Some cls"
    using t0 assms(4) by (simp add: dl_claims_of_json_def dl_claims_json_def cls_def)
  note dec = jwt_law_decode [OF assms(1) ex enc, of "timestamp t" 60]
  note old = jwt_law_expired [OF assms(1) ex enc, of "timestamp t" 60]
  have val: "validate_download_token c s tok token' i t = Inr () \<longleftrightarrow>
      timestamp t \<le> ?iat + 360 \<and> token' = token \<and> uuid_str i = uuid_str (sl_id l)" for token' i
  proof (cases "timestamp t \<le> ?iat + 360")
    case True
    with dec have "cx_jwt_decode c (dl_key s) 60 (timestamp t) tok = Inr (dl_claims_json cls)" by simp
    with True cl show ?thesis by (auto simp: validate_download_token_def cls_def)
  qed (use old in \<open>auto simp: validate_download_token_def\<close>)
  have acc: "validate_download_token c s acc token i t \<noteq> Inr ()" for i
  proof -
    have ge: "json_get (claims_json cl) ''exp'' = Some (JNum (cl_exp cl))" by (simp add: claims_json_def)
    have "dl_claims_of_json (claims_json cl) = None" by (simp add: dl_claims_of_json_def claims_json_def)
    with jwt_law_decode [OF assms(1) ge assms(5), of "timestamp t" 60] jwt_law_expired [OF assms(1) ge assms(5), of "timestamp t" 60]
    show ?thesis by (cases "timestamp t - 60 \<le> cl_exp cl") (auto simp: validate_download_token_def)
  qed
  have "cx_verify c password h" using pw by (simp add: link_verify_password_def split: if_splits)
  then show ?thesis using l h val acc uuid_str_inj by (intro bexI [OF _ l(1)]) auto
qed

section \<open>Sample requests\<close>

definition demo_link_disk :: "unit phys" where
  "demo_link_disk = \<lparr>ph_fs = [([''data'', ''pics-000000'', ''ab'', ''cd'', ''abcdef''], Contents [7, 8, 9])], ph_net = ()\<rparr>"

lemma demo_link_fetch:
  "try_locations demo_env ''k'' demo_registry demo_link_db [demo_reference] [demo_location] demo_link_disk =
     (Inr (Some ([7, 8, 9], demo_location)), demo_link_disk)"
  by code_simp

lemma demo_link_lookups:
  "file_find_by_id 7 demo_link_db = Inr demo_file" "file_location_find_for_file 7 demo_link_db = [demo_location]"
  "filter (\<lambda>r. r_project_id r = 2) (file_reference_find_by_file_id 7 demo_link_db) = [demo_reference]"
  "admit_download c s ''tok'' None demo_link_db = Inr demo_link"
proof -
  show "file_find_by_id 7 demo_link_db = Inr demo_file" "file_location_find_for_file 7 demo_link_db = [demo_location]"
    "filter (\<lambda>r. r_project_id r = 2) (file_reference_find_by_file_id 7 demo_link_db) = [demo_reference]"
    by code_simp+
  show "admit_download c s ''tok'' None demo_link_db = Inr demo_link"
    by (simp add: admit_download_iff shared_link_find_by_token_def ok_or_def link_usable_def below_limit_def demo_link_db_def demo_link_def)
qed

theorem link_download_guarded_witness:
  "\<exists>res d1. download_via_link demo_env demo_crypto demo_link_service demo_registry ''tok'' None demo_link_db demo_link_disk =
       (Inr res, d1, demo_link_disk) \<and> sd_data res = [7, 8, 9] \<and> map sl_download_count (shared_links d1) = [1]"
proof -
  obtain d1 where fin: "finish_download demo_link 9 demo_link_db = (Inr (), d1)"
    by (simp add: finish_download_def increment_download_count_def file_location_touch_accessed_def demo_link_db_def demo_link_def
        below_limit_def)
  have flds: "sl_file_id demo_link = 7" "sl_project_id demo_link = 2" "l_id demo_location = 9" "lk_hmac_secret demo_link_service = ''k''"
    by (simp_all add: demo_link_def demo_location_def demo_link_service_def)
  obtain res where run: "download_via_link demo_env demo_crypto demo_link_service demo_registry ''tok'' None demo_link_db demo_link_disk =
       (Inr res, d1, demo_link_disk)" "sd_data res = [7, 8, 9]"
    by (simp add: download_via_link_def demo_link_lookups flds demo_link_fetch fin Let_def del: try_locations.simps)
  from link_download_guarded [OF schema_ok_demo_link run(1)] have "map sl_download_count (shared_links d1) = [1]"
    by (auto simp: demo_link_db_def demo_link_def update_where_def)
  with run show ?thesis by (intro exI [of _ res] exI [of _ d1] conjI)
qed

theorem download_token_bound_to_link_witness:
  "\<exists>tok. link_verify demo_crypto demo_link_service ''tok'' ''pw'' (demo_db\<lparr>shared_links := [demo_link\<lparr>sl_password_hash := Some ''hpw''\<rparr>]\<rparr>) = Inr tok \<and>
     validate_download_token demo_crypto demo_link_service tok ''tok'' 30 (secs 360) = Inr () \<and>
     validate_download_token demo_crypto demo_link_service tok ''tok'' 31 (secs 1) \<noteq> Inr ()"
proof -
  let ?d = "demo_db\<lparr>shared_links := [demo_link\<lparr>sl_password_hash := Some ''hpw''\<rparr>]\<rparr>"
  let ?cl = "\<lparr>cl_sub = [], cl_role = [], cl_exp = 0\<rparr>"
  have t: "now ?d = 0" "timestamp (now ?d) + 300 < 2 ^ 64" by (simp_all add: demo_defs timestamp_def)
  obtain acc where acc: "cx_jwt_encode demo_crypto (dl_key demo_link_service) (claims_json ?cl) = Inr acc"
    by (simp add: demo_crypto_def)
  have pw: "link_verify_password demo_crypto ''pw'' ''hpw''" by (simp add: link_verify_password_def demo_crypto_def)
  have gen: "\<exists>tok. generate_download_token demo_crypto s tk i t = Inr tok" for s tk i t
    by (simp add: generate_download_token_def demo_crypto_def)
  from gen [of demo_link_service "''tok''" 30 "now demo_db"] obtain tok where tok: "link_verify demo_crypto demo_link_service ''tok'' ''pw'' ?d = Inr tok"
    by (auto simp: link_verify_def shared_link_find_by_token_def ok_or_def validate_link_accessible_def demo_link_def pw)
  note thm1 = download_token_bound_to_link [OF demo_crypto_laws(2) tok _ t(2) acc]
  from thm1 [of "secs 360"] thm1 [of "secs 1"] tok t(1) show ?thesis
    by (auto simp: demo_link_def timestamp_def secs_def)
qed

end
