(* ===== verification/Api_Files.thy ===== *)
theory Api_Files
  imports Bulk Uploads Shared_Links
begin

text \<open>
  The endpoints for files (\<open>src/api/files.rs\<close>) and the paging parameters (\<open>src/api/mod.rs\<close>). A handler
  takes the authenticated user and returns the body of the response or the error, and the changed state.
  The JSON parser, the archive library and the format of a date are parameters; a multipart request is
  the list of its fields. Shown: the synchronisation status of a file, the names in a bulk archive, that
  reading endpoints let members only through, and that signed links to a local storage are never served
  from the containers of the projects.
\<close>

section \<open>Paging\<close>

record pagination_params =
  pp_page :: "int option"
  pp_per_page :: "int option"

definition page_limit :: "pagination_params \<Rightarrow> int" where
  "page_limit q = clamp_i64 1 1000 (unwrap_or 50 (pp_per_page q))"

definition page_offset :: "pagination_params \<Rightarrow> int" where
  "page_offset q = sat_i64 (sat_i64 (max (unwrap_or 1 (pp_page q)) 1 - 1) * page_limit q)"

section \<open>Synchronisation details\<close>

record storage_sync_detail =
  sd2_storage_id :: uuid
  sd2_storage_name :: string
  sd2_storage_type :: string
  sd2_status :: string
  sd2_storage_path :: "string option"
  sd2_direct_links :: bool
  sd2_is_hot :: bool
  sd2_synced_at :: "time option"

record file_reference_with_sync =
  frs_file_ref :: file_reference
  frs_file_size :: int
  frs_sync_status :: string
  frs_synced_storages :: int
  frs_total_storages :: int
  frs_sync_details :: "storage_sync_detail list"

definition sync_detail :: "file_location list \<Rightarrow> storage \<Rightarrow> storage_sync_detail" where
  "sync_detail all_locations ps =
     (let (status, synced_at, storage_path) =
        (case find (\<lambda>l. l_storage_id l = s_id ps) all_locations of
           Some l \<Rightarrow> (l_status l, l_synced_at l, Some (l_storage_path l))
         | None \<Rightarrow> (''not_synced'', None, None))
      in \<lparr>sd2_storage_id = s_id ps, sd2_storage_name = s_name ps, sd2_storage_type = s_type ps, sd2_status = status,
          sd2_storage_path = storage_path, sd2_direct_links = s_direct_links ps, sd2_is_hot = s_is_hot ps,
          sd2_synced_at = synced_at\<rparr>)"

definition synced_count :: "file_location list \<Rightarrow> storage list \<Rightarrow> int" where
  "synced_count all_locations ps =
     count_where (\<lambda>s. case find (\<lambda>l. l_storage_id l = s_id s) all_locations of
                        Some l \<Rightarrow> l_status l = ''synced'' | None \<Rightarrow> False) ps"

definition enrich_reference :: "storage list \<Rightarrow> db \<Rightarrow> file_reference \<Rightarrow> file_reference_with_sync" where
  "enrich_reference pss d file_ref =
     (let total_storages = int (length pss);
          file_size = (case file_find_by_id (r_file_id file_ref) d of Inr f \<Rightarrow> f_size f | Inl _ \<Rightarrow> 0);
          all_locations = file_location_find_all_for_file (r_file_id file_ref) d;
          synced = synced_count all_locations pss;
          sync_status = (if total_storages = 0 then ''no_storage''
                         else if total_storages \<le> synced then ''synced''
                         else if 0 < synced then ''partial''
                         else ''pending'')
      in \<lparr>frs_file_ref = file_ref, frs_file_size = file_size, frs_sync_status = sync_status,
          frs_synced_storages = synced, frs_total_storages = total_storages,
          frs_sync_details = map (sync_detail all_locations) pss\<rparr>)"

definition enrich_file_references :: "uuid \<Rightarrow> file_reference list \<Rightarrow> db \<Rightarrow> file_reference_with_sync list" where
  "enrich_file_references pid refs d = map (enrich_reference (storage_list_for_project pid d) d) refs"

section \<open>Upload\<close>

record multipart_field =
  mf_name :: "string option"
  mf_content_type :: "string option"
  mf_filename :: "string option"
  mf_chunks :: "(string + bytes) list"

text \<open>Reading a field: without a limit, and with the limit of the metadata field.\<close>

fun read_field :: "bytes \<Rightarrow> (string + bytes) list \<Rightarrow> bytes app_result" where
  "read_field buf [] = Inr buf"
| "read_field buf (Inl e # cs) = Inl (BadRequest (''Multipart read error: '' @ e))"
| "read_field buf (Inr bs # cs) = read_field (buf @ bs) cs"

definition MAX_METADATA_SIZE :: nat where
  "MAX_METADATA_SIZE = 1048576"

fun read_metadata_field :: "bytes \<Rightarrow> (string + bytes) list \<Rightarrow> bytes app_result" where
  "read_metadata_field buf [] = Inr buf"
| "read_metadata_field buf (Inl e # cs) = Inl (BadRequest (''Multipart read error: '' @ e))"
| "read_metadata_field buf (Inr bs # cs) =
     (if MAX_METADATA_SIZE < length (buf @ bs) then Inl (BadRequest ''Metadata field too large (max 1 MB)'')
      else read_metadata_field (buf @ bs) cs)"

definition parse_metadata_field :: "(string \<Rightarrow> string + json) \<Rightarrow> (string + bytes) list \<Rightarrow> json app_result" where
  "parse_metadata_field from_str cs =
     (case read_metadata_field [] cs of
        Inl e \<Rightarrow> Inl e
      | Inr buf \<Rightarrow>
         (case from_utf8 buf of
            None \<Rightarrow> Inl (BadRequest ''Metadata must be valid UTF-8'')
          | Some s \<Rightarrow>
             (case from_str s of
                Inl e \<Rightarrow> Inl (BadRequest (''Invalid metadata JSON: '' @ e))
              | Inr v \<Rightarrow> (case validate_flat_metadata v of Inl e \<Rightarrow> Inl e | Inr _ \<Rightarrow> Inr v))))"

text \<open>The loop over the fields; an element is an error of the multipart reader or a field.\<close>

fun read_multipart ::
    "(string \<Rightarrow> string + json) \<Rightarrow> (string + multipart_field) list \<Rightarrow> (string \<times> string \<times> bytes) option \<Rightarrow> json \<Rightarrow>
     ((string \<times> string \<times> bytes) option \<times> json) app_result" where
  "read_multipart from_str [] file_data metadata = Inr (file_data, metadata)"
| "read_multipart from_str (Inl e # fs) file_data metadata = Inl (BadRequest (''Multipart error: '' @ e))"
| "read_multipart from_str (Inr f # fs) file_data metadata =
     (if unwrap_or [] (mf_name f) = ''metadata''
      then (case parse_metadata_field from_str (mf_chunks f) of
              Inl e \<Rightarrow> Inl e
            | Inr v \<Rightarrow> read_multipart from_str fs file_data v)
      else if file_data \<noteq> None then read_multipart from_str fs file_data metadata
      else (case read_field [] (mf_chunks f) of
              Inl e \<Rightarrow> Inl e
            | Inr data \<Rightarrow> read_multipart from_str fs
                (Some (unwrap_or ''unnamed'' (mf_filename f), unwrap_or ''application/octet-stream'' (mf_content_type f), data)) metadata))"

definition api_upload_file ::
    "'w env \<Rightarrow> (string \<Rightarrow> string + json) \<Rightarrow> string \<Rightarrow> registry \<Rightarrow> authenticated_user \<Rightarrow> uuid \<Rightarrow>
     (string + multipart_field) list \<Rightarrow> db \<Rightarrow> 'w phys \<Rightarrow> upload_result app_result \<times> db \<times> 'w phys" where
  "api_upload_file x from_str secret reg u pid payload d w =
     (case require_write u pid d of
        Inl e \<Rightarrow> (Inl e, d, w)
      | Inr _ \<Rightarrow>
         (case read_multipart from_str payload None (JObj []) of
            Inl e \<Rightarrow> (Inl e, d, w)
          | Inr (None, _) \<Rightarrow> (Inl (BadRequest ''No file provided''), d, w)
          | Inr (Some (filename, content_type, data), metadata) \<Rightarrow>
              upload_file x secret reg pid filename content_type data metadata d w))"

section \<open>Reading\<close>

text \<open>Read access to a project: administrators, the owner and the members.\<close>

definition require_member :: "authenticated_user \<Rightarrow> uuid \<Rightarrow> db \<Rightarrow> project app_result" where
  "require_member u pid d =
     (case project_find_by_id pid d of
        Inl e \<Rightarrow> Inl e
      | Inr p \<Rightarrow>
         (if \<not> is_admin u \<and> \<not> is_owner u (p_owner_id p) \<and> \<not> user_project_is_member (au_user_id u) pid d
          then Inl (Forbidden ''Access denied: not a member'')
          else Inr p))"

definition list_project_files ::
    "authenticated_user \<Rightarrow> uuid \<Rightarrow> pagination_params \<Rightarrow> db \<Rightarrow> file_reference_with_sync list app_result" where
  "list_project_files u pid q d =
     (case require_member u pid d of
        Inl e \<Rightarrow> Inl e
      | Inr _ \<Rightarrow> Inr (enrich_file_references pid
          (file_reference_list_for_project pid (page_limit q) (page_offset q) d) d))"

record file_metadata =
  fm_file :: file_row
  fm_locations :: "file_location list"
  fm_references :: "file_reference list"

definition get_file_metadata :: "authenticated_user \<Rightarrow> uuid \<Rightarrow> db \<Rightarrow> file_metadata app_result" where
  "get_file_metadata u fid d =
     (case check_file_access fid u d of
        Inl e \<Rightarrow> Inl e
      | Inr _ \<Rightarrow>
         (case file_find_by_id fid d of
            Inl e \<Rightarrow> Inl e
          | Inr f \<Rightarrow> Inr \<lparr>fm_file = f, fm_locations = file_location_find_all_for_file fid d,
              fm_references = order_desc r_created_at (filter (\<lambda>r. r_file_id r = fid) (file_references d))\<rparr>))"

record file_response =
  fr_content_type :: string
  fr_content_disposition :: "string option"
  fr_body :: bytes

definition api_download_file ::
    "'w env \<Rightarrow> string \<Rightarrow> registry \<Rightarrow> authenticated_user \<Rightarrow> uuid \<Rightarrow> db \<Rightarrow> 'w phys \<Rightarrow> file_response app_result \<times> db \<times> 'w phys" where
  "api_download_file x secret reg u fid d w =
     (case check_file_access fid u d of
        Inl e \<Rightarrow> (Inl e, d, w)
      | Inr _ \<Rightarrow>
         (case download_file x secret reg fid d w of
            (Inl e, d1, w1) \<Rightarrow> (Inl e, d1, w1)
          | (Inr res, d1, w1) \<Rightarrow>
             (let project_id = map_option r_project_id
                    (head_opt (order_desc r_created_at (filter (\<lambda>r. r_file_id r = fid) (file_references d1))))
              in (Inr \<lparr>fr_content_type = dr_content_type res,
                       fr_content_disposition = map_option content_disposition (dr_original_name res),
                       fr_body = dr_data res\<rparr>,
                  access_event_record \<lparr>rae_file_id = fid, rae_project_id = project_id, rae_storage_id = None,
                    rae_access_kind = ''download'', rae_user_id = Some (au_user_id u),
                    rae_bytes = Some (f_size (dr_file res))\<rparr> d1, w1))))"

record temp_link_query =
  tq_expires_in :: "nat option"
  tq_direct_only :: "bool option"
  tq_storage_id :: "uuid option"

definition get_temp_link ::
    "'w env \<Rightarrow> string \<Rightarrow> registry \<Rightarrow> authenticated_user \<Rightarrow> uuid \<Rightarrow> temp_link_query \<Rightarrow> db \<Rightarrow> 'w phys \<Rightarrow>
     (temp_link list \<times> nat) app_result \<times> db \<times> 'w phys" where
  "get_temp_link x secret reg u fid q d w =
     (case check_file_access fid u d of
        Inl e \<Rightarrow> (Inl e, d, w)
      | Inr _ \<Rightarrow>
         (let expires_in = min (unwrap_or 3600 (tq_expires_in q)) 86400;
              direct_only = unwrap_or False (tq_direct_only q)
          in case generate_temp_links x secret reg fid expires_in direct_only (tq_storage_id q) d w of
               (Inl e, d1, w1) \<Rightarrow> (Inl e, d1, w1)
             | (Inr links, d1, w1) \<Rightarrow> (Inr (links, expires_in), d1, w1)))"

section \<open>Changing\<close>

definition delete_file_reference :: "authenticated_user \<Rightarrow> uuid \<Rightarrow> uuid \<Rightarrow> db \<Rightarrow> unit app_result \<times> db" where
  "delete_file_reference u fid pid d =
     (case require_write u pid d of
        Inl e \<Rightarrow> (Inl e, d)
      | Inr _ \<Rightarrow> file_reference_delete_by_file_and_project fid pid d)"

definition api_restore_file :: "authenticated_user \<Rightarrow> uuid \<Rightarrow> db \<Rightarrow> sync_task app_result \<times> db" where
  "api_restore_file u fid d =
     (case check_file_write_access fid u d of
        Inl e \<Rightarrow> (Inl e, d)
      | Inr _ \<Rightarrow> restore_file fid d)"

definition force_sync_to_storage :: "authenticated_user \<Rightarrow> uuid \<Rightarrow> uuid \<Rightarrow> uuid \<Rightarrow> db \<Rightarrow> sync_task app_result \<times> db" where
  "force_sync_to_storage u fid target pid d =
     (case check_file_write_access fid u d of
        Inl e \<Rightarrow> (Inl e, d)
      | Inr _ \<Rightarrow>
         (case find (\<lambda>l. l_status l = ''synced'' \<and> l_storage_id l \<noteq> target) (file_location_find_all_for_file fid d) of
            None \<Rightarrow> (Inl (NotFound ''No synced source storage found for this file''), d)
          | Some source \<Rightarrow> sync_task_create \<lparr>ct_file_id = fid, ct_source = l_storage_id source, ct_target = target,
                              ct_project_id = Some pid\<rparr> d))"

section \<open>Search\<close>

record metadata_search_request =
  msr_filters :: "metadata_filter option"
  msr_page :: "int option"
  msr_per_page :: "int option"
  msr_name_contains :: "string option"
  msr_created_after :: "time option"
  msr_created_before :: "time option"

definition request_extras :: "metadata_search_request \<Rightarrow> search_extras" where
  "request_extras q =
     \<lparr>se_name_contains = (case msr_name_contains q of
                            None \<Rightarrow> None
                          | Some s \<Rightarrow> if trim s = [] then None else Some (trim s)),
      se_created_after = msr_created_after q, se_created_before = msr_created_before q\<rparr>"

record enriched_search_result =
  esr_results :: "file_reference_with_sync list"
  esr_total :: int
  esr_page :: int
  esr_per_page :: int

definition search_files :: "authenticated_user \<Rightarrow> uuid \<Rightarrow> metadata_search_request \<Rightarrow> db \<Rightarrow> enriched_search_result app_result" where
  "search_files u pid q d =
     (case require_member u pid d of
        Inl e \<Rightarrow> Inl e
      | Inr _ \<Rightarrow>
         (case search_by_metadata pid (msr_filters q) (request_extras q) (unwrap_or 1 (msr_page q)) (unwrap_or 50 (msr_per_page q)) d of
            Inl e \<Rightarrow> Inl e
          | Inr raw \<Rightarrow> Inr \<lparr>esr_results = enrich_file_references pid (sr_results raw) d, esr_total = sr_total raw,
              esr_page = sr_page raw, esr_per_page = sr_per_page raw\<rparr>))"

definition api_search_summary :: "authenticated_user \<Rightarrow> uuid \<Rightarrow> metadata_search_request \<Rightarrow> db \<Rightarrow> search_summary app_result" where
  "api_search_summary u pid q d =
     (case require_member u pid d of
        Inl e \<Rightarrow> Inl e
      | Inr _ \<Rightarrow> search_summary_for pid (msr_filters q) (request_extras q) d)"

definition list_metadata_keys :: "authenticated_user \<Rightarrow> uuid \<Rightarrow> db \<Rightarrow> string list app_result" where
  "list_metadata_keys u pid d =
     (case require_member u pid d of
        Inl e \<Rightarrow> Inl e
      | Inr _ \<Rightarrow> distinct_metadata_keys pid d)"

section \<open>Bulk download and bulk delete\<close>

definition BULK_DOWNLOAD_MAX_FILES :: nat where
  "BULK_DOWNLOAD_MAX_FILES = 500"

definition BULK_DOWNLOAD_MAX_BYTES :: int where
  "BULK_DOWNLOAD_MAX_BYTES = 500 * 1024 * 1024"

text \<open>The name of an entry: the first use of a name is kept, later uses are numbered.\<close>

definition entry_name :: "string \<Rightarrow> (string \<rightharpoonup> nat) \<Rightarrow> string \<times> (string \<rightharpoonup> nat)" where
  "entry_name base seen =
     (let count = (case seen base of None \<Rightarrow> 0 | Some n \<Rightarrow> n) + 1
      in (if count = 1 then base
          else (case rsplit_once (CHR ''.'') base of
                  Some (stem, ext) \<Rightarrow> stem @ '' ('' @ nat_str (count - 1) @ '').'' @ ext
                | None \<Rightarrow> base @ '' ('' @ nat_str (count - 1) @ '')''),
          seen(base \<mapsto> count)))"

fun archive_entries ::
    "'w env \<Rightarrow> 't tar \<Rightarrow> string \<Rightarrow> registry \<Rightarrow> authenticated_user \<Rightarrow> uuid \<Rightarrow> file_reference list \<Rightarrow> (string \<rightharpoonup> nat) \<Rightarrow> 't \<Rightarrow>
     db \<Rightarrow> 'w phys \<Rightarrow> 't app_result \<times> db \<times> 'w phys" where
  "archive_entries x t secret reg u pid [] seen ar d w = (Inr ar, d, w)"
| "archive_entries x t secret reg u pid (r # rs) seen ar d w =
     (case download_file x secret reg (r_file_id r) d w of
        (Inl _, d1, w1) \<Rightarrow> archive_entries x t secret reg u pid rs seen ar d1 w1
      | (Inr res, d1, w1) \<Rightarrow>
         (let d2 = access_event_record \<lparr>rae_file_id = r_file_id r, rae_project_id = Some pid, rae_storage_id = None,
                     rae_access_kind = ''bulk_download'', rae_user_id = Some (au_user_id u),
                     rae_bytes = Some (f_size (dr_file res))\<rparr> d1;
              (name, seen1) = entry_name (r_original_name r) seen
          in case tar_append t name (nat (now d div 1000000)) (dr_data res) ar of
               Inl e \<Rightarrow> (Inl (Internal (''Archive write error: '' @ e)), d2, w1)
             | Inr ar1 \<Rightarrow> archive_entries x t secret reg u pid rs seen1 ar1 d2 w1))"

definition bulk_download ::
    "'w env \<Rightarrow> 't tar \<Rightarrow> (time \<Rightarrow> string) \<Rightarrow> string \<Rightarrow> registry \<Rightarrow> authenticated_user \<Rightarrow> uuid \<Rightarrow> metadata_search_request \<Rightarrow>
     db \<Rightarrow> 'w phys \<Rightarrow> (string \<times> bytes) app_result \<times> db \<times> 'w phys" where
  "bulk_download x t fmt_time secret reg u pid q d w =
     (case require_member u pid d of
        Inl e \<Rightarrow> (Inl e, d, w)
      | Inr _ \<Rightarrow>
         (case search_all_for_filter pid (msr_filters q) (request_extras q) d of
            Inl e \<Rightarrow> (Inl e, d, w)
          | Inr (refs, total_size) \<Rightarrow>
             (if refs = [] then (Inl (BadRequest ''No files match the provided filters''), d, w)
              else if BULK_DOWNLOAD_MAX_FILES < length refs
              then (Inl (BadRequest (''Too many files in result set: '' @ nat_str (length refs) @ '' (max '' @
                      nat_str BULK_DOWNLOAD_MAX_FILES @ ''). Refine your filters.'')), d, w)
              else if BULK_DOWNLOAD_MAX_BYTES < total_size
              then (Inl (BadRequest (''Total size '' @ int_str total_size @ '' bytes exceeds limit '' @
                      int_str BULK_DOWNLOAD_MAX_BYTES @ '' bytes. Refine your filters.'')), d, w)
              else (case archive_entries x t secret reg u pid refs Map.empty (tar_new t) d w of
                      (Inl e, d1, w1) \<Rightarrow> (Inl e, d1, w1)
                    | (Inr ar, d1, w1) \<Rightarrow>
                       (case tar_into_inner t ar of
                          Inl e \<Rightarrow> (Inl (Internal (''Archive finalize error: '' @ e)), d1, w1)
                        | Inr gz \<Rightarrow>
                           (case tar_finish t gz of
                              Inl e \<Rightarrow> (Inl (Internal (''Archive gzip error: '' @ e)), d1, w1)
                            | Inr bytes \<Rightarrow> (Inr (''search-results-'' @ fmt_time (now d1) @ ''.tar.gz'', bytes), d1, w1)))))))"

definition api_bulk_delete_preview ::
    "authenticated_user \<Rightarrow> uuid \<Rightarrow> bulk_delete_filters \<Rightarrow> db \<Rightarrow> bulk_delete_preview app_result" where
  "api_bulk_delete_preview u pid filters d =
     (case require_write u pid d of
        Inl e \<Rightarrow> Inl e
      | Inr _ \<Rightarrow>
         (if \<not> has_any_filter filters then Inl (BadRequest ''At least one filter is required for bulk delete'')
          else preview_bulk_delete pid filters d))"

definition api_bulk_delete ::
    "'w env \<Rightarrow> registry \<Rightarrow> authenticated_user \<Rightarrow> uuid \<Rightarrow> bulk_delete_filters \<Rightarrow> db \<Rightarrow> 'w phys \<Rightarrow>
     bulk_delete_result app_result \<times> db \<times> 'w phys" where
  "api_bulk_delete x reg u pid filters d w =
     (case require_write u pid d of
        Inl e \<Rightarrow> (Inl e, d, w)
      | Inr _ \<Rightarrow>
         (if \<not> has_any_filter filters then (Inl (BadRequest ''At least one filter is required for bulk delete''), d, w)
          else bulk_delete x reg pid filters d w))"

section \<open>Signed links to local storages\<close>

definition local_link_location :: "string \<Rightarrow> db \<Rightarrow> file_location option" where
  "local_link_location path d =
     find (\<lambda>l. l_storage_path l = path \<and> l_status l = ''synced'' \<and>
        (case location_storage l d of Some s \<Rightarrow> s_enabled s \<and> s_type s = ''local'' | None \<Rightarrow> False)) (file_locations d)"

definition download_local_temp ::
    "'w env \<Rightarrow> string \<Rightarrow> registry \<Rightarrow> string \<Rightarrow> nat \<Rightarrow> string \<Rightarrow> db \<Rightarrow> 'w phys \<Rightarrow> (string \<times> bytes) app_result \<times> db" where
  "download_local_temp x secret reg path expires sig d w =
     (if expires < nat (now d div 1000000) then (Inl (Unauthorized ''Download link has expired''), d)
      else if \<not> constant_time_eq
           (str_bytes (hex_encode (x_hmac x (str_bytes secret) (str_bytes (path @ '':'' @ nat_str expires))))) (str_bytes sig)
      then (Inl (Unauthorized ''Invalid download link signature''), d)
      else (case local_link_location path d of
              None \<Rightarrow> (Inl (NotFound ''File not found''), d)
            | Some location \<Rightarrow>
               (case registry_get (l_storage_id location) reg of
                  Inl e \<Rightarrow> (Inl e, d)
                | Inr b \<Rightarrow>
                   (case be_download x b path w of
                      Inl e \<Rightarrow> (Inl e, d)
                    | Inr data \<Rightarrow>
                       (case file_find_by_id (l_file_id location) d of
                          Inl e \<Rightarrow> (Inl e, d)
                        | Inr file \<Rightarrow>
                           (Inr (f_content_type file, data),
                            access_event_record \<lparr>rae_file_id = l_file_id location, rae_project_id = None,
                              rae_storage_id = Some (l_storage_id location), rae_access_kind = ''download'',
                              rae_user_id = None, rae_bytes = Some (f_size file)\<rparr>
                              (snd (file_location_touch_accessed (l_id location) d))))))))"

section \<open>The synchronisation status\<close>

definition has_copy :: "db \<Rightarrow> uuid \<Rightarrow> storage \<Rightarrow> bool" where
  "has_copy d fid s \<longleftrightarrow> (\<exists>l \<in> set (file_locations d). l_file_id l = fid \<and> l_storage_id l = s_id s \<and> l_status l = ''synced'')"

lemma synced_count_exact:
  assumes "schema_ok d"
  shows "synced_count (file_location_find_all_for_file fid d) ss = count_where (has_copy d fid) ss"
proof -
  have dist: "distinct (map (\<lambda>l. (l_file_id l, l_storage_id l)) (file_locations d))"
    using schema_okD(6) [OF assms] by (simp add: file_locations_ok_def)
  have "(case find (\<lambda>l. l_storage_id l = i) (file_location_find_all_for_file fid d) of Some l \<Rightarrow> l_status l = ''synced'' | None \<Rightarrow> False) \<longleftrightarrow>
      (\<exists>l \<in> set (file_locations d). l_file_id l = fid \<and> l_storage_id l = i \<and> l_status l = ''synced'')" for i
  proof (cases "find (\<lambda>l. l_storage_id l = i) (file_location_find_all_for_file fid d)")
    case None
    moreover from None have "\<forall>l \<in> set (file_locations d). l_file_id l = fid \<longrightarrow> l_storage_id l \<noteq> i"
      by (auto simp: find_None_all file_location_find_all_for_file_def)
    ultimately show ?thesis by auto
  next
    case (Some l)
    with find_Some_in_set [OF Some] have l: "l \<in> set (file_locations d)" "l_file_id l = fid" "l_storage_id l = i"
      by (auto simp: file_location_find_all_for_file_def)
    then have "l' = l" if "l' \<in> set (file_locations d)" "l_file_id l' = fid" "l_storage_id l' = i" for l'
      using distinct_key_unique [OF dist that(1) l(1)] that by simp
    with l show ?thesis unfolding Some option.case by blast
  qed
  then show ?thesis by (simp add: synced_count_def count_where_def has_copy_def [abs_def])
qed

text \<open>
  the status a client sees for a file is the state of the database: the number of storages of the
  project that hold a synced copy, and \<open>synced\<close> exactly when all of them do, \<open>partial\<close> when some but not
  all, \<open>pending\<close> when none, \<open>no_storage\<close> when the project has no storage.
\<close>

theorem sync_status_exact:
  assumes "schema_ok d" and "e \<in> set (enrich_file_references pid refs d)" and "ss = storage_list_for_project pid d"
    and "fid = r_file_id (frs_file_ref e)"
  shows "frs_synced_storages e = count_where (has_copy d fid) ss \<and> frs_total_storages e = int (length ss) \<and>
    map sd2_storage_id (frs_sync_details e) = map s_id ss \<and>
    (frs_sync_status e = ''no_storage'' \<longleftrightarrow> ss = []) \<and>
    (frs_sync_status e = ''synced'' \<longleftrightarrow> ss \<noteq> [] \<and> (\<forall>s \<in> set ss. has_copy d fid s)) \<and>
    (frs_sync_status e = ''partial'' \<longleftrightarrow> (\<exists>s \<in> set ss. has_copy d fid s) \<and> (\<exists>s \<in> set ss. \<not> has_copy d fid s)) \<and>
    (frs_sync_status e = ''pending'' \<longleftrightarrow> ss \<noteq> [] \<and> (\<forall>s \<in> set ss. \<not> has_copy d fid s))"
proof -
  from assms(2,3) obtain r where e: "e = enrich_reference ss d r" by (auto simp: enrich_file_references_def)
  then have fid: "fid = r_file_id r" using assms(4) by (simp add: enrich_reference_def Let_def)
  let ?n = "count_where (has_copy d fid) ss"
  have all: "int (length ss) \<le> ?n \<longleftrightarrow> (\<forall>s \<in> set ss. has_copy d fid s)"
  proof
    assume "int (length ss) \<le> ?n"
    then have "length (filter (has_copy d fid) ss) = length ss" using length_filter_le [of "has_copy d fid" ss] by (simp add: count_where_def)
    then show "\<forall>s \<in> set ss. has_copy d fid s" by (metis length_filter_less less_irrefl_nat)
  qed (simp add: count_where_def)
  have some: "0 < ?n \<longleftrightarrow> (\<exists>s \<in> set ss. has_copy d fid s)" by (auto simp: count_where_def filter_empty_conv)
  have ids: "map sd2_storage_id (frs_sync_details e) = map s_id ss"
    by (simp add: e enrich_reference_def Let_def sync_detail_def split_beta)
  have st: "frs_sync_status e = (if ss = [] then ''no_storage'' else if int (length ss) \<le> ?n then ''synced'' else if 0 < ?n then ''partial'' else ''pending'')"
    "frs_synced_storages e = ?n" "frs_total_storages e = int (length ss)"
    by (simp_all add: e fid enrich_reference_def Let_def synced_count_exact [OF assms(1)])
  show ?thesis unfolding st(1) all some using st(2,3) ids by (cases "ss = []") auto
qed

theorem sync_status_exact_witness:
  "\<exists>e. e \<in> set (enrich_file_references 2 [demo_reference] demo_db) \<and> frs_sync_status e = ''partial''"
proof -
  have "storage_list_for_project 2 demo_db = [demo_storage 3 True, demo_storage 4 False]" by code_simp
  moreover have "has_copy demo_db 7 (demo_storage 3 True)" "\<not> has_copy demo_db 7 (demo_storage 4 False)"
    by (auto simp: has_copy_def demo_defs)
  moreover obtain e where e: "e \<in> set (enrich_file_references 2 [demo_reference] demo_db)" "r_file_id (frs_file_ref e) = 7"
    by (simp add: enrich_file_references_def enrich_reference_def Let_def demo_reference_def)
  ultimately show ?thesis using sync_status_exact [OF schema_ok_demo e(1) refl refl] e by auto
qed

section \<open>Names in an archive\<close>

text \<open>The names the entries of an archive get, for the original names of the files in it.\<close>

fun entry_names :: "string list \<Rightarrow> (string \<rightharpoonup> nat) \<Rightarrow> string list" where
  "entry_names [] seen = []"
| "entry_names (b # bs) seen = (let (n, seen1) = entry_name b seen in n # entry_names bs seen1)"

definition numbered :: "string \<Rightarrow> nat \<Rightarrow> string" where
  "numbered base k =
     (if k = 0 then base
      else (case rsplit_once (CHR ''.'') base of
              Some (stem, ext) \<Rightarrow> stem @ '' ('' @ nat_str k @ '').'' @ ext
            | None \<Rightarrow> base @ '' ('' @ nat_str k @ '')''))"

lemma numbered_inj:
  assumes "numbered base k = numbered base k'"
  shows "k = k'"
proof -
  have len: "length base < length (numbered base (Suc j))" for j
  proof (cases "rsplit_once (CHR ''.'') base")
    case (Some p)
    obtain stem ext where p: "p = (stem, ext)" by (cases p)
    with Some have "length base = length stem + length ext + 1"
    proof -
      from Some p have m: "CHR ''.'' \<in> set base" and st: "stem = rev (tl (dropWhile (\<lambda>x. x \<noteq> CHR ''.'') (rev base)))"
        "ext = rev (takeWhile (\<lambda>x. x \<noteq> CHR ''.'') (rev base))" by (auto simp: rsplit_once_def split: if_splits)
      have ne: "dropWhile (\<lambda>x. x \<noteq> CHR ''.'') (rev base) \<noteq> []" using m by (simp add: dropWhile_eq_Nil_conv)
      have "length (takeWhile (\<lambda>x. x \<noteq> CHR ''.'') (rev base)) + length (dropWhile (\<lambda>x. x \<noteq> CHR ''.'') (rev base)) = length base"
        by (metis length_append length_rev takeWhile_dropWhile_id)
      moreover have "length stem = length (dropWhile (\<lambda>x. x \<noteq> CHR ''.'') (rev base)) - 1" "length ext = length (takeWhile (\<lambda>x. x \<noteq> CHR ''.'') (rev base))"
        by (simp_all add: st)
      ultimately show ?thesis using ne by (cases "dropWhile (\<lambda>x. x \<noteq> CHR ''.'') (rev base)") auto
    qed
    with Some p show ?thesis by (simp add: numbered_def)
  qed (simp add: numbered_def)
  show ?thesis
  proof (cases "k = 0 \<or> k' = 0")
    case True
    with assms len [of "k - 1"] len [of "k' - 1"] show ?thesis by (cases k; cases k') (auto simp: numbered_def)
  next
    case False
    with assms have "nat_str k = nat_str k'" by (auto simp: numbered_def split: option.splits prod.splits)
    then show ?thesis by (rule nat_str_inj)
  qed
qed

definition uses :: "(string \<rightharpoonup> nat) \<Rightarrow> string \<Rightarrow> nat" where
  "uses seen b = (case seen b of None \<Rightarrow> 0 | Some n \<Rightarrow> n)"

lemma entry_name_numbered: "entry_name b seen = (numbered b (uses seen b), seen(b \<mapsto> Suc (uses seen b)))"
  by (auto simp: entry_name_def numbered_def uses_def Let_def split: option.split)

lemma entry_names_Cons:
  "seen1 = seen(b \<mapsto> Suc (uses seen b)) \<Longrightarrow> entry_names (b # bs) seen = numbered b (uses seen b) # entry_names bs seen1"
  by (simp add: entry_name_numbered)

lemma entry_names_later:
  assumes "i < length bs" "bs ! i = b"
  shows "\<exists>k \<ge> uses seen b. entry_names bs seen ! i = numbered b k"
  using assms
proof (induction bs arbitrary: i seen)
  case (Cons c bs)
  define seen1 where "seen1 = seen(c \<mapsto> Suc (uses seen c))"
  note ns = entry_names_Cons [OF seen1_def, of bs]
  show ?case
  proof (cases i)
    case 0
    with Cons.prems show ?thesis unfolding ns by auto
  next
    case (Suc j)
    with Cons.prems Cons.IH [of j seen1] obtain k where "k \<ge> uses seen1 b" "entry_names bs seen1 ! j = numbered b k" by auto
    moreover have "uses seen1 b \<ge> uses seen b" by (simp add: uses_def seen1_def)
    ultimately show ?thesis unfolding ns using Suc by (auto intro: order_trans)
  qed
qed simp

lemma entry_names_same_base:
  assumes "i < j" "j < length bs" "bs ! i = bs ! j"
  shows "entry_names bs seen ! i \<noteq> entry_names bs seen ! j"
  using assms
proof (induction bs arbitrary: i j seen)
  case (Cons c bs)
  define seen1 where "seen1 = seen(c \<mapsto> Suc (uses seen c))"
  note ns = entry_names_Cons [OF seen1_def, of bs]
  show ?case
  proof (cases i)
    case 0
    with Cons.prems obtain j' where j: "j = Suc j'" "j' < length bs" "bs ! j' = c" by (cases j) auto
    from entry_names_later [OF j(2,3), of seen1] obtain k where k: "k \<ge> Suc (uses seen c)" "entry_names bs seen1 ! j' = numbered c k"
      by (auto simp: uses_def seen1_def)
    with numbered_inj [of c "uses seen c" k] have "numbered c (uses seen c) \<noteq> numbered c k" by auto
    with 0 j(1) k(2) show ?thesis unfolding ns by simp
  next
    case (Suc i')
    with Cons.prems Cons.IH [of i' "j - 1" seen1] show ?thesis unfolding ns by (cases j) auto
  qed
qed simp

text \<open>
  files of the same name get different names in an archive, but a numbered name can collide with the
  original name of another file: of \<open>a.txt\<close>, \<open>a.txt\<close> and \<open>a (1).txt\<close> the second and the third both become
  \<open>a (1).txt\<close>.
\<close>

theorem archive_names:
  "(\<forall>i j. i < j \<and> j < length bs \<and> bs ! i = bs ! j \<longrightarrow> entry_names bs Map.empty ! i \<noteq> entry_names bs Map.empty ! j) \<and>
   entry_names [''a.txt'', ''a.txt'', ''a (1).txt''] Map.empty = [''a.txt'', ''a (1).txt'', ''a (1).txt'']"
proof
  show "entry_names [''a.txt'', ''a.txt'', ''a (1).txt''] Map.empty = [''a.txt'', ''a (1).txt'', ''a (1).txt'']" by code_simp
qed (use entry_names_same_base in blast)

theorem archive_names_witness:
  "entry_names [''b'', ''c'', ''b''] Map.empty ! 0 \<noteq> entry_names [''b'', ''c'', ''b''] Map.empty ! 2"
  using archive_names [of "[''b'', ''c'', ''b'']"] by (auto dest!: spec [of _ 0] spec [of _ 2])

section \<open>Guards\<close>

lemma require_member_iff:
  assumes "project_find_by_id pid d = Inr p"
  shows "(\<exists>q. require_member u pid d = Inr q) \<longleftrightarrow> may_read u p d"
proof -
  have "p_id p = pid" using assms find_Some_in_set [of _ "projects d" p] by (auto simp: project_find_by_id_def)
  with assms show ?thesis
    by (auto simp: require_member_def may_read_def is_admin_def is_owner_iff user_project_is_member_def assigned_to_def list_ex_iff)
qed

lemma require_write_iff:
  assumes "schema_ok d" and "project_find_by_id pid d = Inr p"
  shows "(\<exists>q. require_write u pid d = Inr q) \<longleftrightarrow> may_write u p d"
  using require_project_write_access_iff [OF assms(1), of u p] assms(2)
  by (auto simp: require_write_def split: sum.splits)

interpretation up_file: guarded "\<lambda>(d, w). require_write u pid d" "\<lambda>(d, w). api_upload_file x from_str secret reg u pid payload d w"
  for x from_str secret reg u pid payload
  by unfold_locales (auto simp: api_upload_file_def)

interpretation del_ref: guarded "require_write u pid" "delete_file_reference u fid pid" for u pid fid
  by unfold_locales (simp add: delete_file_reference_def)

interpretation bulk_del: guarded "\<lambda>(d, w). require_write u pid d" "\<lambda>(d, w). api_bulk_delete x reg u pid filters d w"
  for x reg u pid filters
  by unfold_locales (auto simp: api_bulk_delete_def)

interpretation tus_create: guarded "\<lambda>(d, w). require_write u pid d" "\<lambda>(d, w). upload_create x from_str cfg new_id u pid lh mh d w"
  for x from_str cfg new_id u pid lh mh
  by unfold_locales (auto simp: upload_create_def)

interpretation dl_file: guarded "\<lambda>(d, w). check_file_access fid u d" "\<lambda>(d, w). api_download_file x secret reg u fid d w"
  for x secret reg u fid
  by unfold_locales (auto simp: api_download_file_def)

interpretation temp_links: guarded "\<lambda>(d, w). check_file_access fid u d" "\<lambda>(d, w). get_temp_link x secret reg u fid q d w"
  for x secret reg u fid q
  by unfold_locales (auto simp: get_temp_link_def)

interpretation bulk_dl: guarded "\<lambda>(d, w). require_member u pid d" "\<lambda>(d, w). bulk_download x t fmt secret reg u pid q d w"
  for x t fmt secret reg u pid q
  by unfold_locales (auto simp: bulk_download_def)

interpretation restore: guarded "\<lambda>d. check_file_write_access fid u d" "api_restore_file u fid" for u fid
  by unfold_locales (simp add: api_restore_file_def)

interpretation force_sync: guarded "\<lambda>d. check_file_write_access fid u d" "force_sync_to_storage u fid target pid" for u fid target pid
  by unfold_locales (simp add: force_sync_to_storage_def)

lemma guard_InlD: "(\<exists>q. r = Inr q) \<longleftrightarrow> P \<Longrightarrow> \<not> P \<Longrightarrow> \<exists>e. r = Inl e"
  by (cases r) auto



text \<open>
  the endpoint that copies a file to a storage checks the rights on the file only. A user who may write
  to one project of a file can have it copied into the container of any other project, on any storage:
  neither the project nor the storage named in the request is checked.
\<close>

theorem force_sync_unchecked_project:
  assumes "check_file_write_access fid u d = Inr ()" and "supply_fresh d (t_id ` set (sync_tasks d))" and "schema_ok d"
    and "l \<in> set (file_locations d)" "l_file_id l = fid" "l_status l = ''synced''" "l_storage_id l \<noteq> target"
    and "target \<in> s_id ` set (storages d)" and "p \<in> set (projects d)"
  shows "\<exists>task d'. force_sync_to_storage u fid target (p_id p) d = (Inr task, d') \<and> task \<in> set (sync_tasks d') \<and>
    t_file_id task = fid \<and> t_target task = target \<and> t_project_id task = Some (p_id p) \<and> t_status task = ''pending''"
proof -
  let ?locs = "file_location_find_all_for_file fid d"
  have "find (\<lambda>l. l_status l = ''synced'' \<and> l_storage_id l \<noteq> target) ?locs \<noteq> None"
    using assms(4-7) by (auto simp: find_None_all file_location_find_all_for_file_def)
  then obtain src where src: "find (\<lambda>l. l_status l = ''synced'' \<and> l_storage_id l \<noteq> target) ?locs = Some src" by auto
  with find_Some_in_set [OF src] have "src \<in> set (file_locations d)" "l_file_id src = fid" by (auto simp: file_location_find_all_for_file_def)
  with schema_okD(6) [OF assms(3)] have "fid \<in> f_id ` set (files d)" "l_storage_id src \<in> s_id ` set (storages d)"
    by (auto simp: file_locations_ok_def)
  with assms(2,8,9) obtain t where "sync_task_create \<lparr>ct_file_id = fid, ct_source = l_storage_id src, ct_target = target,
      ct_project_id = Some (p_id p)\<rparr> d = (Inr t, (draw d)\<lparr>sync_tasks := sync_tasks d @ [t]\<rparr>)"
    "t_file_id t = fid" "t_target t = target" "t_status t = ''pending''" "t_project_id t = Some (p_id p)"
    by (elim sync_task_create_ok [of d fid "l_storage_id src" target "p_id p"]) auto
  with assms(1) src show ?thesis by (simp add: force_sync_to_storage_def)
qed

theorem force_sync_unchecked_project_witness:
  "\<exists>d. check_project_access \<lparr>au_user_id = 1, au_role = ''user''\<rparr> (demo_project\<lparr>p_id := 60, p_slug := ''other'', p_owner_id := None\<rparr>) d \<noteq> Inr () \<and>
     (\<exists>task d'. force_sync_to_storage \<lparr>au_user_id = 1, au_role = ''user''\<rparr> 7 4 60 d = (Inr task, d') \<and> t_project_id task = Some 60)"
proof -
  let ?u = "\<lparr>au_user_id = 1, au_role = ''user''\<rparr>"
  let ?p = "demo_project\<lparr>p_id := 60, p_slug := ''other'', p_owner_id := None\<rparr>"
  let ?d = "demo_db\<lparr>projects := [demo_project, ?p]\<rparr>"
  have ok: "schema_ok ?d"
    by (rule schema_ok_set_projects [OF schema_ok_demo]) (auto simp: projects_ok_def demo_defs)
  have fr: "supply_fresh ?d (t_id ` set (sync_tasks ?d))"
  proof -
    have st: "sync_tasks ?d = []" by (simp add: demo_defs)
    show ?thesis unfolding st by (rule supply_fresh_cong [OF supply_fresh_demo]) simp_all
  qed
  have acc: "check_file_write_access 7 ?u ?d = Inr ()" by (simp add: check_file_write_access_iff may_write_def demo_defs)
  have no: "check_project_access ?u ?p ?d \<noteq> Inr ()" by (simp add: check_project_access_iff may_read_def demo_defs)
  from force_sync_unchecked_project [OF acc fr ok, of demo_location 4 ?p] no show ?thesis by (auto simp: demo_defs)
qed

section \<open>Signed links\<close>

text \<open>
  a signed link to a file that was stored in the container of a project on a local storage is not
  served, valid or not: the endpoint looks below the root of the storage, not into the container. (Unless
  another copy lies below the root under the same path.)
\<close>

theorem local_link_not_served:
  assumes "s_type s = ''local''" and "create_backend x ''local'' (s_config s) secret = Inr b" and "reg (s_id s) = Some b"
    and "resolve_project_backend x secret d0 s pid w0 = (Some (Inr b'), w)" and "project_find_by_id pid d0 = Inr p"
    and "components (effective_container p (project_storage_find_for_project_and_storage pid (s_id s) d0)) \<noteq> []"
    and "be_upload x b' path data w = (Inr (), w')" and "\<nexists>v. be_download x b path w = Inr v"
    and "local_link_location path d = Some l" and "l_storage_id l = s_id s"
  shows "\<exists>e. download_local_temp x secret reg path expires sig d w' = (Inl e, d)"
proof -
  from assms(1,2,4-7) obtain lb lb' q where b: "b = LocalDisk lb" "b' = LocalDisk lb'" and q: "resolve_path lb' path = Inr q"
    and ne: "resolve_path lb path \<noteq> Inr q" and up: "local_upload lb' path data (ph_fs w) = (Inr (), ph_fs w')"
    by (rule container_apart)
  have "local_download lb path (ph_fs w') \<noteq> Inr v" for v
    using local_upload_reads [OF up] ne q assms(8) by (auto simp: b be_download_def local_download_Inr)
  then obtain e where "be_download x b path w' = Inl e" by (cases "be_download x b path w'") (auto simp: b be_download_def)
  then show ?thesis using assms(3,9,10) by (auto simp: download_local_temp_def registry_get_def ok_or_def)
qed

theorem local_link_not_served_witness:
  "\<exists>b' w w' e. resolve_project_backend demo_env ''k'' demo_db (demo_storage 3 True) 2 demo_phys = (Some (Inr b'), w) \<and>
     be_upload demo_env b' ''ab/cd/abcdef'' [7, 8, 9] w = (Inr (), w') \<and>
     download_local_temp demo_env ''k'' demo_registry ''ab/cd/abcdef'' 100 ''s'' demo_db w' = (Inl e, demo_db)"
proof -
  let ?s = "demo_storage 3 True"
  let ?b = "LocalDisk \<lparr>lb_base = ''/data'', lb_hmac_secret = ''k''\<rparr>"
  have b: "create_backend demo_env ''local'' (s_config ?s) ''k'' = Inr ?b" by (simp add: create_backend_def require_str_def demo_storage_def ok_or_def)
  have run: "case resolve_project_backend demo_env ''k'' demo_db ?s 2 demo_phys of
      (Some (Inr b'), w) \<Rightarrow> (case be_upload demo_env b' ''ab/cd/abcdef'' [7, 8, 9] w of (Inr _, _) \<Rightarrow> True | _ \<Rightarrow> False) | _ \<Rightarrow> False"
    by code_simp
  obtain r w where r: "resolve_project_backend demo_env ''k'' demo_db ?s 2 demo_phys = (r, w)" by fastforce
  with run obtain b' where b': "r = Some (Inr b')" by (auto split: option.splits sum.splits)
  obtain u w' where u: "be_upload demo_env b' ''ab/cd/abcdef'' [7, 8, 9] w = (u, w')" by fastforce
  with run r b' have u': "u = Inr ()" by (auto split: sum.splits)
  have p: "project_find_by_id 2 demo_db = Inr demo_project" by (simp add: project_find_by_id_def demo_defs ok_or_def)
  have c: "components (effective_container demo_project (project_storage_find_for_project_and_storage 2 (s_id ?s) demo_db)) \<noteq> []"
    by code_simp
  have "ph_fs w = []" using resolve_project_backend_fs [of demo_env "''k''" demo_db ?s 2 demo_phys] unfolding r by (simp add: demo_phys_def)
  then have none: "\<nexists>v. be_download demo_env ?b ''ab/cd/abcdef'' w = Inr v"
    by (auto simp: be_download_def local_download_Inr fs_read_def)
  have reg: "demo_registry (s_id ?s) = Some ?b" by (simp add: demo_registry_def demo_storage_def)
  have l: "local_link_location ''ab/cd/abcdef'' demo_db = Some demo_location" "l_storage_id demo_location = s_id ?s"
    by (simp_all add: local_link_location_def location_storage_def demo_defs)
  from local_link_not_served [where reg = demo_registry, OF _ b reg r [unfolded b'] p c u [unfolded u'] none l, of 100 "''s''"] r u b' u'
  show ?thesis by (auto simp: demo_storage_def)
qed

end
