(* ===== verification/Auth.thy ===== *)
theory Auth
  imports Access Models_Link
begin

text \<open>
  The account endpoints (\<open>src/api/auth_routes.rs\<close>): login, rotation of refresh tokens, logout and the
  administration of users. A handler gets the identity its extractor established, the request body and
  the random bytes it consumes; it returns the response value and the database. Shown: a refresh token
  works once, changing a user revokes all of the user's refresh tokens, and no administrative action
  removes the administrator who performs it.
\<close>

section \<open>Handlers\<close>

record create_user_request =
  cur_username :: string
  cur_password :: string
  cur_role :: string

record update_user_request =
  uur_role :: "string option"
  uur_password :: "string option"

record token_pair =
  tp_access_token :: string
  tp_refresh_token :: string

definition username_char :: "char \<Rightarrow> bool" where
  "username_char ch \<longleftrightarrow> is_ascii_alphanumeric ch \<or> ch = CHR ''_'' \<or> ch = CHR ''-'' \<or> ch = CHR ''.''"

definition bad_role :: app_error where
  "bad_role = BadRequest (''Role must be '' @ sq ''admin'' @ '' or '' @ sq ''user'')"

definition validate_new_user :: "create_user_request \<Rightarrow> string app_result" where
  "validate_new_user body =
     (if cur_username body = [] \<or> cur_password body = []
      then Inl (BadRequest ''Username and password are required'')
      else (let username = trim (cur_username body)
            in if length username < 3 \<or> 64 < length username
               then Inl (BadRequest ''Username must be between 3 and 64 characters'')
               else if \<not> list_all username_char username
               then Inl (BadRequest ''Username may only contain letters, digits, underscores, hyphens, and dots'')
               else if length (cur_password body) < 6
               then Inl (BadRequest ''Password must be at least 6 characters'')
               else if 1024 < length (cur_password body)
               then Inl (BadRequest ''Password must not exceed 1024 characters'')
               else if cur_role body \<noteq> ''admin'' \<and> cur_role body \<noteq> ''user'' then Inl bad_role
               else Inr username))"

definition create_user :: "crypto \<Rightarrow> bytes \<Rightarrow> create_user_request \<Rightarrow> db \<Rightarrow> user app_result \<times> db" where
  "create_user c salt body d =
     (case validate_new_user body of
        Inl e \<Rightarrow> (Inl e, d)
      | Inr username \<Rightarrow>
         (case hash_password c salt (cur_password body) of
            Inl e \<Rightarrow> (Inl (Internal (''Failed to hash password: '' @ e)), d)
          | Inr h \<Rightarrow>
             (case user_create \<lparr>cu_username = username, cu_password_hash = h, cu_role = cur_role body\<rparr> d of
                (Inr u, d1) \<Rightarrow> (Inr u, d1)
              | (Inl (Database e), d1) \<Rightarrow>
                  (if is_unique_violation e then (Inl (Conflict ''Username already exists''), d1)
                   else (Inl (Database e), d1))
              | (Inl e, d1) \<Rightarrow> (Inl e, d1))))"

definition list_users :: "db \<Rightarrow> user list app_result" where
  "list_users d = Inr (user_list d)"

definition delete_user :: "uuid \<Rightarrow> uuid \<Rightarrow> db \<Rightarrow> unit app_result \<times> db" where
  "delete_user admin uid d =
     (if uid = admin then (Inl (BadRequest ''Cannot delete your own account''), d)
      else let owned = project_list_for_owner uid d
           in if owned \<noteq> []
              then (Inl (Conflict (''Cannot delete user: they own '' @ nat_str (length owned) @ '' project(s) ('' @
                      join_str '', '' (map p_name owned) @ ''). Reassign ownership first.'')), d)
              else let d1 = snd (shared_link_delete_by_user uid d);
                       d2 = snd (refresh_token_delete_by_user_id uid d1)
                   in user_delete uid d2)"

text \<open>\<open>u64 as i64\<close> and the expiry of a refresh token.\<close>

definition as_i64 :: "int \<Rightarrow> int" where
  "as_i64 n = (if n mod 2 ^ 64 < 2 ^ 63 then n mod 2 ^ 64 else n mod 2 ^ 64 - 2 ^ 64)"

text \<open>The common end of login and refresh: a new pair of tokens for a user.\<close>

definition issue_tokens :: "crypto \<Rightarrow> auth_service \<Rightarrow> bytes \<Rightarrow> user \<Rightarrow> db \<Rightarrow> token_pair app_result \<times> db" where
  "issue_tokens c a rnd u d =
     (case generate_access_token c a (u_id u) (u_role u) (now d) of
        Inl e \<Rightarrow> (Inl (Internal (''Failed to generate access token: '' @ e)), d)
      | Inr access \<Rightarrow>
         (let rtok = generate_refresh_token rnd
          in case refresh_token_create \<lparr>crt_user_id = u_id u, crt_token_hash = hash_refresh_token c rtok,
                    crt_expires_at = now d + secs (as_i64 (as_refresh_token_ttl_secs a))\<rparr> d of
               (Inl e, d1) \<Rightarrow> (Inl e, d1)
             | (Inr _, d1) \<Rightarrow> (Inr \<lparr>tp_access_token = access, tp_refresh_token = rtok\<rparr>, d1)))"

definition login :: "crypto \<Rightarrow> auth_service \<Rightarrow> bytes \<Rightarrow> string \<Rightarrow> string \<Rightarrow> db \<Rightarrow> token_pair app_result \<times> db" where
  "login c a rnd username password d =
     (case user_find_by_username username d of
        None \<Rightarrow> (Inl (Unauthorized ''Invalid username or password''), d)
      | Some u \<Rightarrow>
         (if \<not> verify_password c password (u_password_hash u)
          then (Inl (Unauthorized ''Invalid username or password''), d)
          else issue_tokens c a rnd u d))"

definition refresh :: "crypto \<Rightarrow> auth_service \<Rightarrow> bytes \<Rightarrow> string \<Rightarrow> db \<Rightarrow> token_pair app_result \<times> db" where
  "refresh c a rnd token d =
     (case refresh_token_consume_by_hash (hash_refresh_token c token) d of
        (None, d1) \<Rightarrow> (Inl (Unauthorized ''Invalid or expired refresh token''), d1)
      | (Some stored, d1) \<Rightarrow>
         (case user_find_by_id (rt_user_id stored) d1 of
            Inl (NotFound _) \<Rightarrow> (Inl (Unauthorized ''Account no longer exists''), d1)
          | Inl e \<Rightarrow> (Inl e, d1)
          | Inr u \<Rightarrow> issue_tokens c a rnd u d1))"

definition me :: "authenticated_user \<Rightarrow> db \<Rightarrow> user app_result" where
  "me u d = user_find_by_id (au_user_id u) d"

definition logout :: "crypto \<Rightarrow> string \<Rightarrow> db \<Rightarrow> unit app_result \<times> db" where
  "logout c token d = refresh_token_delete_by_hash (hash_refresh_token c token) d"

definition get_user :: "uuid \<Rightarrow> db \<Rightarrow> (user \<times> project_assignment list \<times> storage list) app_result" where
  "get_user uid d =
     (case user_find_by_id uid d of
        Inl e \<Rightarrow> Inl e
      | Inr u \<Rightarrow> Inr (u, user_project_list_for_user uid d, map redacted (user_storage_list_for_user uid d)))"

text \<open>The checks of an update, made before anything changes: the new password hash, if any.\<close>

definition validate_user_update ::
    "crypto \<Rightarrow> bytes \<Rightarrow> uuid \<Rightarrow> uuid \<Rightarrow> update_user_request \<Rightarrow> string option app_result" where
  "validate_user_update c salt admin uid body =
     (case (case uur_role body of
              None \<Rightarrow> Inr ()
            | Some role \<Rightarrow>
               (if role \<noteq> ''admin'' \<and> role \<noteq> ''user'' then Inl bad_role
                else if uid = admin \<and> role \<noteq> ''admin''
                then Inl (BadRequest ''Cannot demote your own admin account'')
                else Inr ())) of
        Inl e \<Rightarrow> Inl e
      | Inr _ \<Rightarrow>
         (case uur_password body of
            None \<Rightarrow> Inr None
          | Some password \<Rightarrow>
             (if length password < 6 then Inl (BadRequest ''Password must be at least 6 characters'')
              else if 1024 < length password then Inl (BadRequest ''Password must not exceed 1024 characters'')
              else (case hash_password c salt password of
                      Inl e \<Rightarrow> Inl (Internal (''Failed to hash password: '' @ e))
                    | Inr h \<Rightarrow> Inr (Some h)))))"

text \<open>The transaction: an error rolls everything back.\<close>

definition apply_user_update ::
    "uuid \<Rightarrow> string option \<Rightarrow> string option \<Rightarrow> user \<Rightarrow> db \<Rightarrow> user app_result \<times> db" where
  "apply_user_update uid role h u d =
     (let step1 = (case role of None \<Rightarrow> (Inr u, d) | Some r \<Rightarrow> user_update_role uid r d)
      in case step1 of
           (Inl e, _) \<Rightarrow> (Inl e, d)
         | (Inr u1, d1) \<Rightarrow>
            (case (case h of None \<Rightarrow> (Inr u1, d1) | Some x \<Rightarrow> user_update_password_hash uid x d1) of
               (Inl e, _) \<Rightarrow> (Inl e, d)
             | (Inr u2, d2) \<Rightarrow>
                (Inr u2, if role \<noteq> None \<or> h \<noteq> None
                         then d2\<lparr>refresh_tokens := delete_where (\<lambda>t. rt_user_id t = uid) (refresh_tokens d2)\<rparr>
                         else d2)))"

definition update_user ::
    "crypto \<Rightarrow> bytes \<Rightarrow> uuid \<Rightarrow> uuid \<Rightarrow> update_user_request \<Rightarrow> db \<Rightarrow> user app_result \<times> db" where
  "update_user c salt admin uid body d =
     (if uur_role body = None \<and> uur_password body = None
      then (Inl (BadRequest (''At least one of '' @ sq ''role'' @ '' or '' @ sq ''password'' @ '' must be provided'')), d)
      else (case user_find_by_id uid d of
              Inl e \<Rightarrow> (Inl e, d)
            | Inr u \<Rightarrow>
               (case validate_user_update c salt admin uid body of
                  Inl e \<Rightarrow> (Inl e, d)
                | Inr h \<Rightarrow> apply_user_update uid (uur_role body) h u d)))"

section \<open>The schema constraints are kept\<close>

lemma create_user_schema [schema_intros]: "schema_ok d \<Longrightarrow> schema_ok (snd (create_user c salt body d))"
  using user_create_schema [of d]
  by (auto simp: create_user_def split: sum.splits prod.splits app_error.splits)
    (metis snd_conv)+

lemma delete_user_schema [schema_intros]: "schema_ok d \<Longrightarrow> schema_ok (snd (delete_user admin uid d))"
  by (simp add: delete_user_def Let_def user_delete_schema refresh_token_ops_schema shared_link_ops_schema)

lemma issue_tokens_schema [schema_intros]: "schema_ok d \<Longrightarrow> schema_ok (snd (issue_tokens c a rnd u d))"
  using refresh_token_create_schema [of d]
  by (auto simp: issue_tokens_def Let_def split: sum.splits prod.splits) (metis snd_conv)+

lemma refresh_schema [schema_intros]: "schema_ok d \<Longrightarrow> schema_ok (snd (refresh c a rnd token d))"
  using refresh_token_ops_schema(2) [of d "hash_refresh_token c token"]
  by (auto simp: refresh_def issue_tokens_schema split: sum.splits prod.splits option.splits app_error.splits)

lemma login_schema [schema_intros]: "schema_ok d \<Longrightarrow> schema_ok (snd (login c a rnd n p d))"
  by (auto simp: login_def issue_tokens_schema split: option.splits)

lemma logout_schema [schema_intros]: "schema_ok d \<Longrightarrow> schema_ok (snd (logout c token d))"
  by (simp add: logout_def refresh_token_ops_schema)

lemma apply_user_update_schema: "schema_ok d \<Longrightarrow> schema_ok (snd (apply_user_update uid role h u d))"
proof -
  assume ok: "schema_ok d"
  obtain r1 d1 where s1: "(case role of None \<Rightarrow> (Inr u, d) | Some r \<Rightarrow> user_update_role uid r d) = (r1, d1)" by fastforce
  with ok user_update_role_schema [of d uid] have ok1: "schema_ok d1" by (cases role) (auto, metis snd_conv)
  show ?thesis
  proof (cases r1)
    case (Inr u1)
    obtain r2 d2 where s2: "(case h of None \<Rightarrow> (Inr u1, d1) | Some x \<Rightarrow> user_update_password_hash uid x d1) = (r2, d2)" by fastforce
    with ok1 user_update_password_hash_schema [of d1 uid] have "schema_ok d2" by (cases h) (auto, metis snd_conv)
    then show ?thesis using ok s1 s2 Inr
      by (cases r2) (simp_all add: apply_user_update_def refresh_tokens_delete_schema)
  qed (use ok s1 in \<open>simp add: apply_user_update_def\<close>)
qed

lemma update_user_schema [schema_intros]: "schema_ok d \<Longrightarrow> schema_ok (snd (update_user c salt admin uid body d))"
  by (auto simp: update_user_def apply_user_update_schema split: sum.splits)

section \<open>Runs of the account endpoints\<close>

text \<open>Requests in the order the server handles them, and the passing of time.\<close>

datatype auth_request =
    CreateUser bytes create_user_request
  | DeleteUser uuid uuid
  | UpdateUser bytes uuid uuid update_user_request
  | Login bytes string string
  | Refresh bytes string
  | Logout string
  | Clock time

fun auth_exec :: "crypto \<Rightarrow> auth_service \<Rightarrow> auth_request \<Rightarrow> db \<Rightarrow> db" where
  "auth_exec c a (CreateUser salt body) d = snd (create_user c salt body d)"
| "auth_exec c a (DeleteUser admin uid) d = snd (delete_user admin uid d)"
| "auth_exec c a (UpdateUser salt admin uid body) d = snd (update_user c salt admin uid body d)"
| "auth_exec c a (Login rnd n p) d = snd (login c a rnd n p d)"
| "auth_exec c a (Refresh rnd tok) d = snd (refresh c a rnd tok d)"
| "auth_exec c a (Logout tok) d = snd (logout c tok d)"
| "auth_exec c a (Clock t) d = d\<lparr>now := t\<rparr>"

definition auth_run :: "crypto \<Rightarrow> auth_service \<Rightarrow> auth_request list \<Rightarrow> db \<Rightarrow> db" where
  "auth_run c a reqs d = fold (auth_exec c a) reqs d"

text \<open>The hash of the refresh token a request would issue.\<close>

fun issues :: "crypto \<Rightarrow> auth_request \<Rightarrow> string set" where
  "issues c (Login rnd n p) = {hash_refresh_token c (generate_refresh_token rnd)}"
| "issues c (Refresh rnd tok) = {hash_refresh_token c (generate_refresh_token rnd)}"
| "issues c _ = {}"

abbreviation token_hashes :: "db \<Rightarrow> string set" where
  "token_hashes d \<equiv> rt_token_hash ` set (refresh_tokens d)"

lemma user_create_frame [simp]: "refresh_tokens (snd (user_create input d)) = refresh_tokens d"
  by (simp add: user_create_def Let_def)

lemma create_user_frame [simp]: "refresh_tokens (snd (create_user c salt body d)) = refresh_tokens d"
proof -
  have "refresh_tokens d1 = refresh_tokens d" if "user_create input d = (r, d1)" for input r d1
    using user_create_frame [of input d] that by simp
  then show ?thesis by (auto simp: create_user_def split: sum.splits prod.splits app_error.splits)
qed

lemma delete_user_tokens: "set (refresh_tokens (snd (delete_user admin uid d))) \<subseteq> set (refresh_tokens d)"
  by (auto simp: delete_user_def Let_def user_delete_def refresh_token_delete_by_user_id_def
      shared_link_delete_by_user_def table_simps)

lemma user_updates_frame [simp]:
  "refresh_tokens (snd (user_update_role i r d)) = refresh_tokens d"
  "refresh_tokens (snd (user_update_password_hash i h d)) = refresh_tokens d"
  by (simp_all add: user_update_role_def user_update_password_hash_def Let_def split: option.split)

lemma apply_user_update_tokens:
  assumes "apply_user_update uid role h u d = (res, d')" and "role \<noteq> None \<or> h \<noteq> None"
  shows "(\<exists>e. res = Inl e) \<and> d' = d \<or>
    (\<exists>v. res = Inr v) \<and> refresh_tokens d' = delete_where (\<lambda>t. rt_user_id t = uid) (refresh_tokens d)"
proof -
  obtain r1 d1 where s1: "(case role of None \<Rightarrow> (Inr u, d) | Some r \<Rightarrow> user_update_role uid r d) = (r1, d1)" by fastforce
  then have t1: "refresh_tokens d1 = refresh_tokens d" by (cases role) (auto simp: prod_eq_iff)
  show ?thesis
  proof (cases r1)
    case (Inr u1)
    obtain r2 d2 where s2: "(case h of None \<Rightarrow> (Inr u1, d1) | Some x \<Rightarrow> user_update_password_hash uid x d1) = (r2, d2)" by fastforce
    then have "refresh_tokens d2 = refresh_tokens d1" by (cases h) (auto simp: prod_eq_iff)
    with s1 s2 Inr t1 assms show ?thesis by (cases r2) (auto simp: apply_user_update_def)
  qed (use s1 assms in \<open>auto simp: apply_user_update_def\<close>)
qed

lemma update_user_tokens:
  assumes "update_user c salt admin uid body d = (res, d')"
  shows "(\<exists>e. res = Inl e) \<and> d' = d \<or>
    (\<exists>v. res = Inr v) \<and> refresh_tokens d' = delete_where (\<lambda>t. rt_user_id t = uid) (refresh_tokens d)"
proof (cases "(uur_role body = None \<and> uur_password body = None) \<or> (\<exists>e. user_find_by_id uid d = Inl e) \<or>
    (\<exists>e. validate_user_update c salt admin uid body = Inl e)")
  case True
  then have "\<exists>e. update_user c salt admin uid body d = (Inl e, d)"
    by (cases "user_find_by_id uid d"; cases "validate_user_update c salt admin uid body") (auto simp: update_user_def)
  with assms show ?thesis by auto
next
  case False
  then obtain u h where "user_find_by_id uid d = Inr u" "validate_user_update c salt admin uid body = Inr h"
    by (metis sum.exhaust)
  with False assms have "apply_user_update uid (uur_role body) h u d = (res, d')" by (auto simp: update_user_def)
  moreover have "uur_role body \<noteq> None \<or> h \<noteq> None"
    using False \<open>validate_user_update c salt admin uid body = Inr h\<close>
    by (auto simp: validate_user_update_def split: if_splits sum.splits)
  ultimately show ?thesis by (rule apply_user_update_tokens)
qed

lemma issue_tokens_hashes:
  "token_hashes (snd (issue_tokens c a rnd u d)) \<subseteq> insert (hash_refresh_token c (generate_refresh_token rnd)) (token_hashes d)"
  by (auto simp: issue_tokens_def Let_def refresh_token_create_def split: sum.splits prod.splits if_splits)

lemma consume_hashes: "token_hashes (snd (refresh_token_consume_by_hash h d)) \<subseteq> token_hashes d"
  by (auto simp: refresh_token_consume_by_hash_def table_simps)

lemma refresh_hashes:
  "token_hashes (snd (refresh c a rnd tok d)) \<subseteq> insert (hash_refresh_token c (generate_refresh_token rnd)) (token_hashes d)"
proof -
  obtain s d1 where cons: "refresh_token_consume_by_hash (hash_refresh_token c tok) d = (s, d1)" by fastforce
  then have sub: "token_hashes d1 \<subseteq> token_hashes d" by (metis consume_hashes snd_conv)
  have "snd (refresh c a rnd tok d) = d1 \<or> (\<exists>u. snd (refresh c a rnd tok d) = snd (issue_tokens c a rnd u d1))"
    using cons by (auto simp: refresh_def split: option.splits sum.splits app_error.splits)
  then show ?thesis
  proof
    assume "\<exists>u. snd (refresh c a rnd tok d) = snd (issue_tokens c a rnd u d1)"
    then obtain u where eq: "snd (refresh c a rnd tok d) = snd (issue_tokens c a rnd u d1)" ..
    show ?thesis unfolding eq by (rule order_trans [OF issue_tokens_hashes insert_mono [OF sub]])
  qed (use sub in auto)
qed

lemma auth_exec_hashes: "token_hashes (auth_exec c a req d) \<subseteq> token_hashes d \<union> issues c req"
proof (cases req)
  case (DeleteUser admin uid)
  with delete_user_tokens [of admin uid d] show ?thesis by auto
next
  case (UpdateUser salt admin uid body)
  obtain res d' where "update_user c salt admin uid body d = (res, d')" by fastforce
  with update_user_tokens [OF this] UpdateUser show ?thesis by (auto simp: table_simps)
next
  case (Login rnd n p)
  with issue_tokens_hashes [of c a rnd _ d] show ?thesis by (auto simp: login_def split: option.splits)
next
  case (Refresh rnd tok)
  with refresh_hashes [of c a rnd tok d] show ?thesis by auto
qed (auto simp: logout_def refresh_token_delete_by_hash_def table_simps)

lemma auth_run_hashes:
  "h \<notin> token_hashes d \<Longrightarrow> \<forall>r \<in> set reqs. h \<notin> issues c r \<Longrightarrow> h \<notin> token_hashes (auth_run c a reqs d)"
proof (induction reqs arbitrary: d)
  case (Cons r reqs)
  then have "h \<notin> token_hashes (auth_exec c a r d)" using auth_exec_hashes [of c a r d] by auto
  with Cons show ?case by (simp add: auth_run_def)
qed (simp add: auth_run_def)

lemma refresh_unknown:
  "hash_refresh_token c tok \<notin> token_hashes d \<Longrightarrow> fst (refresh c a rnd tok d) = Inl (Unauthorized ''Invalid or expired refresh token'')"
proof -
  assume "hash_refresh_token c tok \<notin> token_hashes d"
  then have "find (\<lambda>t. rt_token_hash t = hash_refresh_token c tok \<and> now d < rt_expires_at t) (refresh_tokens d) = None"
    by (auto simp: find_None_all intro: image_memI)
  then show ?thesis by (simp add: refresh_def refresh_token_consume_by_hash_def)
qed

lemma refresh_InrD:
  assumes "refresh c a rnd tok d = (Inr tp, d')" and "schema_ok d"
  obtains t u d1 where "t \<in> set (refresh_tokens d)" "rt_token_hash t = hash_refresh_token c tok" "now d < rt_expires_at t"
    "refresh_token_consume_by_hash (hash_refresh_token c tok) d = (Some t, d1)" "u \<in> set (users d)" "u_id u = rt_user_id t"
    "issue_tokens c a rnd u d1 = (Inr tp, d')" "hash_refresh_token c tok \<notin> token_hashes d1"
proof -
  obtain s d1 where cons: "refresh_token_consume_by_hash (hash_refresh_token c tok) d = (s, d1)" by fastforce
  then have u1: "users d1 = users d" by (auto simp: refresh_token_consume_by_hash_def)
  from cons assms(1) obtain t where s: "s = Some t" by (cases s) (auto simp: refresh_def)
  with cons assms(1) obtain u where u: "user_find_by_id (rt_user_id t) d1 = Inr u" and iss: "issue_tokens c a rnd u d1 = (Inr tp, d')"
    by (auto simp: refresh_def split: sum.splits app_error.splits)
  from cons s have t: "t \<in> set (refresh_tokens d) \<and> rt_token_hash t = hash_refresh_token c tok \<and> now d < rt_expires_at t"
    using find_Some_in_set by (fastforce simp: refresh_token_consume_by_hash_def)
  have gone: "hash_refresh_token c tok \<notin> token_hashes d1"
    using consumed_token_gone [OF _ schema_okD(10) [OF assms(2)]] cons s by metis
  have "u \<in> set (users d1) \<and> u_id u = rt_user_id t" using u by (rule user_find_by_id_Inr)
  then show ?thesis using t cons s u1 iss gone by (intro that [of t d1 u]) auto
qed

lemma issue_tokens_InrD:
  "issue_tokens c a rnd u d = (Inr tp, d') \<Longrightarrow>
     \<exists>t. refresh_tokens d' = refresh_tokens d @ [t] \<and> rt_user_id t = u_id u \<and>
         rt_token_hash t = hash_refresh_token c (tp_refresh_token tp) \<and> tp_refresh_token tp = generate_refresh_token rnd \<and>
         rt_expires_at t = now d + secs (as_i64 (as_refresh_token_ttl_secs a))"
  by (auto simp: issue_tokens_def Let_def refresh_token_create_def split: sum.splits prod.splits if_splits)

text \<open>
  C18: refresh tokens are single use. A successful refresh consumes the presented token, which belonged
  to an existing user, and issues a new one to the same user; whatever account requests follow, in any
  number and at any time, the old token is refused with 401, unless a later random token has its hash.
\<close>

theorem refresh_token_single_use:
  assumes "schema_ok d" and "refresh c a rnd token d = (Inr pair, d1)"
    and "hash_refresh_token c (tp_refresh_token pair) \<noteq> hash_refresh_token c token"
    and "\<forall>r \<in> set reqs. hash_refresh_token c token \<notin> issues c r"
  shows "fst (refresh c a rnd2 token (auth_run c a reqs d1)) = Inl (Unauthorized ''Invalid or expired refresh token'') \<and>
    (\<exists>old \<in> set (refresh_tokens d). \<exists>new \<in> set (refresh_tokens d1). \<exists>u \<in> set (users d).
       rt_token_hash old = hash_refresh_token c token \<and> rt_token_hash new = hash_refresh_token c (tp_refresh_token pair) \<and>
       rt_user_id old = u_id u \<and> rt_user_id new = u_id u)"
proof -
  from refresh_InrD [OF assms(2,1)] obtain t u d0 where t: "t \<in> set (refresh_tokens d)" "rt_token_hash t = hash_refresh_token c token"
    and u: "u \<in> set (users d)" "u_id u = rt_user_id t" and iss: "issue_tokens c a rnd u d0 = (Inr pair, d1)"
    and gone: "hash_refresh_token c token \<notin> token_hashes d0" by metis
  from issue_tokens_InrD [OF iss] obtain n where n: "refresh_tokens d1 = refresh_tokens d0 @ [n]" "rt_user_id n = u_id u"
    "rt_token_hash n = hash_refresh_token c (tp_refresh_token pair)" by blast
  from gone n assms(3) have "hash_refresh_token c token \<notin> token_hashes d1" by auto
  then have "hash_refresh_token c token \<notin> token_hashes (auth_run c a reqs d1)" using assms(4) by (rule auth_run_hashes)
  with refresh_unknown have "fst (refresh c a rnd2 token (auth_run c a reqs d1)) = Inl (Unauthorized ''Invalid or expired refresh token'')"
    by blast
  moreover have "n \<in> set (refresh_tokens d1)" using n by simp
  ultimately show ?thesis using t u n by metis
qed

text \<open>
  changing the role or the password of a user takes effect. The update removes every refresh token
  of the user and no other one, and none of them is accepted later, whatever account requests follow,
  unless a later random token has its hash; a refused update changes nothing.
\<close>

theorem update_user_revokes_tokens:
  assumes "schema_ok d" and "update_user c salt admin uid body d = (res, d1)"
    and "t \<in> set (refresh_tokens d)" and "rt_user_id t = uid" and "rt_token_hash t = hash_refresh_token c token"
    and "\<forall>r \<in> set reqs. hash_refresh_token c token \<notin> issues c r"
  shows "(case res of
       Inl e \<Rightarrow> d1 = d
     | Inr _ \<Rightarrow> refresh_tokens d1 = delete_where (\<lambda>t. rt_user_id t = uid) (refresh_tokens d) \<and>
         fst (refresh c a rnd token (auth_run c a reqs d1)) = Inl (Unauthorized ''Invalid or expired refresh token''))"
proof (cases res)
  case (Inr v)
  with update_user_tokens [OF assms(2)] have d1: "refresh_tokens d1 = delete_where (\<lambda>t. rt_user_id t = uid) (refresh_tokens d)"
    by auto
  have "distinct (map rt_token_hash (refresh_tokens d))" using schema_okD(10) [OF assms(1)] by (simp add: refresh_tokens_ok_def)
  then have "t' = t" if "t' \<in> set (refresh_tokens d)" "rt_token_hash t' = rt_token_hash t" for t'
    using assms(3) that by (metis distinct_key_unique)
  then have "hash_refresh_token c token \<notin> token_hashes d1"
    using assms(4) unfolding d1 assms(5) [symmetric] by (auto simp: table_simps)
  then have "hash_refresh_token c token \<notin> token_hashes (auth_run c a reqs d1)" using assms(6) by (rule auth_run_hashes)
  with refresh_unknown d1 Inr show ?thesis by simp
qed (use update_user_tokens [OF assms(2)] in auto)

lemma hex_digits_2: "hex_digits 2 n = [digit_char (n div 16 mod 16), digit_char (n mod 16)]"
  by (simp add: numeral_2_eq_2)

lemma digit_chars:
  "char_of (48::nat) = CHR ''0''" "char_of (49::nat) = CHR ''1''" "char_of (50::nat) = CHR ''2''"
  "char_of (51::nat) = CHR ''3''" "char_of (52::nat) = CHR ''4''"
  by code_simp+

theorem refresh_token_single_use_witness:
  "\<exists>pair d1. refresh demo_crypto demo_auth [2] ''01''
       (demo_db\<lparr>refresh_tokens := [\<lparr>rt_id = 20, rt_user_id = 1, rt_token_hash = ''3031'', rt_expires_at = 5, rt_created_at = 0\<rparr>]\<rparr>) = (Inr pair, d1) \<and>
     fst (refresh demo_crypto demo_auth [3] ''01'' (auth_run demo_crypto demo_auth [Clock 3, Login [4] ''ann'' [], Logout ''zz''] d1)) =
       Inl (Unauthorized ''Invalid or expired refresh token'')"
proof -
  define t where "t = \<lparr>rt_id = 20, rt_user_id = 1, rt_token_hash = ''3031'', rt_expires_at = 5, rt_created_at = 0\<rparr>"
  define d where "d = demo_db\<lparr>refresh_tokens := [t]\<rparr>"
  have ok: "schema_ok d" unfolding d_def
    by (rule schema_ok_set_leaf(5) [OF schema_ok_demo]) (simp add: refresh_tokens_ok_def t_def demo_defs)
  have h: "hash_refresh_token demo_crypto ''01'' = ''3031''" "hash_refresh_token demo_crypto (generate_refresh_token [2]) = ''3032''"
    "hash_refresh_token demo_crypto (generate_refresh_token [4]) = ''3034''"
    by (simp_all add: hash_refresh_token_def generate_refresh_token_def demo_crypto_def hex_digits_2 digit_char_def digit_chars)
  have iss: "\<forall>r \<in> set [Clock 3, Login [4] ''ann'' [], Logout ''zz'']. hash_refresh_token demo_crypto ''01'' \<notin> issues demo_crypto r"
    by (simp add: h)
  obtain access where acc: "generate_access_token demo_crypto demo_auth (Suc 0) ''user'' 0 = Inr access"
    by (simp add: generate_access_token_def demo_crypto_def)
  obtain pair d1 where run: "refresh demo_crypto demo_auth [2] ''01'' d = (Inr pair, d1)" "tp_refresh_token pair = generate_refresh_token [2]"
    by (simp add: refresh_def h refresh_token_consume_by_hash_def d_def t_def demo_defs user_find_by_id_def ok_or_def issue_tokens_def
        acc refresh_token_create_def Let_def delete_where_def)
  from refresh_token_single_use [OF ok run(1) _ iss, of "[3]"] run h show ?thesis unfolding d_def t_def by auto
qed

theorem update_user_revokes_tokens_witness:
  "\<exists>v d1. update_user demo_crypto [] 9 1 \<lparr>uur_role = Some ''admin'', uur_password = None\<rparr>
       (demo_db\<lparr>refresh_tokens := [\<lparr>rt_id = 20, rt_user_id = 1, rt_token_hash = ''3031'', rt_expires_at = 5, rt_created_at = 0\<rparr>]\<rparr>) = (Inr v, d1) \<and>
     fst (refresh demo_crypto demo_auth [3] ''01'' (auth_run demo_crypto demo_auth [Clock 1, Refresh [2] ''01''] d1)) =
       Inl (Unauthorized ''Invalid or expired refresh token'')"
proof -
  define t where "t = \<lparr>rt_id = 20, rt_user_id = 1, rt_token_hash = ''3031'', rt_expires_at = 5, rt_created_at = 0\<rparr>"
  define d where "d = demo_db\<lparr>refresh_tokens := [t]\<rparr>"
  have ok: "schema_ok d" unfolding d_def
    by (rule schema_ok_set_leaf(5) [OF schema_ok_demo]) (simp add: refresh_tokens_ok_def t_def demo_defs)
  have h: "hash_refresh_token demo_crypto ''01'' = ''3031''" "hash_refresh_token demo_crypto (generate_refresh_token [2]) = ''3032''"
    by (simp_all add: hash_refresh_token_def generate_refresh_token_def demo_crypto_def hex_digits_2 digit_char_def digit_chars)
  obtain v d1 where run: "update_user demo_crypto [] 9 1 \<lparr>uur_role = Some ''admin'', uur_password = None\<rparr> d = (Inr v, d1)"
    by (simp add: update_user_def user_find_by_id_def ok_or_def validate_user_update_def apply_user_update_def user_update_role_def
        d_def demo_defs)
  have t: "t \<in> set (refresh_tokens d)" "rt_user_id t = 1" "rt_token_hash t = hash_refresh_token demo_crypto ''01''"
    by (simp_all add: d_def t_def h)
  have iss: "\<forall>r \<in> set [Clock 1, Refresh [2] ''01'']. hash_refresh_token demo_crypto ''01'' \<notin> issues demo_crypto r"
    by (simp add: h)
  from update_user_revokes_tokens [OF ok run t iss, of demo_auth "[3]"] run show ?thesis unfolding d_def t_def by auto
qed

section \<open>The acting administrator\<close>

definition is_db_admin :: "uuid \<Rightarrow> db \<Rightarrow> bool" where
  "is_db_admin uid d \<longleftrightarrow> (\<exists>u \<in> set (users d). u_id u = uid \<and> u_role u = ''admin'')"

text \<open>The administrative requests of one administrator, and anyone's logins and logouts.\<close>

fun acts_as :: "uuid \<Rightarrow> auth_request \<Rightarrow> bool" where
  "acts_as admin (DeleteUser a uid) = (a = admin)"
| "acts_as admin (UpdateUser salt a uid body) = (a = admin)"
| "acts_as admin _ = True"

lemma is_db_admin_update:
  assumes "is_db_admin admin d" and "users d' = update_where P f (users d)" and "\<And>u. u_id (f u) = u_id u"
    and "\<And>u. P u \<Longrightarrow> u_id u = admin \<Longrightarrow> u_role u = ''admin'' \<Longrightarrow> u_role (f u) = ''admin''"
  shows "is_db_admin admin d'"
proof -
  from assms(1) obtain u where u: "u \<in> set (users d)" "u_id u = admin" "u_role u = ''admin''" by (auto simp: is_db_admin_def)
  let ?u = "if P u then f u else u"
  have "?u \<in> set (users d')" using u assms(2) by (auto simp: table_simps)
  moreover have "u_id ?u = admin" "u_role ?u = ''admin''" using u assms(3,4) by auto
  ultimately show ?thesis unfolding is_db_admin_def by blast
qed

lemma user_update_role_admin:
  assumes "is_db_admin admin d" and "uid = admin \<Longrightarrow> r = ''admin''" and "user_update_role uid r d = (Inr v, d')"
  shows "is_db_admin admin d'"
  by (rule is_db_admin_update [OF assms(1), where P = "\<lambda>u. u_id u = uid" and f = "\<lambda>u. u\<lparr>u_role := r, u_updated_at := now d\<rparr>"])
    (use assms(2,3) in \<open>auto simp: user_update_role_def Let_def split: option.splits if_splits\<close>)

lemma user_update_password_admin:
  assumes "is_db_admin admin d" and "user_update_password_hash uid h d = (Inr v, d')"
  shows "is_db_admin admin d'"
  by (rule is_db_admin_update [OF assms(1), where P = "\<lambda>u. u_id u = uid" and f = "\<lambda>u. u\<lparr>u_password_hash := h, u_updated_at := now d\<rparr>"])
    (use assms(2) in \<open>auto simp: user_update_password_hash_def Let_def split: option.splits\<close>)

lemma apply_user_update_admin:
  assumes "is_db_admin admin d" and "\<And>r. role = Some r \<Longrightarrow> uid = admin \<Longrightarrow> r = ''admin''"
  shows "is_db_admin admin (snd (apply_user_update uid role h u d))"
proof -
  obtain r1 d1 where s1: "(case role of None \<Rightarrow> (Inr u, d) | Some r \<Rightarrow> user_update_role uid r d) = (r1, d1)" by fastforce
  show ?thesis
  proof (cases r1)
    case (Inr u1)
    with s1 assms user_update_role_admin [of admin d uid] have a1: "is_db_admin admin d1" by (cases role) auto
    obtain r2 d2 where s2: "(case h of None \<Rightarrow> (Inr u1, d1) | Some x \<Rightarrow> user_update_password_hash uid x d1) = (r2, d2)" by fastforce
    show ?thesis
    proof (cases r2)
      case (Inr u2)
      with s2 a1 user_update_password_admin [of admin d1 uid] have "is_db_admin admin d2" by (cases h) auto
      with s1 s2 \<open>r1 = Inr u1\<close> Inr show ?thesis by (simp add: apply_user_update_def is_db_admin_def)
    qed (use s1 s2 \<open>r1 = Inr u1\<close> assms(1) in \<open>simp add: apply_user_update_def\<close>)
  qed (use s1 assms(1) in \<open>simp add: apply_user_update_def\<close>)
qed

lemma update_user_admin:
  assumes "is_db_admin admin d"
  shows "is_db_admin admin (snd (update_user c salt admin uid body d))"
proof (cases "snd (update_user c salt admin uid body d) = d")
  case False
  then obtain u h where h: "validate_user_update c salt admin uid body = Inr h"
    and upd: "update_user c salt admin uid body d = apply_user_update uid (uur_role body) h u d"
    by (auto simp: update_user_def split: if_splits sum.splits)
  have "r = ''admin''" if "uur_role body = Some r" "uid = admin" for r
    using that h by (auto simp: validate_user_update_def split: if_splits)
  with assms show ?thesis unfolding upd by (rule apply_user_update_admin)
qed (use assms in simp)

lemma users_frame:
  "users (snd (issue_tokens c a rnd u d)) = users d" "users (snd (login c a rnd n p d)) = users d"
  "users (snd (refresh c a rnd tok d)) = users d" "users (snd (logout c tok d)) = users d"
proof -
  show i: "users (snd (issue_tokens c a rnd u d)) = users d" for c a rnd u d
    by (auto simp: issue_tokens_def Let_def refresh_token_create_def split: sum.splits prod.splits if_splits)
  show "users (snd (login c a rnd n p d)) = users d" by (simp add: login_def i split: option.split)
  show "users (snd (logout c tok d)) = users d" by (simp add: logout_def refresh_token_delete_by_hash_def)
  show "users (snd (refresh c a rnd tok d)) = users d"
    by (auto simp: refresh_def refresh_token_consume_by_hash_def i split: option.split sum.split app_error.split)
qed

lemma create_user_users: "set (users d) \<subseteq> set (users (snd (create_user c salt body d)))"
proof -
  have "set (users d) \<subseteq> set (users (snd (user_create input d)))" for input by (auto simp: user_create_def Let_def)
  then have "set (users d) \<subseteq> set (users d1)" if "user_create input d = (r, d1)" for input r d1 using that by (metis snd_conv)
  then show ?thesis by (auto simp: create_user_def split: sum.split prod.split app_error.split)
qed

lemma auth_exec_admin:
  assumes "is_db_admin admin d" and "acts_as admin req"
  shows "is_db_admin admin (auth_exec c a req d)"
proof (cases req)
  case (CreateUser salt body)
  with assms(1) create_user_users [of d c salt body] show ?thesis by (auto simp: is_db_admin_def)
next
  case (DeleteUser b uid)
  with assms show ?thesis
    by (auto simp: is_db_admin_def delete_user_def Let_def user_delete_def refresh_token_delete_by_user_id_def
        shared_link_delete_by_user_def table_simps)
next
  case (UpdateUser salt b uid body)
  with assms update_user_admin show ?thesis by simp
qed (use assms(1) in \<open>simp_all add: is_db_admin_def users_frame\<close>)

text \<open>
  C19: an administrator cannot lock the system out. After any sequence of user creations, logins,
  refreshes and logouts of anyone and of updates and deletions by one administrator, this administrator
  still exists and still is an administrator.
\<close>

theorem acting_admin_survives:
  assumes "is_db_admin admin d" and "\<forall>r \<in> set reqs. acts_as admin r"
  shows "is_db_admin admin (auth_run c a reqs d)"
  using assms unfolding auth_run_def
  by (induction reqs arbitrary: d) (simp_all add: auth_exec_admin)

theorem acting_admin_survives_witness:
  "is_db_admin 1 (auth_run demo_crypto demo_auth
     [UpdateUser [] 1 1 \<lparr>uur_role = Some ''user'', uur_password = None\<rparr>, DeleteUser 1 1]
     (demo_db\<lparr>users := [demo_user\<lparr>u_role := ''admin''\<rparr>]\<rparr>))"
  by (rule acting_admin_survives) (simp_all add: is_db_admin_def demo_user_def)

end
