(* ===== verification/Config.thy ===== *)
theory Config
  imports Prelude
begin

text \<open>
  The configuration (\<open>src/config.rs\<close>): the sections and their defaults. Reading the file and the environment
  is the configuration library's; a section that is missing takes its default. \<open>serialized\<close> is what
  \<open>Serialize\<close> writes: the fields marked \<open>skip_serializing\<close> are left out. Numbers have the width of their
  Rust type; none is computed with here.
\<close>

record server_config =
  srv_host :: string
  srv_port :: nat

record database_config =
  dbc_url :: string
  dbc_max_connections :: nat

record storage_config =
  stc_local_temp_path :: string
  stc_hmac_secret :: string

record auth_config =
  ac_jwt_secret :: string
  ac_access_token_ttl_secs :: nat
  ac_refresh_token_ttl_secs :: nat
  ac_default_admin_username :: string
  ac_default_admin_password :: string

record sync_config =
  snc_num_workers :: nat
  snc_max_retries :: int
  snc_poll_interval_secs :: nat
  snc_tier_scan_interval_secs :: nat

record backup_worker_config =
  bwc_enabled :: bool
  bwc_check_interval_secs :: nat
  bwc_temp_dir :: string

record dashboard_config =
  dsc_events_retention_days :: nat

record upload_config_section =
  ucs_chunk_size :: nat
  ucs_session_ttl_secs :: nat
  ucs_max_file_size :: nat
  ucs_cleanup_interval_secs :: nat

record app_config =
  cfg_server :: server_config
  cfg_database :: database_config
  cfg_storage :: storage_config
  cfg_sync :: sync_config
  cfg_auth :: auth_config
  cfg_backup :: backup_worker_config
  cfg_upload :: upload_config_section
  cfg_dashboard :: dashboard_config

text \<open>The default of every field, and the sections made of them.\<close>

definition default_host :: string where [simp]:
  "default_host = ''0.0.0.0''"

definition default_port :: nat where [simp]:
  "default_port = 8080"

definition default_database_url :: string where [simp]:
  "default_database_url = ''postgres://localhost:5432/innovare_storage''"

definition default_max_connections :: nat where [simp]:
  "default_max_connections = 10"

definition default_local_temp_path :: string where [simp]:
  "default_local_temp_path = ''./data/temp''"

definition default_hmac_secret :: string where [simp]:
  "default_hmac_secret = ''change-me-in-production''"

definition default_num_workers :: nat where [simp]:
  "default_num_workers = 4"

definition default_max_retries :: int where [simp]:
  "default_max_retries = 5"

definition default_poll_interval_secs :: nat where [simp]:
  "default_poll_interval_secs = 5"

definition default_tier_scan_interval_secs :: nat where [simp]:
  "default_tier_scan_interval_secs = 300"

definition default_jwt_secret :: string where [simp]:
  "default_jwt_secret = ''change-me-jwt-secret-in-production''"

definition default_access_token_ttl_secs :: nat where [simp]:
  "default_access_token_ttl_secs = 900"

definition default_refresh_token_ttl_secs :: nat where [simp]:
  "default_refresh_token_ttl_secs = 604800"

definition default_admin_username :: string where [simp]:
  "default_admin_username = ''admin''"

definition default_admin_password :: string where [simp]:
  "default_admin_password = ''Innovare2026!''"

definition default_backup_enabled :: bool where [simp]:
  "default_backup_enabled = True"

definition default_backup_check_interval_secs :: nat where [simp]:
  "default_backup_check_interval_secs = 60"

definition default_backup_temp_dir :: string where [simp]:
  "default_backup_temp_dir = []"

definition default_dashboard_events_retention_days :: nat where [simp]:
  "default_dashboard_events_retention_days = 365"

definition default_upload_chunk_size :: nat where [simp]:
  "default_upload_chunk_size = 48 * 1024 * 1024"

definition default_upload_session_ttl_secs :: nat where [simp]:
  "default_upload_session_ttl_secs = 86400"

definition default_upload_max_file_size :: nat where [simp]:
  "default_upload_max_file_size = 0"

definition default_upload_cleanup_interval_secs :: nat where [simp]:
  "default_upload_cleanup_interval_secs = 3600"

definition default_server :: server_config where
  "default_server = \<lparr>srv_host = default_host, srv_port = default_port\<rparr>"

definition default_database :: database_config where
  "default_database = \<lparr>dbc_url = default_database_url, dbc_max_connections = default_max_connections\<rparr>"

definition default_storage :: storage_config where
  "default_storage = \<lparr>stc_local_temp_path = default_local_temp_path, stc_hmac_secret = default_hmac_secret\<rparr>"

definition default_sync :: sync_config where
  "default_sync = \<lparr>snc_num_workers = default_num_workers, snc_max_retries = default_max_retries,
     snc_poll_interval_secs = default_poll_interval_secs, snc_tier_scan_interval_secs = default_tier_scan_interval_secs\<rparr>"

definition default_auth :: auth_config where
  "default_auth = \<lparr>ac_jwt_secret = default_jwt_secret, ac_access_token_ttl_secs = default_access_token_ttl_secs,
     ac_refresh_token_ttl_secs = default_refresh_token_ttl_secs, ac_default_admin_username = default_admin_username,
     ac_default_admin_password = default_admin_password\<rparr>"

definition default_backup :: backup_worker_config where
  "default_backup = \<lparr>bwc_enabled = default_backup_enabled, bwc_check_interval_secs = default_backup_check_interval_secs,
     bwc_temp_dir = default_backup_temp_dir\<rparr>"

definition default_dashboard :: dashboard_config where
  "default_dashboard = \<lparr>dsc_events_retention_days = default_dashboard_events_retention_days\<rparr>"

definition default_upload :: upload_config_section where
  "default_upload = \<lparr>ucs_chunk_size = default_upload_chunk_size, ucs_session_ttl_secs = default_upload_session_ttl_secs,
     ucs_max_file_size = default_upload_max_file_size, ucs_cleanup_interval_secs = default_upload_cleanup_interval_secs\<rparr>"

text \<open>The fields \<open>Serialize\<close> writes, with the fields it skips removed.\<close>

definition serialized ::
    "app_config \<Rightarrow> server_config \<times> database_config \<times> string \<times> sync_config \<times> (nat \<times> nat \<times> string) \<times> backup_worker_config \<times>
     upload_config_section \<times> dashboard_config" where
  "serialized c = (cfg_server c, cfg_database c, stc_local_temp_path (cfg_storage c), cfg_sync c,
     (ac_access_token_ttl_secs (cfg_auth c), ac_refresh_token_ttl_secs (cfg_auth c), ac_default_admin_username (cfg_auth c)),
     cfg_backup c, cfg_upload c, cfg_dashboard c)"

end
