(* ===== verification/Api_Admin.thy ===== *)
theory Api_Admin
  imports Api_Files Auth Config
begin

text \<open>
  The administration of projects, storages and nodes: the endpoints of \<open>src/api/projects.rs\<close>,
  \<open>src/api/storages.rs\<close> and \<open>src/api/mod.rs\<close>, the nodes of \<open>src/db/models.rs\<close> and the start-up and
  heartbeat of \<open>src/main.rs\<close>. The endpoints of storages change the database and the registry of the
  process that serves the request; the registries of other processes are their own. Shown: the registry of
  the process that serves all requests holds what a restart would load, that a second process does not
  learn of a new storage, who may administer a project, and that an export of the configuration does not
  depend on the secrets.
\<close>

section \<open>Projects\<close>

definition api_create_project :: "authenticated_user \<Rightarrow> create_project \<Rightarrow> db \<Rightarrow> project app_result \<times> db" where
  "api_create_project u body d = project_create body (Some (au_user_id u)) d"

definition list_projects :: "authenticated_user \<Rightarrow> db \<Rightarrow> project list" where
  "list_projects u d = (if is_admin u then project_list d else project_list_accessible (au_user_id u) d)"

text \<open>The distinct files of a project.\<close>

definition project_file_rows :: "uuid \<Rightarrow> db \<Rightarrow> file_row list" where
  "project_file_rows pid d =
     filter (\<lambda>f. list_ex (\<lambda>r. r_project_id r = pid \<and> r_file_id r = f_id f) (file_references d)) (files d)"

definition get_project :: "authenticated_user \<Rightarrow> uuid \<Rightarrow> db \<Rightarrow> (project \<times> int \<times> int) app_result" where
  "get_project u pid d =
     (case require_member u pid d of
        Inl e \<Rightarrow> Inl e
      | Inr p \<Rightarrow> (let fs = project_file_rows pid d in Inr (p, int (length fs), sum_list (map f_size fs))))"

text \<open>The requests only the owner and administrators may make.\<close>

definition as_owner :: "authenticated_user \<Rightarrow> uuid \<Rightarrow> (db \<Rightarrow> 'r app_result \<times> db) \<Rightarrow> db \<Rightarrow> 'r app_result \<times> db" where
  "as_owner u pid act d =
     (case project_find_by_id pid d of
        Inl e \<Rightarrow> (Inl e, d)
      | Inr p \<Rightarrow> (case require_owner_or_admin u (p_owner_id p) of Inl e \<Rightarrow> (Inl e, d) | Inr _ \<Rightarrow> act d))"

definition api_update_project :: "authenticated_user \<Rightarrow> uuid \<Rightarrow> update_project_input \<Rightarrow> db \<Rightarrow> project app_result \<times> db" where
  "api_update_project u pid body = as_owner u pid (project_update pid body)"

definition api_delete_project :: "authenticated_user \<Rightarrow> uuid \<Rightarrow> db \<Rightarrow> unit app_result \<times> db" where
  "api_delete_project u pid = as_owner u pid (project_delete pid)"

definition list_project_storages :: "authenticated_user \<Rightarrow> uuid \<Rightarrow> db \<Rightarrow> ps_details list app_result" where
  "list_project_storages u pid d =
     (case require_member u pid d of Inl e \<Rightarrow> Inl e | Inr _ \<Rightarrow> Inr (project_storage_list_for_project pid d))"

definition assign_storage :: "authenticated_user \<Rightarrow> uuid \<Rightarrow> create_project_storage \<Rightarrow> db \<Rightarrow> project_storage app_result \<times> db" where
  "assign_storage u pid body = as_owner u pid (\<lambda>d.
     case storage_find_by_id (cps_storage_id body) d of
       Inl e \<Rightarrow> (Inl e, d)
     | Inr _ \<Rightarrow> project_storage_create pid body d)"

definition update_project_storage ::
    "authenticated_user \<Rightarrow> uuid \<Rightarrow> uuid \<Rightarrow> update_project_storage_input \<Rightarrow> db \<Rightarrow> project_storage app_result \<times> db" where
  "update_project_storage u pid sid body = as_owner u pid (project_storage_update pid sid body)"

definition remove_storage_assignment :: "authenticated_user \<Rightarrow> uuid \<Rightarrow> uuid \<Rightarrow> db \<Rightarrow> unit app_result \<times> db" where
  "remove_storage_assignment u pid sid = as_owner u pid (project_storage_delete pid sid)"

definition list_available_storages :: "authenticated_user \<Rightarrow> uuid \<Rightarrow> db \<Rightarrow> storage list app_result \<times> db" where
  "list_available_storages u pid = as_owner u pid (\<lambda>d.
     (Inr (map redacted (project_storage_list_available_storages pid d)), d))"

subsection \<open>Members\<close>

definition validate_member_role :: "string \<Rightarrow> unit app_result" where
  "validate_member_role role =
     (if role = ''member'' \<or> role = ''writer'' then Inr ()
      else Inl (BadRequest (''Invalid role '' @ sq role @ '': must be '' @ sq ''member'' @ '' or '' @ sq ''writer'')))"

definition list_project_members :: "uuid app_result \<Rightarrow> uuid \<Rightarrow> db \<Rightarrow> member_info list app_result \<times> db" where
  "list_project_members admin pid = with_admin admin (\<lambda>d.
     case project_find_by_id pid d of Inl e \<Rightarrow> (Inl e, d) | Inr _ \<Rightarrow> (Inr (user_project_list_for_project pid d), d))"

definition add_project_member :: "uuid app_result \<Rightarrow> uuid \<Rightarrow> uuid \<Rightarrow> string option \<Rightarrow> db \<Rightarrow> user_project app_result \<times> db" where
  "add_project_member admin pid uid role_opt = with_admin admin (\<lambda>d.
     let role = unwrap_or ''member'' role_opt
     in case project_find_by_id pid d of
          Inl e \<Rightarrow> (Inl e, d)
        | Inr _ \<Rightarrow>
           (case user_find_by_id uid d of
              Inl e \<Rightarrow> (Inl e, d)
            | Inr _ \<Rightarrow> (case validate_member_role role of
                         Inl e \<Rightarrow> (Inl e, d)
                       | Inr _ \<Rightarrow> user_project_create uid pid role d)))"

definition update_project_member :: "uuid app_result \<Rightarrow> uuid \<Rightarrow> uuid \<Rightarrow> string \<Rightarrow> db \<Rightarrow> user_project app_result \<times> db" where
  "update_project_member admin pid uid role = with_admin admin (\<lambda>d.
     case validate_member_role role of Inl e \<Rightarrow> (Inl e, d) | Inr _ \<Rightarrow> user_project_update_role uid pid role d)"

definition remove_project_member :: "uuid app_result \<Rightarrow> uuid \<Rightarrow> uuid \<Rightarrow> db \<Rightarrow> unit app_result \<times> db" where
  "remove_project_member admin pid uid = with_admin admin (user_project_delete uid pid)"

section \<open>Storages\<close>

definition api_create_storage ::
    "uuid app_result \<Rightarrow> 'w env \<Rightarrow> (db_error \<Rightarrow> string) \<Rightarrow> string \<Rightarrow> create_storage \<Rightarrow> db \<times> registry \<Rightarrow> storage app_result \<times> db \<times> registry" where
  "api_create_storage admin x db_msg secret body = with_admin admin (\<lambda>(d, reg).
     case (if unwrap_or True (cs_enabled body)
           then (case create_backend x (cs_type body) (cs_config body) secret of Inl e \<Rightarrow> Inl e | Inr _ \<Rightarrow> Inr ())
           else Inr ()) of
       Inl e \<Rightarrow> (Inl (BadRequest (''Invalid storage backend configuration: '' @ display_error db_msg e)), d, reg)
     | Inr _ \<Rightarrow>
        (case storage_create body d of
           (Inl e, d1) \<Rightarrow> (Inl e, d1, reg)
         | (Inr s, d1) \<Rightarrow>
            (Inr (redacted s), d1,
             if s_enabled s
             then (case create_backend x (s_type s) (s_config s) secret of
                     Inr b \<Rightarrow> registry_register (s_id s) b reg
                   | Inl _ \<Rightarrow> reg)
             else reg)))"

record storage_with_stats =
  sws_storage :: storage
  sws_file_count :: int
  sws_used_space :: int

text \<open>The join of the synced locations of a storage with the files.\<close>

definition stored_sizes :: "uuid \<Rightarrow> db \<Rightarrow> int list" where
  "stored_sizes sid d = concat (map (\<lambda>l. map f_size (filter (\<lambda>f. f_id f = l_file_id l) (files d))) (synced_on sid d))"

definition with_stats :: "db \<Rightarrow> storage \<Rightarrow> storage_with_stats" where
  "with_stats d s = \<lparr>sws_storage = redacted s, sws_file_count = int (length (stored_sizes (s_id s) d)),
     sws_used_space = sum_list (stored_sizes (s_id s) d)\<rparr>"

definition list_storages :: "authenticated_user \<Rightarrow> db \<Rightarrow> storage_with_stats list" where
  "list_storages u d = map (with_stats d) (if is_admin u then storage_list d else user_storage_list_for_user (au_user_id u) d)"

definition get_storage :: "authenticated_user \<Rightarrow> uuid \<Rightarrow> db \<Rightarrow> storage_with_stats app_result" where
  "get_storage u sid d =
     (if \<not> is_admin u \<and> \<not> user_storage_is_member (au_user_id u) sid d
      then Inl (Forbidden ''Access denied: not assigned to this storage'')
      else (case storage_find_by_id sid d of Inl e \<Rightarrow> Inl e | Inr s \<Rightarrow> Inr (with_stats d s)))"

definition update_storage ::
    "uuid app_result \<Rightarrow> 'w env \<Rightarrow> string \<Rightarrow> uuid \<Rightarrow> update_storage_input \<Rightarrow> db \<times> registry \<Rightarrow> storage app_result \<times> db \<times> registry" where
  "update_storage admin x secret sid body = with_admin admin (\<lambda>(d, reg).
     case storage_update sid body d of
       (Inl e, d1) \<Rightarrow> (Inl e, d1, reg)
     | (Inr s, d1) \<Rightarrow>
        (Inr (redacted s), d1,
         if s_enabled s
         then (case create_backend x (s_type s) (s_config s) secret of
                 Inr b \<Rightarrow> registry_register (s_id s) b reg
               | Inl _ \<Rightarrow> reg)
         else snd (registry_unregister (s_id s) reg)))"

definition disable_storage :: "uuid app_result \<Rightarrow> uuid \<Rightarrow> db \<times> registry \<Rightarrow> storage app_result \<times> db \<times> registry" where
  "disable_storage admin sid = with_admin admin (\<lambda>(d, reg).
     case storage_update_enabled sid False d of
       (Inl e, d1) \<Rightarrow> (Inl e, d1, reg)
     | (Inr s, d1) \<Rightarrow> (Inr (redacted s), d1, snd (registry_unregister sid reg)))"

definition list_storage_files :: "uuid app_result \<Rightarrow> uuid \<Rightarrow> pagination_params \<Rightarrow> db \<Rightarrow> file_location list app_result \<times> db" where
  "list_storage_files admin sid q = with_admin admin (\<lambda>d.
     case storage_find_by_id sid d of
       Inl e \<Rightarrow> (Inl e, d)
     | Inr _ \<Rightarrow> (Inr (limit_rows (page_limit q) (offset_rows (page_offset q)
                  (order_desc l_created_at (filter (\<lambda>l. l_storage_id l = sid) (file_locations d))))), d))"

definition list_storage_containers ::
    "uuid app_result \<Rightarrow> (backend \<Rightarrow> 'w \<Rightarrow> string list app_result) \<Rightarrow> registry \<Rightarrow> uuid \<Rightarrow> 'w phys \<Rightarrow> db \<Rightarrow> string list app_result \<times> db" where
  "list_storage_containers admin list_containers reg sid w = with_admin admin (\<lambda>d.
     (case storage_find_by_id sid d of
        Inl e \<Rightarrow> Inl e
      | Inr _ \<Rightarrow> (case registry_get sid reg of
                   Inl e \<Rightarrow> Inl e
                 | Inr b \<Rightarrow> (if supports_containers b then list_containers b (ph_net w)
                            else Inl (BadRequest ''This storage backend does not support container listing''))), d))"

definition create_storage_container ::
    "uuid app_result \<Rightarrow> 'w env \<Rightarrow> registry \<Rightarrow> uuid \<Rightarrow> string \<Rightarrow> db \<times> 'w phys \<Rightarrow> string app_result \<times> db \<times> 'w phys" where
  "create_storage_container admin x reg sid name = with_admin admin (\<lambda>(d, w).
     case storage_find_by_id sid d of
       Inl e \<Rightarrow> (Inl e, d, w)
     | Inr _ \<Rightarrow> (case registry_get sid reg of
                  Inl e \<Rightarrow> (Inl e, d, w)
                | Inr b \<Rightarrow> (case be_create_container x b name w of
                             (Inl e, w1) \<Rightarrow> (Inl e, d, w1)
                           | (Inr _, w1) \<Rightarrow> (Inr name, d, w1))))"

definition list_storage_members :: "uuid app_result \<Rightarrow> uuid \<Rightarrow> db \<Rightarrow> member_info list app_result \<times> db" where
  "list_storage_members admin sid = with_admin admin (\<lambda>d.
     case storage_find_by_id sid d of Inl e \<Rightarrow> (Inl e, d) | Inr _ \<Rightarrow> (Inr (user_storage_list_for_storage sid d), d))"

definition add_storage_member :: "uuid app_result \<Rightarrow> uuid \<Rightarrow> uuid \<Rightarrow> db \<Rightarrow> user_storage app_result \<times> db" where
  "add_storage_member admin sid uid = with_admin admin (\<lambda>d.
     case storage_find_by_id sid d of
       Inl e \<Rightarrow> (Inl e, d)
     | Inr _ \<Rightarrow> (case user_find_by_id uid d of Inl e \<Rightarrow> (Inl e, d) | Inr _ \<Rightarrow> user_storage_create uid sid d))"

definition remove_storage_member :: "uuid app_result \<Rightarrow> uuid \<Rightarrow> uuid \<Rightarrow> db \<Rightarrow> unit app_result \<times> db" where
  "remove_storage_member admin sid uid = with_admin admin (user_storage_delete uid sid)"

section \<open>System\<close>

record system_stats =
  sy_total_files :: int
  sy_total_storage_used :: int
  sy_pending_sync_tasks :: int

definition api_system_stats :: "uuid app_result \<Rightarrow> db \<Rightarrow> system_stats app_result \<times> db" where
  "api_system_stats admin = with_admin admin (\<lambda>d.
     (Inr \<lparr>sy_total_files = int (length (files d)), sy_total_storage_used = sum_list (map f_size (files d)),
           sy_pending_sync_tasks = count_where (\<lambda>t. t_status t = ''pending'') (sync_tasks d)\<rparr>, d))"

definition list_sync_tasks ::
    "uuid app_result \<Rightarrow> string option \<Rightarrow> uuid option \<Rightarrow> uuid option \<Rightarrow> db \<Rightarrow> (sync_task \<times> string option) list app_result \<times> db" where
  "list_sync_tasks admin status storage_id project_id = with_admin admin (\<lambda>d.
     (Inr (sync_task_list_with_project status storage_id project_id d), d))"

text \<open>The export, as the client gets it: the configuration in its serialised form.\<close>

definition config_export :: "uuid app_result \<Rightarrow> app_config \<Rightarrow> db \<Rightarrow> _ app_result \<times> db" where
  "config_export admin config = with_admin admin (\<lambda>d.
     let safe_config = config\<lparr>cfg_database := (cfg_database config)\<lparr>dbc_url := ''***''\<rparr>\<rparr>
     in (Inr (serialized safe_config, project_list d, map redacted (storage_list d)), d))"

section \<open>Nodes\<close>

definition node_register :: "string \<Rightarrow> string \<Rightarrow> db \<Rightarrow> node app_result \<times> db" where
  "node_register node_id address d =
     (case find (\<lambda>n. n_node_id n = node_id) (nodes d) of
        Some n \<Rightarrow>
          (let upd = (\<lambda>n. n\<lparr>n_address := address, n_started_at := now d, n_last_heartbeat := now d\<rparr>)
           in (Inr (upd n), (draw d)\<lparr>nodes := update_where (\<lambda>n. n_node_id n = node_id) upd (nodes d)\<rparr>))
      | None \<Rightarrow>
          (let row = \<lparr>n_id = fresh_id d, n_node_id = node_id, n_address = address, n_started_at = now d,
                      n_last_heartbeat = now d, n_created_at = now d\<rparr>
           in if n_id row \<in> n_id ` set (nodes d) then (Inl (Database UniqueViolation), draw d)
              else (Inr row, (draw d)\<lparr>nodes := nodes d @ [row]\<rparr>)))"

definition node_heartbeat :: "string \<Rightarrow> db \<Rightarrow> unit app_result \<times> db" where
  "node_heartbeat node_id d =
     (Inr (), d\<lparr>nodes := update_where (\<lambda>n. n_node_id n = node_id) (\<lambda>n. n\<lparr>n_last_heartbeat := now d\<rparr>) (nodes d)\<rparr>)"

definition node_list_active :: "int \<Rightarrow> db \<Rightarrow> node list" where
  "node_list_active threshold_secs d =
     order_desc n_started_at (filter (\<lambda>n. now d - secs threshold_secs < n_last_heartbeat n) (nodes d))"

definition node_list_all :: "db \<Rightarrow> node list" where
  "node_list_all d = order_desc n_started_at (nodes d)"

definition list_nodes :: "uuid app_result \<Rightarrow> db \<Rightarrow> node list app_result \<times> db" where
  "list_nodes admin = with_admin admin (\<lambda>d. (Inr (node_list_active 90 d), d))"

section \<open>Start-up and heartbeat\<close>

text \<open>
  The seeding of the first administrator; \<open>None\<close> is the panic of an \<open>expect\<close>.
\<close>

definition seed_admin :: "crypto \<Rightarrow> bytes \<Rightarrow> auth_config \<Rightarrow> db \<Rightarrow> db option" where
  "seed_admin c salt auth d =
     (if user_count d = 0
      then (case hash_password c salt (ac_default_admin_password auth) of
              Inl _ \<Rightarrow> None
            | Inr h \<Rightarrow> (case user_create \<lparr>cu_username = ac_default_admin_username auth, cu_password_hash = h, cu_role = ''admin''\<rparr> d of
                         (Inl _, _) \<Rightarrow> None
                       | (Inr _, d1) \<Rightarrow> Some d1))
      else Some d)"

definition startup ::
    "'w env \<Rightarrow> crypto \<Rightarrow> bytes \<Rightarrow> app_config \<Rightarrow> string \<Rightarrow> string \<Rightarrow> db \<Rightarrow> (db \<times> registry) option" where
  "startup x c salt config node_id address d =
     (let reg = load_backends_from_db x (stc_hmac_secret (cfg_storage config)) d Map.empty
      in case seed_admin c salt (cfg_auth config) d of
           None \<Rightarrow> None
         | Some d1 \<Rightarrow> Some (snd (node_register node_id address d1), reg))"

text \<open>One tick of the heartbeat task.\<close>

definition heartbeat_tick :: "string \<Rightarrow> db \<Rightarrow> db" where
  "heartbeat_tick node_id d = snd (refresh_token_delete_expired (snd (node_heartbeat node_id d)))"

section \<open>The registry follows the database\<close>

definition expected_backend :: "'w env \<Rightarrow> string \<Rightarrow> storage list \<Rightarrow> uuid \<Rightarrow> backend option" where
  "expected_backend x secret ss i =
     (case find (\<lambda>s. s_id s = i \<and> s_enabled s) ss of
        None \<Rightarrow> None
      | Some s \<Rightarrow> (case create_backend x (s_type s) (s_config s) secret of Inr b \<Rightarrow> Some b | Inl _ \<Rightarrow> None))"

lemma loaded_expected:
  "schema_ok d \<Longrightarrow> load_backends_from_db x secret d Map.empty = expected_backend x secret (storages d)"
  by (rule ext) (simp add: load_backends_lookup expected_backend_def)

lemma key_notin: "i \<notin> k ` set rows \<Longrightarrow> r \<in> set rows \<Longrightarrow> k r \<noteq> i"
  by blast

lemma find_updated:
  assumes "distinct (map s_id ss)" and "\<And>s. s_id (f s) = s_id s"
  shows "find (\<lambda>s. s_id s = j \<and> s_enabled s) (update_where (\<lambda>s. s_id s = i) f ss) =
    (if j = i then (case find (\<lambda>s. s_id s = i) ss of None \<Rightarrow> None | Some s \<Rightarrow> if s_enabled (f s) then Some (f s) else None)
     else find (\<lambda>s. s_id s = j \<and> s_enabled s) ss)"
  using assms(1)
proof (induction ss)
  case (Cons a ss)
  show ?case
  proof (cases "s_id a = i")
    case True
    then have "i \<notin> s_id ` set ss" using Cons.prems by simp
    then have "\<forall>s \<in> set ss. s_id s \<noteq> i" using key_notin by metis
    then have "update_where (\<lambda>s. s_id s = i) f ss = ss" "find (\<lambda>s. s_id s = i \<and> s_enabled s) ss = None"
      by (simp_all add: update_where_none find_None_all)
    with True assms(2) show ?thesis by (auto simp: update_where_def)
  next
    case False
    with Cons show ?thesis by (auto simp: update_where_def)
  qed
qed simp

lemma storages_distinct: "schema_ok d \<Longrightarrow> distinct (map s_id (storages d))"
  using schema_okD(2) by (simp add: storages_ok_def)

lemma created_expected:
  assumes "storage_create body d = (Inr s, d1)" and "schema_ok d"
  shows "expected_backend x secret (storages d1) =
    (if s_enabled s
     then (case create_backend x (s_type s) (s_config s) secret of
             Inr b \<Rightarrow> (expected_backend x secret (storages d))(s_id s \<mapsto> b)
           | Inl _ \<Rightarrow> expected_backend x secret (storages d))
     else expected_backend x secret (storages d))"
proof -
  have new: "s_id s \<notin> s_id ` set (storages d)" and d1: "storages d1 = storages d @ [s]"
    using assms(1) by (auto simp: storage_create_def Let_def split: if_splits)
  have "find (\<lambda>t. s_id t = s_id s \<and> s_enabled t) (storages d) = None"
    using key_notin [OF new] by (simp add: find_None_all)
  then show ?thesis
    by (intro ext) (auto simp: expected_backend_def d1 find_append split: option.split sum.split)
qed

lemma updated_expected:
  assumes "schema_ok d" and "\<And>s. s_id (f s) = s_id s" and "find (\<lambda>s. s_id s = i) (storages d) = Some s"
  shows "expected_backend x secret (update_where (\<lambda>s. s_id s = i) f (storages d)) =
    (expected_backend x secret (storages d))(i :=
      if s_enabled (f s) then (case create_backend x (s_type (f s)) (s_config (f s)) secret of Inr b \<Rightarrow> Some b | Inl _ \<Rightarrow> None) else None)"
  using assms(3) by (intro ext) (simp add: expected_backend_def find_updated [OF storages_distinct [OF assms(1)] assms(2)])

lemma storage_update_InrE:
  assumes "storage_update i body d = (Inr s, d1)"
  obtains f cur where "find (\<lambda>s. s_id s = i) (storages d) = Some cur" and "s = f cur" and "s_id s = i"
    and "d1 = d\<lparr>storages := update_where (\<lambda>s. s_id s = i) f (storages d)\<rparr>" and "\<forall>s. s_id (f s) = s_id s"
proof (cases "find (\<lambda>s. s_id s = i) (storages d)")
  case None
  with assms show thesis by (simp add: storage_update_def storage_find_by_id_def ok_or_def)
next
  case (Some cur)
  let ?f = "\<lambda>s. s\<lparr>s_name := unwrap_or (s_name cur) (us_in_name body), s_type := unwrap_or (s_type cur) (us_in_type body),
    s_config := merge_config (us_in_config body) (s_config cur), s_is_hot := unwrap_or (s_is_hot cur) (us_in_is_hot body),
    s_project_id := unwrap_or (s_project_id cur) (us_in_project_id body), s_enabled := unwrap_or (s_enabled cur) (us_in_enabled body),
    s_direct_links := unwrap_or (s_direct_links cur) (us_in_direct_links body), s_updated_at := now d\<rparr>"
  from Some assms have "s = ?f cur \<and> d1 = d\<lparr>storages := update_where (\<lambda>s. s_id s = i) ?f (storages d)\<rparr>"
    by (simp add: storage_update_def storage_find_by_id_def ok_or_def Let_def split: if_splits)
  with Some find_Some_in_set [OF Some] show thesis by (intro that [of cur ?f]) simp_all
qed

text \<open>The three requests of an administrator, on a registry that holds what a restart would load.\<close>

lemma create_tracks:
  assumes "schema_ok d" and "reg = expected_backend x secret (storages d)"
  shows "case snd (api_create_storage (Inr a) x db_msg secret body (d, reg)) of (d1, reg1) \<Rightarrow>
    reg1 = load_backends_from_db x secret d1 Map.empty"
proof -
  obtain r d1 where c: "storage_create body d = (r, d1)" by fastforce
  have ok1: "schema_ok d1" using storage_create_schema [OF assms(1), of body] c by simp
  show ?thesis
  proof (cases r)
    case (Inl e)
    then have "storages d1 = storages d" using c by (auto simp: storage_create_def Let_def split: if_splits)
    with Inl c show ?thesis
      by (auto simp: api_create_storage_def with_admin_def loaded_expected [OF ok1] loaded_expected [OF assms(1)] assms(2) split: sum.split)
  next
    case (Inr s)
    from created_expected [OF c [unfolded Inr] assms(1), of x secret] Inr c show ?thesis
      by (auto simp: api_create_storage_def with_admin_def loaded_expected [OF ok1] loaded_expected [OF assms(1)] assms(2)
          registry_register_def split: sum.split)
  qed
qed

lemma disable_tracks:
  assumes "schema_ok d" and "reg = expected_backend x secret (storages d)"
  shows "case snd (disable_storage (Inr a) i (d, reg)) of (d1, reg1) \<Rightarrow> reg1 = load_backends_from_db x secret d1 Map.empty"
proof -
  obtain r d2 where u: "storage_update_enabled i False d = (r, d2)" by fastforce
  have ok2: "schema_ok d2" using storage_update_enabled_schema [OF assms(1), of i False] u by simp
  show ?thesis
  proof (cases "find (\<lambda>s. s_id s = i) (storages d)")
    case None
    with u assms loaded_expected [OF assms(1), of x secret] show ?thesis
      by (auto simp: disable_storage_def with_admin_def storage_update_enabled_def)
  next
    case (Some s)
    from u Some have d2: "storages d2 = update_where (\<lambda>s. s_id s = i) (\<lambda>s. s\<lparr>s_enabled := False, s_updated_at := now d\<rparr>) (storages d)"
      and r: "\<exists>v. r = Inr v" by (auto simp: storage_update_enabled_def)
    have "expected_backend x secret (storages d2) = (expected_backend x secret (storages d))(i := None)"
      unfolding d2 by (subst updated_expected [OF assms(1) _ Some]) simp_all
    with u r show ?thesis
      by (auto simp: disable_storage_def with_admin_def loaded_expected [OF ok2] assms(2) registry_unregister_def)
  qed
qed

lemma update_tracks:
  assumes "schema_ok d" and "reg = expected_backend x secret (storages d)"
  shows "case snd (update_storage (Inr a) x secret i body (d, reg)) of (d1, reg1) \<Rightarrow>
    reg1 = load_backends_from_db x secret d1 Map.empty \<or>
    reg1 = (load_backends_from_db x secret d1 Map.empty)(i := reg i) \<and>
      (\<exists>s e. s \<in> set (storages d1) \<and> s_id s = i \<and> s_enabled s \<and> create_backend x (s_type s) (s_config s) secret = Inl e)"
proof -
  obtain r d3 where v: "storage_update i body d = (r, d3)" by fastforce
  have ok3: "schema_ok d3" using storage_update_schema [OF assms(1), of i body] v by simp
  show ?thesis
  proof (cases r)
    case (Inl e)
    then have "d3 = d" using v by (auto simp: storage_update_def Let_def split: sum.splits if_splits)
    with Inl v assms show ?thesis by (simp add: update_storage_def with_admin_def loaded_expected [OF assms(1)])
  next
    case (Inr s)
    obtain f cur where cur: "find (\<lambda>s. s_id s = i) (storages d) = Some cur" and s: "s = f cur" "s_id s = i"
      and d3: "d3 = d\<lparr>storages := update_where (\<lambda>s. s_id s = i) f (storages d)\<rparr>" and f: "\<forall>s. s_id (f s) = s_id s"
      using v [unfolded Inr] by (rule storage_update_InrE) blast
    have ex: "expected_backend x secret (storages d3) = (expected_backend x secret (storages d))(i :=
        if s_enabled s then (case create_backend x (s_type s) (s_config s) secret of Inr b \<Rightarrow> Some b | Inl _ \<Rightarrow> None) else None)"
      using updated_expected [OF assms(1) _ cur, of f x secret] f by (simp add: d3 s(1))
    have "s \<in> set (storages d3)" using find_Some_in_set [OF cur] by (auto simp: d3 s(1) set_update_where)
    with ex s(2) v Inr show ?thesis
      by (auto simp: update_storage_def with_admin_def loaded_expected [OF ok3] assms(2) registry_register_def
          registry_unregister_def split: sum.split)
  qed
qed

text \<open>
  C36: the registry of the process follows the database. If the registry holds what a restart would load,
  it still does after a storage was created or disabled, and after one was updated unless the new
  configuration of the enabled storage is faulty; then the backend of that storage stays as it was,
  while a restart would not load one.
\<close>

theorem registry_tracks_database:
  assumes "schema_ok d" and "reg = load_backends_from_db x secret d Map.empty"
  shows "(case snd (api_create_storage admin x db_msg secret body (d, reg)) of (d1, reg1) \<Rightarrow>
        reg1 = load_backends_from_db x secret d1 Map.empty) \<and>
    (case snd (disable_storage admin i (d, reg)) of (d1, reg1) \<Rightarrow> reg1 = load_backends_from_db x secret d1 Map.empty) \<and>
    (case snd (update_storage admin x secret i body2 (d, reg)) of (d1, reg1) \<Rightarrow>
        reg1 = load_backends_from_db x secret d1 Map.empty \<or>
        reg1 = (load_backends_from_db x secret d1 Map.empty)(i := reg i) \<and>
          (\<exists>s e. s \<in> set (storages d1) \<and> s_id s = i \<and> s_enabled s \<and> create_backend x (s_type s) (s_config s) secret = Inl e))"
proof (cases admin)
  case (Inl e)
  with assms show ?thesis by (simp add: api_create_storage_def disable_storage_def update_storage_def with_admin_def)
next
  case (Inr a)
  have e: "reg = expected_backend x secret (storages d)" using assms loaded_expected by simp
  show ?thesis unfolding Inr
    by (intro conjI create_tracks [OF assms(1) e] disable_tracks [OF assms(1) e] update_tracks [OF assms(1) e])
qed

section \<open>Several processes\<close>

text \<open>
  C37: the registry belongs to one process. When an enabled storage is created through one of two processes
  that were in step with the database, the first can use it at once; the second does not have it, before
  it is restarted: uploads it serves for projects that only use this storage are refused, and those it
  serves for other projects never queue a copy to it.
\<close>

theorem other_instance_misses_storage:
  assumes "schema_ok d" and "reg = load_backends_from_db x secret d Map.empty"
    and "other = load_backends_from_db x secret d Map.empty"
    and "api_create_storage (Inr a) x db_msg secret body (d, reg) = (Inr s, d1, reg1)" and "s_enabled s"
  shows "registry_contains (s_id s) reg1 \<and> \<not> registry_contains (s_id s) other \<and>
    (\<forall>ss. (\<forall>t \<in> set ss. s_id t = s_id s) \<longrightarrow>
       find_primary_storage other ss = Inl (BadRequest ''No storage backends are registered and available'')) \<and>
    (\<forall>t source existing. s_id t = s_id s \<longrightarrow> \<not> needs_sync other source existing t)"
proof -
  obtain r d2 where c: "storage_create body d = (r, d2)" by fastforce
  with assms(4) obtain s0 where r: "r = Inr s0" by (cases r) (auto simp: api_create_storage_def with_admin_def split: sum.splits if_splits)
  with assms(4) c have s: "s = redacted s0" by (auto simp: api_create_storage_def with_admin_def split: sum.splits if_splits)
  then have id: "s_id s = s_id s0" "s_enabled s0" using redacted_hides_credentials [of s0] assms(5) by auto
  from c r have s0: "s_type s0 = cs_type body" "s_config s0 = cs_config body" "s_enabled s0 = unwrap_or True (cs_enabled body)"
    and new: "s_id s0 \<notin> s_id ` set (storages d)"
    by (auto simp: storage_create_def Let_def split: if_splits)
  with assms(4) id(2) c r obtain b where "create_backend x (s_type s0) (s_config s0) secret = Inr b"
    and "reg1 = registry_register (s_id s0) b reg"
    by (auto simp: api_create_storage_def with_admin_def split: sum.splits)
  then have 1: "registry_contains (s_id s) reg1" by (simp add: id(1) registry_contains_def registry_register_def)
  have "find (\<lambda>t. s_id t = s_id s0 \<and> s_enabled t) (storages d) = None" using key_notin [OF new] by (simp add: find_None_all)
  then have 2: "\<not> registry_contains (s_id s) other"
    by (simp add: id(1) registry_contains_def assms(3) load_backends_lookup [OF assms(1)])
  then have "filter (\<lambda>t. registry_contains (s_id t) other) ss = []" if "\<forall>t \<in> set ss. s_id t = s_id s" for ss
    using that by (auto simp: filter_empty_conv)
  then have 3: "find_primary_storage other ss = Inl (BadRequest ''No storage backends are registered and available'')"
    if "\<forall>t \<in> set ss. s_id t = s_id s" for ss
    using that 2 by (auto simp: find_primary_storage_def find_None_iff split: option.split dest!: find_Some_in_set)
  from 1 2 3 show ?thesis by (auto simp: needs_sync_def)
qed

section \<open>Who may administer\<close>

interpretation owner_request: guarded
    "\<lambda>d. case project_find_by_id pid d of Inl e \<Rightarrow> Inl e | Inr p \<Rightarrow> require_owner_or_admin u (p_owner_id p)"
    "as_owner u pid act" for u pid act
  by unfold_locales (auto simp: as_owner_def split: sum.splits)

interpretation admin_request: guarded "\<lambda>_. admin" "with_admin admin handler" for admin handler
  by unfold_locales (simp add: with_admin_def)


section \<open>Exports\<close>

text \<open>Two configurations that agree but for the secrets.\<close>

definition same_but_secrets :: "app_config \<Rightarrow> app_config \<Rightarrow> bool" where
  "same_but_secrets c1 c2 \<longleftrightarrow> (\<exists>url hmac jwt pw. c2 = c1\<lparr>cfg_database := (cfg_database c1)\<lparr>dbc_url := url\<rparr>,
     cfg_storage := (cfg_storage c1)\<lparr>stc_hmac_secret := hmac\<rparr>,
     cfg_auth := (cfg_auth c1)\<lparr>ac_jwt_secret := jwt, ac_default_admin_password := pw\<rparr>\<rparr>)"

lemma redact_list: "map redacted (storage_list d) = order_desc s_created_at (map redacted (storages d))"
proof -
  have "s_created_at (redacted s) = s_created_at s" for s by (simp add: redacted_def split: json.split)
  then show ?thesis unfolding storage_list_def order_desc_def by (simp add: sort_key_map_keep)
qed

text \<open>
  an export of the configuration does not depend on the secrets: the database URL, the keys, the
  password of the first administrator and the stored credentials of the storages. In an exported storage
  a credential is masked.
\<close>

theorem config_export_hides_secrets:
  assumes "same_but_secrets c1 c2" and "projects d1 = projects d2" and "map redacted (storages d1) = map redacted (storages d2)"
  shows "fst (config_export admin c1 d1) = fst (config_export admin c2 d2) \<and>
    (\<forall>cfg ps ss. fst (config_export admin c1 d1) = Inr (cfg, ps, ss) \<longrightarrow>
       (\<forall>s \<in> set ss. \<forall>k \<in> set SENSITIVE_CONFIG_KEYS. json_get (s_config s) k \<in> {None, Some (JStr ''***'')}))"
proof -
  have "serialized (c1\<lparr>cfg_database := (cfg_database c1)\<lparr>dbc_url := ''***''\<rparr>\<rparr>) =
      serialized (c2\<lparr>cfg_database := (cfg_database c2)\<lparr>dbc_url := ''***''\<rparr>\<rparr>)"
    using assms(1) by (auto simp: same_but_secrets_def serialized_def)
  moreover have "project_list d1 = project_list d2" using assms(2) by (simp add: project_list_def)
  moreover have "map redacted (storage_list d1) = map redacted (storage_list d2)" using assms(3) by (simp add: redact_list)
  ultimately have "fst (config_export admin c1 d1) = fst (config_export admin c2 d2)"
    by (simp add: config_export_def with_admin_def Let_def split: sum.split)
  moreover have "json_get (s_config (redacted s)) k \<in> {None, Some (JStr ''***'')}" if "k \<in> set SENSITIVE_CONFIG_KEYS" for s k
    using redacted_hides_credentials [of s] that by auto
  ultimately show ?thesis by (auto simp: config_export_def with_admin_def Let_def split: sum.splits)
qed

section \<open>Nodes and the heartbeat\<close>

lemma node_ops_schema [schema_intros]:
  assumes "schema_ok d"
  shows "schema_ok (snd (node_register i a d))" and "schema_ok (snd (node_heartbeat i d))"
proof -
  have ok: "nodes_ok (nodes d)" using assms by (simp add: schema_okD)
  show "schema_ok (snd (node_heartbeat i d))"
    unfolding node_heartbeat_def snd_conv using assms ok
    by (intro schema_ok_set_leaf(12)) (simp_all add: nodes_ok_def map_update_where)
  show "schema_ok (snd (node_register i a d))"
  proof (cases "find (\<lambda>n. n_node_id n = i) (nodes d)")
    case None
    then have "i \<notin> n_node_id ` set (nodes d)" by (auto simp: find_None_all)
    then have "nodes_ok (nodes d @ [r])" if "n_id r \<notin> n_id ` set (nodes d)" "n_node_id r = i" for r :: node
      using ok that by (simp add: nodes_ok_def)
    then show ?thesis
      using None assms schema_ok_set_leaf(12) [of "draw d"] by (simp add: node_register_def Let_def)
  next
    case (Some n)
    have "nodes_ok (update_where (\<lambda>n. n_node_id n = i) (\<lambda>n. n\<lparr>n_address := a, n_started_at := now d, n_last_heartbeat := now d\<rparr>) (nodes d))"
      using ok by (simp add: nodes_ok_def map_update_where)
    then show ?thesis
      using Some assms schema_ok_set_leaf(12) [of "draw d"] by (simp add: node_register_def Let_def)
  qed
qed

text \<open>A node that sent its heartbeat is listed for the 90 seconds after it, and no longer.\<close>

lemma node_listed_90_seconds:
  assumes "n \<in> set (nodes (snd (node_heartbeat i d)))" and "n_node_id n = i"
  shows "n \<in> set (node_list_active 90 ((snd (node_heartbeat i d))\<lparr>now := t\<rparr>)) \<longleftrightarrow> t < now d + secs 90"
proof -
  let ?f = "\<lambda>n. n\<lparr>n_last_heartbeat := now d\<rparr>"
  have "n \<in> ?f ` {r \<in> set (nodes d). n_node_id r = i} \<or> n_node_id n \<noteq> i"
    using assms(1) unfolding node_heartbeat_def by (simp add: set_update_where) blast
  with assms(2) obtain r where "n = ?f r" by blast
  then have "n_last_heartbeat n = now d" by simp
  moreover have "t - secs 90 < now d \<longleftrightarrow> t < now d + secs 90" by linarith
  ultimately show ?thesis using assms(1) by (simp add: node_list_active_def)
qed

lemma startup_registry:
  "startup x c salt config i a d = Some (d1, reg) \<Longrightarrow>
     reg = load_backends_from_db x (stc_hmac_secret (cfg_storage config)) d Map.empty"
  by (auto simp: startup_def Let_def split: option.splits)

section \<open>Concrete instances\<close>

theorem registry_tracks_database_witness:
  "case snd (disable_storage (Inr 1) 3 (demo_db, load_backends_from_db demo_env ''k'' demo_db Map.empty)) of (d1, reg1) \<Rightarrow>
     reg1 = load_backends_from_db demo_env ''k'' d1 Map.empty"
  by (rule registry_tracks_database [OF schema_ok_demo refl, THEN conjunct2, THEN conjunct1])

definition demo_create_storage :: create_storage where
  "demo_create_storage = \<lparr>cs_name = ''new'', cs_type = ''local'', cs_config = JObj [(''path'', JStr ''/new'')], cs_is_hot = None,
     cs_project_id = None, cs_enabled = None, cs_direct_links = None\<rparr>"

theorem other_instance_misses_storage_witness:
  "\<exists>s d1 reg1. api_create_storage (Inr 1) demo_env (\<lambda>_. []) ''k'' demo_create_storage
       (demo_db, load_backends_from_db demo_env ''k'' demo_db Map.empty) = (Inr s, d1, reg1) \<and>
     registry_contains (s_id s) reg1 \<and> \<not> registry_contains (s_id s) (load_backends_from_db demo_env ''k'' demo_db Map.empty)"
proof -
  let ?r = "api_create_storage (Inr 1) demo_env (\<lambda>_. []) ''k'' demo_create_storage
       (demo_db, load_backends_from_db demo_env ''k'' demo_db Map.empty)"
  have "case fst ?r of Inl _ \<Rightarrow> False | Inr s \<Rightarrow> s_enabled s" by code_simp
  then obtain s where "fst ?r = Inr s" and en: "s_enabled s" by (auto split: sum.splits)
  then obtain d1 reg1 where run: "?r = (Inr s, d1, reg1)" by (metis prod.collapse)
  from other_instance_misses_storage [OF schema_ok_demo refl refl run en] run show ?thesis by blast
qed


definition demo_config :: "string \<Rightarrow> app_config" where
  "demo_config secret = \<lparr>cfg_server = default_server, cfg_database = default_database, cfg_storage = default_storage,
     cfg_sync = default_sync, cfg_auth = default_auth\<lparr>ac_jwt_secret := secret\<rparr>, cfg_backup = default_backup,
     cfg_upload = default_upload, cfg_dashboard = default_dashboard\<rparr>"

theorem config_export_hides_secrets_witness:
  "fst (config_export (Inr 1) (demo_config ''one'') demo_db) = fst (config_export (Inr 1) (demo_config ''two'') demo_db)"
proof -
  have "same_but_secrets (demo_config ''one'') (demo_config ''two'')"
    unfolding same_but_secrets_def
    by (intro exI [of _ "dbc_url default_database"] exI [of _ "stc_hmac_secret default_storage"] exI [of _ "''two''"]
        exI [of _ "ac_default_admin_password default_auth"])
      (simp add: demo_config_def default_database_def default_storage_def default_auth_def)
  from config_export_hides_secrets [OF this refl refl] show ?thesis by blast
qed

end
