(* ===== verification/Dashboard.thy ===== *)
theory Dashboard
  imports Api_Admin
begin

text \<open>
  The admin dashboard: the aggregate queries of \<open>src/db/models.rs\<close> (\<open>DashboardStats\<close>) and the
  endpoint of \<open>src/api/dashboard.rs\<close>. A query is a function of the tables; \<open>GROUP BY\<close> is \<open>group_by\<close>, and
  a sum that does not fit into a \<open>bigint\<close> is the error PostgreSQL raises. Dates are days since 1970 in
  UTC, the time zone of the database session; \<open>NOW()\<close> and the clock of the process are both \<open>now\<close>.

  Shown: the charts and the counters of one answer add up to each other, a timeline has no more points than
  its period allows, and the list of files holds those that were accessed most.
\<close>

section \<open>Aggregation\<close>

definition bigint :: "int \<Rightarrow> int app_result" where
  "bigint x = (if is_i64 x then Inr x else Inl (Database (OtherDbError ''bigint out of range'')))"

text \<open>The groups of a table by a key, in the order in which the keys last appear.\<close>

definition group_by :: "('r \<Rightarrow> 'k) \<Rightarrow> 'r list \<Rightarrow> ('k \<times> 'r list) list" where
  "group_by key rows = map (\<lambda>k. (k, filter (\<lambda>r. key r = k) rows)) (remdups (map key rows))"

text \<open>One row of the result per group; the first error is the error of the query.\<close>

fun collect :: "('a \<Rightarrow> 'b app_result) \<Rightarrow> 'a list \<Rightarrow> 'b list app_result" where
  "collect f [] = Inr []"
| "collect f (x # xs) =
     (case f x of
        Inl e \<Rightarrow> Inl e
      | Inr y \<Rightarrow> (case collect f xs of Inl e \<Rightarrow> Inl e | Inr ys \<Rightarrow> Inr (y # ys)))"

lemma bigint_Inr [simp]: "bigint x = Inr y \<longleftrightarrow> y = x \<and> is_i64 x"
  by (auto simp: bigint_def)

lemma collect_Inr: "collect f xs = Inr ys \<longleftrightarrow> map f xs = map Inr ys"
proof (induction xs arbitrary: ys)
  case (Cons x xs)
  then show ?case by (cases ys; cases "collect f xs") (auto simp: Cons.IH [symmetric] split: sum.splits)
qed auto

lemma set_group_keys: "fst ` set (group_by key rows) = key ` set rows"
  by (auto simp: group_by_def image_iff)

lemma distinct_group_keys: "distinct (map fst (group_by key rows))"
  by (simp add: group_by_def o_def)

lemma group_rows: "(k, rs) \<in> set (group_by key rows) \<Longrightarrow> rs = filter (\<lambda>r. key r = k) rows \<and> rs \<noteq> []"
  by (auto simp: group_by_def filter_empty_conv)

text \<open>Every row is in one group, so sums over the groups are sums over the table.\<close>

lemma sum_over_keys:
  assumes "distinct ks" and "key ` set rows \<subseteq> set ks"
  shows "(\<Sum>k\<leftarrow>ks. (\<Sum>r\<leftarrow>filter (\<lambda>r. key r = k) rows. g r)) = (\<Sum>r\<leftarrow>rows. g r :: int)"
  using assms(2)
proof (induction rows)
  case (Cons r rows)
  have one: "(\<Sum>k\<leftarrow>ks. if key r = k then g r else 0) = g r"
    using assms(1) Cons.prems by (simp add: sum_list_distinct_conv_sum_set)
  have "(\<Sum>k\<leftarrow>ks. (\<Sum>x\<leftarrow>filter (\<lambda>x. key x = k) (r # rows). g x)) =
      (\<Sum>k\<leftarrow>ks. (if key r = k then g r else 0) + (\<Sum>x\<leftarrow>filter (\<lambda>x. key x = k) rows. g x))"
    by (intro arg_cong [where f = sum_list] map_cong) simp_all
  with Cons one show ?case by (simp add: sum_list_addf)
qed simp

lemma sum_over_groups:
  "(\<Sum>(k, rs)\<leftarrow>group_by key rows. (\<Sum>r\<leftarrow>rs. g r)) = (\<Sum>r\<leftarrow>rows. g r :: int)"
  using sum_over_keys [of "remdups (map key rows)" key rows g] by (simp add: group_by_def o_def)

lemma length_as_sum: "int (length xs) = (\<Sum>x\<leftarrow>xs. 1)"
  by (induction xs) simp_all

lemma count_over_groups: "(\<Sum>(k, rs)\<leftarrow>group_by key rows. int (length rs)) = int (length rows)"
  using sum_over_groups [of "\<lambda>r. 1" key rows] by (simp add: length_as_sum)

section \<open>Calendar\<close>

text \<open>
  The day of the month of a date, by the civil calendar: eras of 400 years of which the years begin in March.
\<close>

definition year_of_era :: "int \<Rightarrow> int" where
  "year_of_era doe = (doe - doe div 1460 + doe div 36524 - doe div 146096) div 365"

definition year_start :: "int \<Rightarrow> int" where
  "year_start yoe = 365 * yoe + yoe div 4 - yoe div 100"

definition day_in_month :: "int \<Rightarrow> int" where
  "day_in_month doy = doy - (153 * ((5 * doy + 2) div 153) + 2) div 5 + 1"

definition day_of_era :: "int \<Rightarrow> int" where
  "day_of_era day = (day + 719468) mod 146097"

definition day_of_month :: "int \<Rightarrow> int" where
  "day_of_month day = day_in_month (day_of_era day - year_start (year_of_era (day_of_era day)))"

text \<open>\<open>date_trunc(...)::date\<close>: the first day of the day, the week (Monday) or the month of an instant.\<close>

definition trunc_date :: "string \<Rightarrow> time \<Rightarrow> int" where
  "trunc_date bucket t =
     (let day = date_of t
      in if bucket = ''week'' then day - (day + 3) mod 7
         else if bucket = ''month'' then day - (day_of_month day - 1)
         else day)"

lemma day_of_month_bounds: "1 \<le> day_of_month day" "day_of_month day \<le> 31"
proof -
  have "0 \<le> doy - q \<and> doy - q \<le> 30"
    if "m = (5 * doy + 2) div 153" and "q = (153 * m + 2) div 5" for doy m q :: int
    using div_mult_mod_eq [of "5 * doy + 2" 153] pos_mod_bound [of 153 "5 * doy + 2"] pos_mod_sign [of 153 "5 * doy + 2"]
      div_mult_mod_eq [of "153 * m + 2" 5] pos_mod_bound [of 5 "153 * m + 2"] pos_mod_sign [of 5 "153 * m + 2"] that by linarith
  then show "1 \<le> day_of_month day" "day_of_month day \<le> 31" by (simp_all add: day_of_month_def day_in_month_def)
qed

lemma day_of_month_examples:
  "map day_of_month [-1, 0, 30, 31, 58, 59, 11015, 11016, 19782, 19783, 20088, 20089] = [31, 1, 31, 1, 28, 1, 28, 29, 29, 1, 31, 1]"
  by (simp add: day_of_month_def day_of_era_def year_of_era_def year_start_def day_in_month_def)

lemma trunc_date_bounds: "trunc_date bucket t \<le> date_of t" "date_of t - 30 \<le> trunc_date bucket t"
  using day_of_month_bounds [of "date_of t"] pos_mod_bound [of 7 "date_of t + 3"] pos_mod_sign [of 7 "date_of t + 3"]
  by (auto simp: trunc_date_def Let_def simp del: pos_mod_bound)

section \<open>The queries\<close>

record dashboard_filter =
  df_start :: time
  df_project_id :: "uuid option"
  df_storage_id :: "uuid option"

text \<open>\<open>$n IS NULL OR column = $n\<close>, for a column that can be null.\<close>

definition passes :: "uuid option \<Rightarrow> uuid option \<Rightarrow> bool" where
  "passes f col = (case f of None \<Rightarrow> True | Some v \<Rightarrow> col = Some v)"

text \<open>The references of the period and the project, and whether a file has one.\<close>

definition in_period :: "dashboard_filter \<Rightarrow> file_reference \<Rightarrow> bool" where
  "in_period f r \<longleftrightarrow> df_start f \<le> r_created_at r \<and> passes (df_project_id f) (Some (r_project_id r))"

definition referenced :: "dashboard_filter \<Rightarrow> db \<Rightarrow> uuid \<Rightarrow> bool" where
  "referenced f d fid \<longleftrightarrow> list_ex (\<lambda>r. r_file_id r = fid \<and> in_period f r) (file_references d)"

definition located :: "dashboard_filter \<Rightarrow> bool \<Rightarrow> db \<Rightarrow> uuid \<Rightarrow> bool" where
  "located f synced d fid =
     (case df_storage_id f of
        None \<Rightarrow> True
      | Some s \<Rightarrow> list_ex (\<lambda>l. l_file_id l = fid \<and> l_storage_id l = s \<and> (synced \<longrightarrow> l_status l = ''synced'')) (file_locations d))"

text \<open>The files of the headline counters and of the breakdown by content type.\<close>

definition matching_files :: "dashboard_filter \<Rightarrow> db \<Rightarrow> file_row list" where
  "matching_files f d = filter (\<lambda>x. referenced f d (f_id x) \<and> located f True d (f_id x)) (files d)"

text \<open>\<open>COUNT(*)\<close> with a sum.\<close>

definition count_sum :: "('r \<Rightarrow> int) \<Rightarrow> 'r list \<Rightarrow> (int \<times> int) app_result" where
  "count_sum g rows =
     (case bigint (\<Sum>r\<leftarrow>rows. g r) of Inl e \<Rightarrow> Inl e | Inr s \<Rightarrow> Inr (int (length rows), s))"

lemma count_sum_Inr [simp]:
  "count_sum g rows = Inr (c, s) \<longleftrightarrow> c = int (length rows) \<and> s = (\<Sum>r\<leftarrow>rows. g r) \<and> is_i64 s"
  by (auto simp: count_sum_def bigint_def)

text \<open>\<open>file_references fr JOIN files f ON f.id = fr.file_id\<close> under the filter, with the date of the bucket.\<close>

definition uploads_joined :: "dashboard_filter \<Rightarrow> db \<Rightarrow> (file_reference \<times> file_row) list" where
  "uploads_joined f d =
     concat (map (\<lambda>r. map (Pair r) (filter (\<lambda>x. f_id x = r_file_id r) (files d)))
       (filter (\<lambda>r. in_period f r \<and> located f False d (r_file_id r)) (file_references d)))"

definition events_in :: "dashboard_filter \<Rightarrow> db \<Rightarrow> access_event list" where
  "events_in f d = filter (\<lambda>e. df_start f \<le> ev_created_at e \<and> passes (df_project_id f) (ev_project_id e) \<and>
     passes (df_storage_id f) (ev_storage_id e)) (file_access_events d)"

text \<open>\<open>SUM\<close> passes over nulls.\<close>

definition event_bytes :: "access_event \<Rightarrow> int" where
  "event_bytes e = unwrap_or 0 (ev_bytes e)"

definition task_passes :: "dashboard_filter \<Rightarrow> sync_task \<Rightarrow> bool" where
  "task_passes f t \<longleftrightarrow> passes (df_project_id f) (t_project_id t) \<and>
     (passes (df_storage_id f) (Some (t_source t)) \<or> passes (df_storage_id f) (Some (t_target t)))"

record dashboard_totals =
  dt_files :: int
  dt_bytes :: int
  dt_uploads_in_period :: int
  dt_bytes_uploaded_in_period :: int
  dt_accesses_in_period :: int
  dt_bytes_accessed_in_period :: int
  dt_pending_syncs :: int
  dt_failed_syncs_in_period :: int
  dt_failed_syncs_total :: int
  dt_synced_in_24h :: int

definition totals :: "dashboard_filter \<Rightarrow> db \<Rightarrow> dashboard_totals app_result" where
  "totals f d =
     (case count_sum f_size (matching_files f d) of
        Inl e \<Rightarrow> Inl e
      | Inr (fs, bs) \<Rightarrow>
         (case count_sum snd (remdups (map (\<lambda>(r, x). (f_id x, f_size x)) (uploads_joined f d))) of
            Inl e \<Rightarrow> Inl e
          | Inr (ups, ubs) \<Rightarrow>
             (case count_sum event_bytes (events_in f d) of
                Inl e \<Rightarrow> Inl e
              | Inr (accs, accbs) \<Rightarrow>
                 Inr \<lparr>dt_files = fs, dt_bytes = bs, dt_uploads_in_period = ups, dt_bytes_uploaded_in_period = ubs,
                      dt_accesses_in_period = accs, dt_bytes_accessed_in_period = accbs,
                      dt_pending_syncs = count_where (\<lambda>t. t_status t = ''pending'' \<and> task_passes f t) (sync_tasks d),
                      dt_failed_syncs_in_period =
                        count_where (\<lambda>t. t_status t = ''failed'' \<and> df_start f \<le> t_created_at t \<and> task_passes f t) (sync_tasks d),
                      dt_failed_syncs_total = count_where (\<lambda>t. t_status t = ''failed'' \<and> task_passes f t) (sync_tasks d),
                      dt_synced_in_24h =
                        count_where (\<lambda>t. t_status t = ''completed'' \<and> now d - secs 86400 \<le> t_updated_at t \<and> task_passes f t)
                          (sync_tasks d)\<rparr>)))"

record timeline_point =
  tp_date :: int
  tp_count :: int
  tp_size :: int

text \<open>One point per date, the dates ascending.\<close>

definition point :: "('r \<Rightarrow> int) \<Rightarrow> int \<times> 'r list \<Rightarrow> timeline_point app_result" where
  "point g kr = (case count_sum g (snd kr) of Inl e \<Rightarrow> Inl e | Inr (c, s) \<Rightarrow> Inr \<lparr>tp_date = fst kr, tp_count = c, tp_size = s\<rparr>)"

definition timeline :: "('r \<Rightarrow> int) \<Rightarrow> ('r \<Rightarrow> int) \<Rightarrow> 'r list \<Rightarrow> timeline_point list app_result" where
  "timeline date g rows = collect (point g) (order_asc fst (group_by date rows))"

definition upload_timeline :: "dashboard_filter \<Rightarrow> string \<Rightarrow> db \<Rightarrow> timeline_point list app_result" where
  "upload_timeline f bucket d =
     timeline fst (\<lambda>(date, i, size). size)
       (remdups (map (\<lambda>(r, x). (trunc_date bucket (r_created_at r), f_id x, f_size x)) (uploads_joined f d)))"

definition access_timeline :: "dashboard_filter \<Rightarrow> string \<Rightarrow> db \<Rightarrow> timeline_point list app_result" where
  "access_timeline f bucket d = timeline (\<lambda>e. trunc_date bucket (ev_created_at e)) event_bytes (events_in f d)"

record content_type_breakdown =
  ct_content_type :: string
  ct_count :: int
  ct_size :: int

definition by_content_type :: "dashboard_filter \<Rightarrow> int \<Rightarrow> db \<Rightarrow> content_type_breakdown list app_result" where
  "by_content_type f top_n d =
     (case collect (\<lambda>(ct, rows). case count_sum f_size rows of Inl e \<Rightarrow> Inl e
          | Inr (c, s) \<Rightarrow> Inr \<lparr>ct_content_type = ct, ct_count = c, ct_size = s\<rparr>) (group_by f_content_type (matching_files f d)) of
        Inl e \<Rightarrow> Inl e
      | Inr rows \<Rightarrow> Inr (limit_rows top_n (order_desc ct_size rows)))"

record storage_breakdown =
  sbd_storage_id :: uuid
  sbd_name :: string
  sbd_count :: int
  sbd_size :: int

text \<open>The synced copies of files of the period: storage, file, size, without repetition.\<close>

definition synced_copies :: "dashboard_filter \<Rightarrow> db \<Rightarrow> (uuid \<times> uuid \<times> int) list" where
  "synced_copies f d =
     remdups (concat (map (\<lambda>l. map (\<lambda>x. (l_storage_id l, l_file_id l, f_size x)) (filter (\<lambda>x. f_id x = l_file_id l) (files d)))
       (filter (\<lambda>l. l_status l = ''synced'' \<and> referenced f d (l_file_id l)) (file_locations d))))"

definition by_storage :: "dashboard_filter \<Rightarrow> db \<Rightarrow> storage_breakdown list app_result" where
  "by_storage f d =
     (case collect (\<lambda>st. case count_sum (\<lambda>(s, i, size). size) (filter (\<lambda>(s, i, size). s = s_id st) (synced_copies f d)) of
          Inl e \<Rightarrow> Inl e
        | Inr (c, s) \<Rightarrow> Inr \<lparr>sbd_storage_id = s_id st, sbd_name = s_name st, sbd_count = c, sbd_size = s\<rparr>)
        (filter (\<lambda>st. passes (df_storage_id f) (Some (s_id st))) (storages d)) of
        Inl e \<Rightarrow> Inl e
      | Inr rows \<Rightarrow> Inr (order_desc sbd_size rows))"

record sync_status_point =
  sp_date :: int
  sp_completed :: int
  sp_failed :: int
  sp_pending :: int

definition tasks_in :: "dashboard_filter \<Rightarrow> db \<Rightarrow> sync_task list" where
  "tasks_in f d = filter (\<lambda>t. df_start f \<le> t_created_at t \<and> task_passes f t) (sync_tasks d)"

definition sync_status_trend :: "dashboard_filter \<Rightarrow> string \<Rightarrow> db \<Rightarrow> sync_status_point list" where
  "sync_status_trend f bucket d =
     map (\<lambda>(date, ts). \<lparr>sp_date = date, sp_completed = count_where (\<lambda>t. t_status t = ''completed'') ts,
           sp_failed = count_where (\<lambda>t. t_status t = ''failed'') ts, sp_pending = count_where (\<lambda>t. t_status t = ''pending'') ts\<rparr>)
       (order_asc fst (group_by (\<lambda>t. trunc_date bucket (t_created_at t)) (tasks_in f d)))"

record top_accessed_file =
  ta_file_id :: uuid
  ta_original_name :: string
  ta_content_type :: string
  ta_access_count :: int
  ta_last_accessed :: time

text \<open>The groups of the common table expression, and the row joined to each.\<close>

definition access_groups :: "dashboard_filter \<Rightarrow> int \<Rightarrow> db \<Rightarrow> (uuid \<times> access_event list) list" where
  "access_groups f top_n d =
     limit_rows top_n (order_desc (\<lambda>(i, es). int (length es)) (group_by ev_file_id (events_in f d)))"

definition latest_name :: "dashboard_filter \<Rightarrow> db \<Rightarrow> uuid \<Rightarrow> string" where
  "latest_name f d fid =
     (case order_desc r_created_at
          (filter (\<lambda>r. r_file_id r = fid \<and> passes (df_project_id f) (Some (r_project_id r))) (file_references d)) of
        [] \<Rightarrow> []
      | r # _ \<Rightarrow> r_original_name r)"

definition top_accessed_files :: "dashboard_filter \<Rightarrow> int \<Rightarrow> db \<Rightarrow> top_accessed_file list" where
  "top_accessed_files f top_n d =
     order_desc ta_access_count
       (concat (map (\<lambda>(i, es). map (\<lambda>x. \<lparr>ta_file_id = i, ta_original_name = latest_name f d i, ta_content_type = f_content_type x,
            ta_access_count = int (length es), ta_last_accessed = Max (set (map ev_created_at es))\<rparr>)
          (filter (\<lambda>x. f_id x = i) (files d))) (access_groups f top_n d)))"

section \<open>The endpoint\<close>

definition TOP_N :: int where "TOP_N = 10"

definition resolve_period :: "string \<Rightarrow> time \<Rightarrow> time \<times> string \<times> string" where
  "resolve_period label t =
     (if label = ''today'' then (date_of t * 86400 * 1000000, ''day'', ''today'')
      else if label = ''7d'' then (t - days 7, ''day'', ''7d'')
      else if label = ''90d'' then (t - days 90, ''day'', ''90d'')
      else if label = ''1y'' then (t - days 365, ''week'', ''1y'')
      else if label = ''all'' then (0, ''month'', ''all'')
      else (t - days 30, ''day'', ''30d''))"

record dashboard_query =
  dq_period :: "string option"
  dq_project_id :: "uuid option"
  dq_storage_id :: "uuid option"

record dashboard_response =
  dr_period :: string
  dr_start :: time
  dr_bucket :: string
  dr_totals :: dashboard_totals
  dr_upload_timeline :: "timeline_point list"
  dr_access_timeline :: "timeline_point list"
  dr_by_content_type :: "content_type_breakdown list"
  dr_by_storage :: "storage_breakdown list"
  dr_sync_status_trend :: "sync_status_point list"
  dr_top_accessed_files :: "top_accessed_file list"

definition dashboard_filter_of :: "dashboard_query \<Rightarrow> time \<Rightarrow> dashboard_filter" where
  "dashboard_filter_of q start = \<lparr>df_start = start, df_project_id = dq_project_id q, df_storage_id = dq_storage_id q\<rparr>"

definition dashboard_of :: "dashboard_query \<Rightarrow> db \<Rightarrow> dashboard_response app_result" where
  "dashboard_of q d =
     (let (start, bucket, period) = resolve_period (unwrap_or ''30d'' (dq_period q)) (now d);
          f = dashboard_filter_of q start
      in case totals f d of Inl e \<Rightarrow> Inl e | Inr tot \<Rightarrow>
        (case upload_timeline f bucket d of Inl e \<Rightarrow> Inl e | Inr ups \<Rightarrow>
        (case access_timeline f bucket d of Inl e \<Rightarrow> Inl e | Inr accs \<Rightarrow>
        (case by_content_type f TOP_N d of Inl e \<Rightarrow> Inl e | Inr cts \<Rightarrow>
        (case by_storage f d of Inl e \<Rightarrow> Inl e | Inr sts \<Rightarrow>
           Inr \<lparr>dr_period = period, dr_start = start, dr_bucket = bucket, dr_totals = tot, dr_upload_timeline = ups,
                dr_access_timeline = accs, dr_by_content_type = cts, dr_by_storage = sts,
                dr_sync_status_trend = sync_status_trend f bucket d, dr_top_accessed_files = top_accessed_files f TOP_N d\<rparr>)))))"

definition dashboard :: "uuid app_result \<Rightarrow> dashboard_query \<Rightarrow> db \<Rightarrow> dashboard_response app_result \<times> db" where
  "dashboard admin q = with_admin admin (\<lambda>d. (dashboard_of q d, d))"

section \<open>Charts and counters agree\<close>

text \<open>What is the same in every row of a result and in the value it was made of.\<close>

lemma collect_map:
  "collect h xs = Inr ys \<Longrightarrow> (\<And>x y. h x = Inr y \<Longrightarrow> p y = q x) \<Longrightarrow> map p ys = map q xs"
  by (induction xs arbitrary: ys) (auto split: sum.splits)

lemma timeline_points:
  assumes "timeline date g rows = Inr ps"
  shows "(\<Sum>p\<leftarrow>ps. tp_count p) = int (length rows)" and "(\<Sum>p\<leftarrow>ps. tp_size p) = (\<Sum>r\<leftarrow>rows. g r)"
    and "distinct (map tp_date ps)" and "set (map tp_date ps) = date ` set rows" and "sorted (map tp_date ps)"
proof -
  let ?gs = "order_asc fst (group_by date rows)"
  have c: "map tp_count ps = map (\<lambda>(k, rs). int (length rs)) ?gs" "map tp_size ps = map (\<lambda>(k, rs). \<Sum>r\<leftarrow>rs. g r) ?gs"
    "map tp_date ps = map fst ?gs"
    using assms unfolding timeline_def by (auto elim!: collect_map simp: point_def split: sum.splits)
  show "(\<Sum>p\<leftarrow>ps. tp_count p) = int (length rows)" "(\<Sum>p\<leftarrow>ps. tp_size p) = (\<Sum>r\<leftarrow>rows. g r)"
    unfolding c by (simp_all only: sum_list_order_asc count_over_groups sum_over_groups)
  have "distinct (group_by date rows)" using distinct_group_keys [of date rows] by (simp add: distinct_map)
  moreover have "inj_on fst (set (group_by date rows))" using distinct_group_keys [of date rows] by (simp add: distinct_map)
  ultimately show "distinct (map tp_date ps)" unfolding c by (simp add: distinct_map)
  show "set (map tp_date ps) = date ` set rows" unfolding c using set_group_keys [of date rows] by simp
  show "sorted (map tp_date ps)" unfolding c by (rule sorted_order_asc)
qed

lemma trend_points:
  shows "(\<Sum>p\<leftarrow>sync_status_trend f bucket d. sp_failed p) =
      count_where (\<lambda>t. t_status t = ''failed'' \<and> df_start f \<le> t_created_at t \<and> task_passes f t) (sync_tasks d)"
    and "distinct (map sp_date (sync_status_trend f bucket d))"
    and "set (map sp_date (sync_status_trend f bucket d)) = (\<lambda>t. trunc_date bucket (t_created_at t)) ` set (tasks_in f d)"
proof -
  let ?date = "\<lambda>t. trunc_date bucket (t_created_at t)"
  let ?gs = "group_by ?date (tasks_in f d)"
  have ind: "count_where P ts = (\<Sum>t\<leftarrow>ts. if P t then 1 else 0)" for P and ts :: "sync_task list"
    unfolding count_where_def by (induction ts) simp_all
  have "(\<Sum>p\<leftarrow>sync_status_trend f bucket d. sp_failed p) = (\<Sum>(k, ts)\<leftarrow>?gs. count_where (\<lambda>t. t_status t = ''failed'') ts)"
    by (simp add: sync_status_trend_def o_def case_prod_unfold sum_list_order_asc)
  also have "\<dots> = count_where (\<lambda>t. t_status t = ''failed'') (tasks_in f d)"
    unfolding ind by (rule sum_over_groups)
  also have "\<dots> = count_where (\<lambda>t. t_status t = ''failed'' \<and> df_start f \<le> t_created_at t \<and> task_passes f t) (sync_tasks d)"
    by (auto simp: count_where_def tasks_in_def intro!: arg_cong [where f = length] filter_cong)
  finally show "(\<Sum>p\<leftarrow>sync_status_trend f bucket d. sp_failed p) =
      count_where (\<lambda>t. t_status t = ''failed'' \<and> df_start f \<le> t_created_at t \<and> task_passes f t) (sync_tasks d)" .
  have m: "map sp_date (sync_status_trend f bucket d) = map fst (order_asc fst ?gs)"
    by (simp add: sync_status_trend_def o_def split_beta)
  show "distinct (map sp_date (sync_status_trend f bucket d))"
    unfolding m using distinct_group_keys [of ?date "tasks_in f d"] by (simp add: distinct_map)
  show "set (map sp_date (sync_status_trend f bucket d)) = ?date ` set (tasks_in f d)"
    unfolding m using set_group_keys [of ?date "tasks_in f d"] by simp
qed

text \<open>The rows of the joins, through the keys of the schema.\<close>

lemma joined_files:
  "(\<lambda>(r, x). (f_id x, f_size x)) ` set (uploads_joined f d) =
    (\<lambda>x. (f_id x, f_size x)) ` {x \<in> set (files d). referenced f d (f_id x) \<and> located f False d (f_id x)}"
  by (fastforce simp: uploads_joined_def referenced_def list_ex_iff)

lemma unfiltered_uploads:
  assumes "schema_ok d" and "df_storage_id f = None"
  shows "length (remdups (map (\<lambda>(r, x). (f_id x, f_size x)) (uploads_joined f d))) = length (matching_files f d)"
    and "(\<Sum>u\<leftarrow>remdups (map (\<lambda>(r, x). (f_id x, f_size x)) (uploads_joined f d)). snd u) = (\<Sum>x\<leftarrow>matching_files f d. f_size x)"
proof -
  have "distinct (map f_id (files d))" using schema_okD(4) [OF assms(1)] by (simp add: files_ok_def)
  then have dist: "distinct (matching_files f d)" and inj: "inj_on (\<lambda>x. (f_id x, f_size x)) (set (matching_files f d))"
    by (auto simp: matching_files_def distinct_map inj_on_def)
  have "set (remdups (map (\<lambda>(r, x). (f_id x, f_size x)) (uploads_joined f d))) = (\<lambda>x. (f_id x, f_size x)) ` set (matching_files f d)"
    using joined_files [of f d] assms(2) by (simp add: matching_files_def located_def)
  from corresponding_rows [OF distinct_remdups dist this inj]
  show "length (remdups (map (\<lambda>(r, x). (f_id x, f_size x)) (uploads_joined f d))) = length (matching_files f d)"
    and "(\<Sum>u\<leftarrow>remdups (map (\<lambda>(r, x). (f_id x, f_size x)) (uploads_joined f d)). snd u) = (\<Sum>x\<leftarrow>matching_files f d. f_size x)"
    by simp_all
qed

lemma uploads_of_timeline:
  "length (remdups (map (\<lambda>(r, x). (f_id x, f_size x)) (uploads_joined f d))) \<le>
   length (remdups (map (\<lambda>(r, x). (trunc_date bucket (r_created_at r), f_id x, f_size x)) (uploads_joined f d)))"
proof -
  have "set (map (\<lambda>(r, x). (f_id x, f_size x)) (uploads_joined f d)) =
      snd ` set (map (\<lambda>(r, x). (trunc_date bucket (r_created_at r), f_id x, f_size x)) (uploads_joined f d))"
    by (force simp: image_iff)
  then show ?thesis by (simp only: length_remdups_card_conv) (simp add: card_image_le)
qed

lemma copies_on_storage:
  assumes "schema_ok d" and "df_storage_id f = Some s"
  shows "length (filter (\<lambda>(t, i, size). t = s) (synced_copies f d)) = length (matching_files f d)"
    and "(\<Sum>(t, i, size)\<leftarrow>filter (\<lambda>(t, i, size). t = s) (synced_copies f d). size) = (\<Sum>x\<leftarrow>matching_files f d. f_size x)"
proof -
  have "distinct (map f_id (files d))" using schema_okD(4) [OF assms(1)] by (simp add: files_ok_def)
  then have dist: "distinct (matching_files f d)" and inj: "inj_on (\<lambda>x. (s, f_id x, f_size x)) (set (matching_files f d))"
    by (auto simp: matching_files_def distinct_map inj_on_def)
  have dc: "distinct (filter (\<lambda>(t, i, size). t = s) (synced_copies f d))" by (simp add: synced_copies_def)
  have "set (filter (\<lambda>(t, i, size). t = s) (synced_copies f d)) = (\<lambda>x. (s, f_id x, f_size x)) ` set (matching_files f d)"
    using assms(2) by (fastforce simp: synced_copies_def matching_files_def located_def list_ex_iff image_iff)
  from corresponding_rows [OF dc dist this inj]
  show "length (filter (\<lambda>(t, i, size). t = s) (synced_copies f d)) = length (matching_files f d)"
    and "(\<Sum>(t, i, size)\<leftarrow>filter (\<lambda>(t, i, size). t = s) (synced_copies f d). size) = (\<Sum>x\<leftarrow>matching_files f d. f_size x)"
    by simp_all
qed

lemma totals_Inr:
  assumes "totals f d = Inr tot"
  shows "dt_files tot = int (length (matching_files f d))" "dt_bytes tot = (\<Sum>x\<leftarrow>matching_files f d. f_size x)"
    "dt_uploads_in_period tot = int (length (remdups (map (\<lambda>(r, x). (f_id x, f_size x)) (uploads_joined f d))))"
    "dt_bytes_uploaded_in_period tot = (\<Sum>u\<leftarrow>remdups (map (\<lambda>(r, x). (f_id x, f_size x)) (uploads_joined f d)). snd u)"
    "dt_accesses_in_period tot = int (length (events_in f d))"
    "dt_bytes_accessed_in_period tot = (\<Sum>e\<leftarrow>events_in f d. event_bytes e)"
    "dt_failed_syncs_in_period tot =
       count_where (\<lambda>t. t_status t = ''failed'' \<and> df_start f \<le> t_created_at t \<and> task_passes f t) (sync_tasks d)"
  using assms by (auto simp: totals_def split: sum.splits)

lemma content_types_counted:
  assumes "by_content_type f n d = Inr rows" and "0 \<le> n"
  shows "(\<Sum>c\<leftarrow>rows. ct_count c) \<le> int (length (matching_files f d))"
    and "int (length rows) < n \<Longrightarrow> (\<Sum>c\<leftarrow>rows. ct_count c) = int (length (matching_files f d))"
proof -
  from assms(1) obtain all where c: "collect (\<lambda>(ct, rows). case count_sum f_size rows of Inl e \<Rightarrow> Inl e
      | Inr (c, s) \<Rightarrow> Inr \<lparr>ct_content_type = ct, ct_count = c, ct_size = s\<rparr>) (group_by f_content_type (matching_files f d)) = Inr all"
    and rows: "rows = limit_rows n (order_desc ct_size all)"
    by (auto simp: by_content_type_def split: sum.splits)
  from c have m: "map ct_count all = map (\<lambda>(k, rs). int (length rs)) (group_by f_content_type (matching_files f d))"
    by (rule collect_map) (auto split: sum.splits)
  then have sum: "(\<Sum>c\<leftarrow>order_desc ct_size all. ct_count c) = int (length (matching_files f d))"
    by (simp only: sum_list_order_desc count_over_groups)
  have "0 \<le> x" if "x \<in> set (map ct_count all)" for x using that unfolding m by auto
  then have "0 \<le> (\<Sum>c\<leftarrow>drop (nat n) (order_desc ct_size all). ct_count c)"
    by (intro sum_list_nonneg) (auto dest!: in_set_dropD)
  with sum show "(\<Sum>c\<leftarrow>rows. ct_count c) \<le> int (length (matching_files f d))"
    unfolding rows limit_rows_def by (metis add_le_cancel_left add.right_neutral append_take_drop_id map_append sum_list.append)
  show "(\<Sum>c\<leftarrow>rows. ct_count c) = int (length (matching_files f d))" if "int (length rows) < n"
    using that sum unfolding rows limit_rows_def by (cases "length all \<le> nat n") (use assms(2) in \<open>auto simp: min_def split: if_splits\<close>)
qed

lemma selected_storage:
  assumes "schema_ok d" and "st \<in> set (storages d)" and "df_storage_id f = Some (s_id st)" and "by_storage f d = Inr rows"
  shows "rows = [\<lparr>sbd_storage_id = s_id st, sbd_name = s_name st, sbd_count = int (length (matching_files f d)),
    sbd_size = (\<Sum>x\<leftarrow>matching_files f d. f_size x)\<rparr>]"
proof -
  have "filter (\<lambda>x. passes (df_storage_id f) (Some (s_id x))) (storages d) = [st]"
    using filter_by_key [OF _ assms(2), of s_id] schema_okD(2) [OF assms(1)] assms(3)
    by (simp add: storages_ok_def passes_def eq_commute)
  with assms(4) copies_on_storage [OF assms(1,3)] show ?thesis
    by (auto simp: by_storage_def order_desc_def split: sum.splits)
qed

text \<open>
  C34: The numbers of one dashboard answer agree with each other: the accesses and the bytes of the access
  timeline add up to the counters, and so do the failed tasks of the sync chart; the upload timeline
  counts every uploaded file; the content types count files of the period, all of them while there are fewer
  than ten; without a storage selected, files and uploads of the period are the same numbers; with a
  storage selected, its row in the breakdown repeats the file counters.
\<close>

theorem dashboard_adds_up:
  assumes "schema_ok d" and "dashboard (Inr a) q d = (Inr r, d')"
  shows "d' = d \<and>
    (\<Sum>p\<leftarrow>dr_access_timeline r. tp_count p) = dt_accesses_in_period (dr_totals r) \<and>
    (\<Sum>p\<leftarrow>dr_access_timeline r. tp_size p) = dt_bytes_accessed_in_period (dr_totals r) \<and>
    (\<Sum>p\<leftarrow>dr_sync_status_trend r. sp_failed p) = dt_failed_syncs_in_period (dr_totals r) \<and>
    dt_uploads_in_period (dr_totals r) \<le> (\<Sum>p\<leftarrow>dr_upload_timeline r. tp_count p) \<and>
    (\<Sum>c\<leftarrow>dr_by_content_type r. ct_count c) \<le> dt_files (dr_totals r) \<and>
    (length (dr_by_content_type r) < 10 \<longrightarrow> (\<Sum>c\<leftarrow>dr_by_content_type r. ct_count c) = dt_files (dr_totals r)) \<and>
    (dq_storage_id q = None \<longrightarrow> dt_uploads_in_period (dr_totals r) = dt_files (dr_totals r) \<and>
       dt_bytes_uploaded_in_period (dr_totals r) = dt_bytes (dr_totals r)) \<and>
    (\<forall>st \<in> set (storages d). dq_storage_id q = Some (s_id st) \<longrightarrow>
       dr_by_storage r = [\<lparr>sbd_storage_id = s_id st, sbd_name = s_name st, sbd_count = dt_files (dr_totals r), sbd_size = dt_bytes (dr_totals r)\<rparr>])"
proof -
  obtain start bucket period where p: "resolve_period (unwrap_or ''30d'' (dq_period q)) (now d) = (start, bucket, period)"
    by (rule prod_cases3)
  define f where "f = dashboard_filter_of q start"
  have fs: "df_storage_id f = dq_storage_id q" by (simp add: f_def dashboard_filter_of_def)
  from assms(2) p have d': "d' = d" and tot: "totals f d = Inr (dr_totals r)"
    and up: "upload_timeline f bucket d = Inr (dr_upload_timeline r)"
    and acc: "access_timeline f bucket d = Inr (dr_access_timeline r)"
    and ct: "by_content_type f TOP_N d = Inr (dr_by_content_type r)"
    and st: "by_storage f d = Inr (dr_by_storage r)" and tr: "dr_sync_status_trend r = sync_status_trend f bucket d"
    by (auto simp: dashboard_def with_admin_def dashboard_of_def f_def [symmetric] split: sum.splits)
  note t = totals_Inr [OF tot]
  note ups = timeline_points(1) [OF up [unfolded upload_timeline_def]] uploads_of_timeline [of f d bucket]
  note unfiltered = unfiltered_uploads [OF assms(1), of f]
  show ?thesis
    using timeline_points(1,2) [OF acc [unfolded access_timeline_def]] trend_points(1) [of f bucket d] ups unfiltered
      content_types_counted [OF ct] selected_storage [OF assms(1) _ _ st] by (simp add: d' t tr fs TOP_N_def)
qed

section \<open>The number of points\<close>

lemma date_of_mono: "s \<le> t \<Longrightarrow> date_of s \<le> date_of t"
  by (simp add: date_of_def zdiv_mono1)

lemma date_of_days_before: "date_of (t - days n) = date_of t - n"
  using div_mult_self1 [of 86400000000 t "- n"] by (simp add: date_of_def days_def secs_def)

lemma day_points:
  assumes "distinct dates" and "set dates \<subseteq> trunc_date ''day'' ` ts" and "\<forall>t \<in> ts. s \<le> t \<and> t \<le> e"
    and "date_of e - date_of s \<le> n"
  shows "int (length dates) \<le> max 0 (n + 1)"
proof -
  have "set dates \<subseteq> {date_of s..date_of e}" using assms(2,3) date_of_mono by (force simp: trunc_date_def)
  from card_mono [OF finite_atLeastAtMost_int this] have "length dates \<le> nat (date_of e - date_of s + 1)"
    using assms(1) by (simp add: distinct_card)
  with assms(4) show ?thesis by arith
qed

lemma week_points:
  assumes "distinct dates" and "set dates \<subseteq> trunc_date ''week'' ` ts" and "\<forall>t \<in> ts. s \<le> t \<and> t \<le> e"
    and "date_of e - date_of s = 365"
  shows "int (length dates) \<le> 54"
proof -
  let ?week = "\<lambda>day. (day + 3) div 7"
  have tr: "trunc_date ''week'' t = 7 * ?week (date_of t) - 3" for t
    using minus_mod_eq_mult_div [of "date_of t + 3" 7] by (simp add: trunc_date_def Let_def)
  have "set dates \<subseteq> (\<lambda>k. 7 * k - 3) ` {?week (date_of s)..?week (date_of e)}"
  proof
    fix x
    assume "x \<in> set dates"
    with assms(2) obtain t where t: "t \<in> ts" "x = 7 * ?week (date_of t) - 3" unfolding tr by blast
    with assms(3) have "date_of s \<le> date_of t" "date_of t \<le> date_of e" using date_of_mono by auto
    then have "?week (date_of t) \<in> {?week (date_of s)..?week (date_of e)}" by (simp add: zdiv_mono1)
    with t(2) show "x \<in> (\<lambda>k. 7 * k - 3) ` {?week (date_of s)..?week (date_of e)}" by blast
  qed
  then have "length dates \<le> card ((\<lambda>k. 7 * k - 3 :: int) ` {?week (date_of s)..?week (date_of e)})"
    using assms(1) card_mono [of "(\<lambda>k. 7 * k - 3) ` {?week (date_of s)..?week (date_of e)}" "set dates"] by (simp add: distinct_card)
  also have "\<dots> \<le> card {?week (date_of s)..?week (date_of e)}" by (rule card_image_le) simp
  finally have len: "length dates \<le> nat (?week (date_of e) - ?week (date_of s) + 1)" by simp
  have "?week (date_of e) - ?week (date_of s) \<le> 53" using assms(4) by presburger
  then have "nat (?week (date_of e) - ?week (date_of s) + 1) \<le> 54" by simp
  with len show ?thesis by simp
qed

definition max_points :: "string \<Rightarrow> int" where
  "max_points period =
     (if period = ''today'' then 1 else if period = ''7d'' then 8 else if period = ''90d'' then 91
      else if period = ''1y'' then 54 else 31)"

lemma period_points:
  assumes "resolve_period label t = (start, bucket, period)" and "period \<noteq> ''all''"
    and "distinct dates" and "set dates \<subseteq> trunc_date bucket ` ts" and "\<forall>x \<in> ts. start \<le> x \<and> x \<le> t"
  shows "int (length dates) \<le> max_points period"
proof (cases "label = ''1y''")
  case True
  with assms(1) have "start = t - days 365" "bucket = ''week''" "period = ''1y''" by (simp_all add: resolve_period_def)
  with week_points [OF assms(3) _ assms(5)] assms(4) show ?thesis by (simp add: max_points_def date_of_days_before)
next
  case False
  have today: "date_of (86400000000 * date_of t) = date_of t" by (simp add: date_of_def)
  have "label \<noteq> ''all''" using assms(1,2) by (auto simp: resolve_period_def)
  then have "fst (snd (resolve_period label t)) = ''day''"
    "date_of t - date_of (fst (resolve_period label t)) = max_points (snd (snd (resolve_period label t))) - 1"
    using False by (simp_all add: resolve_period_def max_points_def date_of_days_before today)
  then have b: "bucket = ''day''" and n: "date_of t - date_of start = max_points period - 1" by (simp_all add: assms(1))
  note b n
  with day_points [OF assms(3) _ assms(5), of "max_points period - 1"] assms(4) have "int (length dates) \<le> max 0 (max_points period - 1 + 1)" by simp
  moreover have "0 \<le> max_points period" by (simp add: max_points_def)
  ultimately show ?thesis by simp
qed

text \<open>
  C35: As long as no row lies in the future, each chart has at most one point per date or week its period
  touches: 1 for today, 8 for seven days, 31 for thirty, 91 for ninety, and 54 weeks for a year.
\<close>

theorem timeline_points_bounded:
  assumes "dashboard (Inr a) q d = (Inr r, d')" and "dr_period r \<noteq> ''all''"
    and "\<forall>x \<in> set (file_references d). r_created_at x \<le> now d" and "\<forall>x \<in> set (file_access_events d). ev_created_at x \<le> now d"
    and "\<forall>x \<in> set (sync_tasks d). t_created_at x \<le> now d"
  shows "int (length (dr_upload_timeline r)) \<le> max_points (dr_period r) \<and>
    int (length (dr_access_timeline r)) \<le> max_points (dr_period r) \<and>
    int (length (dr_sync_status_trend r)) \<le> max_points (dr_period r)"
proof -
  obtain start bucket period where p: "resolve_period (unwrap_or ''30d'' (dq_period q)) (now d) = (start, bucket, period)"
    by (rule prod_cases3)
  define f where "f = dashboard_filter_of q start"
  have st: "df_start f = start" by (simp add: f_def dashboard_filter_of_def)
  from assms(1) p have per: "dr_period r = period"
    and up: "upload_timeline f bucket d = Inr (dr_upload_timeline r)" and acc: "access_timeline f bucket d = Inr (dr_access_timeline r)"
    and tr: "dr_sync_status_trend r = sync_status_trend f bucket d"
    by (auto simp: dashboard_def with_admin_def dashboard_of_def f_def [symmetric] split: sum.splits)
  note points = period_points [OF p assms(2) [unfolded per]]
  have "int (length (map tp_date (dr_upload_timeline r))) \<le> max_points period"
    by (rule points [where ts = "r_created_at ` {x \<in> set (file_references d). in_period f x}"])
      (use timeline_points(3,4) [OF up [unfolded upload_timeline_def]] assms(3) st in \<open>auto simp: uploads_joined_def in_period_def\<close>)
  moreover have "int (length (map tp_date (dr_access_timeline r))) \<le> max_points period"
    by (rule points [where ts = "ev_created_at ` set (events_in f d)"])
      (use timeline_points(3,4) [OF acc [unfolded access_timeline_def]] assms(4) st in \<open>auto simp: events_in_def\<close>)
  moreover have "int (length (map sp_date (dr_sync_status_trend r))) \<le> max_points period"
    by (rule points [where ts = "t_created_at ` set (tasks_in f d)"])
      (use trend_points(2,3) [of f bucket d] tr assms(5) st in \<open>auto simp: tasks_in_def\<close>)
  ultimately show ?thesis by (simp add: per)
qed

text \<open>The bound for ninety days is reached, so a timeline can have more than the sixty points the source has in mind.\<close>

definition daily_event :: "db \<Rightarrow> nat \<Rightarrow> access_event" where
  "daily_event d k = \<lparr>ev_id = k, ev_file_id = 7, ev_project_id = None, ev_storage_id = None, ev_access_kind = ''download'',
     ev_user_id = None, ev_bytes = None, ev_created_at = now d - days (int k)\<rparr>"

lemma ninety_days_91_points:
  assumes "file_access_events d = map (daily_event d) [0..<91]" and "resolve_period ''90d'' (now d) = (start, bucket, period)"
    and "access_timeline \<lparr>df_start = start, df_project_id = None, df_storage_id = None\<rparr> bucket d = Inr ps"
  shows "length ps = 91"
proof -
  let ?f = "\<lparr>df_start = start, df_project_id = None, df_storage_id = None\<rparr>"
  from assms(2) have start: "start = now d - days 90" and b: "bucket = ''day''" by (simp_all add: resolve_period_def)
  have "start \<le> now d - days (int k)" if "k < 91" for k using that by (simp add: start days_def secs_def)
  then have ev: "set (events_in ?f d) = daily_event d ` {0..<91}"
    by (auto simp: events_in_def assms(1) daily_event_def passes_def)
  note tl = timeline_points(3,4) [OF assms(3) [unfolded access_timeline_def]]
  have "set (map tp_date ps) = (\<lambda>k. date_of (now d) - int k) ` {0..<91}"
    unfolding tl(2) ev by (auto simp: b trunc_date_def daily_event_def date_of_days_before image_image)
  moreover have "card ((\<lambda>k. date_of (now d) - int k) ` {0..<91::nat}) = 91" by (subst card_image) (auto simp: inj_on_def)
  ultimately show ?thesis using distinct_card [OF tl(1)] by simp
qed

section \<open>The files accessed most\<close>

lemma concat_singletons: "\<forall>a \<in> set xs. \<exists>x. g a = [x] \<Longrightarrow> concat (map g xs) = map (\<lambda>a. hd (g a)) xs"
  by (induction xs) auto

text \<open>The list before the final ordering has one row per group.\<close>

lemma top_accessed_rows:
  assumes "schema_ok d"
  obtains row where "top_accessed_files f n d = order_desc ta_access_count (map row (access_groups f n d))"
    and "\<And>i es. (i, es) \<in> set (access_groups f n d) \<Longrightarrow>
      ta_file_id (row (i, es)) = i \<and> ta_access_count (row (i, es)) = int (length es) \<and>
      ta_last_accessed (row (i, es)) = Max (set (map ev_created_at es))"
proof -
  define g where "g = (\<lambda>(i, es :: access_event list). map (\<lambda>x. \<lparr>ta_file_id = i, ta_original_name = latest_name f d i, ta_content_type = f_content_type x,
      ta_access_count = int (length es), ta_last_accessed = Max (set (map ev_created_at es))\<rparr>) (filter (\<lambda>x. f_id x = i) (files d)))"
  have one: "\<exists>x. filter (\<lambda>x. f_id x = i) (files d) = [x]" if "(i, es) \<in> set (access_groups f n d)" for i es
  proof -
    from that have "(i, es) \<in> set (group_by ev_file_id (events_in f d))"
      by (auto simp: access_groups_def dest: in_set_limit_rowsD)
    then have "i \<in> ev_file_id ` set (file_access_events d)" by (auto simp: group_by_def events_in_def)
    with schema_okD(15) [OF assms] have "i \<in> f_id ` set (files d)" by (auto simp: access_events_ok_def)
    then obtain x where x: "x \<in> set (files d)" "f_id x = i" by auto
    have "distinct (map f_id (files d))" using schema_okD(4) [OF assms] by (simp add: files_ok_def)
    from filter_by_key [OF this x(1)] x(2) show ?thesis by simp
  qed
  have single: "\<forall>a \<in> set (access_groups f n d). \<exists>x. g a = [x]"
  proof
    fix a
    assume a: "a \<in> set (access_groups f n d)"
    obtain i es where ie: "a = (i, es)" by fastforce
    with one [of i es] a show "\<exists>x. g a = [x]" by (auto simp: g_def)
  qed
  show thesis
  proof (rule that [of "\<lambda>a. hd (g a)"])
    have "top_accessed_files f n d = order_desc ta_access_count (concat (map g (access_groups f n d)))"
      by (simp add: top_accessed_files_def g_def)
    then show "top_accessed_files f n d = order_desc ta_access_count (map (\<lambda>a. hd (g a)) (access_groups f n d))"
      by (simp only: concat_singletons [OF single])
    show "ta_file_id (hd (g (i, es))) = i \<and> ta_access_count (hd (g (i, es))) = int (length es) \<and>
        ta_last_accessed (hd (g (i, es))) = Max (set (map ev_created_at es))"
      if "(i, es) \<in> set (access_groups f n d)" for i es using one [OF that] by (auto simp: g_def)
  qed
qed

lemma access_groups_top:
  assumes "e \<in> set (events_in f d)" and "ev_file_id e \<notin> fst ` set (access_groups f n d)" and "0 \<le> n"
  shows "int (length (access_groups f n d)) = n \<and>
    (\<forall>(i, es) \<in> set (access_groups f n d). count_where (\<lambda>x. ev_file_id x = ev_file_id e) (events_in f d) \<le> int (length es))"
proof -
  let ?G = "group_by ev_file_id (events_in f d)" and ?len = "\<lambda>(i, es). int (length es)"
  let ?es = "filter (\<lambda>x. ev_file_id x = ev_file_id e) (events_in f d)"
  have A: "access_groups f n d = take (nat n) (order_desc ?len ?G)" by (simp add: access_groups_def limit_rows_def)
  have "(ev_file_id e, ?es) \<in> set (order_desc ?len ?G)" using assms(1) by (auto simp: group_by_def)
  moreover have "(ev_file_id e, ?es) \<notin> set (take (nat n) (order_desc ?len ?G))" using assms(2) A by force
  moreover have "set (order_desc ?len ?G) = set (take (nat n) (order_desc ?len ?G)) \<union> set (drop (nat n) (order_desc ?len ?G))"
    by (metis append_take_drop_id set_append)
  ultimately have dr: "(ev_file_id e, ?es) \<in> set (drop (nat n) (order_desc ?len ?G))" by blast
  then have "nat n < length (order_desc ?len ?G)" by (metis drop_eq_Nil empty_iff list.set(1) not_le)
  then have "int (length (access_groups f n d)) = n" using assms(3) by (simp add: A)
  moreover have "count_where (\<lambda>x. ev_file_id x = ev_file_id e) (events_in f d) \<le> int (length es)"
    if "(i, es) \<in> set (access_groups f n d)" for i es
    using sorted_desc_take_drop [OF that [unfolded A] dr] by (simp add: count_where_def)
  ultimately show ?thesis by blast
qed

text \<open>
  The list of the files accessed most holds at most the number of files asked for, each once, with the
  exact number and the latest of its accesses under the filter, and no file that was accessed but is not
  listed has more accesses than a listed one, nor is there room for it.
\<close>

theorem top_accessed_files_exact:
  assumes "schema_ok d" and "0 \<le> n"
  shows "int (length (top_accessed_files f n d)) \<le> n \<and> distinct (map ta_file_id (top_accessed_files f n d)) \<and>
    (\<forall>x \<in> set (top_accessed_files f n d).
       ta_access_count x = count_where (\<lambda>e. ev_file_id e = ta_file_id x) (events_in f d) \<and>
       (\<exists>e \<in> set (events_in f d). ev_file_id e = ta_file_id x \<and> ev_created_at e = ta_last_accessed x) \<and>
       (\<forall>e \<in> set (events_in f d). ev_file_id e = ta_file_id x \<longrightarrow> ev_created_at e \<le> ta_last_accessed x)) \<and>
    (\<forall>e \<in> set (events_in f d). ev_file_id e \<notin> ta_file_id ` set (top_accessed_files f n d) \<longrightarrow>
       int (length (top_accessed_files f n d)) = n \<and>
       (\<forall>x \<in> set (top_accessed_files f n d). count_where (\<lambda>e'. ev_file_id e' = ev_file_id e) (events_in f d) \<le> ta_access_count x))"
proof -
  let ?A = "access_groups f n d"
  from top_accessed_rows [OF assms(1)] obtain row where
    T: "top_accessed_files f n d = order_desc ta_access_count (map row ?A)"
    and row: "\<And>i es. (i, es) \<in> set ?A \<Longrightarrow> ta_file_id (row (i, es)) = i \<and> ta_access_count (row (i, es)) = int (length es) \<and>
      ta_last_accessed (row (i, es)) = Max (set (map ev_created_at es))" by metis
  have len: "length (top_accessed_files f n d) = length ?A" and set: "set (top_accessed_files f n d) = row ` set ?A"
    by (simp_all add: T)
  have ids: "map ta_file_id (map row ?A) = map fst ?A" using row by (auto intro!: map_cong)
  then have "ta_file_id ` set (map row ?A) = fst ` set ?A" by (metis list.set_map)
  then have files: "ta_file_id ` set (top_accessed_files f n d) = fst ` set ?A" by (simp add: set)
  have "distinct (map fst ?A)"
    using distinct_group_keys [of ev_file_id "events_in f d"]
    by (auto simp: access_groups_def limit_rows_def take_map [symmetric] distinct_map intro!: distinct_take inj_on_subset [OF _ set_take_subset])
  then have dist: "distinct (map ta_file_id (top_accessed_files f n d))"
    unfolding T ids [symmetric] by (simp only: distinct_map distinct_order_desc set_order_desc)
  have group: "es = filter (\<lambda>e. ev_file_id e = i) (events_in f d) \<and> es \<noteq> []" if "(i, es) \<in> set ?A" for i es
    using that by (intro group_rows) (auto simp: access_groups_def dest: in_set_limit_rowsD)
  have exact: "ta_access_count x = count_where (\<lambda>e. ev_file_id e = ta_file_id x) (events_in f d) \<and>
      (\<exists>e \<in> set (events_in f d). ev_file_id e = ta_file_id x \<and> ev_created_at e = ta_last_accessed x) \<and>
      (\<forall>e \<in> set (events_in f d). ev_file_id e = ta_file_id x \<longrightarrow> ev_created_at e \<le> ta_last_accessed x)"
    if "x \<in> set (top_accessed_files f n d)" for x
  proof -
    from that obtain i es where ie: "(i, es) \<in> set ?A" "x = row (i, es)" unfolding set by auto
    have "Max (ev_created_at ` set es) \<in> ev_created_at ` set es" using group [OF ie(1)] by (intro Max_in) (auto simp: filter_empty_conv)
    with row [OF ie(1)] group [OF ie(1)] ie(2) show ?thesis by (auto simp: count_where_def)
  qed
  have "int (length ?A) \<le> n" using length_limit_rows [OF assms(2)] by (simp add: access_groups_def)
  moreover have "int (length ?A) = n \<and> (\<forall>x \<in> set (top_accessed_files f n d).
      count_where (\<lambda>e'. ev_file_id e' = ev_file_id e) (events_in f d) \<le> ta_access_count x)"
    if "e \<in> set (events_in f d)" and "ev_file_id e \<notin> fst ` set ?A" for e
    using access_groups_top [OF that assms(2)] row unfolding set by fastforce
  ultimately show ?thesis using dist exact unfolding len files by blast
qed

section \<open>Concrete instances\<close>

definition demo_event :: "nat \<Rightarrow> time \<Rightarrow> access_event" where
  "demo_event i t = \<lparr>ev_id = i, ev_file_id = 7, ev_project_id = Some 2, ev_storage_id = Some 3, ev_access_kind = ''download'',
     ev_user_id = Some 1, ev_bytes = Some 3, ev_created_at = t\<rparr>"

definition demo_dashboard :: db where
  "demo_dashboard = demo_db\<lparr>file_access_events := [demo_event 1 0, demo_event 2 (- days 1)]\<rparr>"

definition demo_query :: dashboard_query where
  "demo_query = \<lparr>dq_period = Some ''7d'', dq_project_id = None, dq_storage_id = Some 3\<rparr>"

lemma demo_dashboard_ok: "schema_ok demo_dashboard"
  unfolding demo_dashboard_def
  by (rule schema_ok_set_leaf(10) [OF schema_ok_demo]) (simp add: access_events_ok_def demo_event_def demo_defs)

lemma demo_dashboard_answers:
  obtains r where "dashboard (Inr 1) demo_query demo_dashboard = (Inr r, demo_dashboard)" and "dr_period r = ''7d''"
    and "dt_accesses_in_period (dr_totals r) = 2" and "dt_files (dr_totals r) = 1"
proof -
  have "(case dashboard_of demo_query demo_dashboard of Inl _ \<Rightarrow> False
      | Inr r \<Rightarrow> dr_period r = ''7d'' \<and> dt_accesses_in_period (dr_totals r) = 2 \<and> dt_files (dr_totals r) = 1)" by code_simp
  then obtain r where "dashboard_of demo_query demo_dashboard = Inr r" "dr_period r = ''7d''"
    "dt_accesses_in_period (dr_totals r) = 2" "dt_files (dr_totals r) = 1" by (auto split: sum.splits)
  with that show thesis by (simp add: dashboard_def with_admin_def)
qed

theorem dashboard_adds_up_witness:
  "\<exists>r. dashboard (Inr 1) demo_query demo_dashboard = (Inr r, demo_dashboard) \<and>
     (\<Sum>p\<leftarrow>dr_access_timeline r. tp_count p) = 2 \<and> map sbd_count (dr_by_storage r) = [1]"
proof -
  obtain r where r: "dashboard (Inr 1) demo_query demo_dashboard = (Inr r, demo_dashboard)"
    and n: "dt_accesses_in_period (dr_totals r) = 2" "dt_files (dr_totals r) = 1" by (rule demo_dashboard_answers)
  have "demo_storage 3 True \<in> set (storages demo_dashboard)" "dq_storage_id demo_query = Some (s_id (demo_storage 3 True))"
    by (simp_all add: demo_dashboard_def demo_defs demo_query_def)
  with dashboard_adds_up [OF demo_dashboard_ok r] r n show ?thesis by (intro exI [of _ r]) auto
qed

theorem timeline_points_bounded_witness:
  "\<exists>r. dashboard (Inr 1) demo_query demo_dashboard = (Inr r, demo_dashboard) \<and> length (dr_access_timeline r) \<le> 8"
proof -
  obtain r where r: "dashboard (Inr 1) demo_query demo_dashboard = (Inr r, demo_dashboard)" and p: "dr_period r = ''7d''"
    by (rule demo_dashboard_answers)
  have "int (length (dr_access_timeline r)) \<le> max_points (dr_period r)"
    using timeline_points_bounded [OF r] p
    by (simp add: demo_dashboard_def demo_defs demo_event_def days_def secs_def)
  with r p show ?thesis by (auto simp: max_points_def)
qed

theorem top_accessed_files_exact_witness:
  "\<exists>x. top_accessed_files (dashboard_filter_of demo_query (- days 7)) 10 demo_dashboard = [x] \<and> ta_file_id x = 7 \<and> ta_access_count x = 2"
proof -
  let ?f = "dashboard_filter_of demo_query (- days 7)"
  have "map ta_file_id (top_accessed_files ?f 10 demo_dashboard) = [7]" by code_simp
  then obtain x where x: "top_accessed_files ?f 10 demo_dashboard = [x]" "ta_file_id x = 7" by auto
  have "(0::int) \<le> 10" by simp
  from top_accessed_files_exact [OF demo_dashboard_ok this, of ?f] x
  have "ta_access_count x = count_where (\<lambda>e. ev_file_id e = 7) (events_in ?f demo_dashboard)" by simp
  moreover have "count_where (\<lambda>e. ev_file_id e = 7) (events_in ?f demo_dashboard) = 2" by code_simp
  ultimately show ?thesis using x by simp
qed

end
