(* ===== verification/Replication.thy ===== *)
theory Replication
  imports Sync_Worker
begin

text \<open>
  From an upload to a copy: what a batch of the synchronisation worker does to a file that has just been
  uploaded. The lemmas join the invariants of \<open>File_Service\<close> (the rows an upload leaves) with those of
  \<open>Sync_Worker\<close> (the copy and its location row).

  Shown: the temporary file of a batch is never a stored object, a batch that leaves a location on the
  target has stored the uploaded bytes there, and the copy is then served when the first storage is disabled.
\<close>

section \<open>Temporary files and stored objects\<close>

lemma components_last_chars:
  assumes "validate_path path = Inr ()" and "CHR ''.'' \<notin> set path"
  shows "components path \<noteq> []" and "CHR ''.'' \<notin> set (last (components path))"
proof -
  from assms(1) obtain ch rest where p: "path = ch # rest" "ch \<noteq> CHR ''/''"
    by (cases path) (auto simp: validate_path_def split: if_splits)
  have sub: "CHR ''.'' \<notin> set c" if "c \<in> set (split_on (CHR ''/'') path)" for c
    using split_on_substring [OF that] assms(2) by auto
  obtain y ys where sp: "split_on (CHR ''/'') rest = y # ys" by (cases "split_on (CHR ''/'') rest") auto
  have "(ch # y) \<in> set (split_on (CHR ''/'') path)" using p sp by simp
  then have "(ch # y) \<in> set (components path)" using sub [of "ch # y"] by (auto simp: components_def)
  then show "components path \<noteq> []" by auto
  then have "last (components path) \<in> set (components path)" by (rule last_in_set)
  then show "CHR ''.'' \<notin> set (last (components path))" using sub by (simp add: components_def)
qed

lemma stored_path_not_temp:
  assumes "CHR ''.'' \<notin> set path"
  shows "resolve_path lb path \<noteq> Inr (dir @ [name @ ''.part''])"
proof
  assume r: "resolve_path lb path = Inr (dir @ [name @ ''.part''])"
  then have v: "validate_path path = Inr ()" by (auto simp: resolve_path_def split: sum.splits)
  note c = components_last_chars [OF v assms]
  from r v obtain pre where "pre @ components path = dir @ [name @ ''.part'']"
    by (auto simp: resolve_path_def split: if_splits) (metis append_assoc)
  then have "last (components path) = name @ ''.part''" using c(1) by (metis last_appendR last_snoc)
  with c(2) show False by simp
qed

lemma content_path_chars: "CHR ''.'' \<notin> set (content_addressed_path (compute_sha256 x data))"
proof -
  have h: "CHR ''.'' \<notin> set (compute_sha256 x data)"
    using hex_digits_no_punctuation by (fastforce simp: compute_sha256_def hex_encode_def)
  have "set (take 2 (compute_sha256 x data)) \<subseteq> set (compute_sha256 x data)"
    "set (take 2 (drop 2 (compute_sha256 x data))) \<subseteq> set (compute_sha256 x data)"
    by (auto dest: in_set_takeD in_set_dropD)
  with h show ?thesis by (auto simp: content_addressed_path_def)
qed

section \<open>Moving the bytes\<close>

lemma download_to_file_reads:
  assumes "be_download_to_file x b path dst w = (Inr (), w')" and "be_download x b path w = Inr data"
  shows "fs_read dst (ph_fs w') = Some data"
proof (cases b)
  case (LocalDisk lb)
  with assms(2) obtain p where p: "resolve_path lb path = Inr p" "fs_read p (ph_fs w) = Some data"
    by (auto simp: be_download_def local_download_Inr)
  from LocalDisk assms(1) have "local_download_to_file lb path dst (ph_fs w) = (Inr (), ph_fs w')"
    by (auto simp: be_download_to_file_def split: prod.splits)
  then obtain f1 data' where "create_dir_all (butlast dst) (ph_fs w) = Some f1" "fs_read p f1 = Some data'"
    "fs_write dst data' f1 = Some (ph_fs w')"
    using p(1) by (auto simp: local_download_to_file_def split: if_splits option.splits)
  with p(2) show ?thesis by (simp add: create_dir_all_def mkdirs_read fs_write_read)
qed (use assms in \<open>auto simp: be_download_to_file_def fs_write_read split: option.splits\<close>)

lemma download_after_mkdirs:
  assumes "create_dir_all p (ph_fs w) = Some f" and "be_download x b path w = Inr data"
  shows "be_download x b path (w\<lparr>ph_fs := f\<rparr>) = Inr data"
  using assms by (cases b) (auto simp: be_download_def local_download_Inr create_dir_all_def mkdirs_read)

lemma download_after_remove_temp:
  assumes "\<And>lb. resolve_path lb path \<noteq> Inr temp" and "be_download x b path w = Inr data"
  shows "be_download x b path (remove_temp temp w) = Inr data"
proof (cases b)
  case (LocalDisk lb)
  with assms(2) obtain p where p: "resolve_path lb path = Inr p" "fs_read p (ph_fs w) = Some data"
    by (auto simp: be_download_def local_download_Inr)
  moreover have "p \<noteq> temp" using p(1) assms(1) by metis
  ultimately show ?thesis using LocalDisk by (simp add: be_download_def local_download_Inr remove_temp_def)
qed (use assms(2) in \<open>simp_all add: be_download_def remove_temp_def\<close>)

section \<open>A batch of one task\<close>

text \<open>The tables a batch leaves alone.\<close>

definition catalog :: "db \<Rightarrow> file_row list \<times> file_reference list \<times> storage list \<times> project list \<times> project_storage list" where
  "catalog d = (files d, file_references d, storages d, projects d, project_storages d)"

definition copies_of :: "uuid \<Rightarrow> db \<Rightarrow> file_location list" where
  "copies_of fid d = filter (\<lambda>l. l_file_id l = fid) (file_locations d)"

lemma queue_keeps_catalog [simp]:
  "catalog (update_sync_tasks P f d) = catalog d" "copies_of fid (update_sync_tasks P f d) = copies_of fid d"
  "catalog (d\<lparr>sync_tasks := ts\<rparr>) = catalog d" "copies_of fid (d\<lparr>sync_tasks := ts\<rparr>) = copies_of fid d"
  by (simp_all add: catalog_def copies_of_def)

lemma task_statements_keep [simp]:
  "catalog (snd (sync_task_update_status i st e d)) = catalog d"
  "copies_of fid (snd (sync_task_update_status i st e d)) = copies_of fid d"
  "catalog (snd (sync_task_supersede_failed_for f t i d)) = catalog d"
  "copies_of fid (snd (sync_task_supersede_failed_for f t i d)) = copies_of fid d"
  "catalog (snd (sync_task_requeue_for_retry i m d)) = catalog d"
  "copies_of fid (snd (sync_task_requeue_for_retry i m d)) = copies_of fid d"
  "snd (sync_task_release_lock i d) = d"
  by (simp_all add: sync_task_update_status_def sync_task_supersede_failed_for_def sync_task_requeue_for_retry_def
      sync_task_release_lock_def Let_def split: option.split)

lemma fail_all_keeps [simp]: "catalog (fail_all ts m d) = catalog d" "copies_of fid (fail_all ts m d) = copies_of fid d"
  unfolding fail_all_def by (induction ts arbitrary: d) simp_all

text \<open>Recording a copy on a storage that has none adds one location or changes nothing.\<close>

lemma record_new_location:
  assumes "record_synced_location task sp d = (r, d')"
    and "\<forall>l \<in> set (copies_of (t_file_id task) d). l_storage_id l \<noteq> t_target task"
  shows "catalog d' = catalog d \<and> (case r of Inl e \<Rightarrow> copies_of (t_file_id task) d' = copies_of (t_file_id task) d
    | Inr _ \<Rightarrow> \<exists>l. copies_of (t_file_id task) d' = copies_of (t_file_id task) d @ [l] \<and>
        l_storage_id l = t_target task \<and> l_storage_path l = sp \<and> l_status l = ''synced'')"
proof -
  let ?in = "\<lparr>cl_file_id = t_file_id task, cl_storage_id = t_target task, cl_storage_path = sp, cl_status = ''synced''\<rparr>"
  have none: "find (\<lambda>l. l_file_id l = t_file_id task \<and> l_storage_id l = t_target task) (file_locations (draw d)) = None"
    using assms(2) by (auto simp: find_None_all copies_of_def)
  obtain q d1 where c: "file_location_create ?in d = (q, d1)" by fastforce
  show ?thesis
  proof (cases q)
    case (Inr l)
    with c have "d1 = (draw d)\<lparr>file_locations := file_locations d @ [l]\<rparr>" "l_file_id l = t_file_id task"
      "l_storage_id l = t_target task" "l_storage_path l = sp" "l_status l = ''synced''"
      by (auto simp: file_location_create_def Let_def split: if_splits)
    with assms(1) c Inr show ?thesis by (auto simp: record_synced_location_def catalog_def copies_of_def)
  next
    case (Inl e)
    with c have d1: "d1 = draw d" and e: "\<exists>x. e = Database x"
      by (auto simp: file_location_create_def Let_def split: if_splits)
    then obtain x where x: "e = Database x" by blast
    from assms(1) c Inl x d1 none obtain e2 where "r = Inl e2" "d' = draw d"
      by (cases "is_unique_violation x")
        (auto simp: record_synced_location_def file_location_update_status_by_file_and_storage_def)
    then show ?thesis by (simp add: catalog_def copies_of_def)
  qed
qed

lemma push_new_location:
  assumes "push_to_target x c reg task sp temp d w = (r, d', w')"
    and "\<forall>l \<in> set (copies_of (t_file_id task) d). l_storage_id l \<noteq> t_target task"
  shows "catalog d' = catalog d"
    and "r \<noteq> Some (Inr ()) \<Longrightarrow> copies_of (t_file_id task) d' = copies_of (t_file_id task) d"
    and "r = Some (Inr ()) \<Longrightarrow> \<exists>l. copies_of (t_file_id task) d' = copies_of (t_file_id task) d @ [l] \<and>
        l_storage_id l = t_target task \<and> l_storage_path l = sp \<and> l_status l = ''synced''"
proof -
  have *: "catalog d' = catalog d \<and> (if r = Some (Inr ())
    then \<exists>l. copies_of (t_file_id task) d' = copies_of (t_file_id task) d @ [l] \<and>
        l_storage_id l = t_target task \<and> l_storage_path l = sp \<and> l_status l = ''synced''
    else copies_of (t_file_id task) d' = copies_of (t_file_id task) d)"
  proof (cases "\<exists>b w1 w2 u. sync_resolve_backend x c reg d (t_target task) (t_project_id task) w = (Some (Inr b), w1) \<and>
      be_upload_from_file x (sw_rename_ok c) b sp temp w1 = (Inr u, w2)")
    case True
    with assms(1) obtain q where "record_synced_location task sp d = (q, d')" "r = Some q"
      by (auto simp: push_to_target_def split: prod.splits)
    with record_new_location [OF this(1) assms(2)] show ?thesis by (cases q) auto
  next
    case False
    with assms(1) have "d' = d" "r \<noteq> Some (Inr ())"
      by (auto simp: push_to_target_def split: prod.splits option.splits sum.splits)
    then show ?thesis by simp
  qed
  then show "catalog d' = catalog d"
    and "r \<noteq> Some (Inr ()) \<Longrightarrow> copies_of (t_file_id task) d' = copies_of (t_file_id task) d"
    and "r = Some (Inr ()) \<Longrightarrow> \<exists>l. copies_of (t_file_id task) d' = copies_of (t_file_id task) d @ [l] \<and>
        l_storage_id l = t_target task \<and> l_storage_path l = sp \<and> l_status l = ''synced''" by simp_all
qed

definition batch_temp :: "sync_cfg \<Rightarrow> sync_task \<Rightarrow> path" where
  "batch_temp c task = sw_temp_dir c @ [uuid_str (t_id task) @ ''.part'']"

lemma process_batch_one:
  assumes run: "process_batch x c reg [task] d w = (alive, d', w')"
    and none: "\<forall>l \<in> set (copies_of (t_file_id task) d). l_storage_id l \<noteq> t_target task"
  shows "catalog d' = catalog d"
    and "copies_of (t_file_id task) d' = copies_of (t_file_id task) d \<or>
      (\<exists>f0 sp w1 d1 w2. create_dir_all (sw_temp_dir c) (ph_fs w) = Some f0 \<and>
         download_source x c reg task (batch_temp c task) d (w\<lparr>ph_fs := f0\<rparr>) = (Some (Inr sp), w1) \<and>
         push_to_target x c reg task sp (batch_temp c task) d w1 = (Some (Inr ()), d1, w2) \<and>
         copies_of (t_file_id task) d' = copies_of (t_file_id task) d1 \<and> w' = remove_temp (batch_temp c task) w2)"
proof -
  have "catalog d' = catalog d \<and> (copies_of (t_file_id task) d' = copies_of (t_file_id task) d \<or>
      (\<exists>f0 sp w1 d1 w2. create_dir_all (sw_temp_dir c) (ph_fs w) = Some f0 \<and>
         download_source x c reg task (batch_temp c task) d (w\<lparr>ph_fs := f0\<rparr>) = (Some (Inr sp), w1) \<and>
         push_to_target x c reg task sp (batch_temp c task) d w1 = (Some (Inr ()), d1, w2) \<and>
         copies_of (t_file_id task) d' = copies_of (t_file_id task) d1 \<and> w' = remove_temp (batch_temp c task) w2))"
  proof (cases "\<exists>f0 sp w1. create_dir_all (sw_temp_dir c) (ph_fs w) = Some f0 \<and>
      download_source x c reg task (batch_temp c task) d (w\<lparr>ph_fs := f0\<rparr>) = (Some (Inr sp), w1)")
    case False
    with run show ?thesis
      by (auto simp: process_batch_def batch_temp_def Let_def split: option.splits prod.splits sum.splits)
  next
    case True
    then obtain f0 sp w1 where f0: "create_dir_all (sw_temp_dir c) (ph_fs w) = Some f0"
      and src: "download_source x c reg task (batch_temp c task) d (w\<lparr>ph_fs := f0\<rparr>) = (Some (Inr sp), w1)" by blast
    obtain r d1 w2 where push: "push_to_target x c reg task sp (batch_temp c task) d w1 = (r, d1, w2)" by (rule prod_cases3)
    note rows = push_new_location [OF push none]
    show ?thesis
    proof (cases "r = Some (Inr ())")
      case True
      with run f0 src push have "d' = snd (sync_task_supersede_failed_for (t_file_id task) (t_target task) (t_id task)
           (snd (sync_task_update_status (t_id task) ''completed'' None d1)))" "w' = remove_temp (batch_temp c task) w2"
        by (simp_all add: process_batch_def batch_temp_def [symmetric] finalize_task_def Let_def)
      with True f0 src push rows(1) show ?thesis by auto
    next
      case False
      with run f0 src push rows(1,2) show ?thesis
        by (cases r; cases "the r") (auto simp: process_batch_def batch_temp_def [symmetric] finalize_task_def Let_def)
    qed
  qed
  then show "catalog d' = catalog d"
    and "copies_of (t_file_id task) d' = copies_of (t_file_id task) d \<or>
      (\<exists>f0 sp w1 d1 w2. create_dir_all (sw_temp_dir c) (ph_fs w) = Some f0 \<and>
         download_source x c reg task (batch_temp c task) d (w\<lparr>ph_fs := f0\<rparr>) = (Some (Inr sp), w1) \<and>
         push_to_target x c reg task sp (batch_temp c task) d w1 = (Some (Inr ()), d1, w2) \<and>
         copies_of (t_file_id task) d' = copies_of (t_file_id task) d1 \<and> w' = remove_temp (batch_temp c task) w2)" by simp_all
qed

section \<open>The copy and its location\<close>

lemma sync_resolve_project:
  assumes "t_project_id task = Some pid" and "storage_find_by_id sid d = Inr s"
  shows "sync_resolve_backend x c reg d sid (t_project_id task) w = resolve_project_backend x (sw_secret c) d s pid w"
  using assms by (simp add: sync_resolve_backend_def)

lemma download_source_reads:
  assumes "download_source x c reg task temp d w = (Some (Inr sp), w')"
    and "copies_of (t_file_id task) d = [l]" and "l_storage_id l = t_source task" and "t_project_id task = Some pid"
    and "storage_find_by_id (t_source task) d = Inr s" and "fst (resolve_project_backend x (sw_secret c) d s pid w) = Some (Inr b)"
    and "be_download x b (l_storage_path l) w = Inr data" and "\<And>b. containers_keep_data x b"
  shows "sp = l_storage_path l" and "fs_read temp (ph_fs w') = Some data"
proof -
  obtain w1 where r: "resolve_project_backend x (sw_secret c) d s pid w = (Some (Inr b), w1)" using assms(6) by (metis prod.collapse)
  have "file_location_find_all_for_file (t_file_id task) d = [l]"
    using assms(2) by (simp add: file_location_find_all_for_file_def copies_of_def order_desc_def)
  with assms(1,3) r sync_resolve_project [OF assms(4,5), of x c reg w]
  have d: "be_download_to_file x b (l_storage_path l) temp w1 = (Inr (), w')" and sp: "l_storage_path l = sp"
    by (auto simp: download_source_def split: prod.splits sum.splits)
  from sp show "sp = l_storage_path l" by simp
  have "be_download x b (l_storage_path l) w1 = Inr data"
    using assms(7) resolve_project_backend_reads [OF assms(8), of b "l_storage_path l" "sw_secret c" d s pid w] r by simp
  with d show "fs_read temp (ph_fs w') = Some data" by (rule download_to_file_reads)
qed

text \<open>
  A batch that leaves a location on the target has copied the bytes there: the object of the location can
  be read through the backend of the project on the target.
\<close>

lemma batch_copies:
  assumes run: "process_batch x c reg [task] d w = (alive, d', w')"
    and one: "copies_of (t_file_id task) d = [l]" "l_storage_id l = t_source task" "t_target task \<noteq> t_source task"
    and pid: "t_project_id task = Some pid"
    and copied: "\<exists>l \<in> set (copies_of (t_file_id task) d'). l_storage_id l = t_target task"
    and src: "storage_find_by_id (t_source task) d = Inr s" "\<And>w. fst (resolve_project_backend x (sw_secret c) d s pid w) = Some (Inr b)"
    and dat: "be_download x b (l_storage_path l) w = Inr data" and path: "CHR ''.'' \<notin> set (l_storage_path l)"
    and laws: "\<And>b. reads_back x b" "\<And>b. containers_keep_data x b"
  obtains l' s' b' where "copies_of (t_file_id task) d' = [l, l']" "l_storage_id l' = t_target task"
    "l_storage_path l' = l_storage_path l" "l_status l' = ''synced''" "storage_find_by_id (t_target task) d = Inr s'"
    "\<And>w. fst (resolve_project_backend x (sw_secret c) d s' pid w) = Some (Inr b')" "be_download x b' (l_storage_path l) w' = Inr data"
proof -
  let ?temp = "batch_temp c task"
  from one have none: "\<forall>l \<in> set (copies_of (t_file_id task) d). l_storage_id l \<noteq> t_target task" by simp
  with copied have "copies_of (t_file_id task) d' \<noteq> copies_of (t_file_id task) d" by auto
  with process_batch_one(2) [OF run none] obtain f0 sp w1 d1 w2 where
    f0: "create_dir_all (sw_temp_dir c) (ph_fs w) = Some f0"
    and down: "download_source x c reg task ?temp d (w\<lparr>ph_fs := f0\<rparr>) = (Some (Inr sp), w1)"
    and push: "push_to_target x c reg task sp ?temp d w1 = (Some (Inr ()), d1, w2)"
    and d': "copies_of (t_file_id task) d' = copies_of (t_file_id task) d1" and w': "w' = remove_temp ?temp w2" by blast
  note r = download_source_reads [OF down one(1,2) pid src download_after_mkdirs [OF f0 dat] laws(2)]
  from push_new_location(3) [OF push none refl] one(1) d' r(1) obtain l' where
    l': "copies_of (t_file_id task) d' = [l, l']" "l_storage_id l' = t_target task" "l_storage_path l' = l_storage_path l" "l_status l' = ''synced''"
    by auto
  from push obtain b' w3 where res: "sync_resolve_backend x c reg d (t_target task) (t_project_id task) w1 = (Some (Inr b'), w3)"
    and up: "be_upload_from_file x (sw_rename_ok c) b' sp ?temp w3 = (Inr (), w2)" by (rule push_to_target_Inr) blast
  from res pid obtain s' where s': "storage_find_by_id (t_target task) d = Inr s'"
    and b': "fst (resolve_project_backend x (sw_secret c) d s' pid w1) = Some (Inr b')"
    by (auto simp: sync_resolve_backend_def split: sum.splits)
  have temp: "resolve_path lb sp \<noteq> Inr ?temp" for lb
    unfolding batch_temp_def r(1) by (rule stored_path_not_temp [OF path])
  have "fs_read ?temp (ph_fs w3) = Some data" using sync_resolve_backend_fs [OF res] r(2) by simp
  from upload_from_file_reads [OF up this laws(1) temp] have "be_download x b' (l_storage_path l) w' = Inr data"
    unfolding w' r(1) [symmetric] by (rule download_after_remove_temp [OF temp])
  moreover have "fst (resolve_project_backend x (sw_secret c) d s' pid v) = Some (Inr b')" for v
    using b' resolve_project_backend_fst_cong [of d d x "sw_secret c" s' pid v w1] by simp
  ultimately show ?thesis using that l' s' by blast
qed

text \<open>Disabling a storage hides its copies and nothing else.\<close>

lemma disable_storage_rows:
  fixes d :: db and i :: uuid
  defines "d' \<equiv> snd (storage_update_enabled i False d)"
  shows "files d' = files d" and "file_references d' = file_references d" and "copies_of fid d' = copies_of fid d"
    and "projects d' = projects d" and "project_storages d' = project_storages d"
    and "j \<noteq> i \<Longrightarrow> storage_find_by_id j d' = storage_find_by_id j d" and "l_storage_id l = i \<Longrightarrow> \<not> location_enabled d' l"
proof -
  have other: "j \<noteq> i \<Longrightarrow> find (\<lambda>s. s_id s = j) (update_where (\<lambda>s. s_id s = i) (\<lambda>s. s\<lparr>s_enabled := e, s_updated_at := t\<rparr>) ss) =
      find (\<lambda>s. s_id s = j) ss" for j e t and ss :: "storage list"
    by (induction ss) (auto simp: update_where_def)
  have same: "find (\<lambda>s. s_id s = i) (update_where (\<lambda>s. s_id s = i) (\<lambda>s. s\<lparr>s_enabled := False, s_updated_at := t\<rparr>) ss) \<noteq> Some s"
    if "s_enabled s" for t s and ss :: "storage list" using that by (induction ss) (auto simp: update_where_def)
  show "files d' = files d" "file_references d' = file_references d" "copies_of fid d' = copies_of fid d"
    "projects d' = projects d" "project_storages d' = project_storages d"
    by (simp_all add: d'_def storage_update_enabled_def copies_of_def Let_def split: option.split)
  show "storage_find_by_id j d' = storage_find_by_id j d" if "j \<noteq> i"
    using other [OF that] by (simp add: d'_def storage_update_enabled_def storage_find_by_id_def Let_def split: option.split)
  show "\<not> location_enabled d' l" if "l_storage_id l = i"
    using that same by (auto simp: d'_def storage_update_enabled_def location_enabled_def location_storage_def Let_def
        split: option.splits)
qed

lemma find_for_file_second:
  assumes "copies_of fid d = [l, l']" and "\<not> location_enabled d l" and "l_status l' = ''synced''"
    and "storage_find_by_id (l_storage_id l') d = Inr s" and "s_enabled s"
  shows "file_location_find_for_file fid d = [l']"
proof -
  have "location_enabled d l'" using assms(4,5)
    by (simp add: location_enabled_def location_storage_def storage_find_by_id_def ok_or_def split: option.splits)
  moreover have "filter (\<lambda>l. l_file_id l = fid \<and> location_enabled d l \<and> l_status l = ''synced'') (file_locations d) =
      filter (\<lambda>l. location_enabled d l \<and> l_status l = ''synced'') (copies_of fid d)"
    by (simp add: copies_of_def conj_ac)
  ultimately show ?thesis using assms(1-3)
    by (simp add: file_location_find_for_file_def order_desc_def order_desc_nulls_last_def)
qed

section \<open>A replica replaces the first storage\<close>

text \<open>
  C6: a copied file survives the loss of its first storage. When new contents were uploaded, the worker has
  run the batch of a task for the file, whatever else happened to the queue, and the copy is recorded on an
  enabled target, then disabling the storage of the upload leaves the file available: a download yields
  the uploaded bytes, content type and name, also through a process that knows none of the backends.
\<close>

theorem replica_serves_file:
  assumes "schema_ok d" and "supply_fresh d (l_id ` set (file_locations d))"
    and "\<And>b. reads_back x b" and "\<And>b. containers_keep_data x b"
    and "upload_file x (sw_secret c) reg pid name ct data meta d w = (Inr res, d1, w1)" and "\<not> ur_is_duplicate res"
    and "t_file_id task = f_id (ur_file res)" and "t_project_id task = Some pid" and "t_target task \<noteq> t_source task"
    and "\<forall>l \<in> set (copies_of (f_id (ur_file res)) d1). l_storage_id l = t_source task"
    and "process_batch x c reg [task] (d1\<lparr>sync_tasks := ts\<rparr>) w1 = (alive, d2, w2)"
    and "\<exists>l \<in> set (copies_of (f_id (ur_file res)) d2). l_storage_id l = t_target task"
    and "storage_find_by_id (t_target task) d2 = Inr st" and "s_enabled st"
  shows "\<exists>dl d3 w3. download_file x (sw_secret c) reg2 (f_id (ur_file res)) (snd (storage_update_enabled (t_source task) False d2)) w2 =
      (Inr dl, d3, w3) \<and> dr_data dl = data \<and> dr_content_type dl = ct \<and> dr_original_name dl = Some name"
proof -
  let ?fid = "f_id (ur_file res)" and ?d = "snd (storage_update_enabled (t_source task) False d2)"
  from assms(1,2,5,6) obtain s b w0 l ref where f: "file_find_by_id ?fid d1 = Inr (ur_file res)" "f_content_type (ur_file res) = ct"
    and l: "copies_of ?fid d1 = [l]" "l_status l = ''synced''"
    and pa: "l_storage_path l = content_addressed_path (compute_sha256 x data)"
    and r: "file_reference_find_by_file_id ?fid d1 = [ref]" "r_project_id ref = pid" "r_original_name ref = name"
    and s: "storage_find_by_id (l_storage_id l) d1 = Inr s"
    and b: "\<And>w. fst (resolve_project_backend x (sw_secret c) d1 s pid w) = Some (Inr b)"
    and u: "be_upload x b (l_storage_path l) data w0 = (Inr (), w1)"
    unfolding copies_of_def by (rule uploaded_fileE) blast
  let ?q = "d1\<lparr>sync_tasks := ts\<rparr>"
  have sid: "l_storage_id l = t_source task" using assms(10) l by simp
  have dat: "be_download x b (l_storage_path l) w1 = Inr data" using assms(3) u by (auto simp: reads_back_def)
  have bq: "fst (resolve_project_backend x (sw_secret c) ?q s pid v) = Some (Inr b)" for v
    using b [of v] resolve_project_backend_fst_cong [of ?q d1 x "sw_secret c" s pid v v] by simp
  have sq: "storage_find_by_id (t_source task) ?q = Inr s" using s sid by (simp add: storage_find_by_id_def)
  have lq: "copies_of (t_file_id task) ?q = [l]" using l assms(7) by simp
  have none: "\<forall>l \<in> set (copies_of (t_file_id task) ?q). l_storage_id l \<noteq> t_target task" using lq sid assms(9) by simp
  have copied: "\<exists>l \<in> set (copies_of (t_file_id task) d2). l_storage_id l = t_target task" using assms(7,12) by simp
  have path: "CHR ''.'' \<notin> set (l_storage_path l)" using pa content_path_chars by metis
  obtain l' s' b' where l': "copies_of ?fid d2 = [l, l']" "l_storage_id l' = t_target task" "l_storage_path l' = l_storage_path l"
      "l_status l' = ''synced''" and s': "storage_find_by_id (t_target task) ?q = Inr s'"
    and b': "\<And>w. fst (resolve_project_backend x (sw_secret c) ?q s' pid w) = Some (Inr b')"
    and dat': "be_download x b' (l_storage_path l) w2 = Inr data"
    using batch_copies [OF assms(11) lq sid assms(9,8) copied sq bq dat path assms(3,4)] assms(7) by metis
  have cat: "files d2 = files d1" "file_references d2 = file_references d1" "storages d2 = storages d1"
    "projects d2 = projects d1" "project_storages d2 = project_storages d1"
    using process_batch_one(1) [OF assms(11) none] by (simp_all add: catalog_def)
  note row = disable_storage_rows [where d = d2 and i = "t_source task"]
  have "s' = st" using s' assms(13) cat(3) by (simp add: storage_find_by_id_def)
  then have st: "storage_find_by_id (l_storage_id l') ?d = Inr s'" using row(6) [OF assms(9)] assms(13) l'(2) by simp
  have off: "\<not> location_enabled ?d l" using row(7) sid by simp
  have locs: "file_location_find_for_file ?fid ?d = [l']"
    by (rule find_for_file_second [OF _ off l'(4) st]) (use l'(1) row(3) assms(14) \<open>s' = st\<close> in simp_all)
  have ff: "file_find_by_id ?fid ?d = Inr (ur_file res)" using f(1) row(1) cat(1) by (simp add: file_find_by_id_def)
  have rf: "file_reference_find_by_file_id ?fid ?d = [ref]" using r(1) row(2) cat(2) by (simp add: file_reference_find_by_file_id_def)
  have bd: "fst (resolve_project_backend x (sw_secret c) ?d s' (r_project_id ref) w2) = Some (Inr b')"
    using b' [of w2] resolve_project_backend_fst_cong [of ?d ?q x "sw_secret c" s' pid w2 w2] row(4,5) cat(4,5) r(2) by simp
  from download_one_location [OF ff locs rf st bd _ assms(4)] dat' l'(3) f(2) r(3) show ?thesis by fastforce
qed

text \<open>The sample database with an empty disk: an upload to storage 3 and the task that copies it to storage 4.\<close>

definition demo_replica_task :: "uuid \<Rightarrow> sync_task" where
  "demo_replica_task fid = demo_task\<lparr>t_file_id := fid, t_project_id := Some 2, t_source := 3, t_target := 4\<rparr>"

lemma demo_replica_runs:
  "case upload_file demo_env (sw_secret demo_sync_cfg) demo_registry 2 ''b.txt'' ''text/plain'' [1, 2, 3] (JObj []) demo_db demo_phys of
     (Inr res, d1, w1) \<Rightarrow> \<not> ur_is_duplicate res \<and>
       list_all (\<lambda>l. l_storage_id l = 3) (copies_of (f_id (ur_file res)) d1) \<and>
       (case process_batch demo_env demo_sync_cfg demo_registry [demo_replica_task (f_id (ur_file res))] (d1\<lparr>sync_tasks := []\<rparr>) w1 of
          (alive, d2, w2) \<Rightarrow> list_ex (\<lambda>l. l_storage_id l = 4) (copies_of (f_id (ur_file res)) d2) \<and>
            (case storage_find_by_id 4 d2 of Inr st \<Rightarrow> s_enabled st | Inl _ \<Rightarrow> False))
   | _ \<Rightarrow> False"
  by code_simp

theorem replica_serves_file_witness:
  "\<exists>res d1 w1 alive d2 w2 dl d3 w3.
     upload_file demo_env (sw_secret demo_sync_cfg) demo_registry 2 ''b.txt'' ''text/plain'' [1, 2, 3] (JObj []) demo_db demo_phys = (Inr res, d1, w1) \<and>
     process_batch demo_env demo_sync_cfg demo_registry [demo_replica_task (f_id (ur_file res))] (d1\<lparr>sync_tasks := []\<rparr>) w1 = (alive, d2, w2) \<and>
     download_file demo_env (sw_secret demo_sync_cfg) Map.empty (f_id (ur_file res)) (snd (storage_update_enabled 3 False d2)) w2 = (Inr dl, d3, w3) \<and>
     dr_data dl = [1, 2, 3] \<and> dr_original_name dl = Some ''b.txt''"
proof -
  obtain r d1 w1 where u: "upload_file demo_env (sw_secret demo_sync_cfg) demo_registry 2 ''b.txt'' ''text/plain'' [1, 2, 3] (JObj [])
      demo_db demo_phys = (r, d1, w1)" by (rule prod_cases3)
  note runs = demo_replica_runs [unfolded u]
  from runs obtain res where r: "r = Inr res" by (cases r) auto
  note up = u [unfolded r]
  let ?t = "demo_replica_task (f_id (ur_file res))"
  obtain alive d2 w2 where run: "process_batch demo_env demo_sync_cfg demo_registry [?t] (d1\<lparr>sync_tasks := []\<rparr>) w1 = (alive, d2, w2)"
    by (rule prod_cases3)
  have new: "\<not> ur_is_duplicate res" "\<forall>l \<in> set (copies_of (f_id (ur_file res)) d1). l_storage_id l = 3"
    and copied: "\<exists>l \<in> set (copies_of (f_id (ur_file res)) d2). l_storage_id l = 4"
    using runs by (simp_all add: r run list_all_iff list_ex_iff)
  from runs obtain st where st: "storage_find_by_id 4 d2 = Inr st" "s_enabled st"
    by (cases "storage_find_by_id 4 d2") (simp_all add: r run)
  have t: "t_file_id ?t = f_id (ur_file res)" "t_project_id ?t = Some 2" "t_target ?t \<noteq> t_source ?t" "t_source ?t = 3" "t_target ?t = 4"
    by (simp_all add: demo_replica_task_def)
  have fresh: "supply_fresh demo_db (l_id ` set (file_locations demo_db))" by (rule supply_fresh_demo) (auto simp: demo_defs)
  have "\<exists>dl d3 w3. download_file demo_env (sw_secret demo_sync_cfg) Map.empty (f_id (ur_file res))
      (snd (storage_update_enabled (t_source ?t) False d2)) w2 = (Inr dl, d3, w3) \<and>
      dr_data dl = [1, 2, 3] \<and> dr_content_type dl = ''text/plain'' \<and> dr_original_name dl = Some ''b.txt''"
    by (rule replica_serves_file [OF schema_ok_demo fresh reads_back_demo containers_demo up new(1) t(1-3) _ run])
      (use new(2) copied st t(4,5) in simp_all)
  then show ?thesis using up run t(4) by auto
qed

end
