(* ===== verification/Service.thy ===== *)
theory Service
  imports Backups Api_Admin Dashboard Replication
begin

text \<open>
  The whole server over time. \<open>db_step\<close> is the effect of one SQL statement (or of one transaction) of
  \<open>src/db/models.rs\<close>, with the arguments the services may give it; \<open>request\<close> is the effect one request, one
  round of a worker or the passing of time has on the database, for any process, any state of its
  registry and of the storages, and any behaviour of the libraries.

  Shown: every request is a sequence of statements, also when it fails half-way, so what every statement
  keeps holds in every database the server can reach. The statements keep it one by one, so it also holds when
  those of different requests are interleaved.
\<close>

section \<open>Statements\<close>

definition task_states :: "string set" where
  "task_states = {''pending'', ''in_progress'', ''completed'', ''failed''}"

definition location_states :: "string set" where
  "location_states = {''synced'', ''archived'', ''restoring''}"

definition session_states :: "string set" where
  "session_states = {''in_progress'', ''completed'', ''aborted''}"

definition record_states :: "string set" where
  "record_states = {''running'', ''completed'', ''failed''}"

definition member_roles :: "string set" where
  "member_roles = {''member'', ''writer''}"

inductive db_step :: "db \<Rightarrow> db \<Rightarrow> bool" where
  time_passes: "now d \<le> t \<Longrightarrow> db_step d (d\<lparr>now := t\<rparr>)"
| "db_step d (snd (project_create inp owner d))"
| "db_step d (snd (project_update pid upi d))"
| "db_step d (snd (project_delete pid d))"
| "db_step d (snd (storage_create cs d))"
| "db_step d (snd (storage_update_enabled sid b d))"
| "db_step d (snd (storage_update sid usi d))"
| "db_step d (snd (project_storage_create pid cps d))"
| "db_step d (snd (project_storage_update pid sid ups d))"
| "db_step d (snd (project_storage_delete pid sid d))"
| "db_step d (snd (file_create_or_find cf d))"
| "db_step d (snd (file_reference_create cr d))"
| "db_step d (snd (file_reference_delete_by_file_and_project fid pid d))"
| "db_step d (snd (execute_bulk_delete pid filters d))"
| "db_step d (delete_orphan fid d)"
| "cl_status cl \<in> location_states \<Longrightarrow> db_step d (snd (file_location_create cl d))"
| "st \<in> location_states \<Longrightarrow> db_step d (snd (file_location_update_status lid st d))"
| "st \<in> location_states \<Longrightarrow> db_step d (snd (file_location_update_status_by_file_and_storage fid sid st d))"
| "db_step d (snd (file_location_touch_accessed lid d))"
| mark_restoring: "db_step d (d\<lparr>file_locations := update_where P (\<lambda>l. l\<lparr>l_status := ''restoring''\<rparr>) (file_locations d)\<rparr>)"
| "db_step d (snd (sync_task_create ct d))"
| "st \<in> task_states \<Longrightarrow> db_step d (snd (sync_task_update_status tid st msg d))"
| "db_step d (snd (sync_task_supersede_failed_for fid sid tid d))"
| "db_step d (snd (sync_task_requeue_for_retry tid m d))"
| "db_step d (recover_stuck d)"
| "db_step d (fail_exhausted k d)"
| "db_step d (snd (claim_one locked task d))"
| "db_step d (snd (user_create cu d))"
| "db_step d (snd (user_delete uid d))"
| "db_step d (snd (user_update_role uid role d))"
| "db_step d (snd (user_update_password_hash uid h d))"
| "db_step d (snd (refresh_token_create crt d))"
| revoke_tokens: "db_step d (snd (refresh_token_delete_by_user_id uid d))"
| "db_step d (snd (refresh_token_consume_by_hash h d))"
| "db_step d (snd (refresh_token_delete_by_hash h d))"
| "db_step d (snd (refresh_token_delete_expired d))"
| "role \<in> member_roles \<Longrightarrow> db_step d (snd (user_project_create uid pid role d))"
| "role \<in> member_roles \<Longrightarrow> db_step d (snd (user_project_update_role uid pid role d))"
| "db_step d (snd (user_project_delete uid pid d))"
| "db_step d (snd (user_storage_create uid sid d))"
| "db_step d (snd (user_storage_delete uid sid d))"
| "db_step d (snd (shared_link_create c rnd salt csl d))"
| "db_step d (snd (increment_download_count slid d))"
| "db_step d (snd (shared_link_deactivate slid d))"
| "db_step d (snd (shared_link_delete_by_user uid d))"
| "db_step d (access_event_record ev d)"
| "db_step d (snd (access_event_prune_older_than t d))"
| "db_step d (snd (upload_session_create cus d))"
| "db_step d (snd (upload_session_advance_offset seid o1 o2 d))"
| "st \<in> session_states \<Longrightarrow> db_step d (snd (upload_session_mark_status seid st d))"
| "db_step d (snd (upload_session_delete seid d))"
| "db_step d (snd (upload_session_prune_terminal t d))"
| "db_step d (snd (backup_config_create cbc d))"
| "db_step d (snd (backup_config_update bcid ubc d))"
| "db_step d (snd (backup_config_delete bcid d))"
| "db_step d (snd (backup_record_create cbr d))"
| "db_step d (snd (backup_record_mark_completed bid n path d))"
| "db_step d (snd (backup_record_mark_failed bid m d))"
| "db_step d (snd (backup_record_mark_stale_running_as_failed bcid n2 d))"
| "db_step d (snd (backup_record_delete bid d))"
| "db_step d (snd (node_register nid address d))"
| "db_step d (snd (node_heartbeat nid d))"

abbreviation runs :: "db \<Rightarrow> db \<Rightarrow> bool" where
  "runs \<equiv> db_step\<^sup>*\<^sup>*"

lemma runs_step: "db_step d d' \<Longrightarrow> runs a d \<Longrightarrow> runs a d'"
  by (rule rtranclp.rtrancl_into_rtrancl)

lemmas statement_runs = db_step.intros [THEN runs_step]

text \<open>Operations made of statements, added as they are shown to be.\<close>

named_theorems operation_runs "operations are sequences of statements"

section \<open>What every statement keeps\<close>

definition states_ok :: "db \<Rightarrow> bool" where
  "states_ok d \<longleftrightarrow>
     (\<forall>l \<in> set (shared_links d). link_count_ok l) \<and> (\<forall>t \<in> set (sync_tasks d). t_status t \<in> task_states) \<and>
     (\<forall>l \<in> set (file_locations d). l_status l \<in> location_states) \<and>
     (\<forall>s \<in> set (upload_sessions d). up_sess_status s \<in> session_states) \<and>
     (\<forall>b \<in> set (backup_history d). br_status b \<in> record_states) \<and>
     (\<forall>m \<in> set (user_projects d). up_role m \<in> member_roles)"

lemma schema_ok_now [simp]: "schema_ok (d\<lparr>now := t\<rparr>) = schema_ok d"
  by (simp add: schema_ok_def)

lemma states_ok_now [simp]: "states_ok (d\<lparr>now := t\<rparr>) = states_ok d"
  by (simp add: states_ok_def)

lemma states_ok_draw [simp]: "states_ok (draw d) = states_ok d"
  by (simp add: states_ok_def draw_def)

text \<open>The statements on the other tables.\<close>

lemma catalog_statements_states [simp]:
  "states_ok (snd (project_create inp owner d)) = states_ok d"
  "states_ok (snd (project_update pid upi d)) = states_ok d"
  "states_ok (snd (storage_create cs d)) = states_ok d"
  "states_ok (snd (storage_update_enabled sid b d)) = states_ok d"
  "states_ok (snd (storage_update sid usi d)) = states_ok d"
  "states_ok (snd (project_storage_create pid cps d)) = states_ok d"
  "states_ok (snd (project_storage_update pid sid ups d)) = states_ok d"
  "states_ok (snd (project_storage_delete pid sid d)) = states_ok d"
  "states_ok (snd (file_create_or_find cf d)) = states_ok d"
  "states_ok (snd (file_reference_create cr d)) = states_ok d"
  "states_ok (snd (file_reference_delete_by_file_and_project fid pid d)) = states_ok d"
  by (auto simp: states_ok_def project_create_def project_update_def storage_create_def storage_update_enabled_def
      storage_update_def project_storage_create_def project_storage_update_def project_storage_delete_def
      file_create_or_find_def file_create_def file_reference_create_def file_reference_delete_by_file_and_project_def
      Let_def draw_def split: option.split sum.split prod.split)

lemma account_statements_states [simp]:
  "states_ok (snd (user_create cu d)) = states_ok d"
  "states_ok (snd (user_update_role uid r d)) = states_ok d"
  "states_ok (snd (user_update_password_hash uid h d)) = states_ok d"
  "states_ok (snd (refresh_token_create crt d)) = states_ok d"
  "states_ok (snd (refresh_token_delete_by_user_id uid d)) = states_ok d"
  "states_ok (snd (refresh_token_consume_by_hash h d)) = states_ok d"
  "states_ok (snd (refresh_token_delete_by_hash h d)) = states_ok d"
  "states_ok (snd (refresh_token_delete_expired d)) = states_ok d"
  "states_ok (snd (user_storage_create uid sid d)) = states_ok d"
  "states_ok (snd (user_storage_delete uid sid d)) = states_ok d"
  "states_ok (access_event_record ev d) = states_ok d"
  "states_ok (snd (access_event_prune_older_than t d)) = states_ok d"
  "states_ok (snd (backup_config_create cbc d)) = states_ok d"
  "states_ok (snd (backup_config_update bcid ubc d)) = states_ok d"
  "states_ok (snd (node_register nid address d)) = states_ok d"
  "states_ok (snd (node_heartbeat nid d)) = states_ok d"
  by (auto simp: states_ok_def user_create_def user_update_role_def user_update_password_hash_def refresh_token_create_def
      refresh_token_delete_by_user_id_def refresh_token_consume_by_hash_def refresh_token_delete_by_hash_def
      refresh_token_delete_expired_def user_storage_create_def user_storage_delete_def access_event_record_def
      access_event_prune_older_than_def backup_config_create_def backup_config_update_def node_register_def node_heartbeat_def
      Let_def draw_def split: option.split sum.split prod.split)

text \<open>The statements that remove rows.\<close>

lemma removing_statements_states:
  assumes "states_ok d"
  shows "states_ok (snd (project_delete pid d))" and "states_ok (snd (user_delete uid d))" and "states_ok (delete_orphan fid d)"
    and "states_ok (snd (execute_bulk_delete pid filters d))" and "states_ok (snd (user_project_delete uid pid d))"
    and "states_ok (snd (shared_link_delete_by_user uid d))" and "states_ok (snd (upload_session_delete seid d))"
    and "states_ok (snd (upload_session_prune_terminal t d))" and "states_ok (snd (backup_config_delete bcid d))"
    and "states_ok (snd (backup_record_delete bid d))"
  using assms
  by (auto simp: states_ok_def project_delete_def user_delete_def delete_orphan_def delete_file_row_def execute_bulk_delete_def
      user_project_delete_def shared_link_delete_by_user_def upload_session_delete_def upload_session_prune_terminal_def
      backup_config_delete_def backup_record_delete_def Let_def table_simps split: option.split sum.split prod.split)

text \<open>The statements that set a state. A loop of updates of the queue is one, row by row.\<close>

lemma states_ok_tasks: "states_ok d \<Longrightarrow> (\<And>t. t_status (f t) \<in> task_states) \<Longrightarrow> states_ok (update_sync_tasks P f d)"
  by (auto simp: states_ok_def update_sync_tasks_def table_simps)

lemma queue_statements_states:
  assumes "states_ok d"
  shows "states_ok (snd (sync_task_create ct d))" and "st \<in> task_states \<Longrightarrow> states_ok (snd (sync_task_update_status tid st msg d))"
    and "states_ok (snd (sync_task_supersede_failed_for fid sid tid d))" and "states_ok (snd (sync_task_requeue_for_retry tid m d))"
    and "states_ok (recover_stuck d)" and "states_ok (fail_exhausted k d)" and "states_ok (snd (claim_one locked task d))"
  using assms
  by (auto simp: sync_task_create_def sync_task_update_status_def sync_task_supersede_failed_for_def sync_task_requeue_for_retry_def
      recover_stuck_def fail_exhausted_def claim_one_def Let_def task_states_def intro!: states_ok_tasks split: option.split)
    (auto simp: states_ok_def task_states_def)

lemma location_statements_states:
  assumes "states_ok d"
  shows "cl_status cl \<in> location_states \<Longrightarrow> states_ok (snd (file_location_create cl d))"
    and "st \<in> location_states \<Longrightarrow> states_ok (snd (file_location_update_status lid st d))"
    and "st \<in> location_states \<Longrightarrow> states_ok (snd (file_location_update_status_by_file_and_storage fid sid st d))"
    and "states_ok (snd (file_location_touch_accessed lid d))"
    and "states_ok (d\<lparr>file_locations := update_where P (\<lambda>l. l\<lparr>l_status := ''restoring''\<rparr>) (file_locations d)\<rparr>)"
  using assms
  by (auto simp: states_ok_def file_location_create_def file_location_update_status_def location_states_def
      file_location_update_status_by_file_and_storage_def file_location_touch_accessed_def set_location_status_def
      Let_def draw_def table_simps split: option.split)

lemma session_statements_states:
  assumes "states_ok d"
  shows "states_ok (snd (upload_session_create cus d))" and "states_ok (snd (upload_session_advance_offset seid o1 o2 d))"
    and "st \<in> session_states \<Longrightarrow> states_ok (snd (upload_session_mark_status seid st d))"
    and "role \<in> member_roles \<Longrightarrow> states_ok (snd (user_project_create uid pid role d))"
    and "role \<in> member_roles \<Longrightarrow> states_ok (snd (user_project_update_role uid pid role d))"
  using assms
  by (auto simp: states_ok_def upload_session_create_def upload_session_advance_offset_def upload_session_mark_status_def
      user_project_create_def user_project_update_role_def session_states_def Let_def draw_def table_simps split: option.split)

lemma link_statements_states:
  assumes "states_ok d"
  shows "states_ok (snd (shared_link_create c rnd salt csl d))" and "states_ok (snd (shared_link_deactivate slid d))"
    and "states_ok (snd (increment_download_count slid d))"
  using assms increment_keeps_count_ok [of d slid]
  by (auto simp: states_ok_def shared_link_create_def shared_link_deactivate_def link_count_ok_def Let_def draw_def table_simps
      increment_download_count_def split: option.split sum.split)

lemma record_statements_states:
  assumes "states_ok d"
  shows "states_ok (snd (backup_record_create cbr d))" and "states_ok (snd (backup_record_mark_completed bid n path d))"
    and "states_ok (snd (backup_record_mark_failed bid m d))"
    and "states_ok (snd (backup_record_mark_stale_running_as_failed bcid n2 d))"
  using assms
  by (auto simp: states_ok_def backup_record_create_def backup_record_mark_completed_def backup_record_mark_failed_def
      backup_record_mark_stale_running_as_failed_def update_record_def record_states_def Let_def draw_def table_simps
      split: option.split)

lemma db_step_states: "db_step d d' \<Longrightarrow> states_ok d \<Longrightarrow> states_ok d'"
  by (induction rule: db_step.induct)
    (simp_all add: removing_statements_states queue_statements_states location_statements_states session_statements_states
      link_statements_states record_statements_states)

lemma db_step_schema: "db_step d d' \<Longrightarrow> schema_ok d \<Longrightarrow> schema_ok d'"
proof (induction rule: db_step.induct)
  case (mark_restoring d P)
  have "file_locations_ok (files d) (storages d) (update_where P (\<lambda>l. l\<lparr>l_status := ''restoring''\<rparr>) (file_locations d))"
    using schema_okD(6) [OF mark_restoring] by (auto simp: file_locations_ok_def map_update_where table_simps)
  then show ?case by (rule schema_ok_set_leaf(3) [OF mark_restoring])
qed (simp_all add: schema_intros recover_stuck_schema fail_exhausted_schema claim_one_schema execute_bulk_delete_def
      file_reference_delete_by_file_and_project_def Let_def split: sum.split)

text \<open>
  The clock and the supply of identifiers only go forward, and every new file, location or task gets an
  identifier that was drawn for it.
\<close>

definition drawn_ids :: "db \<Rightarrow> uuid set" where
  "drawn_ids d = f_id ` set (files d) \<union> l_id ` set (file_locations d) \<union> t_id ` set (sync_tasks d)"

definition forward :: "db \<Rightarrow> db \<Rightarrow> bool" where
  "forward d d' \<longleftrightarrow> now d \<le> now d' \<and> gen d' = gen d \<and> gpos d \<le> gpos d' \<and>
     drawn_ids d' \<subseteq> drawn_ids d \<union> gen d ` {gpos d ..< gpos d'}"

lemma forward_fresh:
  assumes "forward d d'" and "supply_fresh d (drawn_ids d)"
  shows "supply_fresh d' (drawn_ids d')"
  unfolding supply_fresh_iff
proof (intro allI impI)
  fix i assume i: "gpos d' \<le> i"
  have g: "gen d' = gen d" "gpos d \<le> gpos d'" "drawn_ids d' \<subseteq> drawn_ids d \<union> gen d ` {gpos d ..< gpos d'}"
    using assms(1) by (simp_all add: forward_def)
  have f: "gen d i \<notin> drawn_ids d \<and> (\<forall>j \<ge> gpos d. gen d i = gen d j \<longrightarrow> i = j)" if "gpos d \<le> i" for i
    using assms(2) that unfolding supply_fresh_iff by blast
  have "gpos d \<le> i" using i g(2) by simp
  note f [OF this]
  moreover from this i have "gen d i \<notin> gen d ` {gpos d ..< gpos d'}" by force
  ultimately show "gen d' i \<notin> drawn_ids d' \<and> (\<forall>j \<ge> gpos d'. gen d' i = gen d' j \<longrightarrow> i = j)" using g by auto
qed

lemma catalog_statements_forward [simp]:
  "forward d (snd (project_create inp owner d))" "forward d (snd (project_update pid upi d))"
  "forward d (snd (project_delete pid d))" "forward d (snd (storage_create cs d))"
  "forward d (snd (storage_update_enabled sid b d))" "forward d (snd (storage_update sid usi d))"
  "forward d (snd (project_storage_create pid cps d))" "forward d (snd (project_storage_update pid sid ups d))"
  "forward d (snd (project_storage_delete pid sid d))" "forward d (snd (file_create_or_find cf d))"
  "forward d (snd (file_reference_create cr d))" "forward d (snd (file_reference_delete_by_file_and_project fid pid d))"
  "forward d (snd (execute_bulk_delete pid filters d))" "forward d (delete_orphan fid d)"
  by (auto simp: forward_def drawn_ids_def fresh_id_def project_create_def project_update_def project_delete_def storage_create_def
      storage_update_enabled_def storage_update_def project_storage_create_def project_storage_update_def
      project_storage_delete_def file_create_or_find_def file_create_def file_reference_create_def
      file_reference_delete_by_file_and_project_def execute_bulk_delete_def delete_orphan_def delete_file_row_def
      Let_def draw_def table_simps split: option.split sum.split prod.split)

lemma forward_refl [simp]: "forward d d"
  by (simp add: forward_def)

lemma update_sync_tasks_forward: "(\<And>t. t_id (f t) = t_id t) \<Longrightarrow> forward d (update_sync_tasks P f d)"
  by (auto simp: forward_def drawn_ids_def update_sync_tasks_def table_simps)

lemma task_statements_forward [simp]:
  "forward d (snd (sync_task_update_status tid st msg d))" "forward d (snd (sync_task_supersede_failed_for fid sid tid d))"
  "forward d (snd (sync_task_requeue_for_retry tid m d))" "forward d (recover_stuck d)" "forward d (fail_exhausted k d)"
  "forward d (snd (claim_one locked task d))"
  by (auto simp: sync_task_update_status_def sync_task_supersede_failed_for_def sync_task_requeue_for_retry_def recover_stuck_def
      fail_exhausted_def claim_one_def Let_def intro!: update_sync_tasks_forward split: option.split)

lemma location_statements_forward [simp]:
  "forward d (snd (file_location_create cl d))" "forward d (snd (file_location_update_status lid st d))"
  "forward d (snd (file_location_update_status_by_file_and_storage fid sid st d))"
  "forward d (snd (file_location_touch_accessed lid d))" "forward d (snd (sync_task_create ct d))"
  "forward d (d\<lparr>file_locations := update_where P (\<lambda>l. l\<lparr>l_status := ''restoring''\<rparr>) (file_locations d)\<rparr>)"
  by (auto simp: forward_def drawn_ids_def fresh_id_def file_location_create_def file_location_update_status_def set_location_status_def
      file_location_update_status_by_file_and_storage_def file_location_touch_accessed_def sync_task_create_def Let_def draw_def
      table_simps split: option.split)

lemma account_statements_forward [simp]:
  "forward d (snd (user_create cu d))" "forward d (snd (user_delete uid d))" "forward d (snd (user_update_role uid r d))"
  "forward d (snd (user_update_password_hash uid h d))" "forward d (snd (refresh_token_create crt d))"
  "forward d (snd (refresh_token_delete_by_user_id uid d))" "forward d (snd (refresh_token_consume_by_hash h d))"
  "forward d (snd (refresh_token_delete_by_hash h d))" "forward d (snd (refresh_token_delete_expired d))"
  "forward d (snd (user_project_create uid pid r d))" "forward d (snd (user_project_update_role uid pid r d))"
  "forward d (snd (user_project_delete uid pid d))" "forward d (snd (user_storage_create uid sid d))"
  "forward d (snd (user_storage_delete uid sid d))"
  by (auto simp: forward_def drawn_ids_def user_create_def user_delete_def user_update_role_def user_update_password_hash_def
      refresh_token_create_def refresh_token_delete_by_user_id_def refresh_token_consume_by_hash_def refresh_token_delete_by_hash_def
      refresh_token_delete_expired_def user_project_create_def user_project_update_role_def user_project_delete_def
      user_storage_create_def user_storage_delete_def Let_def draw_def split: option.split)

lemma other_statements_forward [simp]:
  "forward d (snd (shared_link_create c rnd salt csl d))" "forward d (snd (increment_download_count slid d))"
  "forward d (snd (shared_link_deactivate slid d))" "forward d (snd (shared_link_delete_by_user uid d))"
  "forward d (access_event_record ev d)" "forward d (snd (access_event_prune_older_than t d))"
  "forward d (snd (upload_session_create cus d))" "forward d (snd (upload_session_advance_offset seid o1 o2 d))"
  "forward d (snd (upload_session_mark_status seid st d))" "forward d (snd (upload_session_delete seid d))"
  "forward d (snd (upload_session_prune_terminal t d))" "forward d (snd (backup_config_create cbc d))"
  "forward d (snd (backup_config_update bcid ubc d))" "forward d (snd (backup_config_delete bcid d))"
  "forward d (snd (backup_record_create cbr d))" "forward d (snd (backup_record_mark_completed bid n path d))"
  "forward d (snd (backup_record_mark_failed bid m d))" "forward d (snd (backup_record_mark_stale_running_as_failed bcid n2 d))"
  "forward d (snd (backup_record_delete bid d))" "forward d (snd (node_register nid address d))" "forward d (snd (node_heartbeat nid d))"
  by (auto simp: forward_def drawn_ids_def shared_link_create_def increment_download_count_def shared_link_deactivate_def
      shared_link_delete_by_user_def access_event_record_def access_event_prune_older_than_def upload_session_create_def
      upload_session_advance_offset_def upload_session_mark_status_def upload_session_delete_def upload_session_prune_terminal_def
      backup_config_create_def backup_config_update_def backup_config_delete_def backup_record_create_def
      backup_record_mark_completed_def backup_record_mark_failed_def backup_record_mark_stale_running_as_failed_def
      update_record_def backup_record_delete_def node_register_def node_heartbeat_def Let_def draw_def
      split: option.split sum.split)

lemma db_step_forward: "db_step d d' \<Longrightarrow> forward d d'"
  by (induction rule: db_step.induct) (simp_all add: forward_def [of d "d\<lparr>now := t\<rparr>" for d t] drawn_ids_def)

section \<open>Operations are sequences of statements\<close>

text \<open>
  Every rule has the form: what is reached before an operation reaches its result. With the case splits of
  an operation its statements then follow one after the other.
\<close>

subsection \<open>Contents\<close>

lemma schedule_syncs_runs [operation_runs]: "runs a d \<Longrightarrow> runs a (snd (schedule_syncs reg fid src pid ex ss d))"
  by (induction ss arbitrary: d) (simp_all add: schedule_syncs_snd statement_runs del: schedule_syncs.simps(2))

lemma create_primary_location_runs [operation_runs]: "runs a d \<Longrightarrow> runs a (snd (create_primary_location fid sid path d))"
  by (simp add: create_primary_location_def split_beta location_states_def statement_runs split: sum.split app_error.split)

lemma record_references_and_sync_runs [operation_runs]:
  "runs a d \<Longrightarrow> runs a (snd (record_references_and_sync reg pid fl is_new primary name meta ss d))"
  by (simp add: record_references_and_sync_def split_beta Let_def operation_runs statement_runs split: sum.split)

lemma upload_file_runs [operation_runs]: "runs a d \<Longrightarrow> runs a (fst (snd (upload_file x secret reg pid name ct data meta d w)))"
  by (simp add: upload_file_def split_beta Let_def operation_runs statement_runs split: sum.split)

lemma finalize_upload_runs [operation_runs]:
  "runs a d \<Longrightarrow> runs a (fst (snd (finalize_upload x ro secret reg pid name ct temp meta d w)))"
  by (simp add: finalize_upload_def split_beta Let_def operation_runs statement_runs split: sum.split)

lemma download_file_runs [operation_runs]: "runs a d \<Longrightarrow> runs a (fst (snd (download_file x secret reg fid d w)))"
  by (simp add: download_file_def split_beta Let_def statement_runs split: sum.split option.split)

subsection \<open>Workers\<close>

lemma record_synced_location_runs [operation_runs]: "runs a d \<Longrightarrow> runs a (snd (record_synced_location task sp d))"
  by (simp add: record_synced_location_def split_beta Let_def location_states_def statement_runs split: sum.split app_error.split)

lemma push_to_target_runs [operation_runs]: "runs a d \<Longrightarrow> runs a (fst (snd (push_to_target x c reg task sp temp d w)))"
  by (simp add: push_to_target_def split_beta Let_def operation_runs split: sum.split option.split)

lemma finalize_task_runs [operation_runs]: "runs a d \<Longrightarrow> runs a (fst (snd (finalize_task x c reg task sp temp d w)))"
  by (simp add: finalize_task_def split_beta Let_def sync_task_release_lock_def task_states_def operation_runs statement_runs
      split: sum.split option.split)

lemma finalize_all_runs [operation_runs]: "runs a d \<Longrightarrow> runs a (fst (snd (finalize_all x c reg ts sp temp d w)))"
  by (induction ts arbitrary: d w) (simp_all add: split_beta operation_runs split: bool.split)

lemma fail_all_runs [operation_runs]: "runs a d \<Longrightarrow> runs a (fail_all ts msg d)"
  unfolding fail_all_def by (induction ts arbitrary: d) (simp_all add: sync_task_release_lock_def statement_runs)

lemma process_batch_runs [operation_runs]: "runs a d \<Longrightarrow> runs a (fst (snd (process_batch x c reg ts d w)))"
  by (cases ts) (simp_all add: process_batch_def split_beta Let_def operation_runs split: sum.split option.split bool.split)

lemma process_groups_runs [operation_runs]: "runs a d \<Longrightarrow> runs a (fst (snd (process_groups x c reg gs d w)))"
  by (induction gs arbitrary: d w) (simp_all add: split_beta operation_runs split: bool.split)

lemma claim_all_runs [operation_runs]: "runs a d \<Longrightarrow> runs a (snd (claim_all locked ts d))"
  by (induction ts arbitrary: d) (simp_all add: split_beta Let_def statement_runs split: option.split)

lemma claim_pending_runs [operation_runs]: "runs a d \<Longrightarrow> runs a (snd (sync_task_claim_pending locked n k d))"
  by (simp add: sync_task_claim_pending_def Let_def operation_runs statement_runs)

lemma poll_runs [operation_runs]: "runs a d \<Longrightarrow> runs a (fst (snd (snd (poll_and_process x c reg locked d w))))"
  by (simp add: poll_and_process_def split_beta Let_def operation_runs)

lemma archive_loop_runs [operation_runs]: "runs a d \<Longrightarrow> runs a (snd (archive_loop reg fs d))"
  by (induction fs arbitrary: d) (simp_all add: split_beta Let_def statement_runs split: sum.split option.split)

lemma archive_hot_runs [operation_runs]: "runs a d \<Longrightarrow> runs a (snd (archive_hot ls d))"
  by (induction ls arbitrary: d) (simp_all add: split_beta Let_def location_states_def statement_runs split: sum.split)

lemma scan_and_archive_runs [operation_runs]: "runs a d \<Longrightarrow> runs a (scan_and_archive reg d)"
  by (simp add: scan_and_archive_def process_completed_archives_def create_archive_tasks_def operation_runs)

lemma mark_restoring_runs [operation_runs]:
  "runs a d \<Longrightarrow> file_locations d = ls \<Longrightarrow>
     runs a (d\<lparr>file_locations := update_where P (\<lambda>l. l\<lparr>l_status := ''restoring''\<rparr>) ls\<rparr>)"
  using mark_restoring [THEN runs_step] by metis

lemma restore_file_runs [operation_runs]: "runs a d \<Longrightarrow> runs a (snd (restore_file fid d))"
  by (simp add: restore_file_def split_beta Let_def statement_runs operation_runs split: sum.split option.split)

lemma sync_all_loop_runs [operation_runs]: "runs a d \<Longrightarrow> runs a (snd (sync_all_loop target fids d))"
  by (induction fids arbitrary: d) (simp_all add: split_beta Let_def statement_runs split: sum.split option.split)

lemma sync_all_runs [operation_runs]: "runs a d \<Longrightarrow> runs a (snd (sync_all target d))"
  by (simp add: sync_all_def split_beta Let_def operation_runs split: sum.split)

lemma delete_orphans_runs [operation_runs]: "runs a d \<Longrightarrow> runs a (fold delete_orphan ids d)"
  by (induction ids arbitrary: d) (simp_all add: statement_runs)

lemma bulk_delete_runs [operation_runs]: "runs a d \<Longrightarrow> runs a (fst (snd (bulk_delete x reg pid filters d w)))"
  by (simp add: bulk_delete_def split_beta Let_def operation_runs statement_runs split: sum.split)

subsection \<open>Handlers\<close>

lemma with_admin_runs:
  "runs a d \<Longrightarrow> (\<And>d. runs a d \<Longrightarrow> runs a (snd (h d))) \<Longrightarrow> runs a (snd (with_admin admin h d))"
  by (simp add: with_admin_def split: sum.split)

lemma with_admin_pair_runs:
  "runs a (fst s) \<Longrightarrow> (\<And>s. runs a (fst s) \<Longrightarrow> runs a (fst (snd (h s)))) \<Longrightarrow> runs a (fst (snd (with_admin admin h s)))"
  by (simp add: with_admin_def split: sum.split)

lemma as_owner_runs: "runs a d \<Longrightarrow> (\<And>d. runs a d \<Longrightarrow> runs a (snd (act d))) \<Longrightarrow> runs a (snd (as_owner u pid act d))"
  by (simp add: as_owner_def split: sum.split)

lemma project_requests_run [operation_runs]:
  assumes "runs a d"
  shows "runs a (snd (api_create_project u inp d))" and "runs a (snd (api_update_project u pid upi d))"
    and "runs a (snd (api_delete_project u pid d))" and "runs a (snd (assign_storage u pid cps d))"
    and "runs a (snd (update_project_storage u pid sid ups d))" and "runs a (snd (remove_storage_assignment u pid sid d))"
  using assms
  by (auto simp: api_create_project_def api_update_project_def api_delete_project_def assign_storage_def
      update_project_storage_def remove_storage_assignment_def intro!: as_owner_runs statement_runs split: sum.split)

lemma member_requests_run [operation_runs]:
  assumes "runs a d"
  shows "runs a (snd (add_project_member admin pid uid r d))" and "runs a (snd (update_project_member admin pid uid role d))"
    and "runs a (snd (remove_project_member admin pid uid d))" and "runs a (snd (add_storage_member admin sid uid d))"
    and "runs a (snd (remove_storage_member admin sid uid d))" and "runs a (snd (api_sync_all admin sid d))"
  using assms
  by (auto simp: add_project_member_def update_project_member_def remove_project_member_def add_storage_member_def
      remove_storage_member_def api_sync_all_def validate_member_role_def member_roles_def Let_def
      intro!: with_admin_runs statement_runs operation_runs split: sum.split if_splits)

lemma storage_requests_run [operation_runs]:
  assumes "runs a (fst s)"
  shows "runs a (fst (snd (api_create_storage admin x m secret cs s)))" and "runs a (fst (snd (update_storage admin x secret sid usi s)))"
    and "runs a (fst (snd (disable_storage admin sid s)))"
  using assms
  by (auto simp: api_create_storage_def update_storage_def disable_storage_def split_beta
      intro!: with_admin_pair_runs statement_runs split: sum.split)

lemma revoke_tokens_runs [operation_runs]:
  "runs a d \<Longrightarrow> refresh_tokens d = ts \<Longrightarrow> runs a (d\<lparr>refresh_tokens := delete_where (\<lambda>t. rt_user_id t = uid) ts\<rparr>)"
  using revoke_tokens [THEN runs_step, of a d uid] by (simp add: refresh_token_delete_by_user_id_def)

lemma issue_tokens_runs [operation_runs]: "runs a d \<Longrightarrow> runs a (snd (issue_tokens c s rnd u d))"
  by (simp add: issue_tokens_def split_beta Let_def statement_runs split: sum.split)

lemma apply_user_update_runs [operation_runs]: "runs a d \<Longrightarrow> runs a (snd (apply_user_update uid role h u d))"
  by (cases role; cases h) (simp_all add: apply_user_update_def split_beta Let_def statement_runs operation_runs split: sum.split)

lemma account_requests_run [operation_runs]:
  assumes "runs a d"
  shows "runs a (snd (login c s rnd n pw d))" and "runs a (snd (refresh c s rnd token d))" and "runs a (snd (logout c token d))"
    and "runs a (snd (create_user c salt body d))" and "runs a (snd (delete_user admin uid d))"
    and "runs a (snd (update_user c salt admin uid ubody d))"
  using assms
  by (simp_all add: login_def refresh_def logout_def create_user_def delete_user_def update_user_def split_beta Let_def
      statement_runs operation_runs split: sum.split option.split app_error.split)

lemma link_requests_run [operation_runs]:
  assumes "runs a d"
  shows "runs a (snd (create_shared_link c rnd salt u pid body d))" and "runs a (snd (deactivate_shared_link u slid d))"
    and "runs a (fst (snd (public_download x c s reg token dl d w)))"
  using assms
  by (simp_all add: create_shared_link_def create_link_def deactivate_shared_link_def deactivate_link_def public_download_def
      download_via_link_def finish_download_def split_beta Let_def statement_runs split: sum.split option.split list.split)

lemma complete_upload_runs [operation_runs]: "runs a d \<Longrightarrow> runs a (fst (snd (complete_upload x ro secret reg s d w)))"
  by (simp add: complete_upload_def split_beta Let_def session_states_def statement_runs operation_runs split: sum.split)

lemma resumable_requests_run [operation_runs]:
  assumes "runs a d"
  shows "runs a (fst (snd (upload_create x from_str cfg new_id u pid lh mh d w)))"
    and "runs a (fst (snd (upload_patch x ro secret reg u seid oh payload d w)))"
    and "runs a (fst (snd (upload_terminate u seid d w)))"
  using assms
  by (simp_all add: upload_create_def upload_patch_def upload_terminate_def split_beta Let_def statement_runs operation_runs
      split: sum.split option.split)

lemma sweep_expired_runs [operation_runs]: "runs a d \<Longrightarrow> runs a (fst (sweep_expired d f))"
proof -
  assume "runs a d"
  then have "runs a (fst (fold (\<lambda>s (d, f). (snd (upload_session_mark_status (up_sess_id s) ''aborted'' d),
      remove_file (components (up_sess_temp_path s)) f)) ss (d, f)))" for ss
    by (induction ss arbitrary: d f) (simp_all add: session_states_def statement_runs)
  then show ?thesis by (simp add: sweep_expired_def)
qed

lemma sweep_runs [operation_runs]: "runs a d \<Longrightarrow> runs a (fst (sweep c cw locked d f))"
  by (simp add: sweep_def cleanup_prune_terminal_def prune_access_events_def split_beta Let_def statement_runs operation_runs
      split: option.split)

lemma collect_links_runs [operation_runs]:
  "runs a d \<Longrightarrow> runs a (fst (snd (collect_links x secret reg refs n direct flt name ls d w)))"
  by (induction ls arbitrary: d w direct flt) (simp_all add: split_beta statement_runs split: sum.split option.split)

lemma generate_temp_links_runs [operation_runs]:
  "runs a d \<Longrightarrow> runs a (fst (snd (generate_temp_links x secret reg fid n direct flt d w)))"
  by (simp add: generate_temp_links_def split_beta Let_def operation_runs split: sum.split list.split)

lemma archive_entries_runs [operation_runs]:
  "runs a d \<Longrightarrow> runs a (fst (snd (archive_entries x t secret reg u pid rs seen ar d w)))"
  by (induction rs arbitrary: seen ar d w) (simp_all add: split_beta Let_def statement_runs operation_runs split: sum.split)

lemma file_requests_run [operation_runs]:
  assumes "runs a d"
  shows "runs a (fst (snd (api_upload_file x from_str secret reg u pid payload d w)))"
    and "runs a (fst (snd (api_download_file x secret reg u fid d w)))"
    and "runs a (fst (snd (get_temp_link x secret reg u fid q d w)))"
    and "runs a (snd (delete_file_reference u fid pid d))" and "runs a (snd (api_restore_file u fid d))"
    and "runs a (snd (force_sync_to_storage u fid target pid d))"
    and "runs a (fst (snd (bulk_download x t fmt secret reg u pid msq d w)))"
    and "runs a (fst (snd (api_bulk_delete x reg u pid filters d w)))"
    and "runs a (snd (download_local_temp x secret reg path expires sig d w))"
  using assms
  by (simp_all add: api_upload_file_def api_download_file_def get_temp_link_def delete_file_reference_def api_restore_file_def
      force_sync_to_storage_def bulk_download_def api_bulk_delete_def download_local_temp_def split_beta Let_def
      statement_runs operation_runs split: sum.split option.split)

lemma delete_loop_runs [operation_runs]: "runs a d \<Longrightarrow> runs a (fst (snd (delete_loop skip x reg bs n d w)))"
  by (induction bs arbitrary: n d w) (simp_all add: split_beta Let_def statement_runs split: sum.split)

lemma execute_backup_runs [operation_runs]:
  "runs a d \<Longrightarrow> runs a (fst (snd (execute_backup_and_update x de m svc reg rid path sid d w)))"
  by (simp add: execute_backup_and_update_def split_beta Let_def statement_runs split: sum.split)

lemma create_backup_runs [operation_runs]:
  "runs a d \<Longrightarrow> runs a (fst (snd (create_backup x de m fmt svc reg nid cid cname sid path d w)))"
  by (simp add: create_backup_def record_early_failure_def split_beta Let_def statement_runs operation_runs split: sum.split)

lemma is_backup_due_runs [operation_runs]: "runs a d \<Longrightarrow> runs a (snd (is_backup_due cron expr cid t d))"
  by (simp add: is_backup_due_def split_beta Let_def statement_runs split: sum.split option.split)

lemma process_config_runs [operation_runs]:
  "runs a d \<Longrightarrow> runs a (fst (snd (process_config x de m fmt cron svc reg nid locked bc d w)))"
  by (simp add: process_config_def cleanup_old_backups_def split_beta Let_def statement_runs operation_runs
      split: sum.split bool.split)

lemma process_configs_runs [operation_runs]:
  "runs a d \<Longrightarrow> runs a (fst (process_configs x de m fmt cron svc reg nid locked cs d w))"
  by (induction cs arbitrary: d w) (simp_all add: split_beta Let_def operation_runs)

lemma run_triggered_runs [operation_runs]: "runs a d \<Longrightarrow> runs a (fst (run_triggered x de m svc reg lock b d w))"
  by (simp add: run_triggered_def cleanup_old_backups_def split_beta Let_def statement_runs operation_runs
      split: sum.split option.split bool.split)

lemma backup_requests_run [operation_runs]:
  assumes "runs a d"
  shows "runs a (snd (create_backup_config_ep admin cron body d))" and "runs a (snd (update_backup_config admin cron cid ubody d))"
    and "runs a (fst (snd (delete_backup_config admin x reg cid del (d, w))))"
    and "runs a (snd (trigger_backup admin fmt reg nid tbody d))"
    and "runs a (fst (snd (api_delete_backup admin x reg bid (d, w))))"
  using assms
  by (auto simp: create_backup_config_ep_def update_backup_config_def delete_backup_config_def trigger_backup_def
      api_delete_backup_def delete_backup_def delete_all_backups_for_config_def split_beta Let_def
      intro!: with_admin_runs with_admin_pair_runs statement_runs operation_runs split: sum.split option.split prod.split app_error.split)

lemma system_steps_run [operation_runs]:
  assumes "runs a d"
  shows "runs a (heartbeat_tick nid d)" and "startup x c salt config nid address d = Some (d', reg) \<Longrightarrow> runs a d'"
  using assms
  by (auto simp: heartbeat_tick_def startup_def seed_admin_def split_beta Let_def intro!: statement_runs
      split: if_splits sum.splits option.splits prod.splits)

section \<open>Requests and workers\<close>

text \<open>
  One step of the server on the database and the storages. The registry is free in every rule: any number
  of processes may serve the requests, each with a registry of its own. What the libraries answer is fixed by
  \<open>x\<close> (backends and hashes), \<open>de\<close> (\<open>pg_dump\<close> and the compressor) and \<open>tr\<close> (the archive library) or free.
\<close>

inductive request :: "'w env \<Rightarrow> 'g dump_env \<Rightarrow> 't tar \<Rightarrow> db \<times> 'w phys \<Rightarrow> db \<times> 'w phys \<Rightarrow> bool"
  for x :: "'w env" and de :: "'g dump_env" and tr :: "'t tar" where
  clock: "now d \<le> t \<Longrightarrow> request x de tr (d, w) (d\<lparr>now := t\<rparr>, w)"
| starting: "startup x c salt config nid address d = Some (d', reg) \<Longrightarrow> request x de tr (d, w) (d', w)"
| heartbeat: "request x de tr (d, w) (heartbeat_tick nid d, w)"
| login: "request x de tr (d, w) (snd (login c s rnd n pw d), w)"
| refresh: "request x de tr (d, w) (snd (refresh c s rnd token d), w)"
| logout: "request x de tr (d, w) (snd (logout c token d), w)"
| user_post: "request x de tr (d, w) (snd (create_user c salt body d), w)"
| user_delete: "request x de tr (d, w) (snd (delete_user admin_id uid d), w)"
| user_put: "request x de tr (d, w) (snd (update_user c salt admin_id uid ubody d), w)"
| project_post: "request x de tr (d, w) (snd (api_create_project u inp d), w)"
| project_put: "request x de tr (d, w) (snd (api_update_project u pid upi d), w)"
| project_delete: "request x de tr (d, w) (snd (api_delete_project u pid d), w)"
| project_storage_post: "request x de tr (d, w) (snd (assign_storage u pid cps d), w)"
| project_storage_put: "request x de tr (d, w) (snd (update_project_storage u pid sid ups d), w)"
| project_storage_delete: "request x de tr (d, w) (snd (remove_storage_assignment u pid sid d), w)"
| project_member_post: "request x de tr (d, w) (snd (add_project_member admin pid uid r d), w)"
| project_member_put: "request x de tr (d, w) (snd (update_project_member admin pid uid role d), w)"
| project_member_delete: "request x de tr (d, w) (snd (remove_project_member admin pid uid d), w)"
| storage_post: "request x de tr (d, w) (fst (snd (api_create_storage admin x m secret cs (d, reg))), w)"
| storage_put: "request x de tr (d, w) (fst (snd (update_storage admin x secret sid usi (d, reg))), w)"
| storage_disable: "request x de tr (d, w) (fst (snd (disable_storage admin sid (d, reg))), w)"
| storage_container: "request x de tr (d, w) (snd (create_storage_container admin x reg sid name (d, w)))"
| storage_member_post: "request x de tr (d, w) (snd (add_storage_member admin sid uid d), w)"
| storage_member_delete: "request x de tr (d, w) (snd (remove_storage_member admin sid uid d), w)"
| storage_sync_all: "request x de tr (d, w) (snd (api_sync_all admin sid d), w)"
| file_post: "request x de tr (d, w) (snd (api_upload_file x from_str secret reg u pid payload d w))"
| file_get: "request x de tr (d, w) (snd (api_download_file x secret reg u fid d w))"
| file_link: "request x de tr (d, w) (snd (get_temp_link x secret reg u fid q d w))"
| file_local: "request x de tr (d, w) (snd (download_local_temp x secret reg path expires sig d w), w)"
| file_delete: "request x de tr (d, w) (snd (delete_file_reference u fid pid d), w)"
| file_restore: "request x de tr (d, w) (snd (api_restore_file u fid d), w)"
| file_sync: "request x de tr (d, w) (snd (force_sync_to_storage u fid target pid d), w)"
| files_archive: "request x de tr (d, w) (snd (bulk_download x tr fmt secret reg u pid msq d w))"
| files_delete: "request x de tr (d, w) (snd (api_bulk_delete x reg u pid filters d w))"
| upload_post: "request x de tr (d, w) (snd (upload_create x from_str cfg new_id u pid lh mh d w))"
| upload_chunk: "request x de tr (d, w) (snd (upload_patch x ro secret reg u seid oh chunks d w))"
| upload_delete: "request x de tr (d, w) (snd (upload_terminate u seid d w))"
| link_post: "request x de tr (d, w) (snd (create_shared_link c rnd salt u pid lbody d), w)"
| link_deactivate: "request x de tr (d, w) (snd (deactivate_shared_link u slid d), w)"
| link_download: "request x de tr (d, w) (snd (public_download x c ls reg token dl d w))"
| backup_config_post: "request x de tr (d, w) (snd (create_backup_config_ep admin cron cbc d), w)"
| backup_config_put: "request x de tr (d, w) (snd (update_backup_config admin cron cid ubc d), w)"
| backup_config_delete: "request x de tr (d, w) (snd (delete_backup_config admin x reg cid del (d, w)))"
| backup_trigger: "request x de tr (d, w) (snd (trigger_backup admin fmt reg nid2 tbody d), w)"
| backup_task: "request x de tr (d, w) (run_triggered x de m svc reg lock b d w)"
| backup_delete: "request x de tr (d, w) (snd (api_delete_backup admin x reg bid (d, w)))"
| backup_round: "request x de tr (d, w) (check_and_run_backups x de m fmt cron svc reg ids locked d w)"
| sync_round: "request x de tr (d, w) (snd (snd (poll_and_process x c2 reg locked d w)))"
| tier_round: "request x de tr (d, w) (scan_and_archive reg d, w)"
| cleanup_round: "sweep c cw locked2 d (ph_fs w) = (d', f) \<Longrightarrow> request x de tr (d, w) (d', w\<lparr>ph_fs := f\<rparr>)"

lemma container_runs [operation_runs]: "runs a d \<Longrightarrow> runs a (fst (snd (create_storage_container admin x reg sid name (d, w))))"
  by (auto simp: create_storage_container_def with_admin_def split_beta split: sum.split)

lemma request_runs: "request x de tr s s' \<Longrightarrow> runs (fst s) (fst s')"
proof (induction rule: request.induct)
  case (clock d t w)
  then show ?case by (simp add: r_into_rtranclp time_passes)
next
  case (starting c salt config nid address d d' reg w)
  then show ?case by (simp add: system_steps_run(2) [OF rtranclp.rtrancl_refl])
next
  case (cleanup_round c cw locked2 d w d' f)
  then show ?case using sweep_runs [OF rtranclp.rtrancl_refl, of d c cw locked2 "ph_fs w"] by simp
qed (simp_all add: operation_runs check_and_run_backups_def)

lemma requests_run: "(request x de tr)\<^sup>*\<^sup>* s s' \<Longrightarrow> runs (fst s) (fst s')"
  by (induction rule: rtranclp_induct) (auto dest: request_runs)

lemma runs_schema: "runs d d' \<Longrightarrow> schema_ok d \<Longrightarrow> schema_ok d'"
  by (induction rule: rtranclp_induct) (auto dest: db_step_schema)

lemma runs_states: "runs d d' \<Longrightarrow> states_ok d \<Longrightarrow> states_ok d'"
  by (induction rule: rtranclp_induct) (auto dest: db_step_states)

lemma runs_fresh: "runs d d' \<Longrightarrow> supply_fresh d (drawn_ids d) \<Longrightarrow> supply_fresh d' (drawn_ids d')"
  by (induction rule: rtranclp_induct) (auto dest: db_step_forward intro: forward_fresh)

lemma runs_clock: "runs d d' \<Longrightarrow> now d \<le> now d'"
  by (induction rule: rtranclp_induct) (auto dest: db_step_forward simp: forward_def)

lemma empty_db_ok: "inj g \<Longrightarrow> schema_ok (empty_db t g) \<and> states_ok (empty_db t g) \<and> supply_fresh (empty_db t g) (drawn_ids (empty_db t g))"
  using schema_ok_empty [of t g] by (auto simp: states_ok_def supply_fresh_def drawn_ids_def empty_db_def inj_on_def inj_def)

section \<open>A first history\<close>

text \<open>A fresh installation: start-up, a project, a storage, its assignment and an upload.\<close>

definition plain_crypto :: crypto where
  "plain_crypto = \<lparr>cx_hash_password = (\<lambda>salt pw. Inr (''h'' @ pw)), cx_parse_hash = (\<lambda>h. True), cx_verify = (\<lambda>pw h. h = ''h'' @ pw),
     cx_jwt_encode = (\<lambda>k j. Inr []), cx_jwt_decode = (\<lambda>k lw t tok. Inl []), cx_sha256 = (\<lambda>b. b), cx_parse_uuid = (\<lambda>s. None),
     cx_b64url = (\<lambda>b. [])\<rparr>"

definition demo_admin :: authenticated_user where
  "demo_admin = \<lparr>au_user_id = 1, au_role = ''admin''\<rparr>"

definition demo_started :: db where
  "demo_started = (empty_db 0 Suc)\<lparr>gpos := 2,
     users := [\<lparr>u_id = 1, u_username = ''admin'', u_password_hash = ''hInnovare2026!'', u_role = ''admin'', u_created_at = 0, u_updated_at = 0\<rparr>],
     nodes := [\<lparr>n_id = 2, n_node_id = ''n'', n_address = ''a'', n_started_at = 0, n_last_heartbeat = 0, n_created_at = 0\<rparr>]\<rparr>"

definition demo_with_project :: db where
  "demo_with_project = snd (api_create_project demo_admin \<lparr>cp_name = ''P'', cp_slug = ''p'', cp_hot_to_cold_days = None\<rparr> demo_started)"

definition demo_storage_post :: "storage app_result \<times> db \<times> registry" where
  "demo_storage_post = api_create_storage (Inr 1) demo_env (\<lambda>_. []) ''k'' demo_create_storage (demo_with_project, Map.empty)"

definition demo_assigned :: db where
  "demo_assigned = snd (assign_storage demo_admin 3
     \<lparr>cps_storage_id = 4, cps_container_override = None, cps_prefix_override = None\<rparr> (fst (snd demo_storage_post)))"

definition demo_payload :: "(string + multipart_field) list" where
  "demo_payload = [Inr \<lparr>mf_name = Some ''file'', mf_content_type = None, mf_filename = Some ''a'', mf_chunks = [Inr [1, 2, 3]]\<rparr>]"

definition demo_uploaded :: "upload_result app_result \<times> db \<times> unit phys" where
  "demo_uploaded = api_upload_file demo_env (\<lambda>_. Inl []) ''k'' (snd (snd demo_storage_post)) demo_admin 3 demo_payload
     demo_assigned demo_phys"

lemma demo_startup: "\<exists>reg. startup demo_env plain_crypto [] (demo_config ''s'') ''n'' ''a'' (empty_db 0 Suc) = Some (demo_started, reg)"
  by (simp add: startup_def seed_admin_def user_count_def empty_db_def hash_password_def plain_crypto_def demo_config_def
      default_auth_def user_create_def fresh_id_def draw_def node_register_def demo_started_def Let_def)

lemma demo_uploaded_rows: "length (file_locations (fst (snd demo_uploaded))) = 1"
  by code_simp

lemma demo_history:
  "(request demo_env demo_dump_env demo_tar)\<^sup>*\<^sup>* (empty_db 0 Suc, demo_phys) (snd demo_uploaded)"
proof -
  let ?R = "request demo_env demo_dump_env demo_tar"
  obtain reg where "startup demo_env plain_crypto [] (demo_config ''s'') ''n'' ''a'' (empty_db 0 Suc) = Some (demo_started, reg)"
    using demo_startup by blast
  then have 1: "?R (empty_db 0 Suc, demo_phys) (demo_started, demo_phys)" by (rule starting)
  have 2: "?R (demo_started, demo_phys) (demo_with_project, demo_phys)" unfolding demo_with_project_def by (rule project_post)
  have 3: "?R (demo_with_project, demo_phys) (fst (snd demo_storage_post), demo_phys)"
    unfolding demo_storage_post_def by (rule storage_post)
  have 4: "?R (fst (snd demo_storage_post), demo_phys) (demo_assigned, demo_phys)"
    unfolding demo_assigned_def by (rule project_storage_post)
  have 5: "?R (demo_assigned, demo_phys) (snd demo_uploaded)" unfolding demo_uploaded_def by (rule file_post)
  from 1 2 3 4 5 show ?thesis by (meson converse_rtranclp_into_rtranclp rtranclp.rtrancl_refl)
qed

end
