(* ===== verification/Wiring.thy ===== *)
theory Wiring
  imports Service
begin

text \<open>
  How \<open>main\<close> (\<open>src/main.rs\<close>) builds the services and the workers of one instance from its configuration, and the
  name under which the instance registers. A shared pool, registry or cancellation token is not a field: the
  model passes the database and the registry explicitly. \<open>temp_dir\<close>, \<open>rename_ok\<close> and \<open>db_msg\<close> of a sync worker
  are facts about the host.

  Shown: the instance starts exactly the configured workers, the links' tokens are signed with a key
  of their own, and what it starts with is a step of the server as a whole.
\<close>

section \<open>Constructors\<close>

definition auth_service_new :: "auth_config \<Rightarrow> auth_service" where
  "auth_service_new a = \<lparr>as_jwt_secret = ac_jwt_secret a, as_access_token_ttl_secs = int (ac_access_token_ttl_secs a),
     as_refresh_token_ttl_secs = int (ac_refresh_token_ttl_secs a)\<rparr>"

definition link_service_new :: "string \<Rightarrow> string \<Rightarrow> link_service" where
  "link_service_new jwt_secret hmac_secret = \<lparr>lk_jwt_secret = jwt_secret, lk_hmac_secret = hmac_secret\<rparr>"

definition backup_service_new :: "string \<Rightarrow> string option \<Rightarrow> backup_service" where
  "backup_service_new database_url temp_dir = \<lparr>bk_database_url = database_url, bk_temp_dir = temp_dir\<rparr>"

definition sync_worker_new :: "path \<Rightarrow> bool \<Rightarrow> (db_error \<Rightarrow> string) \<Rightarrow> sync_config \<Rightarrow> string \<Rightarrow> sync_cfg" where
  "sync_worker_new temp_dir rename_ok db_msg config hmac_secret =
     \<lparr>sw_max_retries = snc_max_retries config, sw_temp_dir = temp_dir, sw_secret = hmac_secret,
      sw_rename_ok = rename_ok, sw_db_msg = db_msg\<rparr>"

definition spawn_workers :: "path \<Rightarrow> bool \<Rightarrow> (db_error \<Rightarrow> string) \<Rightarrow> sync_config \<Rightarrow> string \<Rightarrow> sync_cfg list" where
  "spawn_workers temp_dir rename_ok db_msg config hmac_secret =
     map (\<lambda>worker_id. sync_worker_new temp_dir rename_ok db_msg config hmac_secret) [0..<snc_num_workers config]"

section \<open>The services and the workers of an instance\<close>

record services =
  in_auth :: auth_service
  in_file_secret :: string
  in_link :: link_service
  in_backup :: backup_service

definition services_of :: "app_config \<Rightarrow> services" where
  "services_of config =
     \<lparr>in_auth = auth_service_new (cfg_auth config),
      in_file_secret = stc_hmac_secret (cfg_storage config),
      in_link = link_service_new (ac_jwt_secret (cfg_auth config)) (stc_hmac_secret (cfg_storage config)),
      in_backup = backup_service_new (dbc_url (cfg_database config))
        (if bwc_temp_dir (cfg_backup config) = [] then None else Some (bwc_temp_dir (cfg_backup config)))\<rparr>"

text \<open>A background task, with the seconds between its rounds.\<close>

datatype worker =
  Sync_Loop sync_cfg nat
| Tier_Loop nat
| Backup_Loop backup_service nat
| Cleanup_Loop cleanup_worker nat
| Heartbeat_Loop nat

definition spawned :: "path \<Rightarrow> bool \<Rightarrow> (db_error \<Rightarrow> string) \<Rightarrow> app_config \<Rightarrow> worker list" where
  "spawned temp_dir rename_ok db_msg config =
     map (\<lambda>cfg. Sync_Loop cfg (snc_poll_interval_secs (cfg_sync config)))
       (spawn_workers temp_dir rename_ok db_msg (cfg_sync config) (stc_hmac_secret (cfg_storage config))) @
     [Tier_Loop (snc_tier_scan_interval_secs (cfg_sync config))] @
     (if bwc_enabled (cfg_backup config)
      then [Backup_Loop (in_backup (services_of config)) (bwc_check_interval_secs (cfg_backup config))] else []) @
     [Cleanup_Loop (cleanup_new (stc_local_temp_path (cfg_storage config)) (int (ucs_session_ttl_secs (cfg_upload config)))
        (int (dsc_events_retention_days (cfg_dashboard config)))) (max (ucs_cleanup_interval_secs (cfg_upload config)) 60)] @
     [Heartbeat_Loop 30]"

section \<open>The name of the instance\<close>

definition new_node_id :: "uuid \<Rightarrow> string" where
  "new_node_id v4 = ''node-'' @ unwrap_or ''unknown'' (head_opt (split_on (CHR ''-'') (uuid_str v4)))"

definition node_address :: "server_config \<Rightarrow> string" where
  "node_address s = srv_host s @ '':'' @ nat_str (srv_port s)"

text \<open>The start of an instance: the registry, the administrator, then the row of the node.\<close>

definition start_instance :: "'w env \<Rightarrow> crypto \<Rightarrow> bytes \<Rightarrow> uuid \<Rightarrow> app_config \<Rightarrow> db \<Rightarrow> (db \<times> registry) option" where
  "start_instance x c salt v4 config d = startup x c salt config (new_node_id v4) (node_address (cfg_server config)) d"

section \<open>What an instance starts with\<close>

text \<open>The first group of a v4 identifier is its first eight hexadecimal digits; the default never applies.\<close>

lemma split_on_first: "c \<notin> set xs \<Longrightarrow> split_on c (xs @ c # ys) = xs # split_on c ys"
  by (induction xs) auto

lemma new_node_id_digits: "new_node_id v4 = ''node-'' @ take 8 (hex_digits 32 v4)"
proof -
  have "CHR ''-'' \<notin> set (take 8 (hex_digits 32 v4))"
    using hex_digits_no_punctuation by (fastforce dest: in_set_takeD)
  from split_on_first [OF this] show ?thesis
    by (simp add: new_node_id_def uuid_str_def Let_def head_opt_def unwrap_or_def)
qed

lemma spawned_sync_workers:
  "length (filter (\<lambda>w. case w of Sync_Loop cfg n \<Rightarrow> True | _ \<Rightarrow> False) (spawned temp_dir rename_ok db_msg config)) =
     snc_num_workers (cfg_sync config)"
  by (simp add: spawned_def spawn_workers_def comp_def filter_map)

lemma spawned_backup_worker:
  "(\<exists>svc n. Backup_Loop svc n \<in> set (spawned temp_dir rename_ok db_msg config)) \<longleftrightarrow> bwc_enabled (cfg_backup config)"
  by (auto simp: spawned_def spawn_workers_def)

text \<open>Neither a short interval nor a short lifetime makes the clean-up worker spin or drop fresh sessions.\<close>

lemma spawned_cleanup_floor:
  "Cleanup_Loop cw n \<in> set (spawned temp_dir rename_ok db_msg config) \<Longrightarrow> 60 \<le> n \<and> secs 60 \<le> cw_ttl cw"
  by (auto simp: spawned_def spawn_workers_def cleanup_new_def secs_def split: if_splits)

text \<open>The key of the download tokens is not the key of the access tokens, so a law of the codec separates them.\<close>

lemma token_keys_differ: "dl_key (in_link (services_of config)) \<noteq> as_jwt_secret (in_auth (services_of config))"
  by (simp add: services_of_def link_service_new_def auth_service_new_def dl_key_def)

lemma services_share_secret:
  "sw_secret (sync_worker_new temp_dir rename_ok db_msg (cfg_sync config) (stc_hmac_secret (cfg_storage config))) =
     in_file_secret (services_of config)"
  "lk_hmac_secret (in_link (services_of config)) = in_file_secret (services_of config)"
  by (simp_all add: sync_worker_new_def services_of_def link_service_new_def)

lemma instance_start_is_request:
  "start_instance x c salt v4 config d = Some (d', reg) \<Longrightarrow> request x de tr (d, w) (d', w)"
  unfolding start_instance_def by (rule starting)

end
