(* ===== verification/Http.thy ===== *)
theory Http
  imports Registry
begin

text \<open>
  What the backends for remote services share. \<open>reqwest\<close>, the clock and the cryptographic crates are
  outside the repository: the record \<open>http_client\<close> holds them, a request goes through \<open>hc_send\<close> and
  acts on a state \<open>'n\<close> of the network. A response is its status and the chunks its body arrives in,
  any of which can be an error. Beside it are the string searches of the standard library with which
  listings are read, and the streaming of files, which the backends repeat.

  An object store behind HTTP is described by what it holds, \<open>store n k\<close>: \<open>object_server\<close> is the
  documented behaviour of such a service for the requests that read, write and delete an object.
\<close>

section \<open>Substrings\<close>

text \<open>\<open>str::find\<close>, \<open>str::split\<close> and \<open>strip_prefix\<close> with a string as the pattern.\<close>

fun find_str :: "string \<Rightarrow> string \<Rightarrow> nat option" where
  "find_str p [] = (if p = [] then Some 0 else None)"
| "find_str p (c # cs) = (if prefix p (c # cs) then Some 0 else map_option Suc (find_str p cs))"

lemma find_str_Some: "find_str p s = Some i \<Longrightarrow> s = take i s @ p @ drop (i + length p) s"
proof (induction s arbitrary: i)
  case (Cons c cs)
  show ?case
  proof (cases "prefix p (c # cs)")
    case True
    with Cons.prems show ?thesis by (auto simp: prefix_def)
  next
    case False
    with Cons.prems obtain j where "find_str p cs = Some j" "i = Suc j" by auto
    with Cons.IH show ?thesis by simp
  qed
qed (auto split: if_splits)

lemma find_str_None: "find_str p s = None \<longleftrightarrow> \<not> contains_str p s"
  by (induction s) auto

lemma find_str_bound: "find_str p s = Some i \<Longrightarrow> i + length p \<le> length s"
proof (induction s arbitrary: i)
  case (Cons c cs)
  show ?case
  proof (cases "prefix p (c # cs)")
    case True
    with Cons.prems prefix_length_le [OF True] show ?thesis by simp
  next
    case False
    with Cons show ?thesis by auto
  qed
qed (auto split: if_splits)

lemma find_str_first: "\<not> contains_str p (a @ butlast p) \<Longrightarrow> p \<noteq> [] \<Longrightarrow> find_str p (a @ p @ b) = Some (length a)"
proof (induction a)
  case Nil
  then have "prefix p (p @ b)" "p @ b \<noteq> []" by auto
  then show ?case by (cases "p @ b") simp_all
next
  case (Cons x a)
  then have "\<not> contains_str p (a @ butlast p)" by simp
  moreover have "\<not> prefix p (x # a @ p @ b)"
  proof
    assume "prefix p (x # a @ p @ b)"
    then have "p = take (length p) (x # a @ p @ b)" by (metis append_eq_conv_conj prefix_def)
    also have "\<dots> = take (length p) (x # a @ butlast p @ last p # b)"
      using Cons.prems(2) by (metis append.assoc append_Cons append_butlast_last_id append_self_conv2)
    also have "\<dots> = take (length p) (x # a @ butlast p)"
      using Cons.prems(2) by (cases p rule: rev_cases) auto
    finally have "prefix p (x # a @ butlast p)" by (metis take_is_prefix)
    with Cons.prems(1) show False by simp
  qed
  ultimately show ?case using Cons.IH Cons.prems(2) by simp
qed

lemma contains_str_skip: "hd p \<notin> set a \<Longrightarrow> p \<noteq> [] \<Longrightarrow> contains_str p (a @ b) \<longleftrightarrow> contains_str p b"
  by (induction a) (cases p; auto)+

function split_str :: "string \<Rightarrow> string \<Rightarrow> string list" where
  "split_str p s =
     (case (if p = [] then None else find_str p s) of
        None \<Rightarrow> [s]
      | Some i \<Rightarrow> take i s # split_str p (drop (i + length p) s))"
  by pat_completeness auto
termination
proof (relation "measure (\<lambda>(p, s). length s)")
  fix p s :: string and i
  assume "(if p = [] then None else find_str p s) = Some i"
  then have "p \<noteq> []" "find_str p s = Some i" by (auto split: if_splits)
  then have "p \<noteq> []" "i + length p \<le> length s" using find_str_bound by auto
  moreover from this have "0 < length p" "0 < length s" by auto
  ultimately show "((p, drop (i + length p) s), (p, s)) \<in> measure (\<lambda>(p, s). length s)" by simp
qed simp

declare split_str.simps [simp del]

lemma split_str_first:
  "\<not> contains_str p (a @ butlast p) \<Longrightarrow> p \<noteq> [] \<Longrightarrow> split_str p (a @ p @ b) = a # split_str p b"
  by (subst split_str.simps) (simp add: find_str_first)

lemma split_str_last: "\<not> contains_str p a \<Longrightarrow> split_str p a = [a]"
  by (subst split_str.simps) (auto simp: find_str_None [symmetric])

definition strip_prefix :: "string \<Rightarrow> string \<Rightarrow> string option" where
  "strip_prefix p s = (if prefix p s then Some (drop (length p) s) else None)"

lemma strip_prefix_Some: "strip_prefix p s = Some r \<longleftrightarrow> s = p @ r"
proof
  assume "strip_prefix p s = Some r"
  then have "prefix p s" "r = drop (length p) s" by (simp_all add: strip_prefix_def split: if_splits)
  then show "s = p @ r" by (metis append_eq_conv_conj prefix_def)
qed (simp add: strip_prefix_def)

lemma while_until:
  assumes "c \<notin> set a"
  shows "takeWhile (\<lambda>x. x \<noteq> c) (a @ c # b) = a" and "dropWhile (\<lambda>x. x \<noteq> c) (a @ c # b) = c # b"
  using assms by (induction a) auto

text \<open>The name of an object relative to the prefix of the backend, as the listings compute it.\<close>

definition relative_name :: "string \<Rightarrow> string \<Rightarrow> string" where
  "relative_name pre name =
     (if pre \<noteq> [] then unwrap_or name (strip_prefix (trim_end_matches (CHR ''/'') pre @ ''/'') name) else name)"

lemma relative_name_object_name: "relative_name pre (object_name pre path) = path"
  by (simp add: relative_name_def object_name_def strip_prefix_def unwrap_or_def)

text \<open>
  The directories above a path, outermost first, as the loops that create them join them: the
  components of the part before the last slash, each appended to what has been joined so far.
\<close>

fun progressive :: "string \<Rightarrow> string list \<Rightarrow> string list" where
  "progressive current [] = []"
| "progressive current (part # parts) =
     (let current1 = (if current = [] then part else current @ ''/'' @ part) in current1 # progressive current1 parts)"

definition directories :: "string \<Rightarrow> string list" where
  "directories dir = progressive [] (filter (\<lambda>p. p \<noteq> []) (split_on (CHR ''/'') dir))"

definition parent_dirs :: "string \<Rightarrow> string list" where
  "parent_dirs path =
     (case rsplit_once (CHR ''/'') path of
        None \<Rightarrow> []
      | Some (parent, _) \<Rightarrow> if parent = [] then [] else directories parent)"

lemma join_str_snoc: "xs \<noteq> [] \<Longrightarrow> join_str sep (xs @ [x]) = join_str sep xs @ sep @ x"
  by (induction sep xs rule: join_str.induct) auto

lemma join_str_not_Nil: "[] \<notin> set xs \<Longrightarrow> xs \<noteq> [] \<Longrightarrow> join_str sep xs \<noteq> []"
  by (cases xs; cases "tl xs") auto

lemma progressive_joins:
  assumes "[] \<notin> set (pre @ parts)"
  shows "progressive (join_str ''/'' pre) parts = map (\<lambda>i. join_str ''/'' (pre @ take (Suc i) parts)) [0..<length parts]"
  using assms
proof (induction parts arbitrary: pre)
  case (Cons part parts)
  have cur: "(if join_str ''/'' pre = [] then part else join_str ''/'' pre @ ''/'' @ part) = join_str ''/'' (pre @ [part])"
    using join_str_snoc [of pre "''/''" part] join_str_not_Nil [of pre "''/''"] Cons.prems by (cases "pre = []") auto
  have "progressive (join_str ''/'' (pre @ [part])) parts =
      map (\<lambda>i. join_str ''/'' ((pre @ [part]) @ take (Suc i) parts)) [0..<length parts]"
    by (rule Cons.IH) (use Cons.prems in auto)
  then show ?case unfolding progressive.simps Let_def cur
    by (simp add: map_upt_Suc del: upt_Suc)
qed simp

text \<open>They are the prefixes of the path, by whole components, without the last component.\<close>

lemma directories_prefixes:
  "directories dir = (let parts = filter (\<lambda>p. p \<noteq> []) (split_on (CHR ''/'') dir)
     in map (\<lambda>i. join_str ''/'' (take (Suc i) parts)) [0..<length parts])"
  using progressive_joins [of "[]" "filter (\<lambda>p. p \<noteq> []) (split_on (CHR ''/'') dir)"]
  by (simp add: directories_def Let_def)

section \<open>Requests and responses\<close>

datatype http_body =
    Empty_Body
  | Raw_Body bytes
  | Form_Body "(string \<times> string) list"
  | Json_Body json

record http_request =
  rq_method :: string
  rq_url :: string
  rq_basic :: "(string \<times> string) option"
  rq_headers :: "(string \<times> string) list"
  rq_body :: http_body

record http_response =
  rs_status :: nat
  rs_chunks :: "(string + bytes) list"

text \<open>
  \<open>hc_lossy\<close> decodes a body as text, \<open>hc_json\<close> parses it, \<open>hc_status_str\<close> displays a status; the four
  \<open>chrono\<close> formats are those of RFC 1123, ISO 8601 to the second, its compact form, and a day.
\<close>

record 'n http_client =
  hc_send :: "http_request \<Rightarrow> 'n \<Rightarrow> (string + http_response) \<times> 'n"
  hc_now :: "'n \<Rightarrow> time"
  hc_lossy :: "bytes \<Rightarrow> string"
  hc_json :: "bytes \<Rightarrow> string + json"
  hc_status_str :: "nat \<Rightarrow> string"
  hc_rfc1123 :: "time \<Rightarrow> string"
  hc_iso :: "time \<Rightarrow> string"
  hc_compact :: "time \<Rightarrow> string"
  hc_day :: "time \<Rightarrow> string"
  hc_hmac :: "bytes \<Rightarrow> bytes \<Rightarrow> bytes"
  hc_digest :: "bytes \<Rightarrow> bytes"
  hc_rsa_sign :: "string \<Rightarrow> bytes \<Rightarrow> bytes"
  hc_b64 :: "bytes \<Rightarrow> string"
  hc_b64url :: "bytes \<Rightarrow> string"
  hc_b64_decode :: "string \<Rightarrow> string + bytes"
  hc_rsa_from_pem :: "string \<Rightarrow> string + unit"
  hc_urlenc :: "string \<Rightarrow> string"
  hc_urldec :: "string \<Rightarrow> string option"

definition is_success :: "http_response \<Rightarrow> bool" where
  "is_success rs \<longleftrightarrow> 200 \<le> rs_status rs \<and> rs_status rs < 300"

fun json_i64 :: "json option \<Rightarrow> int option" where
  "json_i64 (Some (JNum n)) = (if is_i64 n then Some n else None)"
| "json_i64 _ = None"

fun json_array :: "json option \<Rightarrow> json list option" where
  "json_array (Some (JArr js)) = Some js"
| "json_array _ = None"

text \<open>\<open>bytes()\<close> collects the chunks up to the first error.\<close>

fun collect_chunks :: "(string + bytes) list \<Rightarrow> string + bytes" where
  "collect_chunks [] = Inr []"
| "collect_chunks (Inl e # cs) = Inl e"
| "collect_chunks (Inr b # cs) = (case collect_chunks cs of Inl e \<Rightarrow> Inl e | Inr bs \<Rightarrow> Inr (b @ bs))"

definition body_bytes :: "string \<Rightarrow> http_response \<Rightarrow> bytes app_result" where
  "body_bytes msg rs = (case collect_chunks (rs_chunks rs) of Inl e \<Rightarrow> Inl (Internal (msg @ e)) | Inr b \<Rightarrow> Inr b)"

definition body_text :: "'n http_client \<Rightarrow> string \<Rightarrow> http_response \<Rightarrow> string app_result" where
  "body_text hc msg rs =
     (case collect_chunks (rs_chunks rs) of Inl e \<Rightarrow> Inl (Internal (msg @ e)) | Inr b \<Rightarrow> Inr (hc_lossy hc b))"

definition body_json :: "'n http_client \<Rightarrow> string \<Rightarrow> http_response \<Rightarrow> json app_result" where
  "body_json hc msg rs =
     (case collect_chunks (rs_chunks rs) of
        Inl e \<Rightarrow> Inl (Internal (msg @ e))
      | Inr b \<Rightarrow> (case hc_json hc b of Inl e \<Rightarrow> Inl (Internal (msg @ e)) | Inr j \<Rightarrow> Inr j))"

definition text_or_default :: "'n http_client \<Rightarrow> http_response \<Rightarrow> string" where
  "text_or_default hc rs = (case collect_chunks (rs_chunks rs) of Inl _ \<Rightarrow> [] | Inr b \<Rightarrow> hc_lossy hc b)"

text \<open>The error of a response whose status is not accepted: the message, the status and the body.\<close>

definition status_error :: "'n http_client \<Rightarrow> string \<Rightarrow> http_response \<Rightarrow> app_error" where
  "status_error hc msg rs = Internal (msg @ hc_status_str hc (rs_status rs) @ '': '' @ text_or_default hc rs)"

section \<open>Sequencing\<close>

text \<open>A step that can fail, and the rest of the function behind its \<open>?\<close>.\<close>

definition andthen :: "('s \<Rightarrow> 'a app_result \<times> 's) \<Rightarrow> ('a \<Rightarrow> 's \<Rightarrow> 'b app_result \<times> 's) \<Rightarrow> 's \<Rightarrow> 'b app_result \<times> 's" where
  "andthen m k s = (case m s of (Inl e, s1) \<Rightarrow> (Inl e, s1) | (Inr v, s1) \<Rightarrow> k v s1)"

definition result :: "'a app_result \<Rightarrow> 's \<Rightarrow> 'a app_result \<times> 's" where
  "result r s = (r, s)"

definition send :: "'n http_client \<Rightarrow> string \<Rightarrow> http_request \<Rightarrow> 'n \<Rightarrow> http_response app_result \<times> 'n" where
  "send hc msg rq n =
     (case hc_send hc rq n of
        (Inl e, n1) \<Rightarrow> (Inl (Internal (msg @ e)), n1)
      | (Inr rs, n1) \<Rightarrow> (Inr rs, n1))"

lemma andthen_Inr:
  "andthen m k s = (Inr v, s2) \<longleftrightarrow> (\<exists>u s1. m s = (Inr u, s1) \<and> k u s1 = (Inr v, s2))"
  by (auto simp: andthen_def split: sum.splits prod.splits)

lemma andthen_cong [fundef_cong]:
  "m s = m' s' \<Longrightarrow> (\<And>v s1. m' s' = (Inr v, s1) \<Longrightarrow> k v s1 = k' v s1) \<Longrightarrow> andthen m k s = andthen m' k' s'"
  by (auto simp: andthen_def split: sum.splits prod.splits)

lemma andthen_ok [simp]: "m s = (Inr u, s1) \<Longrightarrow> andthen m k s = k u s1"
  by (simp add: andthen_def)

lemma andthen_error [simp]: "m s = (Inl e, s1) \<Longrightarrow> andthen m k s = (Inl e, s1)"
  by (simp add: andthen_def)

lemma result_simps [simp]: "result r s = (r', s') \<longleftrightarrow> r = r' \<and> s = s'" "fst (result r s) = r" "snd (result r s) = s"
  by (auto simp: result_def)

lemma send_Inr: "send hc msg rq n = (Inr rs, n1) \<longleftrightarrow> hc_send hc rq n = (Inr rs, n1)"
  by (auto simp: send_def split: sum.splits prod.splits)

lemma snd_send [simp]: "snd (send hc msg rq n) = snd (hc_send hc rq n)"
  by (auto simp: send_def split: sum.splits prod.splits)

section \<open>Files and streams\<close>

text \<open>
  A body streamed from a file is the contents of the file at the time it is opened. A response is
  written to a file chunk by chunk; what was written before an error stays.
\<close>

definition open_file :: "string \<Rightarrow> path \<Rightarrow> fs \<Rightarrow> bytes app_result" where
  "open_file msg src f = ok_or (Internal msg) (fs_read src f)"

fun write_chunks :: "string \<Rightarrow> (string + bytes) list \<Rightarrow> path \<Rightarrow> bytes \<Rightarrow> fs \<Rightarrow> unit app_result \<times> fs" where
  "write_chunks msg [] dst written f = (Inr (), f)"
| "write_chunks msg (Inl e # cs) dst written f = (Inl (Internal (msg @ e)), f)"
| "write_chunks msg (Inr b # cs) dst written f =
     write_chunks msg cs dst (written @ b) (fs_put dst (Contents (written @ b)) f)"

definition stream_to_file :: "string \<Rightarrow> http_response \<Rightarrow> path \<Rightarrow> fs \<Rightarrow> unit app_result \<times> fs" where
  "stream_to_file msg rs dst f =
     (case fs_write dst [] f of
        None \<Rightarrow> (Inl (Internal ''Failed to create temp file''), f)
      | Some f1 \<Rightarrow> write_chunks msg (rs_chunks rs) dst [] f1)"

lemma write_chunks_Inr:
  "write_chunks msg cs dst w f = (Inr (), f') \<Longrightarrow>
     \<exists>b. collect_chunks cs = Inr b \<and> (cs \<noteq> [] \<longrightarrow> fs_read dst f' = Some (w @ b)) \<and> (cs = [] \<longrightarrow> f' = f)"
proof (induction msg cs dst w f rule: write_chunks.induct)
  case (3 msg b cs dst w f)
  then obtain bs where bs: "collect_chunks cs = Inr bs" "cs \<noteq> [] \<longrightarrow> fs_read dst f' = Some ((w @ b) @ bs)"
    "cs = [] \<longrightarrow> f' = fs_put dst (Contents (w @ b)) f" by auto
  then show ?case by (cases "cs = []") (auto simp: fs_read_Some)
qed auto

lemma write_chunks_other:
  "write_chunks msg cs dst w f = (r, f') \<Longrightarrow> p \<noteq> dst \<Longrightarrow> fs_read p f' = fs_read p f"
  by (induction msg cs dst w f rule: write_chunks.induct) (auto simp: fs_read_def)

lemma stream_to_file_Inr:
  assumes "stream_to_file msg rs dst f = (Inr (), f')"
  shows "\<exists>b. collect_chunks (rs_chunks rs) = Inr b \<and> fs_read dst f' = Some b"
proof -
  from assms obtain f1 where f1: "fs_write dst [] f = Some f1"
    and w: "write_chunks msg (rs_chunks rs) dst [] f1 = (Inr (), f')"
    by (auto simp: stream_to_file_def split: option.splits)
  from f1 have "fs_read dst f1 = Some []" by (auto simp: fs_write_def fs_read_Some split: if_splits)
  with write_chunks_Inr [OF w] show ?thesis by auto
qed

section \<open>An object store behind HTTP\<close>

text \<open>
  \<open>reads rq k\<close>, \<open>writes rq k v\<close> and \<open>deletes rq k\<close> classify the requests a backend sends. Network
  failures and refusals are allowed for writes and deletions, where they leave the store as it was;
  a read is answered. Every other request leaves the objects alone.
\<close>

definition object_server ::
    "'n http_client \<Rightarrow> ('n \<Rightarrow> 'k \<Rightarrow> bytes option) \<Rightarrow> (http_request \<Rightarrow> 'k \<Rightarrow> bool) \<Rightarrow> (http_request \<Rightarrow> 'k \<Rightarrow> bytes \<Rightarrow> bool) \<Rightarrow>
     (http_request \<Rightarrow> 'k \<Rightarrow> bool) \<Rightarrow> bool" where
  "object_server hc store reads writes deletes \<longleftrightarrow>
     (\<forall>rq k n. reads rq k \<longrightarrow>
        (\<exists>rs n1. hc_send hc rq n = (Inr rs, n1) \<and> store n1 = store n \<and>
           (case store n k of
              Some v \<Rightarrow> is_success rs \<and> collect_chunks (rs_chunks rs) = Inr v
            | None \<Rightarrow> rs_status rs = 404))) \<and>
     (\<forall>rq k v n r n1. writes rq k v \<longrightarrow> hc_send hc rq n = (r, n1) \<longrightarrow>
        store n1 = (case r of
          Inr rs \<Rightarrow> if is_success rs then (store n)(k \<mapsto> v) else store n
        | Inl _ \<Rightarrow> store n)) \<and>
     (\<forall>rq k n r n1. deletes rq k \<longrightarrow> hc_send hc rq n = (r, n1) \<longrightarrow>
        store n1 = (case r of
          Inr rs \<Rightarrow> if is_success rs \<or> rs_status rs = 404 then (store n)(k := None) else store n
        | Inl _ \<Rightarrow> store n)) \<and>
     (\<forall>rq n. (\<nexists>k v. writes rq k v) \<longrightarrow> (\<nexists>k. deletes rq k) \<longrightarrow> store (snd (hc_send hc rq n)) = store n)"

lemma object_serverD:
  assumes "object_server hc store reads writes deletes"
  shows "reads rq k \<Longrightarrow> \<exists>rs n1. hc_send hc rq n = (Inr rs, n1) \<and> store n1 = store n \<and>
      (case store n k of Some v \<Rightarrow> is_success rs \<and> collect_chunks (rs_chunks rs) = Inr v | None \<Rightarrow> rs_status rs = 404)"
    and "writes rq k v \<Longrightarrow> hc_send hc rq n = (r, n1) \<Longrightarrow>
      store n1 = (case r of Inr rs \<Rightarrow> if is_success rs then (store n)(k \<mapsto> v) else store n | Inl _ \<Rightarrow> store n)"
    and "deletes rq k \<Longrightarrow> hc_send hc rq n = (r, n1) \<Longrightarrow>
      store n1 = (case r of Inr rs \<Rightarrow> if is_success rs \<or> rs_status rs = 404 then (store n)(k := None) else store n | Inl _ \<Rightarrow> store n)"
    and "\<nexists>k v. writes rq k v \<Longrightarrow> \<nexists>k. deletes rq k \<Longrightarrow> store (snd (hc_send hc rq n)) = store n"
  using assms unfolding object_server_def by blast+

section \<open>The contract of a remote backend\<close>

text \<open>
  A service: the client that reaches it and what it holds. \<open>url_safe\<close> strings are sent in a URL as
  they are; the percent encoding can be decoded, leaves no delimiter of a query and
  changes nothing in a string that needs none.
\<close>

record ('n, 'k) service =
  sv_client :: "'n http_client"
  sv_store :: "'n \<Rightarrow> 'k \<Rightarrow> bytes option"

definition url_safe :: "string \<Rightarrow> bool" where
  "url_safe s \<longleftrightarrow> list_all (\<lambda>c. is_ascii_alphanumeric c \<or> c \<in> set ''-_.~/'') s"

definition url_law :: "'n http_client \<Rightarrow> bool" where
  "url_law hc \<longleftrightarrow>
     (\<forall>s. hc_urldec hc (hc_urlenc hc s) = Some s \<and> (\<forall>c \<in> set (hc_urlenc hc s). c \<notin> set ''&=?/'') \<and>
        (url_safe s \<longrightarrow> CHR ''/'' \<notin> set s \<longrightarrow> hc_urlenc hc s = s))"

lemma url_lawD:
  assumes "url_law hc"
  shows "hc_urldec hc (hc_urlenc hc s) = Some s" and "CHR ''&'' \<notin> set (hc_urlenc hc s)"
    and "CHR ''='' \<notin> set (hc_urlenc hc s)" and "CHR ''?'' \<notin> set (hc_urlenc hc s)"
    and "url_safe s \<Longrightarrow> CHR ''/'' \<notin> set s \<Longrightarrow> hc_urldec hc s = Some s"
  using assms unfolding url_law_def by (fastforce, fastforce, fastforce, fastforce, metis)

text \<open>
  What the trait promises, for a backend that reaches its objects through a service \<open>h\<close>: while the
  service \<open>serves\<close> as documented, the operations on valid paths are those of a map from places to
  contents. An operation that fails may have damaged the object it was about, and no other.
\<close>

datatype store_op = Put_Object (op_path: string) bytes | Delete_Object (op_path: string)

fun apply_op :: "(string \<Rightarrow> 'k) \<Rightarrow> store_op \<Rightarrow> ('k \<Rightarrow> bytes option) \<Rightarrow> 'k \<Rightarrow> bytes option" where
  "apply_op place (Put_Object path v) m = m(place path \<mapsto> v)"
| "apply_op place (Delete_Object path) m = m(place path := None)"

fun perform ::
    "(string \<Rightarrow> bytes \<Rightarrow> 'n \<Rightarrow> unit app_result \<times> 'n) \<Rightarrow> (string \<Rightarrow> 'n \<Rightarrow> unit app_result \<times> 'n) \<Rightarrow>
     store_op \<Rightarrow> 'n \<Rightarrow> unit app_result \<times> 'n" where
  "perform upload delete (Put_Object path v) n = upload path v n"
| "perform upload delete (Delete_Object path) n = delete path n"

text \<open>The operations of a list with what each returned, and the state after all of them.\<close>

fun run_ops ::
    "(string \<Rightarrow> bytes \<Rightarrow> 'n \<Rightarrow> unit app_result \<times> 'n) \<Rightarrow> (string \<Rightarrow> 'n \<Rightarrow> unit app_result \<times> 'n) \<Rightarrow>
     store_op list \<Rightarrow> 'n \<Rightarrow> (store_op \<times> unit app_result) list \<times> 'n" where
  "run_ops upload delete [] n = ([], n)"
| "run_ops upload delete (c # cs) n =
     (let (r, n1) = perform upload delete c n; (hist, n2) = run_ops upload delete cs n1 in ((c, r) # hist, n2))"

fun succeeded :: "(store_op \<times> unit app_result) list \<Rightarrow> store_op list" where
  "succeeded [] = []"
| "succeeded ((c, Inr _) # hist) = c # succeeded hist"
| "succeeded ((c, Inl _) # hist) = succeeded hist"

text \<open>
  A backend is an object store if after any operations on valid paths a download gives what the
  successful ones make of a map: without \<open>atomic\<close> only where no operation on that path has failed.
\<close>

definition object_store ::
    "bool \<Rightarrow> (string \<Rightarrow> bool) \<Rightarrow> (string \<Rightarrow> 'k) \<Rightarrow> ('n \<Rightarrow> 'k \<Rightarrow> bytes option) \<Rightarrow>
     (string \<Rightarrow> bytes \<Rightarrow> 'n \<Rightarrow> unit app_result \<times> 'n) \<Rightarrow> (string \<Rightarrow> 'n \<Rightarrow> bytes app_result \<times> 'n) \<Rightarrow>
     (string \<Rightarrow> 'n \<Rightarrow> unit app_result \<times> 'n) \<Rightarrow> bool" where
  "object_store atomic valid place store upload download delete \<longleftrightarrow>
     (\<forall>cs path n hist n1. (\<forall>c \<in> set cs. valid (op_path c)) \<longrightarrow> valid path \<longrightarrow> run_ops upload delete cs n = (hist, n1) \<longrightarrow>
        atomic \<or> (\<forall>(c, r) \<in> set hist. op_path c = path \<longrightarrow> r = Inr ()) \<longrightarrow>
        (case fold (apply_op place) (succeeded hist) (store n) (place path) of
           Some v \<Rightarrow> fst (download path n1) = Inr v
         | None \<Rightarrow> \<exists>e. fst (download path n1) = Inl e))"

locale object_backend =
  fixes serves :: "'h \<Rightarrow> bool"
    and store :: "'h \<Rightarrow> 'n \<Rightarrow> 'k \<Rightarrow> bytes option"
    and valid :: "string \<Rightarrow> bool"
    and place :: "string \<Rightarrow> 'k"
    and upload :: "'h \<Rightarrow> string \<Rightarrow> bytes \<Rightarrow> 'n \<Rightarrow> unit app_result \<times> 'n"
    and download :: "'h \<Rightarrow> string \<Rightarrow> 'n \<Rightarrow> bytes app_result \<times> 'n"
    and delete :: "'h \<Rightarrow> string \<Rightarrow> 'n \<Rightarrow> unit app_result \<times> 'n"
  assumes place_inj: "place p = place q \<Longrightarrow> p = q"
    and uploaded: "serves h \<Longrightarrow> valid p \<Longrightarrow> upload h p v n = (Inr (), n1) \<Longrightarrow> store h n1 = (store h n)(place p \<mapsto> v)"
    and upload_failed: "serves h \<Longrightarrow> valid p \<Longrightarrow> upload h p v n = (Inl e, n1) \<Longrightarrow> k \<noteq> place p \<Longrightarrow> store h n1 k = store h n k"
    and downloaded: "serves h \<Longrightarrow> valid p \<Longrightarrow> download h p n = (x, n1) \<Longrightarrow>
      store h n1 = store h n \<and> (case store h n (place p) of Some v \<Rightarrow> x = Inr v | None \<Rightarrow> \<exists>e. x = Inl e)"
    and deleted: "serves h \<Longrightarrow> valid p \<Longrightarrow> delete h p n = (Inr (), n1) \<Longrightarrow> store h n1 = (store h n)(place p := None)"
    and delete_failed: "serves h \<Longrightarrow> valid p \<Longrightarrow> delete h p n = (Inl e, n1) \<Longrightarrow> k \<noteq> place p \<Longrightarrow> store h n1 k = store h n k"
begin

lemma read_after_write:
  assumes "serves h" and "valid p" and "upload h p v n = (Inr (), n1)"
  shows "fst (download h p n1) = Inr v"
proof -
  obtain r n2 where d: "download h p n1 = (r, n2)" by fastforce
  from downloaded [OF assms(1,2) d] uploaded [OF assms] d show ?thesis by simp
qed

lemma gone_after_delete:
  assumes "serves h" and "valid p" and "delete h p n = (Inr (), n1)"
  shows "fst (download h p n1) \<noteq> Inr v"
proof -
  obtain r n2 where d: "download h p n1 = (r, n2)" by fastforce
  from downloaded [OF assms(1,2) d] deleted [OF assms] d show ?thesis by auto
qed

lemma perform_succeeds:
  "serves h \<Longrightarrow> valid (op_path c) \<Longrightarrow> perform (upload h) (delete h) c n = (Inr u, n1) \<Longrightarrow> store h n1 = apply_op place c (store h n)"
  by (cases c) (simp_all add: uploaded deleted)

lemma perform_fails:
  "serves h \<Longrightarrow> valid (op_path c) \<Longrightarrow> perform (upload h) (delete h) c n = (Inl e, n1) \<Longrightarrow> k \<noteq> place (op_path c) \<Longrightarrow> store h n1 k = store h n k"
  by (cases c) (simp_all add: upload_failed delete_failed)

lemma apply_op_at: "f k = g k \<Longrightarrow> apply_op place c f k = apply_op place c g k"
  by (cases c) simp_all

lemma fold_apply_op_at: "f k = g k \<Longrightarrow> fold (apply_op place) cs f k = fold (apply_op place) cs g k"
proof (induction cs arbitrary: f g)
  case (Cons c cs)
  have "apply_op place c f k = apply_op place c g k" using Cons.prems by (rule apply_op_at)
  then show ?case unfolding fold_simps by (rule Cons.IH)
qed simp

text \<open>An object no operation has failed on is what the successful operations make it.\<close>

lemma run_object:
  "serves h \<Longrightarrow> \<forall>c \<in> set cs. valid (op_path c) \<Longrightarrow> run_ops (upload h) (delete h) cs n = (hist, n1) \<Longrightarrow>
    \<forall>(c, r) \<in> set hist. op_path c = path \<longrightarrow> r = Inr () \<Longrightarrow>
    store h n1 (place path) = fold (apply_op place) (succeeded hist) (store h n) (place path)"
proof (induction cs arbitrary: n hist)
  case (Cons c cs)
  obtain r n2 hist2 n3 where r: "perform (upload h) (delete h) c n = (r, n2)" "run_ops (upload h) (delete h) cs n2 = (hist2, n3)"
    by fastforce
  with Cons.prems have eq: "hist = (c, r) # hist2" "n1 = n3" by auto
  with Cons.IH [OF Cons.prems(1) _ r(2) [folded eq(2)]] Cons.prems(2,4)
  have IH: "store h n1 (place path) = fold (apply_op place) (succeeded hist2) (store h n2) (place path)" by auto
  show ?case
  proof (cases r)
    case (Inr u)
    with perform_succeeds [OF Cons.prems(1) _ r(1) [unfolded Inr]] Cons.prems(2) IH eq show ?thesis by simp
  next
    case (Inl e)
    with eq Cons.prems(4) have "place path \<noteq> place (op_path c)" using place_inj by fastforce
    with perform_fails [OF Cons.prems(1) _ r(1) [unfolded Inl]] Cons.prems(2)
    have "store h n2 (place path) = store h n (place path)" by simp
    with IH eq Inl fold_apply_op_at [of "store h n2" _ "store h n"] show ?thesis by simp
  qed
qed simp

lemma download_gives:
  assumes "serves h" and "valid path" and "store h n (place path) = x"
  shows "case x of Some v \<Rightarrow> fst (download h path n) = Inr v | None \<Rightarrow> \<exists>e. fst (download h path n) = Inl e"
proof -
  obtain r n2 where d: "download h path n = (r, n2)" by fastforce
  from downloaded [OF assms(1,2) d] assms(3) d show ?thesis by (auto split: option.splits)
qed

lemma is_object_store:
  assumes "serves h"
  shows "object_store False valid place (store h) (upload h) (download h) (delete h)"
  unfolding object_store_def simp_thms
proof (intro allI impI)
  fix cs path n hist n1
  assume "\<forall>c \<in> set cs. valid (op_path c)" and v: "valid path" and "run_ops (upload h) (delete h) cs n = (hist, n1)"
    and "\<forall>(c, r) \<in> set hist. op_path c = path \<longrightarrow> r = Inr ()"
  from run_object [OF assms this(1,3,4)]
  show "case fold (apply_op place) (succeeded hist) (store h n) (place path) of
      Some v \<Rightarrow> fst (download h path n1) = Inr v
    | None \<Rightarrow> \<exists>e. fst (download h path n1) = Inl e" by (rule download_gives [OF assms v])
qed

end

text \<open>A backend whose failed operations leave every object as it was.\<close>

locale atomic_backend = object_backend serves store valid place upload download delete
  for serves :: "'h \<Rightarrow> bool"
    and store :: "'h \<Rightarrow> 'n \<Rightarrow> 'k \<Rightarrow> bytes option"
    and valid :: "string \<Rightarrow> bool"
    and place :: "string \<Rightarrow> 'k"
    and upload :: "'h \<Rightarrow> string \<Rightarrow> bytes \<Rightarrow> 'n \<Rightarrow> unit app_result \<times> 'n"
    and download :: "'h \<Rightarrow> string \<Rightarrow> 'n \<Rightarrow> bytes app_result \<times> 'n"
    and delete :: "'h \<Rightarrow> string \<Rightarrow> 'n \<Rightarrow> unit app_result \<times> 'n" +
  assumes upload_atomic: "serves h \<Longrightarrow> valid p \<Longrightarrow> upload h p v n = (Inl e, n1) \<Longrightarrow> store h n1 = store h n"
    and delete_atomic: "serves h \<Longrightarrow> valid p \<Longrightarrow> delete h p n = (Inl e, n1) \<Longrightarrow> store h n1 = store h n"
begin

lemma perform_atomic: "serves h \<Longrightarrow> valid (op_path c) \<Longrightarrow> perform (upload h) (delete h) c n = (r, n1) \<Longrightarrow>
    store h n1 = (case r of Inr _ \<Rightarrow> apply_op place c (store h n) | Inl _ \<Rightarrow> store h n)"
  by (cases c; cases r) (auto simp: uploaded deleted upload_atomic delete_atomic)

text \<open>A run does to the store what its successful operations do to a map.\<close>

lemma run_refines: "serves h \<Longrightarrow> \<forall>c \<in> set cs. valid (op_path c) \<Longrightarrow> run_ops (upload h) (delete h) cs n = (hist, n1) \<Longrightarrow>
    store h n1 = fold (apply_op place) (succeeded hist) (store h n)"
proof (induction cs arbitrary: n hist)
  case (Cons c cs)
  obtain r n2 hist2 n3 where r: "perform (upload h) (delete h) c n = (r, n2)" "run_ops (upload h) (delete h) cs n2 = (hist2, n3)"
    by fastforce
  with Cons show ?case using perform_atomic [OF Cons.prems(1) _ r(1)] by (cases r) auto
qed simp

lemma is_atomic_store:
  assumes "serves h"
  shows "object_store True valid place (store h) (upload h) (download h) (delete h)"
  unfolding object_store_def simp_thms
proof (intro allI impI)
  fix cs path n hist n1
  assume "\<forall>c \<in> set cs. valid (op_path c)" and v: "valid path" and "run_ops (upload h) (delete h) cs n = (hist, n1)"
  from run_refines [OF assms this(1,3)]
  have "store h n1 (place path) = fold (apply_op place) (succeeded hist) (store h n) (place path)" by simp
  then show "case fold (apply_op place) (succeeded hist) (store h n) (place path) of
      Some v \<Rightarrow> fst (download h path n1) = Inr v
    | None \<Rightarrow> \<exists>e. fst (download h path n1) = Inl e" by (rule download_gives [OF assms v])
qed

end

text \<open>The laws from the outcome of each operation.\<close>

lemma atomic_backendI:
  assumes "\<And>p q. place p = place q \<Longrightarrow> p = q"
    and "\<And>h p v n r n1. serves h \<Longrightarrow> valid p \<Longrightarrow> upload h p v n = (r, n1) \<Longrightarrow>
      store h n1 = (case r of Inr _ \<Rightarrow> (store h n)(place p \<mapsto> v) | Inl _ \<Rightarrow> store h n)"
    and "\<And>h p n x n1. serves h \<Longrightarrow> valid p \<Longrightarrow> download h p n = (x, n1) \<Longrightarrow>
      store h n1 = store h n \<and> (case store h n (place p) of Some v \<Rightarrow> x = Inr v | None \<Rightarrow> \<exists>e. x = Inl e)"
    and "\<And>h p n r n1. serves h \<Longrightarrow> valid p \<Longrightarrow> delete h p n = (r, n1) \<Longrightarrow>
      store h n1 = (case r of Inr _ \<Rightarrow> (store h n)(place p := None) | Inl _ \<Rightarrow> store h n)"
  shows "atomic_backend serves store valid place upload download delete"
proof (unfold_locales, goal_cases)
  case 1 then show ?case by (rule assms(1))
next
  case 2 from assms(2) [OF this] show ?case by simp
next
  case 3 from assms(2) [OF this(1-3)] show ?case by simp
next
  case 4 then show ?case by (rule assms(3))
next
  case 5 from assms(4) [OF this] show ?case by simp
next
  case 6 from assms(4) [OF this(1-3)] show ?case by simp
next
  case 7 from assms(2) [OF this] show ?case by simp
next
  case 8 from assms(4) [OF this] show ?case by simp
qed

section \<open>Reads, writes and deletions by method and URL\<close>

text \<open>
  The backends that name an object by its URL. \<open>admitted\<close> is the service's own check of a request,
  its signature or its password.
\<close>

definition reads_at :: "(http_request \<Rightarrow> bool) \<Rightarrow> http_request \<Rightarrow> string \<Rightarrow> bool" where
  "reads_at admitted rq u \<longleftrightarrow> admitted rq \<and> rq_method rq = ''GET'' \<and> rq_url rq = u"

definition writes_at :: "(http_request \<Rightarrow> bool) \<Rightarrow> http_request \<Rightarrow> string \<Rightarrow> bytes \<Rightarrow> bool" where
  "writes_at admitted rq u v \<longleftrightarrow> admitted rq \<and> rq_method rq = ''PUT'' \<and> rq_url rq = u \<and> rq_body rq = Raw_Body v"

definition deletes_at :: "(http_request \<Rightarrow> bool) \<Rightarrow> http_request \<Rightarrow> string \<Rightarrow> bool" where
  "deletes_at admitted rq u \<longleftrightarrow> admitted rq \<and> rq_method rq = ''DELETE'' \<and> rq_url rq = u"

definition url_store :: "('n, string) service \<Rightarrow> (http_request \<Rightarrow> bool) \<Rightarrow> bool" where
  "url_store h admitted \<longleftrightarrow>
     object_server (sv_client h) (sv_store h) (reads_at admitted) (writes_at admitted) (deletes_at admitted)"

lemma url_store_put:
  assumes "url_store h admitted" and "hc_send (sv_client h) rq n = (r, n1)"
    and "admitted rq" and "rq_method rq = ''PUT''" and "rq_url rq = u" and "rq_body rq = Raw_Body v"
  shows "sv_store h n1 = (case r of Inr rs \<Rightarrow> if is_success rs then (sv_store h n)(u \<mapsto> v) else sv_store h n | Inl _ \<Rightarrow> sv_store h n)"
  using object_serverD(2) [OF assms(1) [unfolded url_store_def] _ assms(2)] assms(3-6) by (simp add: writes_at_def)

lemma url_store_get:
  assumes "url_store h admitted" and "admitted rq" and "rq_method rq = ''GET''" and "rq_url rq = u"
  obtains rs n1 where "hc_send (sv_client h) rq n = (Inr rs, n1)" and "sv_store h n1 = sv_store h n"
    and "case sv_store h n u of Some v \<Rightarrow> is_success rs \<and> collect_chunks (rs_chunks rs) = Inr v | None \<Rightarrow> rs_status rs = 404"
  using object_serverD(1) [OF assms(1) [unfolded url_store_def], of rq u n] assms(2-4) by (auto simp: reads_at_def)

lemma url_store_delete:
  assumes "url_store h admitted" and "hc_send (sv_client h) rq n = (r, n1)"
    and "admitted rq" and "rq_method rq = ''DELETE''" and "rq_url rq = u"
  shows "sv_store h n1 = (case r of Inr rs \<Rightarrow> if is_success rs \<or> rs_status rs = 404 then (sv_store h n)(u := None) else sv_store h n
    | Inl _ \<Rightarrow> sv_store h n)"
  using object_serverD(3) [OF assms(1) [unfolded url_store_def] _ assms(2)] assms(3-5) by (simp add: deletes_at_def)

lemma url_store_other:
  assumes "url_store h admitted" and "hc_send (sv_client h) rq n = (r, n1)"
    and "rq_method rq \<noteq> ''DELETE''" and "rq_method rq \<noteq> ''PUT'' \<or> rq_body rq = Empty_Body"
  shows "sv_store h n1 = sv_store h n"
  using object_serverD(4) [OF assms(1) [unfolded url_store_def], of rq n] assms(2-4)
  by (auto simp: writes_at_def deletes_at_def)

text \<open>A collected body is read whole.\<close>

lemma body_bytes_Inr [simp]: "body_bytes msg rs = Inr v \<longleftrightarrow> collect_chunks (rs_chunks rs) = Inr v"
  by (simp add: body_bytes_def split: sum.split)

lemma not_found_no_success: "rs_status rs = 404 \<Longrightarrow> \<not> is_success rs"
  by (simp add: is_success_def)

section \<open>A service in memory\<close>

text \<open>Percent encoding and decoding, as the clients do it.\<close>

definition unreserved :: "char \<Rightarrow> bool" where
  "unreserved c \<longleftrightarrow> is_ascii_alphanumeric c \<or> c \<in> set ''-_.~''"

definition percent_encode :: "string \<Rightarrow> string" where
  "percent_encode s = concat (map (\<lambda>c. if unreserved c then [c] else CHR ''%'' # hex_digits 2 (of_char c)) s)"

fun percent_decode :: "string \<Rightarrow> string option" where
  "percent_decode [] = Some []"
| "percent_decode (c # s) =
     (if c = CHR ''%''
      then (case s of
              a # b # t \<Rightarrow> (case find (\<lambda>x. hex_digits 2 (of_char x) = [a, b]) (map char_of [0..<256::nat]) of
                 None \<Rightarrow> None
               | Some x \<Rightarrow> map_option (Cons x) (percent_decode t))
            | _ \<Rightarrow> None)
      else map_option (Cons c) (percent_decode s))"

lemma hex_digit_facts:
  assumes "k < 16"
  shows "is_ascii_alphanumeric (digit_char k)" and "j < 16 \<Longrightarrow> digit_char k = digit_char j \<Longrightarrow> k = j"
proof -
  have d: "(of_char (digit_char i) :: nat) = (if i < 10 then 48 + i else 87 + i)" if "i < 16" for i
    using that by (simp add: digit_char_def)
  show "is_ascii_alphanumeric (digit_char k)" using d [OF assms] assms by (auto simp: is_ascii_alphanumeric_def Let_def)
  show "k = j" if "j < 16" and "digit_char k = digit_char j"
  proof -
    from that(2) have "(of_char (digit_char k) :: nat) = of_char (digit_char j)" by simp
    with d [OF assms] d [OF that(1)] assms that(1) show ?thesis by (auto split: if_splits)
  qed
qed

lemma hex_digits_alnum: "c \<in> set (hex_digits k m) \<Longrightarrow> is_ascii_alphanumeric c"
  by (induction k m rule: hex_digits.induct) (auto simp: hex_digit_facts)

lemma hex_digits_2_inj:
  assumes "hex_digits 2 (of_char x) = hex_digits 2 (of_char y)"
  shows "x = y"
proof -
  from assms have "digit_char (of_char x mod 16) = digit_char (of_char y mod 16)"
    "digit_char (of_char x div 16 mod 16) = digit_char (of_char y div 16 mod 16)" by (simp_all add: numeral_2_eq_2)
  then have m: "of_char x mod 16 = (of_char y mod 16 :: nat)" "of_char x div 16 mod 16 = (of_char y div 16 mod 16 :: nat)"
    by (auto intro: hex_digit_facts(2) [OF _ mod_less_divisor])
  have lt: "of_char x < (256::nat)" "of_char y < (256::nat)" by simp_all
  have "of_char x div 16 < (16::nat)" "of_char y div 16 < (16::nat)" using lt by (simp_all add: less_mult_imp_div_less)
  with m have "of_char x = (of_char y :: nat)" by (metis div_mult_mod_eq mod_less)
  then show ?thesis by simp
qed

lemma percent_decode_char: "percent_decode ((if unreserved c then [c] else CHR ''%'' # hex_digits 2 (of_char c)) @ t) = map_option (Cons c) (percent_decode t)"
proof (cases "unreserved c")
  case True
  then have "c \<noteq> CHR ''%''" by (auto simp: unreserved_def is_ascii_alphanumeric_def)
  with True show ?thesis by simp
next
  case False
  obtain a b where ab: "hex_digits 2 (of_char c) = [a, b]" by (simp add: numeral_2_eq_2)
  have "find (\<lambda>x. hex_digits 2 (of_char x) = [a, b]) (map char_of [0..<256::nat]) = Some c"
  proof (cases "find (\<lambda>x. hex_digits 2 (of_char x) = [a, b]) (map char_of [0..<256::nat])")
    case None
    have "c = char_of (of_char c :: nat)" "of_char c < (256::nat)" by simp_all
    then have "c \<in> set (map char_of [0..<256::nat])" by (metis atLeastLessThan_iff bot_nat_0.extremum image_eqI list.set_map set_upt)
    with None ab show ?thesis unfolding find_None_all by blast
  next
    case (Some x)
    with find_Some_in_set [OF Some] ab hex_digits_2_inj [of x c] show ?thesis by simp
  qed
  with False ab show ?thesis by simp
qed

lemma percent_round_trip: "percent_decode (percent_encode s) = Some s"
  by (induction s) (simp_all add: percent_encode_def percent_decode_char)

lemma percent_encode_chars: "c \<in> set (percent_encode s) \<Longrightarrow> unreserved c \<or> c = CHR ''%''"
  using hex_digits_alnum by (auto simp: percent_encode_def unreserved_def split: if_splits)

lemma percent_encode_unreserved: "list_all unreserved s \<Longrightarrow> percent_encode s = s"
  by (induction s) (auto simp: percent_encode_def)

text \<open>An object store that keeps its objects in a list; \<open>access\<close> is what a request asks for.\<close>

type_synonym memory = "(string \<times> bytes) list"

datatype access = Read string | Write string bytes | Remove string | Other | Refused

fun memory_send :: "(http_request \<Rightarrow> access) \<Rightarrow> http_request \<Rightarrow> memory \<Rightarrow> (string + http_response) \<times> memory" where
  "memory_send classify rq m =
     (case classify rq of
        Read k \<Rightarrow> (case map_of m k of
           None \<Rightarrow> (Inr \<lparr>rs_status = 404, rs_chunks = []\<rparr>, m)
         | Some v \<Rightarrow> (Inr \<lparr>rs_status = 200, rs_chunks = [Inr v]\<rparr>, m))
      | Write k v \<Rightarrow> (Inr \<lparr>rs_status = 201, rs_chunks = []\<rparr>, (k, v) # m)
      | Remove k \<Rightarrow> (Inr \<lparr>rs_status = 204, rs_chunks = []\<rparr>, filter (\<lambda>x. fst x \<noteq> k) m)
      | Other \<Rightarrow> (Inr \<lparr>rs_status = 201, rs_chunks = []\<rparr>, m)
      | Refused \<Rightarrow> (Inr \<lparr>rs_status = 403, rs_chunks = []\<rparr>, m))"

definition memory_client :: "(http_request \<Rightarrow> memory \<Rightarrow> (string + http_response) \<times> memory) \<Rightarrow> memory http_client" where
  "memory_client s = \<lparr>hc_send = s, hc_now = (\<lambda>m. 0), hc_lossy = map (\<lambda>b. char_of (unat b)), hc_json = (\<lambda>b. Inl ''no''),
     hc_status_str = nat_str, hc_rfc1123 = (\<lambda>t. ''date''), hc_iso = (\<lambda>t. ''date''), hc_compact = (\<lambda>t. ''date''),
     hc_day = (\<lambda>t. ''day''), hc_hmac = (\<lambda>k m. k @ m), hc_digest = id, hc_rsa_sign = (\<lambda>k m. m),
     hc_b64 = hex_encode, hc_b64url = hex_encode, hc_b64_decode = (\<lambda>s. Inr (str_bytes s)), hc_rsa_from_pem = (\<lambda>s. Inr ()),
     hc_urlenc = percent_encode, hc_urldec = percent_decode\<rparr>"

lemma memory_url_law: "url_law (memory_client s)"
proof -
  have "c \<in> set (percent_encode t) \<Longrightarrow> c \<notin> set ''&=?/''" for c t
    using percent_encode_chars [of c t] by (auto simp: unreserved_def is_ascii_alphanumeric_def)
  moreover have "url_safe t \<Longrightarrow> CHR ''/'' \<notin> set t \<Longrightarrow> list_all unreserved t" for t
    by (auto simp: url_safe_def unreserved_def list_all_iff)
  ultimately show ?thesis
    by (simp add: url_law_def memory_client_def percent_round_trip percent_encode_unreserved)
qed

lemma map_of_filter_key: "map_of (filter (\<lambda>x. fst x \<noteq> k) m) = (map_of m)(k := None)"
  by (induction m) (auto simp: fun_eq_iff)

lemma memory_object_server:
  assumes "hc_send hc = memory_send classify"
  shows "object_server hc map_of (\<lambda>rq k. classify rq = Read k) (\<lambda>rq k v. classify rq = Write k v) (\<lambda>rq k. classify rq = Remove k)"
  unfolding object_server_def assms
proof (intro conjI allI impI)
  fix rq k n
  assume "classify rq = Read k"
  then show "\<exists>rs n1. memory_send classify rq n = (Inr rs, n1) \<and> map_of n1 = map_of n \<and>
      (case map_of n k of Some v \<Rightarrow> is_success rs \<and> collect_chunks (rs_chunks rs) = Inr v | None \<Rightarrow> rs_status rs = 404)"
    by (auto simp: is_success_def split: option.splits)
next
  fix rq n
  assume "\<nexists>k v. classify rq = Write k v" and "\<nexists>k. classify rq = Remove k"
  then show "map_of (snd (memory_send classify rq n)) = map_of n"
    by (auto split: option.splits access.splits)
qed (auto simp: is_success_def map_of_filter_key)

text \<open>Objects by method and URL.\<close>

definition url_access :: "(http_request \<Rightarrow> bool) \<Rightarrow> http_request \<Rightarrow> access" where
  "url_access admitted rq =
     (if \<not> admitted rq then Refused
      else if rq_method rq = ''GET'' then Read (rq_url rq)
      else if rq_method rq = ''PUT'' then (case rq_body rq of Raw_Body v \<Rightarrow> Write (rq_url rq) v | _ \<Rightarrow> Other)
      else if rq_method rq = ''DELETE'' then Remove (rq_url rq)
      else Other)"

definition memory_service :: "(http_request \<Rightarrow> bool) \<Rightarrow> (memory, string) service" where
  "memory_service admitted = \<lparr>sv_client = memory_client (memory_send (url_access admitted)), sv_store = map_of\<rparr>"

lemma memory_service_url_store: "url_store (memory_service admitted) admitted"
proof -
  have "(\<lambda>rq k. url_access admitted rq = Read k) = reads_at admitted"
    "(\<lambda>rq k v. url_access admitted rq = Write k v) = writes_at admitted"
    "(\<lambda>rq k. url_access admitted rq = Remove k) = deletes_at admitted"
    by (auto simp: fun_eq_iff url_access_def reads_at_def writes_at_def deletes_at_def split: http_body.splits if_splits)
  then show ?thesis
    using memory_object_server [of "memory_client (memory_send (url_access admitted))" "url_access admitted"]
    by (simp add: url_store_def memory_service_def memory_client_def)
qed

end
