(* ===== verification/Azure.thy ===== *)
theory Azure
  imports Http
begin

text \<open>
  The Azure Blob backend (\<open>src/storage/azure.rs\<close>): blob names and URLs, the \<open>SharedKey\<close> signature
  of a request, the signed URL of a blob, and the operations as sequences of requests, with the
  creation of a missing container and the second attempt. The keyed hash accepts keys of any length,
  so the initialisation error of the source cannot occur and is left out.

  Shown: over a service that behaves as documented the backend is an object store; every request it
  sends is signed for exactly what it sends; a listing gives back the names the service reported.
\<close>

definition API_VERSION :: string where
  "API_VERSION = ''2020-10-02''"

definition nl :: string where
  "nl = [CHR 0x0A]"

record azure_backend =
  ab_account_name :: string
  ab_account_key :: bytes
  ab_container :: string
  ab_prefix :: string
  ab_base_url :: string

definition azure_new :: "'n http_client \<Rightarrow> azure_config \<Rightarrow> azure_backend app_result" where
  "azure_new hc c =
     (case hc_b64_decode hc (az_account_key c) of
        Inl e \<Rightarrow> Inl (Internal (''Invalid Azure account key: '' @ e))
      | Inr key \<Rightarrow> Inr \<lparr>ab_account_name = az_account_name c, ab_account_key = key, ab_container = az_container c,
          ab_prefix = az_prefix c, ab_base_url = azure_base_url c\<rparr>)"

definition ab_blob_path :: "azure_backend \<Rightarrow> string \<Rightarrow> string" where
  "ab_blob_path b path = object_name (ab_prefix b) path"

definition ab_blob_url :: "azure_backend \<Rightarrow> string \<Rightarrow> string" where
  "ab_blob_url b bp = ab_base_url b @ ''/'' @ ab_container b @ ''/'' @ bp"

definition hmac_sign :: "'n http_client \<Rightarrow> azure_backend \<Rightarrow> string \<Rightarrow> string" where
  "hmac_sign hc b s = hc_b64 hc (hc_hmac hc (ab_account_key b) (str_bytes s))"

definition canonical_headers :: "string \<Rightarrow> (string \<times> string) list \<Rightarrow> string" where
  "canonical_headers date extra =
     concat (map (\<lambda>(k, v). k @ '':'' @ v @ nl)
       (sort_key fst ([(''x-ms-date'', date), (''x-ms-version'', API_VERSION)] @ filter (\<lambda>(k, v). prefix ''x-ms-'' k) extra)))"

definition canonical_resource :: "azure_backend \<Rightarrow> string \<Rightarrow> (string \<times> string) list \<Rightarrow> string" where
  "canonical_resource b resource_path query =
     ''/'' @ ab_account_name b @ ''/'' @ resource_path @ concat (map (\<lambda>(k, v). nl @ k @ '':'' @ v) (sort_key fst query))"

definition string_to_sign ::
    "azure_backend \<Rightarrow> string \<Rightarrow> string \<Rightarrow> string \<Rightarrow> nat option \<Rightarrow> string \<Rightarrow> (string \<times> string) list \<Rightarrow> (string \<times> string) list \<Rightarrow> string" where
  "string_to_sign b verb resource_path date content_length content_type extra query =
     verb @ nl @ nl @ nl @ (case content_length of None \<Rightarrow> [] | Some m \<Rightarrow> if m = 0 then [] else nat_str m) @ nl @ nl @
     content_type @ concat (replicate 7 nl) @ canonical_headers date extra @ canonical_resource b resource_path query"

definition shared_key_auth ::
    "'n http_client \<Rightarrow> azure_backend \<Rightarrow> string \<Rightarrow> string \<Rightarrow> string \<Rightarrow> nat option \<Rightarrow> string \<Rightarrow> (string \<times> string) list \<Rightarrow>
     (string \<times> string) list \<Rightarrow> string" where
  "shared_key_auth hc b verb resource_path date content_length content_type extra query =
     ''SharedKey '' @ ab_account_name b @ '':'' @
     hmac_sign hc b (string_to_sign b verb resource_path date content_length content_type extra query)"

definition generate_sas_url :: "'n http_client \<Rightarrow> azure_backend \<Rightarrow> string \<Rightarrow> nat \<Rightarrow> string option \<Rightarrow> 'n \<Rightarrow> string" where
  "generate_sas_url hc b bp expires_in filename n =
     (let now = hc_now hc n; expiry = now + secs (int expires_in);
          st = hc_iso hc now; se = hc_iso hc expiry; sp = ''r''; sr = ''b''; sv = API_VERSION;
          rscd = (case filename of None \<Rightarrow> [] | Some f \<Rightarrow> ''attachment; filename='' @ [CHR 0x22] @ f @ [CHR 0x22]);
          resource = ''/blob/'' @ ab_account_name b @ ''/'' @ ab_container b @ ''/'' @ bp;
          to_sign = sp @ nl @ st @ nl @ se @ nl @ resource @ concat (replicate 4 nl) @ sv @ nl @ sr @
            concat (replicate 3 nl) @ rscd @ concat (replicate 3 nl);
          sig = hmac_sign hc b to_sign;
          url = ab_blob_url b bp @ ''?sp='' @ sp @ ''&st='' @ hc_urlenc hc st @ ''&se='' @ hc_urlenc hc se @
            ''&sv='' @ sv @ ''&sr='' @ sr @ ''&sig='' @ hc_urlenc hc sig
      in if rscd \<noteq> [] then url @ ''&rscd='' @ hc_urlenc hc rscd else url)"

section \<open>Operations\<close>

text \<open>The request of a verb on a blob without a body.\<close>

definition blob_request :: "'n http_client \<Rightarrow> azure_backend \<Rightarrow> string \<Rightarrow> string \<Rightarrow> 'n \<Rightarrow> http_request" where
  "blob_request hc b verb bp n =
     (let date = hc_rfc1123 hc (hc_now hc n)
      in \<lparr>rq_method = verb, rq_url = ab_blob_url b bp, rq_basic = None,
          rq_headers = [(''Authorization'', shared_key_auth hc b verb (ab_container b @ ''/'' @ bp) date None [] [] []),
            (''x-ms-date'', date), (''x-ms-version'', API_VERSION)],
          rq_body = Empty_Body\<rparr>)"

definition list_account_containers_request :: "'n http_client \<Rightarrow> azure_backend \<Rightarrow> 'n \<Rightarrow> http_request" where
  "list_account_containers_request hc b n =
     (let date = hc_rfc1123 hc (hc_now hc n)
      in \<lparr>rq_method = ''GET'', rq_url = ab_base_url b @ ''/?comp=list'', rq_basic = None,
          rq_headers = [(''Authorization'', shared_key_auth hc b ''GET'' [] date None [] [] [(''comp'', ''list'')]),
            (''x-ms-date'', date), (''x-ms-version'', API_VERSION)],
          rq_body = Empty_Body\<rparr>)"

text \<open>
  The names between \<open>open\<close> tags: each part behind an opening tag is searched for the first \<open>Name\<close>
  element. \<open>None\<close> is the panic of a slice whose end lies before its start.
\<close>

fun section_names :: "string list \<Rightarrow> string list option" where
  "section_names [] = Some []"
| "section_names (s # ss) =
     (case (find_str ''<Name>'' s, find_str ''</Name>'' s) of
        (Some i, Some j) \<Rightarrow>
          (if i + 6 \<le> j then map_option (Cons (take (j - (i + 6)) (drop (i + 6) s))) (section_names ss) else None)
      | _ \<Rightarrow> section_names ss)"

definition listed_names :: "string \<Rightarrow> string \<Rightarrow> string list option" where
  "listed_names tag body = section_names (tl (split_str tag body))"

definition list_account_containers :: "'n http_client \<Rightarrow> azure_backend \<Rightarrow> 'n \<Rightarrow> string list app_result option \<times> 'n" where
  "list_account_containers hc b n =
     (case send hc ''Azure list containers failed: '' (list_account_containers_request hc b n) n of
        (Inl e, n1) \<Rightarrow> (Some (Inl e), n1)
      | (Inr rs, n1) \<Rightarrow>
         (if \<not> is_success rs then (Some (Inl (status_error hc ''Azure list containers failed with status '' rs)), n1)
          else (case body_text hc ''Azure list containers body read failed: '' rs of
                  Inl e \<Rightarrow> (Some (Inl e), n1)
                | Inr body \<Rightarrow> (map_option Inr (listed_names ''<Container>'' body), n1))))"

definition put_request :: "'n http_client \<Rightarrow> azure_backend \<Rightarrow> string \<Rightarrow> nat \<Rightarrow> (string \<times> string) list \<Rightarrow> bytes \<Rightarrow> 'n \<Rightarrow> http_request" where
  "put_request hc b bp len extra data n =
     (let date = hc_rfc1123 hc (hc_now hc n)
      in \<lparr>rq_method = ''PUT'', rq_url = ab_blob_url b bp, rq_basic = None,
          rq_headers = [(''Authorization'', shared_key_auth hc b ''PUT'' (ab_container b @ ''/'' @ bp) date (Some len)
              ''application/octet-stream'' [(''x-ms-blob-type'', ''BlockBlob'')] []),
            (''x-ms-date'', date), (''x-ms-version'', API_VERSION), (''x-ms-blob-type'', ''BlockBlob''),
            (''Content-Type'', ''application/octet-stream'')] @ extra,
          rq_body = Raw_Body data\<rparr>)"

definition upload_blob :: "'n http_client \<Rightarrow> azure_backend \<Rightarrow> string \<Rightarrow> bytes \<Rightarrow> 'n \<Rightarrow> http_response app_result \<times> 'n" where
  "upload_blob hc b bp data n = send hc ''Azure upload failed: '' (put_request hc b bp (length data) [] data n) n"

definition create_container_request :: "'n http_client \<Rightarrow> azure_backend \<Rightarrow> string \<Rightarrow> 'n \<Rightarrow> http_request" where
  "create_container_request hc b name n =
     (let date = hc_rfc1123 hc (hc_now hc n)
      in \<lparr>rq_method = ''PUT'', rq_url = ab_base_url b @ ''/'' @ name @ ''?restype=container'', rq_basic = None,
          rq_headers = [(''Authorization'', shared_key_auth hc b ''PUT'' name date (Some 0) [] [] [(''restype'', ''container'')]),
            (''x-ms-date'', date), (''x-ms-version'', API_VERSION), (''Content-Length'', ''0'')],
          rq_body = Empty_Body\<rparr>)"

definition create_account_container :: "'n http_client \<Rightarrow> azure_backend \<Rightarrow> string \<Rightarrow> 'n \<Rightarrow> unit app_result \<times> 'n" where
  "create_account_container hc b name n =
     andthen (send hc ''Azure create container failed: '' (create_container_request hc b name n))
       (\<lambda>rs. result (if \<not> is_success rs then Inl (status_error hc ''Azure create container failed with status '' rs)
                     else Inr ())) n"

definition azure_upload :: "'n http_client \<Rightarrow> azure_backend \<Rightarrow> string \<Rightarrow> bytes \<Rightarrow> 'n \<Rightarrow> unit app_result \<times> 'n" where
  "azure_upload hc b path data =
     (let bp = ab_blob_path b path
      in andthen (upload_blob hc b bp data) (\<lambda>rs.
           if \<not> is_success rs
           then (if contains_str ''ContainerNotFound'' (text_or_default hc rs)
                 then andthen (create_account_container hc b (ab_container b)) (\<lambda>_.
                        andthen (upload_blob hc b bp data) (\<lambda>retry.
                          result (if \<not> is_success retry then Inl (status_error hc ''Azure upload failed with status '' retry)
                                  else Inr ())))
                 else result (Inl (status_error hc ''Azure upload failed with status '' rs)))
           else result (Inr ())))"

text \<open>\<open>put_once\<close> opens the file anew for each attempt.\<close>

definition put_once ::
    "'n http_client \<Rightarrow> azure_backend \<Rightarrow> string \<Rightarrow> path \<Rightarrow> nat \<Rightarrow> fs \<Rightarrow> 'n \<Rightarrow> http_response app_result \<times> 'n" where
  "put_once hc b bp src len f n =
     (case open_file ''Failed to open temp file for Azure upload'' src f of
        Inl e \<Rightarrow> (Inl e, n)
      | Inr data \<Rightarrow> send hc ''Azure streaming upload failed: ''
          (put_request hc b bp len [(''Content-Length'', nat_str len)] data n) n)"

definition azure_upload_from_file ::
    "'n http_client \<Rightarrow> azure_backend \<Rightarrow> string \<Rightarrow> path \<Rightarrow> nat \<Rightarrow> fs \<Rightarrow> 'n \<Rightarrow> unit app_result \<times> 'n" where
  "azure_upload_from_file hc b path src len f =
     (let bp = ab_blob_path b path
      in andthen (put_once hc b bp src len f) (\<lambda>rs.
           if is_success rs then result (Inr ())
           else if contains_str ''ContainerNotFound'' (text_or_default hc rs)
           then andthen (create_account_container hc b (ab_container b)) (\<lambda>_.
                  andthen (put_once hc b bp src len f) (\<lambda>retry.
                    result (if \<not> is_success retry
                            then Inl (status_error hc ''Azure streaming upload failed with status '' retry)
                            else Inr ())))
           else result (Inl (status_error hc ''Azure streaming upload failed with status '' rs))))"

text \<open>The part \<open>download\<close> and \<open>download_to_file\<close> have in common: the request and the checks of its status.\<close>

definition azure_get :: "'n http_client \<Rightarrow> azure_backend \<Rightarrow> string \<Rightarrow> 'n \<Rightarrow> http_response app_result \<times> 'n" where
  "azure_get hc b path n =
     andthen (send hc ''Azure download failed: '' (blob_request hc b ''GET'' (ab_blob_path b path) n))
       (\<lambda>rs. result (if rs_status rs = 404 then Inl (NotFound (''File not found in Azure: '' @ path))
                     else if \<not> is_success rs then Inl (status_error hc ''Azure download failed with status '' rs)
                     else Inr rs)) n"

definition azure_download :: "'n http_client \<Rightarrow> azure_backend \<Rightarrow> string \<Rightarrow> 'n \<Rightarrow> bytes app_result \<times> 'n" where
  "azure_download hc b path =
     andthen (azure_get hc b path) (\<lambda>rs. result (body_bytes ''Azure download body read failed: '' rs))"

definition azure_download_to_file ::
    "'n http_client \<Rightarrow> azure_backend \<Rightarrow> string \<Rightarrow> path \<Rightarrow> fs \<times> 'n \<Rightarrow> unit app_result \<times> fs \<times> 'n" where
  "azure_download_to_file hc b path dst fn =
     (case azure_get hc b path (snd fn) of
        (Inl e, n1) \<Rightarrow> (Inl e, fst fn, n1)
      | (Inr rs, n1) \<Rightarrow> (let (r, f1) = stream_to_file ''Azure stream chunk error: '' rs dst (fst fn) in (r, f1, n1)))"

definition azure_delete :: "'n http_client \<Rightarrow> azure_backend \<Rightarrow> string \<Rightarrow> 'n \<Rightarrow> unit app_result \<times> 'n" where
  "azure_delete hc b path n =
     andthen (send hc ''Azure delete failed: '' (blob_request hc b ''DELETE'' (ab_blob_path b path) n))
       (\<lambda>rs. result (if \<not> is_success rs \<and> rs_status rs \<noteq> 404
                     then Inl (status_error hc ''Azure delete failed with status '' rs) else Inr ())) n"

definition azure_exists :: "'n http_client \<Rightarrow> azure_backend \<Rightarrow> string \<Rightarrow> 'n \<Rightarrow> bool app_result \<times> 'n" where
  "azure_exists hc b path n =
     andthen (send hc ''Azure head failed: '' (blob_request hc b ''HEAD'' (ab_blob_path b path) n))
       (\<lambda>rs. result (if is_success rs then Inr True
                     else if rs_status rs = 404 then Inr False
                     else Inl (Internal (''Azure head failed with status '' @ hc_status_str hc (rs_status rs))))) n"

definition azure_generate_temp_url ::
    "'n http_client \<Rightarrow> azure_backend \<Rightarrow> string \<Rightarrow> nat \<Rightarrow> string option \<Rightarrow> 'n \<Rightarrow> string option app_result" where
  "azure_generate_temp_url hc b path expires_in filename n =
     Inr (Some (generate_sas_url hc b (ab_blob_path b path) expires_in filename n))"

definition list_request :: "'n http_client \<Rightarrow> azure_backend \<Rightarrow> string \<Rightarrow> 'n \<Rightarrow> http_request" where
  "list_request hc b full_prefix n =
     (let date = hc_rfc1123 hc (hc_now hc n)
      in \<lparr>rq_method = ''GET'',
          rq_url = ab_base_url b @ ''/'' @ ab_container b @ ''?restype=container&comp=list&prefix='' @ hc_urlenc hc full_prefix,
          rq_basic = None,
          rq_headers = [(''Authorization'', shared_key_auth hc b ''GET'' (ab_container b) date None [] []
              [(''comp'', ''list''), (''prefix'', full_prefix), (''restype'', ''container'')]),
            (''x-ms-date'', date), (''x-ms-version'', API_VERSION)],
          rq_body = Empty_Body\<rparr>)"

definition azure_list :: "'n http_client \<Rightarrow> azure_backend \<Rightarrow> string \<Rightarrow> 'n \<Rightarrow> string list app_result option \<times> 'n" where
  "azure_list hc b pre n =
     (case send hc ''Azure list failed: '' (list_request hc b (ab_blob_path b pre) n) n of
        (Inl e, n1) \<Rightarrow> (Some (Inl e), n1)
      | (Inr rs, n1) \<Rightarrow>
         (if \<not> is_success rs then (Some (Inl (status_error hc ''Azure list failed with status '' rs)), n1)
          else (case body_text hc ''Azure list body read failed: '' rs of
                  Inl e \<Rightarrow> (Some (Inl e), n1)
                | Inr body \<Rightarrow> (map_option (\<lambda>ns. Inr (map (relative_name (ab_prefix b)) ns)) (listed_names ''<Blob>'' body), n1))))"

section \<open>Signatures\<close>

text \<open>
  The string Azure documents for \<open>SharedKey\<close>, computed from the request itself: the method, the length
  and the type of its body, its \<open>x-ms-\<close> headers in order, and the account with the path and the decoded
  query of its URL. A request is admitted when its signature is that of this string.
\<close>

definition query_pair :: "'n http_client \<Rightarrow> string \<Rightarrow> string \<times> string" where
  "query_pair hc s = (takeWhile (\<lambda>c. c \<noteq> CHR ''='') s, the (hc_urldec hc (tl (dropWhile (\<lambda>c. c \<noteq> CHR ''='') s))))"

definition url_query :: "'n http_client \<Rightarrow> string \<Rightarrow> (string \<times> string) list" where
  "url_query hc rest =
     (let q = dropWhile (\<lambda>c. c \<noteq> CHR ''?'') rest in if q = [] then [] else map (query_pair hc) (split_on (CHR ''&'') (tl q)))"

definition body_length :: "http_body \<Rightarrow> nat" where
  "body_length b = (case b of Raw_Body v \<Rightarrow> length v | _ \<Rightarrow> 0)"

definition documented_string :: "'n http_client \<Rightarrow> azure_backend \<Rightarrow> http_request \<Rightarrow> string" where
  "documented_string hc b rq =
     (let rest = drop (length (ab_base_url b)) (rq_url rq); len = body_length (rq_body rq)
      in rq_method rq @ nl @ nl @ nl @ (if len = 0 then [] else nat_str len) @ nl @ nl @
         unwrap_or [] (map_of (rq_headers rq) ''Content-Type'') @ concat (replicate 7 nl) @
         concat (map (\<lambda>(k, v). k @ '':'' @ v @ nl) (sort_key fst (filter (\<lambda>(k, v). prefix ''x-ms-'' k) (rq_headers rq)))) @
         ''/'' @ ab_account_name b @ takeWhile (\<lambda>c. c \<noteq> CHR ''?'') rest @
         concat (map (\<lambda>(k, v). nl @ k @ '':'' @ v) (sort_key fst (url_query hc rest))))"

definition azure_signed :: "'n http_client \<Rightarrow> azure_backend \<Rightarrow> http_request \<Rightarrow> bool" where
  "azure_signed hc b rq \<longleftrightarrow>
     map_of (rq_headers rq) ''Authorization'' =
       Some (''SharedKey '' @ ab_account_name b @ '':'' @ hmac_sign hc b (documented_string hc b rq))"

lemma no_query [simp]:
  assumes "CHR ''?'' \<notin> set s"
  shows "takeWhile (\<lambda>c. c \<noteq> CHR ''?'') s = s" and "url_query hc s = []"
proof -
  have d: "dropWhile (\<lambda>c. c \<noteq> CHR ''?'') s = []" using assms by (auto simp: dropWhile_eq_Nil_conv)
  show "takeWhile (\<lambda>c. c \<noteq> CHR ''?'') s = s" using assms by (auto simp: takeWhile_eq_all_conv)
  show "url_query hc s = []" using d by (simp add: url_query_def)
qed

lemma url_query_append:
  assumes "CHR ''?'' \<notin> set s"
  shows "takeWhile (\<lambda>c. c \<noteq> CHR ''?'') (s @ CHR ''?'' # q) = s"
    and "url_query hc (s @ CHR ''?'' # q) = map (query_pair hc) (split_on (CHR ''&'') q)"
  using assms by (simp_all add: url_query_def while_until)

lemma put_request_signed:
  assumes "CHR ''?'' \<notin> set (ab_container b @ bp)" and "len = length data"
    and "extra = [] \<or> extra = [(''Content-Length'', nat_str len)]"
  shows "azure_signed hc b (put_request hc b bp len extra data n)"
  using assms
  by (auto simp: azure_signed_def put_request_def documented_string_def shared_key_auth_def string_to_sign_def
      canonical_headers_def canonical_resource_def ab_blob_url_def body_length_def unwrap_or_def Let_def)

lemma blob_request_signed:
  assumes "CHR ''?'' \<notin> set (ab_container b @ bp)"
  shows "azure_signed hc b (blob_request hc b verb bp n)"
  using assms
  by (auto simp: azure_signed_def blob_request_def documented_string_def shared_key_auth_def string_to_sign_def
      canonical_headers_def canonical_resource_def ab_blob_url_def body_length_def unwrap_or_def Let_def)

lemma query_pairI: "CHR ''='' \<notin> set k \<Longrightarrow> hc_urldec hc v = Some w \<Longrightarrow> query_pair hc (k @ CHR ''='' # v) = (k, w)"
  by (simp add: query_pair_def while_until)

lemma create_container_request_signed:
  assumes "url_law hc" and "CHR ''?'' \<notin> set name"
  shows "azure_signed hc b (create_container_request hc b name n)"
proof -
  have "hc_urldec hc ''container'' = Some ''container''"
    by (rule url_lawD(5) [OF assms(1)]) (simp_all add: url_safe_def is_ascii_alphanumeric_def)
  then have "url_query hc (''/'' @ name @ ''?restype=container'') = [(''restype'', ''container'')]"
    using url_query_append(2) [of "''/'' @ name" hc "''restype=container''"] query_pairI [of "''restype''" hc "''container''"] assms(2)
    by simp
  moreover have "takeWhile (\<lambda>c. c \<noteq> CHR ''?'') (''/'' @ name @ ''?restype=container'') = ''/'' @ name"
    using url_query_append(1) [of "''/'' @ name" "''restype=container''"] assms(2) by simp
  ultimately show ?thesis
    by (simp add: azure_signed_def create_container_request_def documented_string_def shared_key_auth_def string_to_sign_def
        canonical_headers_def canonical_resource_def body_length_def unwrap_or_def Let_def)
qed

lemma list_account_containers_request_signed:
  assumes "url_law hc"
  shows "azure_signed hc b (list_account_containers_request hc b n)"
proof -
  have "hc_urldec hc ''list'' = Some ''list''"
    by (rule url_lawD(5) [OF assms(1)]) (simp_all add: url_safe_def is_ascii_alphanumeric_def)
  then have "url_query hc ''/?comp=list'' = [(''comp'', ''list'')]"
    using url_query_append(2) [of "''/''" hc "''comp=list''"] query_pairI [of "''comp''" hc "''list''"] by simp
  then show ?thesis
    by (simp add: azure_signed_def list_account_containers_request_def documented_string_def shared_key_auth_def string_to_sign_def
        canonical_headers_def canonical_resource_def body_length_def unwrap_or_def Let_def)
qed

lemma list_request_signed:
  assumes "url_law hc" and "CHR ''?'' \<notin> set (ab_container b)"
  shows "azure_signed hc b (list_request hc b fp n)"
proof -
  let ?q = "''restype=container&comp=list&prefix='' @ hc_urlenc hc fp"
  have dec: "hc_urldec hc ''container'' = Some ''container''" "hc_urldec hc ''list'' = Some ''list''"
    by (rule url_lawD(5) [OF assms(1)]; simp add: url_safe_def is_ascii_alphanumeric_def)+
  have "split_on (CHR ''&'') ?q = [''restype=container'', ''comp=list'', ''prefix='' @ hc_urlenc hc fp]"
    using split_on_no_sep [OF url_lawD(2) [OF assms(1)], of fp] by simp
  then have "url_query hc (''/'' @ ab_container b @ CHR ''?'' # ?q) = [(''restype'', ''container''), (''comp'', ''list''), (''prefix'', fp)]"
    using url_query_append(2) [of "''/'' @ ab_container b" hc ?q] assms(2) dec url_lawD(1) [OF assms(1), of fp]
      query_pairI [of "''restype''" hc "''container''"] query_pairI [of "''comp''" hc "''list''"] query_pairI [of "''prefix''" hc "hc_urlenc hc fp"]
    by simp
  moreover have "takeWhile (\<lambda>c. c \<noteq> CHR ''?'') (''/'' @ ab_container b @ CHR ''?'' # ?q) = ''/'' @ ab_container b"
    using url_query_append(1) [of "''/'' @ ab_container b" ?q] assms(2) by simp
  moreover have "sort_key fst [(''restype'', ''container''), (''comp'', ''list''), (''prefix'', fp)] =
      sort_key fst [(''comp'', ''list''), (''prefix'', fp), (''restype'', ''container'')]"
    by (simp add: less_char_def)
  ultimately show ?thesis
    by (simp add: azure_signed_def list_request_def documented_string_def shared_key_auth_def string_to_sign_def
        canonical_headers_def canonical_resource_def body_length_def unwrap_or_def Let_def)
qed

text \<open>The string documented for a service SAS, read off the query of the URL, and the check of its signature.\<close>

definition sas_string :: "azure_backend \<Rightarrow> string \<Rightarrow> (string \<times> string) list \<Rightarrow> string" where
  "sas_string b blob q =
     (let field = (\<lambda>k. unwrap_or [] (map_of q k))
      in field ''sp'' @ nl @ field ''st'' @ nl @ field ''se'' @ nl @ ''/blob/'' @ ab_account_name b @ blob @
         concat (replicate 4 nl) @ field ''sv'' @ nl @ field ''sr'' @ concat (replicate 3 nl) @ field ''rscd'' @
         concat (replicate 3 nl))"

definition sas_signed :: "'n http_client \<Rightarrow> azure_backend \<Rightarrow> string \<Rightarrow> bool" where
  "sas_signed hc b url \<longleftrightarrow>
     (let rest = drop (length (ab_base_url b)) url; q = url_query hc rest
      in map_of q ''sig'' = Some (hmac_sign hc b (sas_string b (takeWhile (\<lambda>c. c \<noteq> CHR ''?'') rest) q)))"

lemma sas_url_query:
  assumes "url_law hc"
  shows "map (query_pair hc) (split_on (CHR ''&'') (''sp=r&st='' @ hc_urlenc hc st @ ''&se='' @ hc_urlenc hc se @ ''&sv='' @ API_VERSION @
      ''&sr=b&sig='' @ hc_urlenc hc sig)) =
    [(''sp'', ''r''), (''st'', st), (''se'', se), (''sv'', API_VERSION), (''sr'', ''b''), (''sig'', sig)]"
    and "map (query_pair hc) (split_on (CHR ''&'') (''sp=r&st='' @ hc_urlenc hc st @ ''&se='' @ hc_urlenc hc se @ ''&sv='' @ API_VERSION @
      ''&sr=b&sig='' @ hc_urlenc hc sig @ ''&rscd='' @ hc_urlenc hc rscd)) =
    [(''sp'', ''r''), (''st'', st), (''se'', se), (''sv'', API_VERSION), (''sr'', ''b''), (''sig'', sig), (''rscd'', rscd)]"
proof -
  have dec: "hc_urldec hc ''r'' = Some ''r''" "hc_urldec hc ''b'' = Some ''b''" "hc_urldec hc API_VERSION = Some API_VERSION"
    by (rule url_lawD(5) [OF assms(1)]; simp add: url_safe_def is_ascii_alphanumeric_def API_VERSION_def)+
  have v: "CHR ''&'' \<notin> set API_VERSION" by (simp add: API_VERSION_def)
  have p: "split_on (CHR ''&'') (a @ CHR ''&'' # c) = split_on (CHR ''&'') a @ split_on (CHR ''&'') c" for a c
    by (rule split_on_append_sep)
  have e: "split_on (CHR ''&'') (k @ hc_urlenc hc x @ CHR ''&'' # c) = (k @ hc_urlenc hc x) # split_on (CHR ''&'') c"
    "split_on (CHR ''&'') (k @ hc_urlenc hc x) = [k @ hc_urlenc hc x]"
    if "CHR ''&'' \<notin> set k" for k x c
    using p [of "k @ hc_urlenc hc x" c] split_on_no_sep [of "CHR ''&''" "k @ hc_urlenc hc x"] url_lawD(2) [OF assms(1), of x] that
    by simp_all
  have f: "split_on (CHR ''&'') (''sv='' @ API_VERSION @ CHR ''&'' # c) = (''sv='' @ API_VERSION) # split_on (CHR ''&'') c" for c
    using p [of "''sv='' @ API_VERSION" c] split_on_no_sep [of "CHR ''&''" "''sv='' @ API_VERSION"] v by simp
  have q: "query_pair hc (''sp=r'') = (''sp'', ''r'')" "query_pair hc (''st='' @ hc_urlenc hc st) = (''st'', st)"
    "query_pair hc (''se='' @ hc_urlenc hc se) = (''se'', se)" "query_pair hc (''sv='' @ API_VERSION) = (''sv'', API_VERSION)"
    "query_pair hc (''sr=b'') = (''sr'', ''b'')" "query_pair hc (''sig='' @ hc_urlenc hc sig) = (''sig'', sig)"
    "query_pair hc (''rscd='' @ hc_urlenc hc rscd) = (''rscd'', rscd)"
    using query_pairI [of "''sp''" hc "''r''"] query_pairI [of "''st''" hc "hc_urlenc hc st"] query_pairI [of "''se''" hc "hc_urlenc hc se"]
      query_pairI [of "''sv''" hc API_VERSION] query_pairI [of "''sr''" hc "''b''"] query_pairI [of "''sig''" hc "hc_urlenc hc sig"]
      query_pairI [of "''rscd''" hc "hc_urlenc hc rscd"] dec url_lawD(1) [OF assms(1)] by simp_all
  have "split_on (CHR ''&'') (''sp=r&st='' @ hc_urlenc hc st @ ''&se='' @ hc_urlenc hc se @ ''&sv='' @ API_VERSION @ ''&sr=b&sig='' @ x) =
      [''sp=r'', ''st='' @ hc_urlenc hc st, ''se='' @ hc_urlenc hc se, ''sv='' @ API_VERSION, ''sr=b''] @ split_on (CHR ''&'') (''sig='' @ x)" for x
    using p [of "''sp=r''" "''st='' @ hc_urlenc hc st @ ''&se='' @ hc_urlenc hc se @ ''&sv='' @ API_VERSION @ ''&sr=b&sig='' @ x"]
      e(1) [of "''st=''" st "''se='' @ hc_urlenc hc se @ ''&sv='' @ API_VERSION @ ''&sr=b&sig='' @ x"]
      e(1) [of "''se=''" se "''sv='' @ API_VERSION @ ''&sr=b&sig='' @ x"] f [of "''sr=b&sig='' @ x"] p [of "''sr=b''" "''sig='' @ x"]
    by simp
  note all = this
  show "map (query_pair hc) (split_on (CHR ''&'') (''sp=r&st='' @ hc_urlenc hc st @ ''&se='' @ hc_urlenc hc se @ ''&sv='' @ API_VERSION @
      ''&sr=b&sig='' @ hc_urlenc hc sig)) =
    [(''sp'', ''r''), (''st'', st), (''se'', se), (''sv'', API_VERSION), (''sr'', ''b''), (''sig'', sig)]"
    unfolding all using q e(2) [of "''sig=''" sig] by simp
  show "map (query_pair hc) (split_on (CHR ''&'') (''sp=r&st='' @ hc_urlenc hc st @ ''&se='' @ hc_urlenc hc se @ ''&sv='' @ API_VERSION @
      ''&sr=b&sig='' @ hc_urlenc hc sig @ ''&rscd='' @ hc_urlenc hc rscd)) =
    [(''sp'', ''r''), (''st'', st), (''se'', se), (''sv'', API_VERSION), (''sr'', ''b''), (''sig'', sig), (''rscd'', rscd)]"
    unfolding all using q e(1) [of "''sig=''" sig "''rscd='' @ hc_urlenc hc rscd"] e(2) [of "''rscd=''" rscd] by simp
qed

lemma sas_url_signed:
  assumes "url_law hc" and "CHR ''?'' \<notin> set (ab_container b @ bp)"
  shows "sas_signed hc b (generate_sas_url hc b bp expires_in filename n)"
proof -
  let ?rest = "''/'' @ ab_container b @ ''/'' @ bp"
  have rest: "CHR ''?'' \<notin> set ?rest" using assms(2) by simp
  note q = sas_url_query [OF assms(1)] and u = url_query_append [OF rest]
  show ?thesis
  proof (cases filename)
    case None
    then show ?thesis
      using u(1) u(2) [where hc = hc] q(1)
      by (simp add: generate_sas_url_def sas_signed_def sas_string_def ab_blob_url_def Let_def unwrap_or_def)
  next
    case (Some f)
    then show ?thesis
      using u(1) u(2) [where hc = hc] q(2)
      by (simp add: generate_sas_url_def sas_signed_def sas_string_def ab_blob_url_def Let_def unwrap_or_def)
  qed
qed


definition demo_azure :: azure_backend where
  "demo_azure = \<lparr>ab_account_name = ''acct'', ab_account_key = [1, 2], ab_container = ''files'', ab_prefix = ''pre/'',
     ab_base_url = ''https://acct.blob.core.windows.net''\<rparr>"


section \<open>Listings\<close>

text \<open>
  A listing as the service renders it: something in front, then for each entry the tag, its name and
  the rest of the element.
\<close>

definition render_entry :: "string \<times> string \<Rightarrow> string" where
  "render_entry e = ''<Name>'' @ fst e @ ''</Name>'' @ snd e"

definition render_listing :: "string \<Rightarrow> string \<Rightarrow> (string \<times> string) list \<Rightarrow> string" where
  "render_listing tag head entries = head @ concat (map (\<lambda>e. tag @ render_entry e) entries)"

definition clean_of :: "string \<Rightarrow> string \<Rightarrow> bool" where
  "clean_of tag s \<longleftrightarrow> \<not> contains_str tag (s @ butlast tag)"

lemma clean_of_contains: "clean_of tag s \<Longrightarrow> \<not> contains_str tag s"
  unfolding clean_of_def contains_str_iff by (metis append.assoc)

lemma split_render:
  assumes "tag \<noteq> []" and "clean_of tag head" and "\<forall>e \<in> set entries. clean_of tag (render_entry e)"
  shows "split_str tag (render_listing tag head entries) = head # map render_entry entries"
  using assms(2,3)
proof (induction entries arbitrary: head)
  case Nil
  then show ?case using clean_of_contains [OF Nil(1)] by (simp add: render_listing_def split_str_last)
next
  case (Cons e entries)
  have "split_str tag (head @ tag @ render_listing tag (render_entry e) entries) = head # split_str tag (render_listing tag (render_entry e) entries)"
    by (rule split_str_first) (use Cons.prems(1) assms(1) in \<open>simp_all add: clean_of_def\<close>)
  with Cons show ?case by (simp add: render_listing_def)
qed

lemma section_names_render:
  assumes "\<forall>e \<in> set entries. CHR ''<'' \<notin> set (fst e)"
  shows "section_names (map render_entry entries) = Some (map fst entries)"
  using assms
proof (induction entries)
  case (Cons e entries)
  have "find_str ''<Name>'' (render_entry e) = Some 0" by (simp add: render_entry_def)
  moreover have "\<not> contains_str ''</Name>'' ((''<Name>'' @ fst e) @ butlast ''</Name>'')"
    using contains_str_skip [of "''</Name>''" "fst e" "''</Name''"] Cons.prems by simp
  then have "find_str ''</Name>'' (render_entry e) = Some (6 + length (fst e))"
    using find_str_first [of "''</Name>''" "''<Name>'' @ fst e" "snd e"] by (simp add: render_entry_def)
  ultimately show ?case using Cons by (simp add: render_entry_def)
qed simp

lemma clean_render_entry:
  assumes "tag = ''<Blob>'' \<or> tag = ''<Container>''" and "CHR ''<'' \<notin> set (fst e)" and "clean_of tag (snd e)"
  shows "clean_of tag (render_entry e)"
proof -
  have "contains_str tag (fst e @ ''</Name>'' @ snd e @ butlast tag) = contains_str tag (''</Name>'' @ snd e @ butlast tag)"
    using contains_str_skip [of tag "fst e"] assms(1,2) by auto
  with assms(1,3) show ?thesis by (auto simp: clean_of_def render_entry_def)
qed

lemma listed_names_render:
  assumes "tag = ''<Blob>'' \<or> tag = ''<Container>''" and "clean_of tag head"
    and "\<forall>e \<in> set entries. CHR ''<'' \<notin> set (fst e) \<and> clean_of tag (snd e)"
  shows "listed_names tag (render_listing tag head entries) = Some (map fst entries)"
  using split_render [of tag head entries] assms clean_render_entry section_names_render [of entries]
  by (auto simp: listed_names_def)

text \<open>
  A listing gives back the paths the objects were stored under: when the service answers a listing
  with the names of the blobs of some paths, each in an element of its own, the backend returns exactly
  these paths, in the order of the answer and without the prefix of the backend. The slices cannot panic on
  such an answer.
\<close>

theorem azure_list_returns_paths:
  assumes "hc_send hc (list_request hc b (ab_blob_path b pre) n) n = (Inr rs, n1)" and "is_success rs"
    and "collect_chunks (rs_chunks rs) = Inr body"
    and "hc_lossy hc body = render_listing ''<Blob>'' head (map (\<lambda>(p, rest). (ab_blob_path b p, rest)) entries)"
    and "clean_of ''<Blob>'' head"
    and "\<forall>(p, rest) \<in> set entries. CHR ''<'' \<notin> set (ab_blob_path b p) \<and> clean_of ''<Blob>'' rest"
  shows "azure_list hc b pre n = (Some (Inr (map fst entries)), n1)"
proof -
  have "listed_names ''<Blob>'' (hc_lossy hc body) = Some (map (\<lambda>(p, rest). ab_blob_path b p) entries)"
    unfolding assms(4) using listed_names_render [of "''<Blob>''" head "map (\<lambda>(p, rest). (ab_blob_path b p, rest)) entries"] assms(5,6)
    by (fastforce simp: split_beta o_def)
  then show ?thesis using assms(1-3)
    by (simp add: azure_list_def send_def body_text_def o_def split_beta ab_blob_path_def relative_name_object_name)
qed

definition demo_listing :: string where
  "demo_listing = render_listing ''<Blob>'' ''<Blobs>'' [(''pre/ab/cd'', ''</Blob>''), (''pre/ef'', ''</Blob></Blobs>'')]"

theorem azure_list_returns_paths_witness:
  "azure_list (memory_client (\<lambda>rq m. (Inr \<lparr>rs_status = 200, rs_chunks = [Inr (str_bytes demo_listing)]\<rparr>, m))) demo_azure [] [] =
     (Some (Inr [''ab/cd'', ''ef'']), [])"
proof -
  let ?hc = "memory_client (\<lambda>rq m. (Inr \<lparr>rs_status = 200, rs_chunks = [Inr (str_bytes demo_listing)]\<rparr>, m))"
  have "azure_list ?hc demo_azure [] [] = (Some (Inr (map fst [(''ab/cd'', ''</Blob>''), (''ef'', ''</Blob></Blobs>'')])), [])"
  proof (rule azure_list_returns_paths [where head = "''<Blobs>''" and body = "str_bytes demo_listing"])
    show "hc_send ?hc (list_request ?hc demo_azure (ab_blob_path demo_azure []) []) [] =
      (Inr \<lparr>rs_status = 200, rs_chunks = [Inr (str_bytes demo_listing)]\<rparr>, [])" by (simp add: memory_client_def)
    show "hc_lossy ?hc (str_bytes demo_listing) = render_listing ''<Blob>'' ''<Blobs>''
      (map (\<lambda>(p, rest). (ab_blob_path demo_azure p, rest)) [(''ab/cd'', ''</Blob>''), (''ef'', ''</Blob></Blobs>'')])"
      by code_simp
    show "clean_of ''<Blob>'' ''<Blobs>''" by code_simp
    show "\<forall>(p, rest) \<in> set [(''ab/cd'', ''</Blob>''), (''ef'', ''</Blob></Blobs>'')].
        CHR ''<'' \<notin> set (ab_blob_path demo_azure p) \<and> clean_of ''<Blob>'' rest" by code_simp
  qed (simp_all add: is_success_def)
  then show ?thesis by simp
qed

section \<open>The backend is an object store\<close>

definition azure_serves :: "azure_backend \<Rightarrow> ('n, string) service \<Rightarrow> bool" where
  "azure_serves b h \<longleftrightarrow> url_store h (azure_signed (sv_client h) b)"

definition azure_valid :: "azure_backend \<Rightarrow> string \<Rightarrow> bool" where
  "azure_valid b path \<longleftrightarrow> url_safe (ab_container b @ ''/'' @ ab_blob_path b path)"

definition azure_place :: "azure_backend \<Rightarrow> string \<Rightarrow> string" where
  "azure_place b path = ab_blob_url b (ab_blob_path b path)"

lemma url_safe_no_query: "url_safe s \<Longrightarrow> CHR ''?'' \<notin> set s"
  by (auto simp: url_safe_def list_all_iff is_ascii_alphanumeric_def dest!: bspec)

lemma azure_valid_no_query: "azure_valid b path \<Longrightarrow> CHR ''?'' \<notin> set (ab_container b @ ab_blob_path b path)"
  using url_safe_no_query by (fastforce simp: azure_valid_def)

lemma put_store:
  assumes "azure_serves b h" and "azure_valid b path" and "len = length data"
    and "extra = [] \<or> extra = [(''Content-Length'', nat_str len)]"
    and "send (sv_client h) msg (put_request (sv_client h) b (ab_blob_path b path) len extra data n) n = (r, n1)"
  shows "sv_store h n1 = (case r of Inr rs \<Rightarrow> if is_success rs then (sv_store h n)(azure_place b path \<mapsto> data) else sv_store h n
    | Inl _ \<Rightarrow> sv_store h n)"
proof -
  let ?rq = "put_request (sv_client h) b (ab_blob_path b path) len extra data n"
  obtain x n2 where s: "hc_send (sv_client h) ?rq n = (x, n2)" by fastforce
  have "azure_signed (sv_client h) b ?rq" using azure_valid_no_query [OF assms(2)] assms(3,4) by (rule put_request_signed)
  from url_store_put [OF assms(1) [unfolded azure_serves_def] s this] s assms(5) show ?thesis
    by (auto simp: put_request_def azure_place_def send_def Let_def split: sum.splits)
qed

lemma create_account_container_store:
  assumes "azure_serves b h" and "create_account_container (sv_client h) b name n = (r, n1)"
  shows "sv_store h n1 = sv_store h n"
proof -
  let ?rq = "create_container_request (sv_client h) b name n"
  obtain x n2 where s: "hc_send (sv_client h) ?rq n = (x, n2)" by fastforce
  have "sv_store h n2 = sv_store h n"
    by (rule url_store_other [OF assms(1) [unfolded azure_serves_def] s]) (simp_all add: create_container_request_def Let_def)
  with s assms(2) show ?thesis by (auto simp: create_account_container_def andthen_def send_def result_def split: sum.splits)
qed

lemma azure_upload_store:
  assumes "azure_serves b h" and "azure_valid b path" and "azure_upload (sv_client h) b path data n = (r, n1)"
  shows "sv_store h n1 = (case r of Inr _ \<Rightarrow> (sv_store h n)(azure_place b path \<mapsto> data) | Inl _ \<Rightarrow> sv_store h n)"
proof -
  let ?hc = "sv_client h" and ?bp = "ab_blob_path b path"
  note put = put_store [OF assms(1,2) refl disjI1 [OF refl]]
  obtain x n2 where u: "upload_blob ?hc b ?bp data n = (x, n2)" by fastforce
  note p1 = put [OF u [unfolded upload_blob_def]]
  show ?thesis
  proof (cases "\<exists>rs. x = Inr rs \<and> \<not> is_success rs \<and> contains_str ''ContainerNotFound'' (text_or_default ?hc rs)")
    case True
    then have st: "sv_store h n2 = sv_store h n" using p1 by auto
    obtain y n3 where c: "create_account_container ?hc b (ab_container b) n2 = (y, n3)" by fastforce
    obtain z n4 where v: "upload_blob ?hc b ?bp data n3 = (z, n4)" by fastforce
    from True u c v assms(3) put [OF v [unfolded upload_blob_def]] create_account_container_store [OF assms(1) c] st
    show ?thesis by (cases y; cases z) (auto simp: azure_upload_def andthen_def result_def Let_def)
  next
    case False
    with u assms(3) p1 show ?thesis by (cases x) (auto simp: azure_upload_def andthen_def result_def Let_def split: if_splits)
  qed
qed

lemma blob_request_simps [simp]:
  "rq_method (blob_request hc b verb bp n) = verb" "rq_url (blob_request hc b verb bp n) = ab_blob_url b bp"
  "rq_body (blob_request hc b verb bp n) = Empty_Body"
  by (simp_all add: blob_request_def Let_def)

lemma azure_download_store:
  assumes "azure_serves b h" and "azure_valid b path" and "azure_download (sv_client h) b path n = (r, n1)"
  shows "sv_store h n1 = sv_store h n \<and>
    (case sv_store h n (azure_place b path) of
       Some v \<Rightarrow> r = Inr v
     | None \<Rightarrow> r = Inl (NotFound (''File not found in Azure: '' @ path)))"
proof -
  have "azure_signed (sv_client h) b (blob_request (sv_client h) b ''GET'' (ab_blob_path b path) n)"
    using azure_valid_no_query [OF assms(2)] by (rule blob_request_signed)
  from assms(1) [unfolded azure_serves_def] this obtain rs n2 where
    s: "hc_send (sv_client h) (blob_request (sv_client h) b ''GET'' (ab_blob_path b path) n) n = (Inr rs, n2)"
    and st: "sv_store h n2 = sv_store h n"
    and c: "case sv_store h n (azure_place b path) of Some v \<Rightarrow> is_success rs \<and> collect_chunks (rs_chunks rs) = Inr v
      | None \<Rightarrow> rs_status rs = 404"
    by (rule url_store_get [where u = "azure_place b path"]) (auto simp: azure_place_def)
  from s assms(3) st c show ?thesis
    by (auto simp: azure_download_def azure_get_def andthen_def send_def result_def is_success_def split: option.splits)
qed

lemma azure_delete_store:
  assumes "azure_serves b h" and "azure_valid b path" and "azure_delete (sv_client h) b path n = (r, n1)"
  shows "sv_store h n1 = (case r of Inr _ \<Rightarrow> (sv_store h n)(azure_place b path := None) | Inl _ \<Rightarrow> sv_store h n)"
proof -
  let ?rq = "blob_request (sv_client h) b ''DELETE'' (ab_blob_path b path) n"
  obtain x n2 where s: "hc_send (sv_client h) ?rq n = (x, n2)" by fastforce
  have "azure_signed (sv_client h) b ?rq" using azure_valid_no_query [OF assms(2)] by (rule blob_request_signed)
  from url_store_delete [OF assms(1) [unfolded azure_serves_def] s this] s assms(3) show ?thesis
    by (auto simp: azure_delete_def azure_place_def andthen_def send_def result_def split: sum.splits if_splits)
qed

interpretation azure: atomic_backend "azure_serves b" sv_store "azure_valid b" "azure_place b"
    "\<lambda>h. azure_upload (sv_client h) b" "\<lambda>h. azure_download (sv_client h) b" "\<lambda>h. azure_delete (sv_client h) b" for b
proof (rule atomic_backendI, goal_cases)
  case (1 p q)
  then show ?case by (simp add: azure_place_def ab_blob_url_def ab_blob_path_def object_name_inj)
next
  case (2 h p v n r n1)
  then show ?case by (rule azure_upload_store)
next
  case (3 h p n x n1)
  from azure_download_store [OF this] show ?case by (auto split: option.splits)
next
  case (4 h p n r n1)
  then show ?case by (rule azure_delete_store)
qed

end
