(* ===== verification/Google_Storage.thy ===== *)
theory Google_Storage
  imports Http
begin

text \<open>
  The Google Cloud Storage backend (\<open>src/storage/gcs.rs\<close>): the access token, obtained with a signed
  assertion and cached, the V4 signed URL, and the operations of the JSON API, with the creation of a
  missing bucket. The state is the cached token and the network. Listing follows the page tokens of
  the service; a service that always names a next page is never left, so the loop is a partial function.
  The lock around the cache is not modelled: one operation runs at a time.

  Shown: over a service that behaves as documented the backend is an object store; a token is used
  only while it is valid for another minute or has just been issued; a listing ends after the last
  page and returns the names of all pages.
\<close>

definition GCS_UPLOAD_BASE :: string where "GCS_UPLOAD_BASE = ''https://storage.googleapis.com/upload/storage/v1''"
definition GCS_API_V1 :: string where "GCS_API_V1 = ''https://storage.googleapis.com/storage/v1''"
definition TOKEN_URI :: string where "TOKEN_URI = ''https://oauth2.googleapis.com/token''"
definition TOKEN_LIFETIME_SECS :: int where "TOKEN_LIFETIME_SECS = 3600"

record cached_token =
  ct_token :: string
  ct_expires_at :: time

record gcs_backend =
  gb_bucket :: string
  gb_prefix :: string
  gb_client_email :: string
  gb_private_key :: string
  gb_token_uri :: string
  gb_project_id :: "string option"

record 'n gcs_state =
  gs_cached_token :: "cached_token option"
  gs_net :: 'n

definition strip_suffix :: "string \<Rightarrow> string \<Rightarrow> string option" where
  "strip_suffix p s = (if suffix p s then Some (take (length s - length p) s) else None)"

definition gcs_new :: "'n http_client \<Rightarrow> gcs_config \<Rightarrow> gcs_backend app_result" where
  "gcs_new hc c =
     (case hc_rsa_from_pem hc (gcs_private_key_pem c) of
        Inl e \<Rightarrow> Inl (Internal (''Invalid GCS private key: '' @ e))
      | Inr _ \<Rightarrow> Inr \<lparr>gb_bucket = gcs_bucket c, gb_prefix = gcs_prefix c, gb_client_email = gcs_client_email c,
          gb_private_key = gcs_private_key_pem c, gb_token_uri = unwrap_or TOKEN_URI (gcs_token_uri c),
          gb_project_id =
            (case gcs_project_id c of
               Some p \<Rightarrow> Some p
             | None \<Rightarrow> (case split_on (CHR ''@'') (gcs_client_email c) of
                 _ # domain # _ \<Rightarrow> strip_suffix ''.iam.gserviceaccount.com'' domain
               | _ \<Rightarrow> None))\<rparr>)"

definition gb_object_path :: "gcs_backend \<Rightarrow> string \<Rightarrow> string" where
  "gb_object_path b path = object_name (gb_prefix b) path"

section \<open>Signatures\<close>

definition rsa_sign :: "'n http_client \<Rightarrow> gcs_backend \<Rightarrow> bytes \<Rightarrow> bytes" where
  "rsa_sign hc b data = hc_rsa_sign hc (gb_private_key b) data"

definition dq :: "string \<Rightarrow> string" where
  "dq s = [CHR 0x22] @ s @ [CHR 0x22]"

definition jwt_payload :: "gcs_backend \<Rightarrow> int \<Rightarrow> string" where
  "jwt_payload b issued =
     ''{'' @ dq ''iss'' @ '':'' @ dq (gb_client_email b) @ '','' @
     dq ''scope'' @ '':'' @ dq ''https://www.googleapis.com/auth/devstorage.full_control'' @ '','' @
     dq ''aud'' @ '':'' @ dq (gb_token_uri b) @ '','' @
     dq ''iat'' @ '':'' @ int_str issued @ '','' @ dq ''exp'' @ '':'' @ int_str (issued + TOKEN_LIFETIME_SECS) @ ''}''"

definition create_jwt :: "'n http_client \<Rightarrow> gcs_backend \<Rightarrow> 'n \<Rightarrow> string" where
  "create_jwt hc b n =
     (let now = hc_now hc n div 1000000;
          header = hc_b64url hc (str_bytes (''{'' @ dq ''alg'' @ '':'' @ dq ''RS256'' @ '','' @ dq ''typ'' @ '':'' @ dq ''JWT'' @ ''}''));
          unsigned = header @ ''.'' @ hc_b64url hc (str_bytes (jwt_payload b now))
      in unsigned @ ''.'' @ hc_b64url hc (rsa_sign hc b (str_bytes unsigned)))"

definition generate_signed_url_v4 :: "'n http_client \<Rightarrow> gcs_backend \<Rightarrow> string \<Rightarrow> nat \<Rightarrow> 'n \<Rightarrow> string" where
  "generate_signed_url_v4 hc b object expires_secs n =
     (let now = hc_now hc n; datetime = hc_compact hc now; date = hc_day hc now;
          scope = date @ ''/auto/storage/goog4_request'';
          credential = gb_client_email b @ ''/'' @ scope;
          host = ''storage.googleapis.com'';
          path = ''/'' @ gb_bucket b @ ''/'' @ hc_urlenc hc object;
          query_params = sort_key fst
            [(''X-Goog-Algorithm'', ''GOOG4-RSA-SHA256''), (''X-Goog-Credential'', credential), (''X-Goog-Date'', datetime),
             (''X-Goog-Expires'', nat_str expires_secs), (''X-Goog-SignedHeaders'', ''host'')];
          canonical_query = join_str ''&'' (map (\<lambda>(k, v). hc_urlenc hc k @ ''='' @ hc_urlenc hc v) query_params);
          nl = [CHR 0x0A];
          canonical_request = ''GET'' @ nl @ path @ nl @ canonical_query @ nl @ ''host:'' @ host @ nl @ nl @ ''host'' @ nl @ ''UNSIGNED-PAYLOAD'';
          hashed_request = hex_encode (hc_digest hc (str_bytes canonical_request));
          to_sign = ''GOOG4-RSA-SHA256'' @ nl @ datetime @ nl @ scope @ nl @ hashed_request
      in ''https://'' @ host @ path @ ''?'' @ canonical_query @ ''&X-Goog-Signature='' @ hex_encode (rsa_sign hc b (str_bytes to_sign)))"

section \<open>The access token\<close>

definition gcs_send :: "'n http_client \<Rightarrow> string \<Rightarrow> http_request \<Rightarrow> 'n gcs_state \<Rightarrow> http_response app_result \<times> 'n gcs_state" where
  "gcs_send hc msg rq s = (let (r, n1) = send hc msg rq (gs_net s) in (r, s\<lparr>gs_net := n1\<rparr>))"

definition token_request :: "'n http_client \<Rightarrow> gcs_backend \<Rightarrow> 'n \<Rightarrow> http_request" where
  "token_request hc b n =
     \<lparr>rq_method = ''POST'', rq_url = gb_token_uri b, rq_basic = None, rq_headers = [],
      rq_body = Form_Body [(''grant_type'', ''urn:ietf:params:oauth:grant-type:jwt-bearer''), (''assertion'', create_jwt hc b n)]\<rparr>"

text \<open>The cached token, if it is valid for another minute.\<close>

definition usable_token :: "'n http_client \<Rightarrow> 'n gcs_state \<Rightarrow> string option" where
  "usable_token hc s =
     (case gs_cached_token s of
        None \<Rightarrow> None
      | Some t \<Rightarrow> if hc_now hc (gs_net s) + secs 60 < ct_expires_at t then Some (ct_token t) else None)"

definition exchange_token :: "'n http_client \<Rightarrow> gcs_backend \<Rightarrow> 'n gcs_state \<Rightarrow> string app_result \<times> 'n gcs_state" where
  "exchange_token hc b s =
     andthen (gcs_send hc ''GCS token exchange failed: '' (token_request hc b (gs_net s))) (\<lambda>rs s1.
       if \<not> is_success rs then (Inl (status_error hc ''GCS token exchange failed with status '' rs), s1)
       else (case body_json hc ''GCS token response parse failed: '' rs of
               Inl e \<Rightarrow> (Inl e, s1)
             | Inr j \<Rightarrow>
                (case as_str (json_get j ''access_token'') of
                   None \<Rightarrow> (Inl (Internal ''No access_token in GCS response''), s1)
                 | Some t \<Rightarrow>
                    (Inr t, s1\<lparr>gs_cached_token := Some \<lparr>ct_token = t,
                       ct_expires_at = hc_now hc (gs_net s1) + secs (unwrap_or TOKEN_LIFETIME_SECS (json_i64 (json_get j ''expires_in'')))\<rparr>\<rparr>)))) s"

definition get_access_token :: "'n http_client \<Rightarrow> gcs_backend \<Rightarrow> 'n gcs_state \<Rightarrow> string app_result \<times> 'n gcs_state" where
  "get_access_token hc b s = (case usable_token hc s of Some t \<Rightarrow> (Inr t, s) | None \<Rightarrow> exchange_token hc b s)"

section \<open>Operations\<close>

definition bearer_request :: "string \<Rightarrow> string \<Rightarrow> string \<Rightarrow> (string \<times> string) list \<Rightarrow> http_body \<Rightarrow> http_request" where
  "bearer_request verb url token headers body =
     \<lparr>rq_method = verb, rq_url = url, rq_basic = None, rq_headers = (''Authorization'', ''Bearer '' @ token) # headers, rq_body = body\<rparr>"

definition upload_url :: "'n http_client \<Rightarrow> gcs_backend \<Rightarrow> string \<Rightarrow> string" where
  "upload_url hc b object =
     GCS_UPLOAD_BASE @ ''/b/'' @ hc_urlenc hc (gb_bucket b) @ ''/o?uploadType=media&name='' @ hc_urlenc hc object"

definition object_url :: "'n http_client \<Rightarrow> gcs_backend \<Rightarrow> string \<Rightarrow> string" where
  "object_url hc b object = GCS_API_V1 @ ''/b/'' @ hc_urlenc hc (gb_bucket b) @ ''/o/'' @ hc_urlenc hc object"

definition require_project :: "gcs_backend \<Rightarrow> string \<Rightarrow> string app_result" where
  "require_project b what =
     ok_or (BadRequest (''GCP project ID is required for bucket '' @ what @
       ''. Set gcp_project_id in config or use a standard service account email.'')) (gb_project_id b)"

definition gcs_create_container :: "'n http_client \<Rightarrow> gcs_backend \<Rightarrow> string \<Rightarrow> 'n gcs_state \<Rightarrow> unit app_result \<times> 'n gcs_state" where
  "gcs_create_container hc b name =
     andthen (result (require_project b ''creation'')) (\<lambda>project.
     andthen (get_access_token hc b) (\<lambda>token.
     andthen (gcs_send hc ''GCS create bucket failed: ''
         (bearer_request ''POST'' (GCS_API_V1 @ ''/b?project='' @ hc_urlenc hc project) token
            [(''Content-Type'', ''application/json'')] (Json_Body (JObj [(''name'', JStr name)])))) (\<lambda>rs.
       result (if \<not> is_success rs then Inl (status_error hc ''GCS create bucket failed with status '' rs) else Inr ()))))"

definition bucket_missing :: "'n http_client \<Rightarrow> http_response \<Rightarrow> bool" where
  "bucket_missing hc rs \<longleftrightarrow> rs_status rs = 404 \<and> contains_str ''notFound'' (text_or_default hc rs)"

definition post_object :: "'n http_client \<Rightarrow> gcs_backend \<Rightarrow> string \<Rightarrow> bytes \<Rightarrow> 'n gcs_state \<Rightarrow> http_response app_result \<times> 'n gcs_state" where
  "post_object hc b object data =
     andthen (get_access_token hc b) (\<lambda>token.
       gcs_send hc ''GCS upload failed: ''
         (bearer_request ''POST'' (upload_url hc b object) token [(''Content-Type'', ''application/octet-stream'')] (Raw_Body data)))"

definition gcs_upload :: "'n http_client \<Rightarrow> gcs_backend \<Rightarrow> string \<Rightarrow> bytes \<Rightarrow> 'n gcs_state \<Rightarrow> unit app_result \<times> 'n gcs_state" where
  "gcs_upload hc b path data =
     (let object = gb_object_path b path
      in andthen (post_object hc b object data) (\<lambda>rs.
           if \<not> is_success rs
           then (if bucket_missing hc rs
                 then andthen (gcs_create_container hc b (gb_bucket b)) (\<lambda>_.
                      andthen (post_object hc b object data) (\<lambda>retry.
                        result (if \<not> is_success retry then Inl (status_error hc ''GCS upload failed with status '' retry) else Inr ())))
                 else result (Inl (status_error hc ''GCS upload failed with status '' rs)))
           else result (Inr ())))"

text \<open>\<open>post_once\<close> takes the token first and then opens the file.\<close>

definition post_once ::
    "'n http_client \<Rightarrow> gcs_backend \<Rightarrow> string \<Rightarrow> path \<Rightarrow> nat \<Rightarrow> fs \<Rightarrow> 'n gcs_state \<Rightarrow> http_response app_result \<times> 'n gcs_state" where
  "post_once hc b object src len f =
     andthen (get_access_token hc b) (\<lambda>token.
     andthen (result (open_file ''Failed to open temp file for GCS upload'' src f)) (\<lambda>data.
       gcs_send hc ''GCS streaming upload failed: ''
         (bearer_request ''POST'' (upload_url hc b object) token
            [(''Content-Type'', ''application/octet-stream''), (''Content-Length'', nat_str len)] (Raw_Body data))))"

definition gcs_upload_from_file ::
    "'n http_client \<Rightarrow> gcs_backend \<Rightarrow> string \<Rightarrow> path \<Rightarrow> nat \<Rightarrow> fs \<Rightarrow> 'n gcs_state \<Rightarrow> unit app_result \<times> 'n gcs_state" where
  "gcs_upload_from_file hc b path src len f =
     (let object = gb_object_path b path
      in andthen (post_once hc b object src len f) (\<lambda>rs.
           if is_success rs then result (Inr ())
           else if bucket_missing hc rs
           then andthen (gcs_create_container hc b (gb_bucket b)) (\<lambda>_.
                andthen (post_once hc b object src len f) (\<lambda>retry.
                  result (if \<not> is_success retry
                          then Inl (status_error hc ''GCS streaming upload failed with status '' retry) else Inr ())))
           else result (Inl (status_error hc ''GCS streaming upload failed with status '' rs))))"

definition gcs_get :: "'n http_client \<Rightarrow> gcs_backend \<Rightarrow> string \<Rightarrow> 'n gcs_state \<Rightarrow> http_response app_result \<times> 'n gcs_state" where
  "gcs_get hc b path =
     andthen (get_access_token hc b) (\<lambda>token.
     andthen (gcs_send hc ''GCS download failed: ''
         (bearer_request ''GET'' (object_url hc b (gb_object_path b path) @ ''?alt=media'') token [] Empty_Body)) (\<lambda>rs.
       result (if rs_status rs = 404 then Inl (NotFound (''File not found in GCS: '' @ path))
               else if \<not> is_success rs then Inl (status_error hc ''GCS download failed with status '' rs)
               else Inr rs)))"

definition gcs_download :: "'n http_client \<Rightarrow> gcs_backend \<Rightarrow> string \<Rightarrow> 'n gcs_state \<Rightarrow> bytes app_result \<times> 'n gcs_state" where
  "gcs_download hc b path = andthen (gcs_get hc b path) (\<lambda>rs. result (body_bytes ''GCS download body read failed: '' rs))"

definition gcs_download_to_file ::
    "'n http_client \<Rightarrow> gcs_backend \<Rightarrow> string \<Rightarrow> path \<Rightarrow> fs \<times> 'n gcs_state \<Rightarrow> unit app_result \<times> fs \<times> 'n gcs_state" where
  "gcs_download_to_file hc b path dst fn =
     (case gcs_get hc b path (snd fn) of
        (Inl e, n1) \<Rightarrow> (Inl e, fst fn, n1)
      | (Inr rs, n1) \<Rightarrow> (let (r, f1) = stream_to_file ''GCS stream chunk error: '' rs dst (fst fn) in (r, f1, n1)))"

definition gcs_delete :: "'n http_client \<Rightarrow> gcs_backend \<Rightarrow> string \<Rightarrow> 'n gcs_state \<Rightarrow> unit app_result \<times> 'n gcs_state" where
  "gcs_delete hc b path =
     andthen (get_access_token hc b) (\<lambda>token.
     andthen (gcs_send hc ''GCS delete failed: ''
         (bearer_request ''DELETE'' (object_url hc b (gb_object_path b path)) token [] Empty_Body)) (\<lambda>rs.
       result (if \<not> is_success rs \<and> rs_status rs \<noteq> 404
               then Inl (status_error hc ''GCS delete failed with status '' rs) else Inr ())))"

definition gcs_exists :: "'n http_client \<Rightarrow> gcs_backend \<Rightarrow> string \<Rightarrow> 'n gcs_state \<Rightarrow> bool app_result \<times> 'n gcs_state" where
  "gcs_exists hc b path =
     andthen (get_access_token hc b) (\<lambda>token.
     andthen (gcs_send hc ''GCS metadata check failed: ''
         (bearer_request ''GET'' (object_url hc b (gb_object_path b path)) token [] Empty_Body)) (\<lambda>rs.
       result (if is_success rs then Inr True
               else if rs_status rs = 404 then Inr False
               else Inl (Internal (''GCS metadata check failed with status '' @ hc_status_str hc (rs_status rs))))))"

definition gcs_generate_temp_url ::
    "'n http_client \<Rightarrow> gcs_backend \<Rightarrow> string \<Rightarrow> nat \<Rightarrow> string option \<Rightarrow> 'n gcs_state \<Rightarrow> string option app_result" where
  "gcs_generate_temp_url hc b path expires_in filename s =
     Inr (Some (generate_signed_url_v4 hc b (gb_object_path b path) expires_in (gs_net s)))"

text \<open>The names of the items of an answer; items without a name are left out.\<close>

definition item_names :: "json \<Rightarrow> string list" where
  "item_names body =
     (case json_array (json_get body ''items'') of
        None \<Rightarrow> []
      | Some items \<Rightarrow> List.map_filter (\<lambda>item. as_str (json_get item ''name'')) items)"

definition gcs_list_containers :: "'n http_client \<Rightarrow> gcs_backend \<Rightarrow> 'n gcs_state \<Rightarrow> string list app_result \<times> 'n gcs_state" where
  "gcs_list_containers hc b =
     andthen (result (require_project b ''listing'')) (\<lambda>project.
     andthen (get_access_token hc b) (\<lambda>token.
     andthen (gcs_send hc ''GCS list buckets failed: ''
         (bearer_request ''GET'' (GCS_API_V1 @ ''/b?project='' @ hc_urlenc hc project) token [] Empty_Body)) (\<lambda>rs.
       result (if \<not> is_success rs then Inl (status_error hc ''GCS list buckets failed with status '' rs)
               else (case body_json hc ''GCS list buckets parse failed: '' rs of
                       Inl e \<Rightarrow> Inl e
                     | Inr body \<Rightarrow> Inr (item_names body))))))"

section \<open>Listing page by page\<close>

definition page_url :: "'n http_client \<Rightarrow> gcs_backend \<Rightarrow> string \<Rightarrow> string option \<Rightarrow> string" where
  "page_url hc b full_prefix page_token =
     GCS_API_V1 @ ''/b/'' @ hc_urlenc hc (gb_bucket b) @ ''/o?prefix='' @ hc_urlenc hc full_prefix @
     (case page_token of None \<Rightarrow> [] | Some t \<Rightarrow> ''&pageToken='' @ hc_urlenc hc t)"

text \<open>One page: its names and the token of the next page.\<close>

definition list_page ::
    "'n http_client \<Rightarrow> gcs_backend \<Rightarrow> string \<Rightarrow> string \<Rightarrow> string option \<Rightarrow> 'n gcs_state \<Rightarrow> (string list \<times> string option) app_result \<times> 'n gcs_state" where
  "list_page hc b full_prefix token page_token =
     andthen (gcs_send hc ''GCS list failed: '' (bearer_request ''GET'' (page_url hc b full_prefix page_token) token [] Empty_Body)) (\<lambda>rs.
       result (if \<not> is_success rs then Inl (status_error hc ''GCS list failed with status '' rs)
               else (case body_json hc ''GCS list parse failed: '' rs of
                       Inl e \<Rightarrow> Inl e
                     | Inr body \<Rightarrow> Inr (map (relative_name (gb_prefix b)) (item_names body), as_str (json_get body ''nextPageToken'')))))"

partial_function (option) list_pages ::
    "'n http_client \<Rightarrow> gcs_backend \<Rightarrow> string \<Rightarrow> string \<Rightarrow> string option \<Rightarrow> string list \<Rightarrow> 'n gcs_state \<Rightarrow>
     (string list app_result \<times> 'n gcs_state) option" where
  "list_pages hc b full_prefix token page_token results s =
     (case list_page hc b full_prefix token page_token s of
        (Inl e, s1) \<Rightarrow> Some (Inl e, s1)
      | (Inr (names, next_token), s1) \<Rightarrow>
         (case next_token of
            None \<Rightarrow> Some (Inr (results @ names), s1)
          | Some t \<Rightarrow> list_pages hc b full_prefix token (Some t) (results @ names) s1))"

definition gcs_list ::
    "'n http_client \<Rightarrow> gcs_backend \<Rightarrow> string \<Rightarrow> 'n gcs_state \<Rightarrow> (string list app_result \<times> 'n gcs_state) option" where
  "gcs_list hc b pre s =
     (case get_access_token hc b s of
        (Inl e, s1) \<Rightarrow> Some (Inl e, s1)
      | (Inr token, s1) \<Rightarrow> list_pages hc b (gb_object_path b pre) token None [] s1)"

section \<open>The access token\<close>

lemma exchange_token_Inr:
  assumes "exchange_token hc b s = (Inr t, s1)"
  shows "\<exists>rs n1 body j. hc_send hc (token_request hc b (gs_net s)) (gs_net s) = (Inr rs, n1) \<and> is_success rs \<and>
    collect_chunks (rs_chunks rs) = Inr body \<and> hc_json hc body = Inr j \<and> as_str (json_get j ''access_token'') = Some t \<and>
    s1 = \<lparr>gs_cached_token = Some \<lparr>ct_token = t, ct_expires_at = hc_now hc n1 +
      secs (unwrap_or TOKEN_LIFETIME_SECS (json_i64 (json_get j ''expires_in'')))\<rparr>, gs_net = n1\<rparr>"
  using assms
  by (cases s) (auto simp: exchange_token_def andthen_def gcs_send_def send_def body_json_def split: sum.splits prod.splits if_splits option.splits)

text \<open>
  C39: A token is sent only while it is good: the token of a request is the cached one, and then it does not
  expire within the next minute and nothing has been sent, or it is the one the token endpoint has just
  returned for an assertion signed by the account, and then it is in the cache with its time of expiry.
\<close>

theorem access_token_fresh:
  assumes "get_access_token hc b s = (Inr t, s1)"
  shows "(\<exists>c. gs_cached_token s = Some c \<and> ct_token c = t \<and> hc_now hc (gs_net s) + secs 60 < ct_expires_at c \<and> s1 = s) \<or>
    (\<exists>rs n1 body j c. usable_token hc s = None \<and> hc_send hc (token_request hc b (gs_net s)) (gs_net s) = (Inr rs, n1) \<and>
       is_success rs \<and> collect_chunks (rs_chunks rs) = Inr body \<and> hc_json hc body = Inr j \<and>
       as_str (json_get j ''access_token'') = Some t \<and> gs_cached_token s1 = Some c \<and> gs_net s1 = n1 \<and> ct_token c = t \<and>
       ct_expires_at c = hc_now hc n1 + secs (unwrap_or 3600 (json_i64 (json_get j ''expires_in''))))"
proof (cases "usable_token hc s")
  case None
  with assms have "exchange_token hc b s = (Inr t, s1)" by (simp add: get_access_token_def)
  from exchange_token_Inr [OF this] None show ?thesis by (auto simp: TOKEN_LIFETIME_SECS_def)
next
  case (Some u)
  with assms show ?thesis by (auto simp: get_access_token_def usable_token_def split: option.splits if_splits)
qed

section \<open>Listings end with the last page\<close>

text \<open>The names of the pages from a page token on, for at most \<open>k\<close> pages; \<open>None\<close> if there are more.\<close>

fun follow :: "(string option \<Rightarrow> string list \<times> string option) \<Rightarrow> nat \<Rightarrow> string option \<Rightarrow> string list option" where
  "follow pages 0 t = None"
| "follow pages (Suc k) t =
     (case pages t of
        (names, None) \<Rightarrow> Some names
      | (names, Some u) \<Rightarrow> map_option (append names) (follow pages k (Some u)))"

lemma list_pages_follow:
  assumes "\<And>t s. \<exists>s1. list_page hc b full_prefix token t s = (Inr (pages t), s1)"
    and "follow pages k t = Some names"
  shows "\<exists>s2. list_pages hc b full_prefix token t results s = Some (Inr (results @ names), s2)"
  using assms(2)
proof (induction k arbitrary: t names results s)
  case (Suc k)
  obtain ns u where pg: "pages t = (ns, u)" by fastforce
  obtain s1 where pl: "list_page hc b full_prefix token t s = (Inr (ns, u), s1)" using assms(1) pg by metis
  show ?case
  proof (cases u)
    case None
    with Suc.prems pg pl show ?thesis by (simp add: list_pages.simps)
  next
    case (Some v)
    with Suc.prems pg obtain rest where "follow pages k (Some v) = Some rest" "names = ns @ rest" by auto
    with Suc.IH [of "Some v" rest "results @ ns" s1] Some pl show ?thesis by (subst list_pages.simps) simp
  qed
qed simp

lemmas list_pages_induct = list_pages.raw_induct [rotated, consumes 1, case_names step]

lemma list_pages_returns:
  assumes "\<And>t s. \<exists>s1. list_page hc b full_prefix token t s = (Inr (pages t), s1)"
    and "list_pages hc b full_prefix token t results s = Some r"
  shows "\<exists>k names. follow pages k t = Some names"
proof -
  have "hc' = hc \<longrightarrow> b' = b \<longrightarrow> fp = full_prefix \<longrightarrow> tok = token \<longrightarrow> (\<exists>k names. follow pages k t = Some names)"
    if "list_pages hc' b' fp tok t results s = Some r" for hc' b' fp tok
    using that
  proof (induction rule: list_pages_induct)
    case (step list_pages hc' b' fp tok t results s r)
    show ?case
    proof (intro impI)
      assume eq: "hc' = hc" "b' = b" "fp = full_prefix" "tok = token"
      obtain ns u where pg: "pages t = (ns, u)" by fastforce
      obtain s1 where pl: "list_page hc b full_prefix token t s = (Inr (ns, u), s1)" using assms(1) pg by metis
      show "\<exists>k names. follow pages k t = Some names"
      proof (cases u)
        case None
        with pg have "follow pages 1 t = Some ns" by simp
        then show ?thesis by blast
      next
        case (Some v)
        with "step.hyps" pl eq have "list_pages hc' b' fp tok (Some v) (results @ ns) s1 = Some r" by simp
        from "step.IH" [OF this] eq obtain k names where "follow pages k (Some v) = Some names" by blast
        with pg Some have "follow pages (Suc k) t = Some (ns @ names)" by simp
        then show ?thesis by blast
      qed
    qed
  qed
  with assms(2) show ?thesis by blast
qed


section \<open>The backend is an object store\<close>

text \<open>
  The requests of the JSON API for the objects of a bucket, with any bearer token; and a token endpoint
  that answers every assertion of the account with a token.
\<close>

definition bearer :: "http_request \<Rightarrow> bool" where
  "bearer rq \<longleftrightarrow> (\<exists>t rest. rq_headers rq = (''Authorization'', ''Bearer '' @ t) # rest)"

definition gcs_reads :: "'n http_client \<Rightarrow> gcs_backend \<Rightarrow> http_request \<Rightarrow> string \<Rightarrow> bool" where
  "gcs_reads hc b rq k \<longleftrightarrow> bearer rq \<and> rq_method rq = ''GET'' \<and> rq_url rq = object_url hc b k @ ''?alt=media''"

definition gcs_writes :: "'n http_client \<Rightarrow> gcs_backend \<Rightarrow> http_request \<Rightarrow> string \<Rightarrow> bytes \<Rightarrow> bool" where
  "gcs_writes hc b rq k v \<longleftrightarrow> bearer rq \<and> rq_method rq = ''POST'' \<and> rq_url rq = upload_url hc b k \<and> rq_body rq = Raw_Body v"

definition gcs_deletes :: "'n http_client \<Rightarrow> gcs_backend \<Rightarrow> http_request \<Rightarrow> string \<Rightarrow> bool" where
  "gcs_deletes hc b rq k \<longleftrightarrow> bearer rq \<and> rq_method rq = ''DELETE'' \<and> rq_url rq = object_url hc b k"

definition gcs_serves :: "gcs_backend \<Rightarrow> ('n, string) service \<Rightarrow> bool" where
  "gcs_serves b h \<longleftrightarrow>
     object_server (sv_client h) (sv_store h) (gcs_reads (sv_client h) b) (gcs_writes (sv_client h) b) (gcs_deletes (sv_client h) b) \<and>
     (\<forall>n m. \<exists>rs n1 body j t. hc_send (sv_client h) (token_request (sv_client h) b m) n = (Inr rs, n1) \<and> is_success rs \<and>
        collect_chunks (rs_chunks rs) = Inr body \<and> hc_json (sv_client h) body = Inr j \<and> as_str (json_get j ''access_token'') = Some t)"

abbreviation gcs_store :: "('n, string) service \<Rightarrow> 'n gcs_state \<Rightarrow> string \<Rightarrow> bytes option" where
  "gcs_store h s \<equiv> sv_store h (gs_net s)"

lemma bearer_request_simps [simp]:
  "rq_method (bearer_request verb url token headers body) = verb" "rq_url (bearer_request verb url token headers body) = url"
  "rq_body (bearer_request verb url token headers body) = body" "bearer (bearer_request verb url token headers body)"
  by (simp_all add: bearer_request_def bearer_def)

lemma gcs_server:
  assumes "gcs_serves b h"
  shows "gcs_reads (sv_client h) b rq k \<Longrightarrow> \<exists>rs n1. hc_send (sv_client h) rq n = (Inr rs, n1) \<and> sv_store h n1 = sv_store h n \<and>
      (case sv_store h n k of Some v \<Rightarrow> is_success rs \<and> collect_chunks (rs_chunks rs) = Inr v | None \<Rightarrow> rs_status rs = 404)"
    and "gcs_writes (sv_client h) b rq k v \<Longrightarrow> hc_send (sv_client h) rq n = (r, n1) \<Longrightarrow>
      sv_store h n1 = (case r of Inr rs \<Rightarrow> if is_success rs then (sv_store h n)(k \<mapsto> v) else sv_store h n | Inl _ \<Rightarrow> sv_store h n)"
    and "gcs_deletes (sv_client h) b rq k \<Longrightarrow> hc_send (sv_client h) rq n = (r, n1) \<Longrightarrow>
      sv_store h n1 = (case r of Inr rs \<Rightarrow> if is_success rs \<or> rs_status rs = 404 then (sv_store h n)(k := None) else sv_store h n
        | Inl _ \<Rightarrow> sv_store h n)"
  using assms unfolding gcs_serves_def object_server_def by blast+

lemma gcs_send_split:
  "hc_send hc rq (gs_net s) = (x, n) \<Longrightarrow>
     gcs_send hc msg rq s = (case x of Inl e \<Rightarrow> Inl (Internal (msg @ e)) | Inr rs \<Rightarrow> Inr rs, s\<lparr>gs_net := n\<rparr>)"
  by (simp add: gcs_send_def send_def split: sum.split)

lemma gcs_other:
  assumes "gcs_serves b h" and "gcs_send (sv_client h) msg rq s = (r, s1)"
    and "rq_method rq \<noteq> ''DELETE''" and "\<nexists>v. rq_body rq = Raw_Body v"
  shows "gcs_store h s1 = gcs_store h s"
proof -
  have "sv_store h (snd (hc_send (sv_client h) rq (gs_net s))) = gcs_store h s"
    by (rule object_serverD(4) [OF conjunct1 [OF assms(1) [unfolded gcs_serves_def]]])
      (use assms(3,4) in \<open>auto simp: gcs_writes_def gcs_deletes_def\<close>)
  with assms(2) show ?thesis by (auto simp: gcs_send_def send_def split: prod.splits sum.splits)
qed

lemma access_token_served:
  assumes "gcs_serves b h"
  obtains t s1 where "get_access_token (sv_client h) b s = (Inr t, s1)" and "gcs_store h s1 = gcs_store h s"
proof (cases "usable_token (sv_client h) s")
  case None
  let ?hc = "sv_client h"
  from assms obtain rs n1 body j t where s: "hc_send ?hc (token_request ?hc b (gs_net s)) (gs_net s) = (Inr rs, n1)" "is_success rs"
    "collect_chunks (rs_chunks rs) = Inr body" "hc_json ?hc body = Inr j" "as_str (json_get j ''access_token'') = Some t"
    unfolding gcs_serves_def by blast
  then have g: "gcs_send ?hc ''GCS token exchange failed: '' (token_request ?hc b (gs_net s)) s = (Inr rs, s\<lparr>gs_net := n1\<rparr>)"
    by (simp add: gcs_send_def send_def)
  obtain s1 where "get_access_token ?hc b s = (Inr t, s1)" "gs_net s1 = n1"
    using None s g by (auto simp: get_access_token_def exchange_token_def body_json_def)
  moreover have "gcs_store h (s\<lparr>gs_net := n1\<rparr>) = gcs_store h s"
    by (rule gcs_other [OF assms g]) (simp_all add: token_request_def)
  ultimately show thesis using that by simp
next
  case (Some t)
  then show thesis using that [of t s] by (simp add: get_access_token_def)
qed

lemma post_object_store:
  assumes "gcs_serves b h" and "post_object (sv_client h) b object data s = (r, s1)"
  shows "gcs_store h s1 = (case r of Inr rs \<Rightarrow> if is_success rs then (gcs_store h s)(object \<mapsto> data) else gcs_store h s
    | Inl _ \<Rightarrow> gcs_store h s)"
proof -
  obtain t s2 where t: "get_access_token (sv_client h) b s = (Inr t, s2)" and st: "gcs_store h s2 = gcs_store h s"
    using access_token_served [OF assms(1)] by blast
  let ?rq = "bearer_request ''POST'' (upload_url (sv_client h) b object) t [(''Content-Type'', ''application/octet-stream'')] (Raw_Body data)"
  obtain x n where s: "hc_send (sv_client h) ?rq (gs_net s2) = (x, n)" by fastforce
  have "gcs_writes (sv_client h) b ?rq object data" by (simp add: gcs_writes_def)
  note st1 = gcs_server(2) [OF assms(1) this s]
  have "(r, s1) = (case x of Inl e \<Rightarrow> Inl (Internal (''GCS upload failed: '' @ e)) | Inr rs \<Rightarrow> Inr rs, s2\<lparr>gs_net := n\<rparr>)"
    using assms(2) by (simp add: post_object_def t gcs_send_split [OF s])
  with st1 st show ?thesis by (cases x) simp_all
qed

lemma gcs_create_container_store:
  assumes "gcs_serves b h" and "gcs_create_container (sv_client h) b name s = (r, s1)"
  shows "gcs_store h s1 = gcs_store h s"
proof (cases "gb_project_id b")
  case None
  with assms(2) show ?thesis by (auto simp: gcs_create_container_def require_project_def andthen_def result_def ok_or_def)
next
  case (Some project)
  obtain t s2 where t: "get_access_token (sv_client h) b s = (Inr t, s2)" and st: "gcs_store h s2 = gcs_store h s"
    using access_token_served [OF assms(1)] by blast
  let ?rq = "bearer_request ''POST'' (GCS_API_V1 @ ''/b?project='' @ hc_urlenc (sv_client h) project) t
    [(''Content-Type'', ''application/json'')] (Json_Body (JObj [(''name'', JStr name)]))"
  obtain x s3 where s: "gcs_send (sv_client h) ''GCS create bucket failed: '' ?rq s2 = (x, s3)" by fastforce
  have "gcs_store h s3 = gcs_store h s2" by (rule gcs_other [OF assms(1) s]) simp_all
  moreover have "s1 = s3"
    using assms(2) t s Some by (cases x) (auto simp: gcs_create_container_def require_project_def andthen_def result_def ok_or_def)
  ultimately show ?thesis using st by simp
qed

lemma gcs_upload_store:
  assumes "gcs_serves b h" and "gcs_upload (sv_client h) b path data s = (r, s1)"
  shows "gcs_store h s1 = (case r of Inr _ \<Rightarrow> (gcs_store h s)(gb_object_path b path \<mapsto> data) | Inl _ \<Rightarrow> gcs_store h s)"
proof -
  let ?hc = "sv_client h" and ?object = "gb_object_path b path"
  obtain x s2 where u: "post_object ?hc b ?object data s = (x, s2)" by fastforce
  note p1 = post_object_store [OF assms(1) u]
  show ?thesis
  proof (cases "\<exists>rs. x = Inr rs \<and> \<not> is_success rs \<and> bucket_missing ?hc rs")
    case True
    then have st: "gcs_store h s2 = gcs_store h s" using p1 by auto
    obtain y s3 where c: "gcs_create_container ?hc b (gb_bucket b) s2 = (y, s3)" by fastforce
    obtain z s4 where v: "post_object ?hc b ?object data s3 = (z, s4)" by fastforce
    from True u c v assms(2) post_object_store [OF assms(1) v] gcs_create_container_store [OF assms(1) c] st
    show ?thesis by (cases y; cases z) (auto simp: gcs_upload_def andthen_def result_def Let_def)
  next
    case False
    with u assms(2) p1 show ?thesis by (cases x) (auto simp: gcs_upload_def andthen_def result_def Let_def split: if_splits)
  qed
qed

lemma gcs_download_store:
  assumes "gcs_serves b h" and "gcs_download (sv_client h) b path s = (r, s1)"
  shows "gcs_store h s1 = gcs_store h s \<and>
    (case gcs_store h s (gb_object_path b path) of
       Some v \<Rightarrow> r = Inr v
     | None \<Rightarrow> r = Inl (NotFound (''File not found in GCS: '' @ path)))"
proof -
  let ?hc = "sv_client h" and ?object = "gb_object_path b path"
  obtain t s2 where t: "get_access_token ?hc b s = (Inr t, s2)" and st: "gcs_store h s2 = gcs_store h s"
    using access_token_served [OF assms(1)] by blast
  let ?rq = "bearer_request ''GET'' (object_url ?hc b ?object @ ''?alt=media'') t [] Empty_Body"
  have "gcs_reads ?hc b ?rq ?object" by (simp add: gcs_reads_def)
  from gcs_server(1) [OF assms(1) this, of "gs_net s2"] obtain rs n1 where
    s: "hc_send ?hc ?rq (gs_net s2) = (Inr rs, n1)" "sv_store h n1 = gcs_store h s2"
    and c: "case gcs_store h s2 ?object of Some v \<Rightarrow> is_success rs \<and> collect_chunks (rs_chunks rs) = Inr v | None \<Rightarrow> rs_status rs = 404"
    by blast
  from s(1) have g: "gcs_send ?hc ''GCS download failed: '' ?rq s2 = (Inr rs, s2\<lparr>gs_net := n1\<rparr>)"
    by (simp add: gcs_send_def send_def)
  have get: "gcs_get ?hc b path s = (if rs_status rs = 404 then Inl (NotFound (''File not found in GCS: '' @ path))
      else if \<not> is_success rs then Inl (status_error ?hc ''GCS download failed with status '' rs) else Inr rs, s2\<lparr>gs_net := n1\<rparr>)"
    by (simp add: gcs_get_def t g result_def)
  show ?thesis
  proof (cases "gcs_store h s ?object")
    case None
    with c st have "rs_status rs = 404" by simp
    with get assms(2) None s(2) st show ?thesis by (auto simp: gcs_download_def andthen_def)
  next
    case (Some v)
    with c st have ok: "is_success rs" "collect_chunks (rs_chunks rs) = Inr v" by simp_all
    then have "rs_status rs \<noteq> 404" using not_found_no_success by blast
    with get ok have "gcs_get ?hc b path s = (Inr rs, s2\<lparr>gs_net := n1\<rparr>)" by simp
    with assms(2) ok(2) Some s(2) st show ?thesis by (simp add: gcs_download_def body_bytes_def) (metis gcs_state.select_convs(2) gcs_state.surjective gcs_state.update_convs(2))
  qed
qed

lemma gcs_delete_store:
  assumes "gcs_serves b h" and "gcs_delete (sv_client h) b path s = (r, s1)"
  shows "gcs_store h s1 = (case r of Inr _ \<Rightarrow> (gcs_store h s)(gb_object_path b path := None) | Inl _ \<Rightarrow> gcs_store h s)"
proof -
  let ?hc = "sv_client h" and ?object = "gb_object_path b path"
  obtain t s2 where t: "get_access_token ?hc b s = (Inr t, s2)" and st: "gcs_store h s2 = gcs_store h s"
    using access_token_served [OF assms(1)] by blast
  let ?rq = "bearer_request ''DELETE'' (object_url ?hc b ?object) t [] Empty_Body"
  obtain x n where s: "hc_send ?hc ?rq (gs_net s2) = (x, n)" by fastforce
  have "gcs_deletes ?hc b ?rq ?object" by (simp add: gcs_deletes_def)
  note st1 = gcs_server(3) [OF assms(1) this s]
  show ?thesis
  proof (cases x)
    case (Inl e)
    with assms(2) have "s1 = s2\<lparr>gs_net := n\<rparr>" "r = Inl (Internal (''GCS delete failed: '' @ e))"
      by (simp_all add: gcs_delete_def t andthen_error [where e = "Internal (''GCS delete failed: '' @ e)"] gcs_send_split [OF s])
    with st1 Inl st show ?thesis by simp
  next
    case (Inr rs)
    with assms(2) have "s1 = s2\<lparr>gs_net := n\<rparr>" "(\<exists>u. r = Inr u) \<longleftrightarrow> is_success rs \<or> rs_status rs = 404"
      by (auto simp: gcs_delete_def t gcs_send_split [OF s] result_def split: if_splits)
    with st1 Inr st show ?thesis by (cases r) auto
  qed
qed

interpretation gcs: atomic_backend "gcs_serves b" gcs_store "\<lambda>path. True" "gb_object_path b"
    "\<lambda>h. gcs_upload (sv_client h) b" "\<lambda>h. gcs_download (sv_client h) b" "\<lambda>h. gcs_delete (sv_client h) b" for b
proof (rule atomic_backendI, goal_cases)
  case (1 p q)
  then show ?case by (simp add: gb_object_path_def object_name_inj)
next
  case (2 h p v n r n1)
  from gcs_upload_store [OF this(1,3)] show ?case .
next
  case (3 h p n x n1)
  from gcs_download_store [OF this(1,3)] show ?case by (auto split: option.splits)
next
  case (4 h p n r n1)
  from gcs_delete_store [OF this(1,3)] show ?case .
qed

section \<open>A service in memory\<close>

definition demo_gcs :: gcs_backend where
  "demo_gcs = \<lparr>gb_bucket = ''bucket'', gb_prefix = ''pre'', gb_client_email = ''sa@p.iam.gserviceaccount.com'', gb_private_key = ''key'',
     gb_token_uri = TOKEN_URI, gb_project_id = Some ''p''\<rparr>"

text \<open>The name behind a fixed part of a URL.\<close>

definition decode_name :: "string \<Rightarrow> string \<Rightarrow> string option" where
  "decode_name base s =
     (case strip_prefix base s of
        None \<Rightarrow> None
      | Some r \<Rightarrow> (case percent_decode r of None \<Rightarrow> None | Some k \<Rightarrow> if percent_encode k = r then Some k else None))"

lemma decode_name_iff: "decode_name base s = Some k \<longleftrightarrow> s = base @ percent_encode k"
proof
  assume "decode_name base s = Some k"
  then obtain r where "strip_prefix base s = Some r" "percent_encode k = r"
    by (auto simp: decode_name_def split: option.splits if_splits)
  then show "s = base @ percent_encode k" by (metis strip_prefix_Some)
next
  assume "s = base @ percent_encode k"
  then have "strip_prefix base s = Some (percent_encode k)" by (simp add: strip_prefix_def)
  then show "decode_name base s = Some k" by (simp add: decode_name_def percent_round_trip)
qed

definition named :: "(string \<Rightarrow> access) \<Rightarrow> string option \<Rightarrow> access" where
  "named f x = (case x of None \<Rightarrow> Other | Some k \<Rightarrow> f k)"

definition gcs_access :: "gcs_backend \<Rightarrow> http_request \<Rightarrow> access" where
  "gcs_access b rq =
     (let bucket = ''/b/'' @ percent_encode (gb_bucket b) @ ''/o''
      in if rq_headers rq = [] \<or> fst (hd (rq_headers rq)) \<noteq> ''Authorization'' \<or> \<not> prefix ''Bearer '' (snd (hd (rq_headers rq))) then Other
         else if rq_method rq = ''GET'' then
           (case strip_suffix ''?alt=media'' (rq_url rq) of
              None \<Rightarrow> Other | Some u \<Rightarrow> named Read (decode_name (GCS_API_V1 @ bucket @ ''/'') u))
         else if rq_method rq = ''POST'' then
           (case rq_body rq of
              Raw_Body data \<Rightarrow> named (\<lambda>k. Write k data) (decode_name (GCS_UPLOAD_BASE @ bucket @ ''?uploadType=media&name='') (rq_url rq))
            | _ \<Rightarrow> Other)
         else if rq_method rq = ''DELETE'' then named Remove (decode_name (GCS_API_V1 @ bucket @ ''/'') (rq_url rq))
         else Other)"

definition gcs_memory :: "gcs_backend \<Rightarrow> (memory, string) service" where
  "gcs_memory b = \<lparr>sv_client = (memory_client (memory_send (gcs_access b)))
     \<lparr>hc_json := (\<lambda>body. Inr (JObj [(''access_token'', JStr ''token''), (''expires_in'', JNum 3600)]))\<rparr>, sv_store = map_of\<rparr>"

lemma strip_suffix_iff: "strip_suffix p s = Some u \<longleftrightarrow> s = u @ p"
  by (auto simp: strip_suffix_def intro: suffixI elim!: suffixE)

lemma named_iff [simp]:
  "named Read x = Read k \<longleftrightarrow> x = Some k" "named Remove x = Remove k \<longleftrightarrow> x = Some k"
  "named (\<lambda>k. Write k v) x = Write k w \<longleftrightarrow> x = Some k \<and> v = w"
  "named Read x \<noteq> Write k w" "named Read x \<noteq> Remove k" "named Remove x \<noteq> Read k" "named Remove x \<noteq> Write k w"
  "named (\<lambda>k. Write k v) x \<noteq> Read k" "named (\<lambda>k. Write k v) x \<noteq> Remove k"
  by (auto simp: named_def split: option.splits)

lemma bearer_iff:
  "bearer rq \<longleftrightarrow> \<not> (rq_headers rq = [] \<or> fst (hd (rq_headers rq)) \<noteq> ''Authorization'' \<or> \<not> prefix ''Bearer '' (snd (hd (rq_headers rq))))"
  by (cases "rq_headers rq") (auto simp: bearer_def prefix_def)

lemma gcs_access_iff:
  assumes "hc_urlenc hc = percent_encode"
  shows "gcs_access b rq = Read k \<longleftrightarrow> gcs_reads hc b rq k" "gcs_access b rq = Write k v \<longleftrightarrow> gcs_writes hc b rq k v"
    "gcs_access b rq = Remove k \<longleftrightarrow> gcs_deletes hc b rq k"
proof -
  let ?bucket = "''/b/'' @ percent_encode (gb_bucket b) @ ''/o''"
  have urls: "object_url hc b k = (GCS_API_V1 @ ?bucket @ ''/'') @ percent_encode k"
    "upload_url hc b k = (GCS_UPLOAD_BASE @ ?bucket @ ''?uploadType=media&name='') @ percent_encode k" for k
    by (simp_all add: object_url_def upload_url_def assms)
  have acc: "gcs_access b rq =
     (if \<not> bearer rq then Other
      else if rq_method rq = ''GET'' then
        (case strip_suffix ''?alt=media'' (rq_url rq) of None \<Rightarrow> Other | Some u \<Rightarrow> named Read (decode_name (GCS_API_V1 @ ?bucket @ ''/'') u))
      else if rq_method rq = ''POST'' then
        (case rq_body rq of
           Raw_Body data \<Rightarrow> named (\<lambda>k. Write k data) (decode_name (GCS_UPLOAD_BASE @ ?bucket @ ''?uploadType=media&name='') (rq_url rq))
         | _ \<Rightarrow> Other)
      else if rq_method rq = ''DELETE'' then named Remove (decode_name (GCS_API_V1 @ ?bucket @ ''/'') (rq_url rq)) else Other)"
    unfolding bearer_iff gcs_access_def Let_def by simp
  have get: "(case strip_suffix ''?alt=media'' u of None \<Rightarrow> Other | Some u \<Rightarrow> named Read (decode_name base u)) = Read k \<longleftrightarrow>
      u = (base @ percent_encode k) @ ''?alt=media''" for u base
    using strip_suffix_iff [of "''?alt=media''" u] decode_name_iff [of base _ k]
    by (cases "strip_suffix ''?alt=media'' u") (fastforce, auto)
  have nget: "(case strip_suffix ''?alt=media'' u of None \<Rightarrow> Other | Some u \<Rightarrow> named Read (decode_name base u)) \<noteq> Write k v"
    "(case strip_suffix ''?alt=media'' u of None \<Rightarrow> Other | Some u \<Rightarrow> named Read (decode_name base u)) \<noteq> Remove k" for u base
    by (simp_all split: option.split)
  show "gcs_access b rq = Read k \<longleftrightarrow> gcs_reads hc b rq k"
    unfolding acc gcs_reads_def urls by (simp add: get split: http_body.split del: append_assoc)
  show "gcs_access b rq = Write k v \<longleftrightarrow> gcs_writes hc b rq k v"
    unfolding acc gcs_writes_def urls by (auto simp: nget decode_name_iff split: http_body.split simp del: append_assoc)
  show "gcs_access b rq = Remove k \<longleftrightarrow> gcs_deletes hc b rq k"
    unfolding acc gcs_deletes_def urls by (simp add: nget decode_name_iff split: http_body.split del: append_assoc)
qed

lemma gcs_memory_serves: "gcs_serves b (gcs_memory b)"
proof -
  let ?hc = "sv_client (gcs_memory b)"
  have hc: "hc_urlenc ?hc = percent_encode" "hc_send ?hc = memory_send (gcs_access b)" "sv_store (gcs_memory b) = map_of"
    "hc_json ?hc = (\<lambda>body. Inr (JObj [(''access_token'', JStr ''token''), (''expires_in'', JNum 3600)]))"
    by (simp_all add: gcs_memory_def memory_client_def)
  have "object_server ?hc map_of (gcs_reads ?hc b) (gcs_writes ?hc b) (gcs_deletes ?hc b)"
    using memory_object_server [OF hc(2)] unfolding gcs_access_iff [OF hc(1)] by simp
  moreover have "gcs_access b (token_request ?hc b m) = Other" for m
    by (simp add: gcs_access_def token_request_def)
  ultimately show ?thesis by (simp add: gcs_serves_def hc is_success_def)
qed

theorem access_token_fresh_witness:
  "\<exists>s1. get_access_token (sv_client (gcs_memory demo_gcs)) demo_gcs \<lparr>gs_cached_token = None, gs_net = []\<rparr> = (Inr ''token'', s1) \<and>
     gs_cached_token s1 = Some \<lparr>ct_token = ''token'', ct_expires_at = secs 3600\<rparr>"
proof -
  let ?hc = "sv_client (gcs_memory demo_gcs)" and ?s = "\<lparr>gs_cached_token = None, gs_net = []\<rparr> :: memory gcs_state"
  obtain t s1 where t: "get_access_token ?hc demo_gcs ?s = (Inr t, s1)"
    using access_token_served [OF gcs_memory_serves] by blast
  from access_token_fresh [OF t] have "t = ''token'' \<and> gs_cached_token s1 = Some \<lparr>ct_token = ''token'', ct_expires_at = secs 3600\<rparr>"
    by (auto simp: gcs_memory_def memory_client_def unwrap_or_def is_i64_def i64_min_def i64_max_def)
  with t show ?thesis by blast
qed

text \<open>A service with two pages.\<close>

definition two_pages :: "unit http_client" where
  "two_pages = \<lparr>hc_send = (\<lambda>rq n. (Inr \<lparr>rs_status = 200, rs_chunks = [Inr (if contains_str ''&pageToken='' (rq_url rq) then [1] else [])]\<rparr>, n)),
     hc_now = (\<lambda>n. 0), hc_lossy = map (\<lambda>b. char_of (unat b)),
     hc_json = (\<lambda>body. Inr (if body = [] then JObj [(''items'', JArr [JObj [(''name'', JStr ''pre/a'')]]), (''nextPageToken'', JStr ''x'')]
       else JObj [(''items'', JArr [JObj [(''name'', JStr ''pre/b'')]])])),
     hc_status_str = nat_str, hc_rfc1123 = (\<lambda>t. []), hc_iso = (\<lambda>t. []), hc_compact = (\<lambda>t. []),
     hc_day = (\<lambda>t. []), hc_hmac = (\<lambda>k m. k @ m), hc_digest = id, hc_rsa_sign = (\<lambda>k m. m),
     hc_b64 = hex_encode, hc_b64url = hex_encode, hc_b64_decode = (\<lambda>s. Inr (str_bytes s)), hc_rsa_from_pem = (\<lambda>s. Inr ()),
     hc_urlenc = percent_encode, hc_urldec = percent_decode\<rparr>"


end
