(* ===== verification/S3.thy ===== *)
theory S3
  imports Http
begin

text \<open>
  The S3 backend (\<open>src/storage/s3.rs\<close>). The AWS SDK is the record \<open>s3_client\<close>, one function per call;
  an error of the SDK is its \<open>Display\<close> and its \<open>Debug\<close> text, which the source searches. A multipart
  upload and a listing are loops the configuration or the service can keep from ending, so they are
  partial functions: \<open>None\<close> is a call that does not return. Offsets are numbers, since none exceeds the
  length of the data; the part number is the 32-bit word it is in the source.

  Shown: a multipart upload returns exactly if the part size is positive, and an object it reports as
  stored is the data; over a service that behaves as documented the backend is an object store; an
  error whose text does not name the missing key makes the check for an object fail.
\<close>

definition DEFAULT_MULTIPART_THRESHOLD :: nat where "DEFAULT_MULTIPART_THRESHOLD = 100 * 1024 * 1024"
definition DEFAULT_PART_SIZE :: nat where "DEFAULT_PART_SIZE = 10 * 1024 * 1024"
definition SINGLE_PUT_MAX :: nat where "SINGLE_PUT_MAX = 5 * 1024 * 1024 * 1024"

record sdk_error =
  er_display :: string
  er_debug :: string

record s3_page =
  pg_keys :: "string option list"
  pg_truncated :: "bool option"
  pg_next :: "string option"

text \<open>\<open>sc_stream\<close> builds the stream of a part of a file from the contents of the file, an offset and a length.\<close>

record 'n s3_client =
  sc_put :: "string \<Rightarrow> string \<Rightarrow> bytes \<Rightarrow> 'n \<Rightarrow> (sdk_error + unit) \<times> 'n"
  sc_get :: "string \<Rightarrow> string \<Rightarrow> 'n \<Rightarrow> (sdk_error + (string + bytes) list) \<times> 'n"
  sc_head :: "string \<Rightarrow> string \<Rightarrow> 'n \<Rightarrow> (sdk_error + unit) \<times> 'n"
  sc_delete :: "string \<Rightarrow> string \<Rightarrow> 'n \<Rightarrow> (sdk_error + unit) \<times> 'n"
  sc_create_multipart :: "string \<Rightarrow> string \<Rightarrow> 'n \<Rightarrow> (sdk_error + string option) \<times> 'n"
  sc_upload_part :: "string \<Rightarrow> string \<Rightarrow> string \<Rightarrow> 32 word \<Rightarrow> bytes \<Rightarrow> 'n \<Rightarrow> (sdk_error + string option) \<times> 'n"
  sc_abort_multipart :: "string \<Rightarrow> string \<Rightarrow> string \<Rightarrow> 'n \<Rightarrow> (sdk_error + unit) \<times> 'n"
  sc_complete_multipart :: "string \<Rightarrow> string \<Rightarrow> string \<Rightarrow> (32 word \<times> string) list \<Rightarrow> 'n \<Rightarrow> (sdk_error + unit) \<times> 'n"
  sc_create_bucket :: "string \<Rightarrow> string option \<Rightarrow> 'n \<Rightarrow> (sdk_error + unit) \<times> 'n"
  sc_list_buckets :: "'n \<Rightarrow> (sdk_error + string option list) \<times> 'n"
  sc_list_objects :: "string \<Rightarrow> string \<Rightarrow> string option \<Rightarrow> 'n \<Rightarrow> (sdk_error + s3_page) \<times> 'n"
  sc_presign_config :: "nat \<Rightarrow> string + unit"
  sc_presign :: "string \<Rightarrow> string \<Rightarrow> nat \<Rightarrow> 'n \<Rightarrow> sdk_error + string"
  sc_stream :: "bytes \<Rightarrow> nat \<Rightarrow> nat \<Rightarrow> string + bytes"

record s3_backend =
  sb_bucket :: string
  sb_prefix :: string
  sb_region :: string
  sb_multipart_threshold :: nat
  sb_part_size :: nat

definition s3_new :: "s3_config \<Rightarrow> s3_backend" where
  "s3_new c = \<lparr>sb_bucket = s3_bucket c, sb_prefix = s3_prefix c, sb_region = s3_region c,
     sb_multipart_threshold = unwrap_or DEFAULT_MULTIPART_THRESHOLD (s3_multipart_threshold c),
     sb_part_size = unwrap_or DEFAULT_PART_SIZE (s3_part_size c)\<rparr>"

definition sb_object_key :: "s3_backend \<Rightarrow> string \<Rightarrow> string" where
  "sb_object_key b path = object_name (sb_prefix b) path"

text \<open>A call of the SDK whose error is reported behind a message.\<close>

definition sdk :: "string \<Rightarrow> ('n \<Rightarrow> (sdk_error + 'a) \<times> 'n) \<Rightarrow> 'n \<Rightarrow> 'a app_result \<times> 'n" where
  "sdk msg call n =
     (case call n of
        (Inl e, n1) \<Rightarrow> (Inl (Internal (msg @ er_display e)), n1)
      | (Inr v, n1) \<Rightarrow> (Inr v, n1))"

section \<open>Multipart uploads\<close>

definition start_multipart :: "'n s3_client \<Rightarrow> s3_backend \<Rightarrow> string \<Rightarrow> 'n \<Rightarrow> string app_result \<times> 'n" where
  "start_multipart c b key =
     andthen (sdk ''S3 create multipart upload failed: '' (sc_create_multipart c (sb_bucket b) key)) (\<lambda>upload_id.
       result (ok_or (Internal ''S3 multipart upload: no upload_id returned'') upload_id))"

text \<open>A part that fails: the upload is aborted, whatever becomes of the request to abort it.\<close>

definition part_failed ::
    "'n s3_client \<Rightarrow> s3_backend \<Rightarrow> string \<Rightarrow> string \<Rightarrow> string \<Rightarrow> sdk_error \<Rightarrow> 'n \<Rightarrow> 'a app_result \<times> 'n" where
  "part_failed c b key upload_id msg e n =
     (let (_, n1) = sc_abort_multipart c (sb_bucket b) key upload_id n in (Inl (Internal (msg @ er_display e)), n1))"

text \<open>The loop over the parts of data in memory; its value is the list of completed parts.\<close>

partial_function (option) upload_parts ::
    "'n s3_client \<Rightarrow> s3_backend \<Rightarrow> string \<Rightarrow> string \<Rightarrow> bytes \<Rightarrow> nat \<Rightarrow> 32 word \<Rightarrow> (32 word \<times> string) list \<Rightarrow> 'n \<Rightarrow>
     ((32 word \<times> string) list app_result \<times> 'n) option" where
  "upload_parts c b key upload_id data offset part_number completed n =
     (if length data \<le> offset then Some (Inr completed, n)
      else (let stop = min (offset + sb_part_size b) (length data)
            in case sc_upload_part c (sb_bucket b) key upload_id part_number (take (stop - offset) (drop offset data)) n of
                 (Inl e, n1) \<Rightarrow> Some (part_failed c b key upload_id
                   (''S3 upload part '' @ int_str (sint part_number) @ '' failed ('' @ nat_str offset @ ''B of '' @
                    nat_str (length data) @ ''B uploaded): '') e n1)
               | (Inr etag, n1) \<Rightarrow>
                   upload_parts c b key upload_id data stop (part_number + 1) (completed @ [(part_number, unwrap_or [] etag)]) n1))"

definition finish_multipart ::
    "'n s3_client \<Rightarrow> s3_backend \<Rightarrow> string \<Rightarrow> string \<Rightarrow> (32 word \<times> string) list \<Rightarrow> 'n \<Rightarrow> unit app_result \<times> 'n" where
  "finish_multipart c b key upload_id completed =
     sdk ''S3 complete multipart upload failed: '' (sc_complete_multipart c (sb_bucket b) key upload_id completed)"

definition multipart_upload ::
    "'n s3_client \<Rightarrow> s3_backend \<Rightarrow> string \<Rightarrow> bytes \<Rightarrow> 'n \<Rightarrow> (unit app_result \<times> 'n) option" where
  "multipart_upload c b key data n =
     (case start_multipart c b key n of
        (Inl e, n1) \<Rightarrow> Some (Inl e, n1)
      | (Inr upload_id, n1) \<Rightarrow>
         (case upload_parts c b key upload_id data 0 1 [] n1 of
            None \<Rightarrow> None
          | Some (Inl e, n2) \<Rightarrow> Some (Inl e, n2)
          | Some (Inr completed, n2) \<Rightarrow> Some (finish_multipart c b key upload_id completed n2)))"

text \<open>The parts read from a file, whose length the caller says.\<close>

definition read_part :: "'n s3_client \<Rightarrow> path \<Rightarrow> nat \<Rightarrow> nat \<Rightarrow> fs \<Rightarrow> bytes app_result" where
  "read_part c src offset len f =
     (case fs_read src f of
        None \<Rightarrow> Inl (Internal ''S3 read part from file failed'')
      | Some d \<Rightarrow> (case sc_stream c d offset len of Inl e \<Rightarrow> Inl (Internal (''S3 read part from file failed: '' @ e)) | Inr v \<Rightarrow> Inr v))"

partial_function (option) upload_file_parts ::
    "'n s3_client \<Rightarrow> s3_backend \<Rightarrow> string \<Rightarrow> string \<Rightarrow> path \<Rightarrow> nat \<Rightarrow> fs \<Rightarrow> nat \<Rightarrow> 32 word \<Rightarrow> (32 word \<times> string) list \<Rightarrow> 'n \<Rightarrow>
     ((32 word \<times> string) list app_result \<times> 'n) option" where
  "upload_file_parts c b key upload_id src sz f offset part_number completed n =
     (if sz \<le> offset then Some (Inr completed, n)
      else (let len = min (sb_part_size b) (sz - offset)
            in case read_part c src offset len f of
                 Inl e \<Rightarrow> Some (Inl e, n)
               | Inr v \<Rightarrow>
                  (case sc_upload_part c (sb_bucket b) key upload_id part_number v n of
                     (Inl e, n1) \<Rightarrow> Some (part_failed c b key upload_id
                       (''S3 upload part '' @ int_str (sint part_number) @ '' failed ('' @ nat_str offset @ ''B of '' @
                        nat_str sz @ ''B): '') e n1)
                   | (Inr etag, n1) \<Rightarrow>
                       upload_file_parts c b key upload_id src sz f (offset + len) (part_number + 1)
                         (completed @ [(part_number, unwrap_or [] etag)]) n1)))"

definition multipart_upload_from_file ::
    "'n s3_client \<Rightarrow> s3_backend \<Rightarrow> string \<Rightarrow> path \<Rightarrow> nat \<Rightarrow> fs \<Rightarrow> 'n \<Rightarrow> (unit app_result \<times> 'n) option" where
  "multipart_upload_from_file c b key src sz f n =
     (case start_multipart c b key n of
        (Inl e, n1) \<Rightarrow> Some (Inl e, n1)
      | (Inr upload_id, n1) \<Rightarrow>
         (case upload_file_parts c b key upload_id src sz f 0 1 [] n1 of
            None \<Rightarrow> None
          | Some (Inl e, n2) \<Rightarrow> Some (Inl e, n2)
          | Some (Inr completed, n2) \<Rightarrow> Some (finish_multipart c b key upload_id completed n2)))"

section \<open>Operations\<close>

definition s3_create_container :: "'n s3_client \<Rightarrow> s3_backend \<Rightarrow> string \<Rightarrow> 'n \<Rightarrow> unit app_result \<times> 'n" where
  "s3_create_container c b name =
     sdk ''S3 create bucket failed: ''
       (sc_create_bucket c name (if sb_region b \<noteq> ''us-east-1'' then Some (sb_region b) else None))"

definition no_such_bucket :: "sdk_error \<Rightarrow> bool" where
  "no_such_bucket e \<longleftrightarrow> contains_str ''NoSuchBucket'' (er_display e) \<or> contains_str ''NoSuchBucket'' (er_debug e)"

definition s3_upload :: "'n s3_client \<Rightarrow> s3_backend \<Rightarrow> string \<Rightarrow> bytes \<Rightarrow> 'n \<Rightarrow> (unit app_result \<times> 'n) option" where
  "s3_upload c b path data n =
     (let key = sb_object_key b path
      in if sb_multipart_threshold b \<le> length data then multipart_upload c b key data n
         else Some (case sc_put c (sb_bucket b) key data n of
           (Inr _, n1) \<Rightarrow> (Inr (), n1)
         | (Inl e, n1) \<Rightarrow>
            (if no_such_bucket e
             then andthen (s3_create_container c b (sb_bucket b)) (\<lambda>_.
                    sdk ''S3 upload failed: '' (sc_put c (sb_bucket b) key data)) n1
             else (Inl (Internal (''S3 upload failed: '' @ er_display e @ '' (details: '' @ er_debug e @ '')'')), n1))))"

text \<open>\<open>make_stream\<close> of the streaming upload: the whole file, opened again for the second attempt.\<close>

definition make_stream :: "'n s3_client \<Rightarrow> path \<Rightarrow> nat \<Rightarrow> fs \<Rightarrow> bytes app_result" where
  "make_stream c src sz f =
     (case fs_read src f of
        None \<Rightarrow> Inl (Internal ''S3 read file for upload failed'')
      | Some d \<Rightarrow> (case sc_stream c d 0 sz of Inl e \<Rightarrow> Inl (Internal (''S3 read file for upload failed: '' @ e)) | Inr v \<Rightarrow> Inr v))"

definition s3_upload_from_file ::
    "'n s3_client \<Rightarrow> s3_backend \<Rightarrow> string \<Rightarrow> path \<Rightarrow> nat \<Rightarrow> fs \<Rightarrow> 'n \<Rightarrow> (unit app_result \<times> 'n) option" where
  "s3_upload_from_file c b path src sz f n =
     (let key = sb_object_key b path
      in if SINGLE_PUT_MAX < sz then multipart_upload_from_file c b key src sz f n
         else Some (case make_stream c src sz f of
           Inl e \<Rightarrow> (Inl e, n)
         | Inr v \<Rightarrow>
            (case sc_put c (sb_bucket b) key v n of
               (Inr _, n1) \<Rightarrow> (Inr (), n1)
             | (Inl e, n1) \<Rightarrow>
                (if no_such_bucket e
                 then andthen (s3_create_container c b (sb_bucket b)) (\<lambda>_.
                      andthen (result (make_stream c src sz f)) (\<lambda>again.
                        sdk ''S3 upload failed: '' (sc_put c (sb_bucket b) key again))) n1
                 else (Inl (Internal (''S3 upload from file failed (bucket='' @ sb_bucket b @ '' key='' @ key @ '' size='' @ nat_str sz @
                        ''): display='' @ er_display e @ '' debug='' @ er_debug e)), n1)))))"

definition s3_get :: "'n s3_client \<Rightarrow> s3_backend \<Rightarrow> string \<Rightarrow> 'n \<Rightarrow> (string + bytes) list app_result \<times> 'n" where
  "s3_get c b path n =
     (case sc_get c (sb_bucket b) (sb_object_key b path) n of
        (Inl e, n1) \<Rightarrow>
          (Inl (if contains_str ''NoSuchKey'' (er_display e) \<or> contains_str ''404'' (er_display e)
                then NotFound (''File not found in S3: '' @ path)
                else Internal (''S3 download failed: '' @ er_display e)), n1)
      | (Inr chunks, n1) \<Rightarrow> (Inr chunks, n1))"

definition s3_download :: "'n s3_client \<Rightarrow> s3_backend \<Rightarrow> string \<Rightarrow> 'n \<Rightarrow> bytes app_result \<times> 'n" where
  "s3_download c b path =
     andthen (s3_get c b path) (\<lambda>chunks.
       result (case collect_chunks chunks of Inl e \<Rightarrow> Inl (Internal (''S3 download body read failed: '' @ e)) | Inr v \<Rightarrow> Inr v))"

definition s3_download_to_file :: "'n s3_client \<Rightarrow> s3_backend \<Rightarrow> string \<Rightarrow> path \<Rightarrow> fs \<times> 'n \<Rightarrow> unit app_result \<times> fs \<times> 'n" where
  "s3_download_to_file c b path dst fn =
     (case s3_get c b path (snd fn) of
        (Inl e, n1) \<Rightarrow> (Inl e, fst fn, n1)
      | (Inr chunks, n1) \<Rightarrow>
         (let (r, f1) = stream_to_file ''S3 stream chunk error: '' \<lparr>rs_status = 200, rs_chunks = chunks\<rparr> dst (fst fn) in (r, f1, n1)))"

definition s3_delete :: "'n s3_client \<Rightarrow> s3_backend \<Rightarrow> string \<Rightarrow> 'n \<Rightarrow> unit app_result \<times> 'n" where
  "s3_delete c b path = sdk ''S3 delete failed: '' (sc_delete c (sb_bucket b) (sb_object_key b path))"

definition s3_exists :: "'n s3_client \<Rightarrow> s3_backend \<Rightarrow> string \<Rightarrow> 'n \<Rightarrow> bool app_result \<times> 'n" where
  "s3_exists c b path n =
     (case sc_head c (sb_bucket b) (sb_object_key b path) n of
        (Inr _, n1) \<Rightarrow> (Inr True, n1)
      | (Inl e, n1) \<Rightarrow>
         (if contains_str ''NotFound'' (er_display e) \<or> contains_str ''404'' (er_display e) \<or> contains_str ''NoSuchKey'' (er_display e)
          then (Inr False, n1)
          else (Inl (Internal (''S3 head object failed: '' @ er_display e)), n1)))"

definition s3_generate_temp_url ::
    "'n s3_client \<Rightarrow> s3_backend \<Rightarrow> string \<Rightarrow> nat \<Rightarrow> string option \<Rightarrow> 'n \<Rightarrow> string option app_result" where
  "s3_generate_temp_url c b path expires_in filename n =
     (case sc_presign_config c expires_in of
        Inl e \<Rightarrow> Inl (Internal (''S3 presigning config error: '' @ e))
      | Inr _ \<Rightarrow>
         (case sc_presign c (sb_bucket b) (sb_object_key b path) expires_in n of
            Inl e \<Rightarrow> Inl (Internal (''S3 presigned URL generation failed: '' @ er_display e))
          | Inr uri \<Rightarrow> Inr (Some uri)))"

definition s3_list_containers :: "'n s3_client \<Rightarrow> s3_backend \<Rightarrow> 'n \<Rightarrow> string list app_result \<times> 'n" where
  "s3_list_containers c b =
     andthen (sdk ''S3 list buckets failed: '' (sc_list_buckets c)) (\<lambda>names. result (Inr (List.map_filter id names)))"

partial_function (option) s3_list_loop ::
    "'n s3_client \<Rightarrow> s3_backend \<Rightarrow> string \<Rightarrow> string option \<Rightarrow> string list \<Rightarrow> 'n \<Rightarrow> (string list app_result \<times> 'n) option" where
  "s3_list_loop c b full_prefix token results n =
     (case sc_list_objects c (sb_bucket b) full_prefix token n of
        (Inl e, n1) \<Rightarrow> Some (Inl (Internal (''S3 list objects failed: '' @ er_display e)), n1)
      | (Inr page, n1) \<Rightarrow>
         (let results1 = results @ map (relative_name (sb_prefix b)) (List.map_filter id (pg_keys page))
          in if pg_truncated page = Some True then s3_list_loop c b full_prefix (pg_next page) results1 n1
             else Some (Inr results1, n1)))"

definition s3_list :: "'n s3_client \<Rightarrow> s3_backend \<Rightarrow> string \<Rightarrow> 'n \<Rightarrow> (string list app_result \<times> 'n) option" where
  "s3_list c b pre n = s3_list_loop c b (sb_object_key b pre) None [] n"

section \<open>A service that behaves as documented\<close>

text \<open>
  What a service holds: the objects of the bucket, and for an upload under way the parts received so
  far with their tags. A completion is accepted only if the parts are named in ascending order with
  the tags they were given, and then the object is their concatenation.
\<close>

record 'n s3_service =
  ss_client :: "'n s3_client"
  ss_store :: "'n \<Rightarrow> string \<Rightarrow> bytes option"
  ss_parts :: "'n \<Rightarrow> string \<Rightarrow> 32 word \<Rightarrow> (string \<times> bytes) option"

definition parts_match :: "(32 word \<Rightarrow> (string \<times> bytes) option) \<Rightarrow> (32 word \<times> string) list \<Rightarrow> bytes list \<Rightarrow> bool" where
  "parts_match received completed vs \<longleftrightarrow> list_all2 (\<lambda>(p, etag) v. received p = Some (etag, v)) completed vs"

definition objects_law :: "s3_backend \<Rightarrow> 'n s3_service \<Rightarrow> bool" where
  "objects_law b h \<longleftrightarrow>
     (\<forall>key v n r n1. sc_put (ss_client h) (sb_bucket b) key v n = (r, n1) \<longrightarrow>
        ss_store h n1 = (case r of Inr _ \<Rightarrow> (ss_store h n)(key \<mapsto> v) | Inl _ \<Rightarrow> ss_store h n)) \<and>
     (\<forall>key n r n1. sc_get (ss_client h) (sb_bucket b) key n = (r, n1) \<longrightarrow> ss_store h n1 = ss_store h n \<and>
        (case ss_store h n key of Some v \<Rightarrow> \<exists>cs. r = Inr cs \<and> collect_chunks cs = Inr v | None \<Rightarrow> \<exists>e. r = Inl e)) \<and>
     (\<forall>key n r n1. sc_delete (ss_client h) (sb_bucket b) key n = (r, n1) \<longrightarrow>
        ss_store h n1 = (case r of Inr _ \<Rightarrow> (ss_store h n)(key := None) | Inl _ \<Rightarrow> ss_store h n)) \<and>
     (\<forall>name region n. ss_store h (snd (sc_create_bucket (ss_client h) name region n)) = ss_store h n)"

definition parts_law :: "s3_backend \<Rightarrow> 'n s3_service \<Rightarrow> bool" where
  "parts_law b h \<longleftrightarrow>
     (\<forall>key n. ss_store h (snd (sc_create_multipart (ss_client h) (sb_bucket b) key n)) = ss_store h n) \<and>
     (\<forall>key i p v n r n1. sc_upload_part (ss_client h) (sb_bucket b) key i p v n = (r, n1) \<longrightarrow> ss_store h n1 = ss_store h n \<and>
        ss_parts h n1 i = (case r of Inr etag \<Rightarrow> (ss_parts h n i)(p \<mapsto> (unwrap_or [] etag, v)) | Inl _ \<Rightarrow> ss_parts h n i)) \<and>
     (\<forall>key i n. ss_store h (snd (sc_abort_multipart (ss_client h) (sb_bucket b) key i n)) = ss_store h n)"

definition completion_law :: "s3_backend \<Rightarrow> 'n s3_service \<Rightarrow> bool" where
  "completion_law b h \<longleftrightarrow>
     (\<forall>key i completed n e n1. sc_complete_multipart (ss_client h) (sb_bucket b) key i completed n = (Inl e, n1) \<longrightarrow>
        ss_store h n1 = ss_store h n) \<and>
     (\<forall>key i completed n n1. sc_complete_multipart (ss_client h) (sb_bucket b) key i completed n = (Inr (), n1) \<longrightarrow>
        sorted_wrt (<) (map fst completed) \<and>
        (\<forall>vs. parts_match (ss_parts h n i) completed vs \<longrightarrow> ss_store h n1 = (ss_store h n)(key \<mapsto> concat vs)))"

definition s3_serves :: "s3_backend \<Rightarrow> 'n s3_service \<Rightarrow> bool" where
  "s3_serves b h \<longleftrightarrow> objects_law b h \<and> parts_law b h \<and> completion_law b h"

lemma objects_lawD:
  assumes "s3_serves b h"
  shows "sc_put (ss_client h) (sb_bucket b) key v n = (r, n1) \<Longrightarrow>
      ss_store h n1 = (case r of Inr _ \<Rightarrow> (ss_store h n)(key \<mapsto> v) | Inl _ \<Rightarrow> ss_store h n)"
    and "sc_get (ss_client h) (sb_bucket b) key n = (x, n1) \<Longrightarrow> ss_store h n1 = ss_store h n \<and>
      (case ss_store h n key of Some v \<Rightarrow> \<exists>cs. x = Inr cs \<and> collect_chunks cs = Inr v | None \<Rightarrow> \<exists>e. x = Inl e)"
    and "sc_delete (ss_client h) (sb_bucket b) key n = (r, n1) \<Longrightarrow>
      ss_store h n1 = (case r of Inr _ \<Rightarrow> (ss_store h n)(key := None) | Inl _ \<Rightarrow> ss_store h n)"
    and "ss_store h (snd (sc_create_bucket (ss_client h) name region n)) = ss_store h n"
proof -
  have law: "objects_law b h" using assms by (simp add: s3_serves_def)
  show "sc_put (ss_client h) (sb_bucket b) key v n = (r, n1) \<Longrightarrow>
      ss_store h n1 = (case r of Inr _ \<Rightarrow> (ss_store h n)(key \<mapsto> v) | Inl _ \<Rightarrow> ss_store h n)"
    using law unfolding objects_law_def by blast
  show "sc_get (ss_client h) (sb_bucket b) key n = (x, n1) \<Longrightarrow> ss_store h n1 = ss_store h n \<and>
      (case ss_store h n key of Some v \<Rightarrow> \<exists>cs. x = Inr cs \<and> collect_chunks cs = Inr v | None \<Rightarrow> \<exists>e. x = Inl e)"
    using law unfolding objects_law_def by blast
  show "sc_delete (ss_client h) (sb_bucket b) key n = (r, n1) \<Longrightarrow>
      ss_store h n1 = (case r of Inr _ \<Rightarrow> (ss_store h n)(key := None) | Inl _ \<Rightarrow> ss_store h n)"
    using law unfolding objects_law_def by blast
  show "ss_store h (snd (sc_create_bucket (ss_client h) name region n)) = ss_store h n"
    using law unfolding objects_law_def by blast
qed

lemma parts_lawD:
  assumes "s3_serves b h"
  shows "ss_store h (snd (sc_create_multipart (ss_client h) (sb_bucket b) key n)) = ss_store h n"
    and "sc_upload_part (ss_client h) (sb_bucket b) key i p v n = (y, n1) \<Longrightarrow> ss_store h n1 = ss_store h n \<and>
      ss_parts h n1 i = (case y of Inr etag \<Rightarrow> (ss_parts h n i)(p \<mapsto> (unwrap_or [] etag, v)) | Inl _ \<Rightarrow> ss_parts h n i)"
    and "ss_store h (snd (sc_abort_multipart (ss_client h) (sb_bucket b) key i n)) = ss_store h n"
  using assms unfolding s3_serves_def parts_law_def by blast+

lemma completion_lawD:
  assumes "s3_serves b h"
  shows "sc_complete_multipart (ss_client h) (sb_bucket b) key i completed n = (Inl e, n1) \<Longrightarrow> ss_store h n1 = ss_store h n"
    and "sc_complete_multipart (ss_client h) (sb_bucket b) key i completed n = (Inr (), n1) \<Longrightarrow> sorted_wrt (<) (map fst completed)"
    and "sc_complete_multipart (ss_client h) (sb_bucket b) key i completed n = (Inr (), n1) \<Longrightarrow>
      parts_match (ss_parts h n i) completed vs \<Longrightarrow> ss_store h n1 = (ss_store h n)(key \<mapsto> concat vs)"
  using assms unfolding s3_serves_def completion_law_def by blast+

section \<open>Multipart uploads return what was sent\<close>

lemma parts_match_add:
  assumes "parts_match received completed vs" and "p \<notin> fst ` set completed"
  shows "parts_match (received(p \<mapsto> (etag, v))) (completed @ [(p, etag)]) (vs @ [v])"
proof -
  have "parts_match (received(p \<mapsto> (etag, v))) completed vs"
    using assms unfolding parts_match_def by (induction completed vs rule: list_all2_induct) auto
  then show ?thesis by (simp add: parts_match_def list_all2_appendI)
qed

text \<open>
  What the loop over the parts adds from an offset on: parts that are the rest of the data, and that match what
  the service received if no part number was used twice.
\<close>

definition parts_added :: "(32 word \<rightharpoonup> string \<times> bytes) \<Rightarrow> (32 word \<rightharpoonup> string \<times> bytes) \<Rightarrow> bytes \<Rightarrow>
    (32 word \<times> string) list \<Rightarrow> (32 word \<times> string) list \<Rightarrow> bool" where
  "parts_added received received' rest completed completed' \<longleftrightarrow>
     (\<exists>new vs. completed' = completed @ new \<and> concat vs = rest \<and>
        (distinct (map fst completed') \<longrightarrow> (\<forall>ws. parts_match received completed ws \<longrightarrow> parts_match received' completed' (ws @ vs))))"

lemma parts_added_none: "parts_added received received [] completed completed"
  unfolding parts_added_def by (intro exI [of _ "[]"]) simp

lemma parts_added_step:
  assumes "parts_added (received(p \<mapsto> (etag, v))) received' rest (completed @ [(p, etag)]) completed'"
  shows "parts_added received received' (v @ rest) completed completed'"
proof -
  from assms obtain new vs where new: "completed' = (completed @ [(p, etag)]) @ new" "concat vs = rest"
    and m: "distinct (map fst completed') \<Longrightarrow> parts_match (received(p \<mapsto> (etag, v))) (completed @ [(p, etag)]) ws \<Longrightarrow>
      parts_match received' completed' (ws @ vs)" for ws unfolding parts_added_def by blast
  have "parts_match received' completed' (ws @ v # vs)"
    if d: "distinct (map fst completed')" and w: "parts_match received completed ws" for ws
  proof -
    have "p \<notin> fst ` set completed" using d new(1) by auto
    from m [OF d parts_match_add [OF w this]] show ?thesis by simp
  qed
  with new show ?thesis unfolding parts_added_def by (intro exI [of _ "(p, etag) # new"] exI [of _ "v # vs"]) simp
qed

lemma upload_parts_returns:
  assumes "0 < sb_part_size b" and "s3_serves b h"
  shows "\<exists>r n1. upload_parts (ss_client h) b key i data offset p completed n = Some (r, n1) \<and> ss_store h n1 = ss_store h n \<and>
    (\<forall>completed'. r = Inr completed' \<longrightarrow>
       parts_added (ss_parts h n i) (ss_parts h n1 i) (drop offset data) completed completed')"
proof (induction "length data - offset" arbitrary: offset p completed n rule: less_induct)
  case less
  let ?c = "ss_client h"
  show ?case
  proof (cases "length data \<le> offset")
    case True
    then show ?thesis using parts_added_none by (simp add: upload_parts.simps)
  next
    case False
    let ?stop = "min (offset + sb_part_size b) (length data)"
    let ?v = "take (?stop - offset) (drop offset data)"
    obtain x n2 where u: "sc_upload_part ?c (sb_bucket b) key i p ?v n = (x, n2)" by fastforce
    note st = parts_lawD(2) [OF assms(2) u]
    show ?thesis
    proof (cases x)
      case (Inl e)
      then show ?thesis
        using u False st parts_lawD(3) [OF assms(2), of key i n2]
        by (subst upload_parts.simps) (simp add: Let_def part_failed_def split_beta)
    next
      case (Inr etag)
      let ?completed = "completed @ [(p, unwrap_or [] etag)]"
      have step: "upload_parts ?c b key i data offset p completed n = upload_parts ?c b key i data ?stop (p + 1) ?completed n2"
        by (subst upload_parts.simps) (simp add: u Inr Let_def False)
      have "length data - ?stop < length data - offset" using False assms(1) by simp
      from less [OF this, of "p + 1" ?completed n2] obtain r n1 where
        r: "upload_parts ?c b key i data ?stop (p + 1) ?completed n2 = Some (r, n1)" "ss_store h n1 = ss_store h n2"
        and IH: "\<And>completed'. r = Inr completed' \<Longrightarrow>
          parts_added (ss_parts h n2 i) (ss_parts h n1 i) (drop ?stop data) ?completed completed'" by blast
      have rest: "?v @ drop ?stop data = drop offset data"
        using False by (simp add: min_def) (metis append_take_drop_id drop_drop add.commute)
      have received: "ss_parts h n2 i = (ss_parts h n i)(p \<mapsto> (unwrap_or [] etag, ?v))" using st Inr by simp
      have "parts_added (ss_parts h n i) (ss_parts h n1 i) (drop offset data) completed completed'" if "r = Inr completed'" for completed'
        using parts_added_step [OF IH [OF that, unfolded received]] unfolding rest .
      with step r st show ?thesis by auto
    qed
  qed
qed

lemma multipart_upload_store:
  assumes "0 < sb_part_size b" and "s3_serves b h"
  shows "\<exists>r n1. multipart_upload (ss_client h) b key data n = Some (r, n1) \<and>
    ss_store h n1 = (case r of Inr _ \<Rightarrow> (ss_store h n)(key \<mapsto> data) | Inl _ \<Rightarrow> ss_store h n)"
proof -
  let ?c = "ss_client h"
  obtain x n1 where m: "sc_create_multipart ?c (sb_bucket b) key n = (x, n1)" by fastforce
  have st: "ss_store h n1 = ss_store h n" using parts_lawD(1) [OF assms(2), of key n] m by simp
  obtain y where s: "start_multipart ?c b key n = (y, n1)"
    using m by (cases x) (auto simp: start_multipart_def andthen_def sdk_def result_def)
  show ?thesis
  proof (cases y)
    case Inl
    with s st show ?thesis by (simp add: multipart_upload_def)
  next
    case (Inr i)
    from upload_parts_returns [OF assms, of key i data 0 1 "[]" n1] obtain r n2 where
      u: "upload_parts ?c b key i data 0 1 [] n1 = Some (r, n2)" "ss_store h n2 = ss_store h n1"
      and parts: "\<And>completed. r = Inr completed \<Longrightarrow> \<exists>vs. concat vs = data \<and>
        (distinct (map fst completed) \<longrightarrow> parts_match (ss_parts h n2 i) completed vs)"
      by (fastforce simp: parts_match_def parts_added_def)
    show ?thesis
    proof (cases r)
      case Inl
      with s \<open>y = Inr i\<close> u st show ?thesis by (simp add: multipart_upload_def)
    next
      case (Inr completed)
      obtain z n3 where f: "sc_complete_multipart ?c (sb_bucket b) key i completed n2 = (z, n3)" by fastforce
      show ?thesis
      proof (cases z)
        case (Inl e)
        with f completion_lawD(1) [OF assms(2)] have "ss_store h n3 = ss_store h n2" by blast
        with s \<open>y = Inr i\<close> u Inr st f Inl show ?thesis by (simp add: multipart_upload_def finish_multipart_def sdk_def)
      next
        case (Inr w)
        with f have f': "sc_complete_multipart ?c (sb_bucket b) key i completed n2 = (Inr (), n3)" by simp
        note st3 = completion_lawD(3) [OF assms(2) f']
        have "distinct (map fst completed)" using completion_lawD(2) [OF assms(2) f'] by (simp add: strict_sorted_iff)
        with parts [OF \<open>r = Inr completed\<close>] st3 have "ss_store h n3 = (ss_store h n2)(key \<mapsto> data)" by blast
        with s \<open>y = Inr i\<close> u \<open>r = Inr completed\<close> st f Inr show ?thesis
          by (simp add: multipart_upload_def finish_multipart_def sdk_def)
      qed
    qed
  qed
qed

text \<open>With a part size of zero the offset never moves.\<close>

lemmas upload_parts_induct = upload_parts.raw_induct [rotated, consumes 1, case_names step]

lemma upload_parts_stuck:
  assumes "sb_part_size b = 0" and "data \<noteq> []"
    and "\<forall>p v n. \<exists>etag n1. sc_upload_part c (sb_bucket b) key i p v n = (Inr etag, n1)"
  shows "upload_parts c b key i data 0 p completed n = None"
proof -
  have "c' = c \<longrightarrow> b' = b \<longrightarrow> key' = key \<longrightarrow> i' = i \<longrightarrow> data' = data \<longrightarrow> offset = 0 \<longrightarrow> False"
    if "upload_parts c' b' key' i' data' offset p completed n = Some r" for c' b' key' i' data' offset r
    using that
  proof (induction rule: upload_parts_induct)
    case (step upload_parts c' b' key' i' data' offset p completed n r)
    show ?case
    proof (intro impI)
      assume eq: "c' = c" "b' = b" "key' = key" "i' = i" "data' = data" "offset = 0"
      obtain etag n1 where "sc_upload_part c (sb_bucket b) key i p [] n = (Inr etag, n1)" using assms(3) by blast
      with step.hyps eq assms(1,2) have "upload_parts c' b' key' i' data' 0 (p + 1) (completed @ [(p, unwrap_or [] etag)]) n1 = Some r"
        by (simp add: Let_def)
      from step.IH [OF this] eq show False by blast
    qed
  qed
  from this [of c b key i data 0] show ?thesis by (cases "upload_parts c b key i data 0 p completed n") blast+
qed


section \<open>The backend is an object store\<close>

lemma sdk_put_store:
  assumes "s3_serves b h" and "sdk msg (sc_put (ss_client h) (sb_bucket b) key v) n = (r, n1)"
  shows "ss_store h n1 = (case r of Inr _ \<Rightarrow> (ss_store h n)(key \<mapsto> v) | Inl _ \<Rightarrow> ss_store h n)"
proof -
  obtain x n2 where s: "sc_put (ss_client h) (sb_bucket b) key v n = (x, n2)" by fastforce
  from objects_lawD(1) [OF assms(1) s] s assms(2) show ?thesis by (cases x) (auto simp: sdk_def)
qed

lemma s3_upload_store:
  assumes "s3_serves b h" and "0 < sb_part_size b"
  shows "\<exists>r n1. s3_upload (ss_client h) b path data n = Some (r, n1) \<and>
    ss_store h n1 = (case r of Inr _ \<Rightarrow> (ss_store h n)(sb_object_key b path \<mapsto> data) | Inl _ \<Rightarrow> ss_store h n)"
proof (cases "sb_multipart_threshold b \<le> length data")
  case True
  then show ?thesis using multipart_upload_store [OF assms(2,1)] by (simp add: s3_upload_def)
next
  case False
  let ?c = "ss_client h" and ?key = "sb_object_key b path"
  obtain x n1 where p: "sc_put ?c (sb_bucket b) ?key data n = (x, n1)" by fastforce
  note st = objects_lawD(1) [OF assms(1) p]
  show ?thesis
  proof (cases "\<exists>e. x = Inl e \<and> no_such_bucket e")
    case True
    obtain y n2 where c: "sc_create_bucket ?c (sb_bucket b) (if sb_region b \<noteq> ''us-east-1'' then Some (sb_region b) else None) n1 = (y, n2)"
      by fastforce
    have st2: "ss_store h n2 = ss_store h n1"
      using objects_lawD(4) [OF assms(1), of "sb_bucket b" "if sb_region b \<noteq> ''us-east-1'' then Some (sb_region b) else None" n1] c by simp
    obtain z n3 where q: "sdk ''S3 upload failed: '' (sc_put ?c (sb_bucket b) ?key data) n2 = (z, n3)" by fastforce
    show ?thesis
      using True False p c q st st2 sdk_put_store [OF assms(1) q]
      by (cases y; cases z) (auto simp: s3_upload_def Let_def andthen_def s3_create_container_def sdk_def [of "''S3 create bucket failed: ''"])
  next
    case none: False
    with False p st show ?thesis by (cases x) (auto simp: s3_upload_def Let_def)
  qed
qed

lemma s3_download_store:
  assumes "s3_serves b h" and "s3_download (ss_client h) b path n = (r, n1)"
  shows "ss_store h n1 = ss_store h n \<and>
    (case ss_store h n (sb_object_key b path) of Some v \<Rightarrow> r = Inr v | None \<Rightarrow> \<exists>e. r = Inl e)"
proof -
  obtain x n2 where g: "sc_get (ss_client h) (sb_bucket b) (sb_object_key b path) n = (x, n2)" by fastforce
  from objects_lawD(2) [OF assms(1) g] g assms(2) show ?thesis
    by (cases x) (auto simp: s3_download_def s3_get_def andthen_def result_def split: option.splits)
qed

lemma s3_delete_store:
  assumes "s3_serves b h" and "s3_delete (ss_client h) b path n = (r, n1)"
  shows "ss_store h n1 = (case r of Inr _ \<Rightarrow> (ss_store h n)(sb_object_key b path := None) | Inl _ \<Rightarrow> ss_store h n)"
proof -
  obtain x n2 where s: "sc_delete (ss_client h) (sb_bucket b) (sb_object_key b path) n = (x, n2)" by fastforce
  from objects_lawD(3) [OF assms(1) s] s assms(2) show ?thesis by (cases x) (auto simp: s3_delete_def sdk_def)
qed

text \<open>An upload that does not return is shown as an error here; under \<open>serves\<close> there is none.\<close>

definition returned :: "('a app_result \<times> 'n) option \<Rightarrow> 'n \<Rightarrow> 'a app_result \<times> 'n" where
  "returned x n = (case x of Some y \<Rightarrow> y | None \<Rightarrow> (Inl (Internal ''no return''), n))"

interpretation s3: atomic_backend "\<lambda>h. s3_serves b h \<and> 0 < sb_part_size b" ss_store "\<lambda>path. True" "sb_object_key b"
    "\<lambda>h path data n. returned (s3_upload (ss_client h) b path data n) n" "\<lambda>h. s3_download (ss_client h) b"
    "\<lambda>h. s3_delete (ss_client h) b" for b
proof (rule atomic_backendI, goal_cases)
  case (1 p q)
  then show ?case by (simp add: sb_object_key_def object_name_inj)
next
  case (2 h p v n r n1)
  then obtain r' n' where "s3_upload (ss_client h) b p v n = Some (r', n')"
    "ss_store h n' = (case r' of Inr _ \<Rightarrow> (ss_store h n)(sb_object_key b p \<mapsto> v) | Inl _ \<Rightarrow> ss_store h n)"
    using s3_upload_store [of b h p v n] by blast
  with 2(3) show ?case by (simp add: returned_def)
next
  case (3 h p n x n1)
  with s3_download_store [of b h p n x n1] show ?case by blast
next
  case (4 h p n r n1)
  with s3_delete_store [of b h p n r n1] show ?case by blast
qed

text \<open>An error that does not name the missing object is not recognised as its absence.\<close>

lemma s3_exists_unnamed_error:
  assumes "sc_head c (sb_bucket b) (sb_object_key b path) n = (Inl e, n1)" and "er_display e = ''service error''"
  shows "s3_exists c b path n = (Inl (Internal (''S3 head object failed: service error'')), n1)"
  using assms by (simp add: s3_exists_def)

section \<open>A service in memory\<close>

type_synonym s3_memory = "memory \<times> (32 word \<times> string \<times> bytes) list"

definition part_value :: "(32 word \<times> string \<times> bytes) list \<Rightarrow> 32 word \<times> string \<Rightarrow> bytes option" where
  "part_value parts x = (case map_of parts (fst x) of Some (etag, v) \<Rightarrow> if etag = snd x then Some v else None | None \<Rightarrow> None)"

definition s3_memory_client :: "s3_memory s3_client" where
  "s3_memory_client = (let err = \<lparr>er_display = ''service error'', er_debug = ''NoSuchKey''\<rparr> in
     \<lparr>sc_put = (\<lambda>bk k v m. (Inr (), ((k, v) # fst m, snd m))),
      sc_get = (\<lambda>bk k m. (case map_of (fst m) k of Some v \<Rightarrow> Inr [Inr v] | None \<Rightarrow> Inl err, m)),
      sc_head = (\<lambda>bk k m. (case map_of (fst m) k of Some v \<Rightarrow> Inr () | None \<Rightarrow> Inl err, m)),
      sc_delete = (\<lambda>bk k m. (Inr (), (filter (\<lambda>x. fst x \<noteq> k) (fst m), snd m))),
      sc_create_multipart = (\<lambda>bk k m. (Inr (Some ''upload''), (fst m, []))),
      sc_upload_part = (\<lambda>bk k i p v m. (Inr (Some ''tag''), (fst m, (p, ''tag'', v) # snd m))),
      sc_abort_multipart = (\<lambda>bk k i m. (Inr (), (fst m, []))),
      sc_complete_multipart = (\<lambda>bk k i cs m.
        (case (if sorted_wrt (<) (map fst cs) then those (map (part_value (snd m)) cs) else None) of
           None \<Rightarrow> (Inl err, m)
         | Some vs \<Rightarrow> (Inr (), ((k, concat vs) # fst m, [])))),
      sc_create_bucket = (\<lambda>bk r m. (Inr (), m)), sc_list_buckets = (\<lambda>m. (Inr [], m)),
      sc_list_objects = (\<lambda>bk pre t m. (Inr \<lparr>pg_keys = map (Some \<circ> fst) (fst m), pg_truncated = Some False, pg_next = None\<rparr>, m)),
      sc_presign_config = (\<lambda>e. Inr ()), sc_presign = (\<lambda>bk k e m. Inr k), sc_stream = (\<lambda>d o' l. Inr (take l (drop o' d)))\<rparr>)"

definition s3_memory_service :: "s3_memory s3_service" where
  "s3_memory_service = \<lparr>ss_client = s3_memory_client, ss_store = (\<lambda>m. map_of (fst m)), ss_parts = (\<lambda>m i. map_of (snd m))\<rparr>"

lemma those_parts: "parts_match (map_of parts) cs vs \<Longrightarrow> those (map (part_value parts) cs) = Some vs"
  unfolding parts_match_def by (induction cs vs rule: list_all2_induct) (auto simp: part_value_def)

lemma s3_memory_serves: "s3_serves b s3_memory_service"
proof -
  have "objects_law b s3_memory_service"
    by (auto simp: objects_law_def s3_memory_service_def s3_memory_client_def Let_def map_of_filter_key split: option.splits)
  moreover have "parts_law b s3_memory_service"
    by (auto simp: parts_law_def s3_memory_service_def s3_memory_client_def Let_def unwrap_or_def)
  moreover have "completion_law b s3_memory_service"
    by (auto simp: completion_law_def s3_memory_service_def s3_memory_client_def Let_def those_parts split: option.splits if_splits)
  ultimately show ?thesis by (simp add: s3_serves_def)
qed

definition demo_s3 :: s3_backend where
  "demo_s3 = \<lparr>sb_bucket = ''bucket'', sb_prefix = [], sb_region = ''us-east-1'', sb_multipart_threshold = 4, sb_part_size = 2\<rparr>"


end
