(* ===== verification/File_Servers.thy ===== *)
theory File_Servers
  imports Http
begin

text \<open>
  The backends for file servers (\<open>src/storage/ftp.rs\<close>, \<open>src/storage/sftp.rs\<close>, \<open>src/storage/samba.rs\<close>).
  Each operation opens a connection of its own. The client libraries \<open>suppaftp\<close>, \<open>russh\<close> and
  \<open>pavao\<close> are outside the repository: one record for each holds the calls the sources make, which act on
  a state \<open>'n\<close> of the network; a session, a data stream and an open file are numbered handles.

  Shown: over a server that behaves as documented the FTP and SFTP backends are object stores; a file
  written over SMB keeps the tail of a longer one it replaces; the directories created
  for a path are relative ones, also when the base path is absolute.
\<close>

section \<open>Calls of a client\<close>

text \<open>A call whose error is reported under a message, and one whose result is dropped.\<close>

definition call :: "string \<Rightarrow> ('n \<Rightarrow> (string + 'a) \<times> 'n) \<Rightarrow> 'n \<Rightarrow> 'a app_result \<times> 'n" where
  "call msg m n = (case m n of (Inl e, n1) \<Rightarrow> (Inl (Internal (msg @ e)), n1) | (Inr v, n1) \<Rightarrow> (Inr v, n1))"

definition ignoring :: "('n \<Rightarrow> (string + 'a) \<times> 'n) \<Rightarrow> 'n \<Rightarrow> 'n" where
  "ignoring m n = snd (m n)"

lemma call_Inr: "call msg m n = (Inr v, n1) \<longleftrightarrow> m n = (Inr v, n1)"
  by (auto simp: call_def split: sum.splits prod.splits)

lemma call_Inl: "call msg m n = (Inl e, n1) \<longleftrightarrow> (\<exists>x. m n = (Inl x, n1) \<and> e = Internal (msg @ x))"
  by (auto simp: call_def split: sum.splits prod.splits)

text \<open>The loop over the directories above a path; a directory that cannot be created is passed over.\<close>

fun make_dirs :: "(string \<Rightarrow> 'n \<Rightarrow> (string + unit) \<times> 'n) \<Rightarrow> string list \<Rightarrow> 'n \<Rightarrow> 'n" where
  "make_dirs mkdir [] n = n"
| "make_dirs mkdir (dir # dirs) n = make_dirs mkdir dirs (ignoring (mkdir dir) n)"

lemma make_dirs_store:
  "(\<And>dir n. store (snd (mkdir dir n)) = store n) \<Longrightarrow> store (make_dirs mkdir dirs n) = store n"
  by (induction dirs arbitrary: n) (simp_all add: ignoring_def)

text \<open>The directories start with a component of the path: a slash in front of it is lost.\<close>

lemma directories_leading_slash: "directories (CHR ''/'' # dir) = directories dir"
  by (simp add: directories_def)

lemma split_on_parts_no_sep: "p \<in> set (split_on c s) \<Longrightarrow> c \<notin> set p"
proof (induction s arbitrary: p)
  case (Cons x xs)
  then show ?case by (cases "split_on c xs") (auto split: if_splits)
qed simp

lemma hd_join_str: "p \<noteq> [] \<Longrightarrow> hd (join_str sep (p # ps)) = hd p"
  by (cases ps) auto

lemma directories_not_absolute:
  assumes "dir \<in> set (directories path)"
  shows "\<not> prefix ''/'' dir"
proof -
  define parts where "parts = filter (\<lambda>p. p \<noteq> []) (split_on (CHR ''/'') path)"
  from assms obtain i where i: "i < length parts" "dir = join_str ''/'' (take (Suc i) parts)"
    by (auto simp: directories_prefixes Let_def parts_def [symmetric])
  then obtain p ps where ps: "parts = p # ps" by (cases parts) auto
  then have "p \<in> set parts" by simp
  then have "p \<noteq> []" "CHR ''/'' \<notin> set p" using split_on_parts_no_sep by (auto simp: parts_def)
  moreover from i ps \<open>p \<noteq> []\<close> have "hd dir = hd p" by (simp add: hd_join_str)
  ultimately have "hd dir \<noteq> CHR ''/''" by (cases p) auto
  then show ?thesis by (auto simp: prefix_def)
qed

lemma parent_dirs_not_absolute: "dir \<in> set (parent_dirs path) \<Longrightarrow> \<not> prefix ''/'' dir"
  using directories_not_absolute by (auto simp: parent_dirs_def split: option.splits if_splits)

section \<open>FTP\<close>

text \<open>\<open>'s\<close> is a control connection, \<open>'t\<close> a data stream.\<close>

record ('s, 't, 'n) ftp_client =
  fc_connect :: "string \<Rightarrow> 'n \<Rightarrow> (string + 's) \<times> 'n"
  fc_login :: "'s \<Rightarrow> string \<Rightarrow> string \<Rightarrow> 'n \<Rightarrow> (string + unit) \<times> 'n"
  fc_binary :: "'s \<Rightarrow> 'n \<Rightarrow> (string + unit) \<times> 'n"
  fc_mkdir :: "'s \<Rightarrow> string \<Rightarrow> 'n \<Rightarrow> (string + unit) \<times> 'n"
  fc_put_file :: "'s \<Rightarrow> string \<Rightarrow> bytes \<Rightarrow> 'n \<Rightarrow> (string + nat) \<times> 'n"
  fc_retr :: "'s \<Rightarrow> string \<Rightarrow> 'n \<Rightarrow> (string + 't) \<times> 'n"
  fc_read_to_end :: "'t \<Rightarrow> 'n \<Rightarrow> (string + bytes) \<times> 'n"
  fc_finalize :: "'s \<Rightarrow> 't \<Rightarrow> 'n \<Rightarrow> (string + unit) \<times> 'n"
  fc_rm :: "'s \<Rightarrow> string \<Rightarrow> 'n \<Rightarrow> (string + unit) \<times> 'n"
  fc_size :: "'s \<Rightarrow> string \<Rightarrow> 'n \<Rightarrow> (string + nat) \<times> 'n"
  fc_nlst :: "'s \<Rightarrow> string \<Rightarrow> 'n \<Rightarrow> (string + string list) \<times> 'n"
  fc_quit :: "'s \<Rightarrow> 'n \<Rightarrow> (string + unit) \<times> 'n"

definition ftp_connect :: "('s, 't, 'n) ftp_client \<Rightarrow> ftp_config \<Rightarrow> 'n \<Rightarrow> 's app_result \<times> 'n" where
  "ftp_connect fc c =
     andthen (call ''FTP connect failed: '' (fc_connect fc (ftp_host c @ '':'' @ nat_str (ftp_port c)))) (\<lambda>s.
     andthen (call ''FTP login failed: '' (fc_login fc s (ftp_username c) (ftp_password c))) (\<lambda>_.
     andthen (call ''FTP set binary mode failed: '' (fc_binary fc s)) (\<lambda>_. result (Inr s))))"

definition ftp_ensure_parent_dirs :: "('s, 't, 'n) ftp_client \<Rightarrow> 's \<Rightarrow> string \<Rightarrow> 'n \<Rightarrow> 'n" where
  "ftp_ensure_parent_dirs fc s remote = make_dirs (fc_mkdir fc s) (parent_dirs remote)"

definition ftp_upload :: "('s, 't, 'n) ftp_client \<Rightarrow> ftp_config \<Rightarrow> string \<Rightarrow> bytes \<Rightarrow> 'n \<Rightarrow> unit app_result \<times> 'n" where
  "ftp_upload fc c path data =
     (let remote = ftp_remote_path c path
      in andthen (ftp_connect fc c) (\<lambda>s n.
           andthen (call ''FTP upload failed: '' (fc_put_file fc s remote data))
             (\<lambda>_ n2. (Inr (), ignoring (fc_quit fc s) n2))
             (ftp_ensure_parent_dirs fc s remote n)))"

definition ftp_download :: "('s, 't, 'n) ftp_client \<Rightarrow> ftp_config \<Rightarrow> string \<Rightarrow> 'n \<Rightarrow> bytes app_result \<times> 'n" where
  "ftp_download fc c path =
     (let remote = ftp_remote_path c path
      in andthen (ftp_connect fc c) (\<lambda>s n.
           (case fc_retr fc s remote n of
              (Inl e, n1) \<Rightarrow>
                (Inl (if contains_str ''550'' e then NotFound (''File not found on FTP: '' @ path)
                      else Internal (''FTP download failed: '' @ e)), n1)
            | (Inr t, n1) \<Rightarrow>
                andthen (call ''FTP read data failed: '' (fc_read_to_end fc t)) (\<lambda>buf.
                andthen (call ''FTP finalize stream failed: '' (fc_finalize fc s t)) (\<lambda>_ n2.
                  (Inr buf, ignoring (fc_quit fc s) n2))) n1)))"

definition ftp_delete :: "('s, 't, 'n) ftp_client \<Rightarrow> ftp_config \<Rightarrow> string \<Rightarrow> 'n \<Rightarrow> unit app_result \<times> 'n" where
  "ftp_delete fc c path =
     (let remote = ftp_remote_path c path
      in andthen (ftp_connect fc c) (\<lambda>s n.
           (case fc_rm fc s remote n of
              (Inr _, n1) \<Rightarrow> (Inr (), ignoring (fc_quit fc s) n1)
            | (Inl e, n1) \<Rightarrow>
                if \<not> contains_str ''550'' e
                then (Inl (Internal (''FTP delete failed: '' @ e)), ignoring (fc_quit fc s) n1)
                else (Inr (), ignoring (fc_quit fc s) n1))))"

definition ftp_exists :: "('s, 't, 'n) ftp_client \<Rightarrow> ftp_config \<Rightarrow> string \<Rightarrow> 'n \<Rightarrow> bool app_result \<times> 'n" where
  "ftp_exists fc c path =
     andthen (ftp_connect fc c) (\<lambda>s n.
       (let (r, n1) = fc_size fc s (ftp_remote_path c path) n
        in (Inr (case r of Inr _ \<Rightarrow> True | Inl _ \<Rightarrow> False), ignoring (fc_quit fc s) n1)))"

text \<open>The directory a listing reads, and the names it keeps.\<close>

definition list_dir :: "string \<Rightarrow> string" where
  "list_dir base = (if base = [] then ''.'' else base)"

definition keep_prefixed :: "string \<Rightarrow> string list \<Rightarrow> string list" where
  "keep_prefixed pre = filter (\<lambda>name. pre = [] \<or> prefix pre name)"

definition ftp_list :: "('s, 't, 'n) ftp_client \<Rightarrow> ftp_config \<Rightarrow> string \<Rightarrow> 'n \<Rightarrow> string list app_result \<times> 'n" where
  "ftp_list fc c pre =
     andthen (ftp_connect fc c) (\<lambda>s.
     andthen (call ''FTP list failed: '' (fc_nlst fc s (list_dir (ftp_base_path c)))) (\<lambda>entries n.
       (let base = (if ftp_base_path c = [] then [] else trim_end_matches (CHR ''/'') (ftp_base_path c) @ ''/'')
        in (Inr (keep_prefixed pre (map (\<lambda>e. unwrap_or e (strip_prefix base e)) entries)), ignoring (fc_quit fc s) n))))"

section \<open>The FTP backend is an object store\<close>

text \<open>
  An FTP server that can be reached: it stores what is put under the remote path, a transfer that fails
  may leave a partial file, a stored file is sent whole, and 550 answers a removal of a file that is not there.
  \<open>store n p\<close> is the file under the remote path \<open>p\<close>, as the account sees it.
\<close>

definition ftp_reachable :: "('s, 't, 'n) ftp_client \<Rightarrow> ftp_config \<Rightarrow> ('n \<Rightarrow> string \<Rightarrow> bytes option) \<Rightarrow> bool" where
  "ftp_reachable fc c store \<longleftrightarrow>
     (\<forall>n. \<exists>s n1 n2 n3. fc_connect fc (ftp_host c @ '':'' @ nat_str (ftp_port c)) n = (Inr s, n1) \<and>
        fc_login fc s (ftp_username c) (ftp_password c) n1 = (Inr (), n2) \<and> fc_binary fc s n2 = (Inr (), n3) \<and> store n3 = store n)"

definition ftp_files :: "('s, 't, 'n) ftp_client \<Rightarrow> ('n \<Rightarrow> string \<Rightarrow> bytes option) \<Rightarrow> bool" where
  "ftp_files fc store \<longleftrightarrow>
     (\<forall>s dir n. store (snd (fc_mkdir fc s dir n)) = store n) \<and>
     (\<forall>s n. store (snd (fc_quit fc s n)) = store n) \<and>
     (\<forall>s p v n k n1. fc_put_file fc s p v n = (Inr k, n1) \<longrightarrow> store n1 = (store n)(p \<mapsto> v)) \<and>
     (\<forall>s p v n e n1 q. fc_put_file fc s p v n = (Inl e, n1) \<longrightarrow> q \<noteq> p \<longrightarrow> store n1 q = store n q) \<and>
     (\<forall>s p n v. store n p = Some v \<longrightarrow>
        (\<exists>t n1 n2 n3. fc_retr fc s p n = (Inr t, n1) \<and> fc_read_to_end fc t n1 = (Inr v, n2) \<and>
           fc_finalize fc s t n2 = (Inr (), n3) \<and> store n3 = store n)) \<and>
     (\<forall>s p n. store n p = None \<longrightarrow> (\<exists>e n1. fc_retr fc s p n = (Inl e, n1) \<and> store n1 = store n)) \<and>
     (\<forall>s p n u n1. fc_rm fc s p n = (Inr u, n1) \<longrightarrow> store n1 = (store n)(p := None)) \<and>
     (\<forall>s p n e n1. fc_rm fc s p n = (Inl e, n1) \<longrightarrow> store n1 = store n \<and> (contains_str ''550'' e \<longrightarrow> store n p = None))"

definition ftp_serves :: "ftp_config \<Rightarrow> ('s, 't, 'n) ftp_client \<times> ('n \<Rightarrow> string \<Rightarrow> bytes option) \<Rightarrow> bool" where
  "ftp_serves c h \<longleftrightarrow> ftp_reachable (fst h) c (snd h) \<and> ftp_files (fst h) (snd h)"

lemma ftp_filesD:
  assumes "ftp_files fc store"
  shows "store (snd (fc_mkdir fc s dir n)) = store n" and "store (snd (fc_quit fc s n)) = store n"
    and "fc_put_file fc s p v n = (Inr k, n1) \<Longrightarrow> store n1 = (store n)(p \<mapsto> v)"
    and "fc_put_file fc s p v n = (Inl e, n1) \<Longrightarrow> q \<noteq> p \<Longrightarrow> store n1 q = store n q"
    and "store n p = Some v \<Longrightarrow> \<exists>t n1 n2 n3. fc_retr fc s p n = (Inr t, n1) \<and> fc_read_to_end fc t n1 = (Inr v, n2) \<and>
          fc_finalize fc s t n2 = (Inr (), n3) \<and> store n3 = store n"
    and "store n p = None \<Longrightarrow> \<exists>e n1. fc_retr fc s p n = (Inl e, n1) \<and> store n1 = store n"
    and "fc_rm fc s p n = (Inr u, n1) \<Longrightarrow> store n1 = (store n)(p := None)"
    and "fc_rm fc s p n = (Inl e, n1) \<Longrightarrow> store n1 = store n \<and> (contains_str ''550'' e \<longrightarrow> store n p = None)"
  using assms unfolding ftp_files_def by meson+

lemma ftp_connected:
  assumes "ftp_reachable fc c store"
  obtains s n1 where "ftp_connect fc c n = (Inr s, n1)" and "store n1 = store n"
proof -
  from assms obtain s n1 n2 n3 where "fc_connect fc (ftp_host c @ '':'' @ nat_str (ftp_port c)) n = (Inr s, n1)"
    "fc_login fc s (ftp_username c) (ftp_password c) n1 = (Inr (), n2)" "fc_binary fc s n2 = (Inr (), n3)" "store n3 = store n"
    unfolding ftp_reachable_def by blast
  then have "ftp_connect fc c n = (Inr s, n3)" "store n3 = store n" by (simp_all add: ftp_connect_def andthen_def call_def result_def)
  then show thesis by (rule that)
qed

lemma ftp_upload_store:
  assumes "ftp_serves c (fc, store)" and "ftp_upload fc c path data n = (r, n1)"
  shows "case r of Inr _ \<Rightarrow> store n1 = (store n)(ftp_remote_path c path \<mapsto> data)
    | Inl _ \<Rightarrow> \<forall>q. q \<noteq> ftp_remote_path c path \<longrightarrow> store n1 q = store n q"
proof -
  from assms(1) have reach: "ftp_reachable fc c store" and f: "ftp_files fc store" by (simp_all add: ftp_serves_def)
  obtain s n2 where s: "ftp_connect fc c n = (Inr s, n2)" "store n2 = store n" by (rule ftp_connected [OF reach])
  define n3 where "n3 = ftp_ensure_parent_dirs fc s (ftp_remote_path c path) n2"
  have "store n3 = store n"
    using s(2) make_dirs_store [of store "fc_mkdir fc s"] ftp_filesD(1) [OF f] by (simp add: n3_def ftp_ensure_parent_dirs_def)
  moreover obtain x n4 where x: "fc_put_file fc s (ftp_remote_path c path) data n3 = (x, n4)" by fastforce
  ultimately show ?thesis
    using assms(2) s(1) ftp_filesD(2-4) [OF f]
    by (cases x) (auto simp: ftp_upload_def Let_def andthen_def call_def ignoring_def n3_def [symmetric])
qed

lemma ftp_download_store:
  assumes "ftp_serves c (fc, store)" and "ftp_download fc c path n = (r, n1)"
  shows "store n1 = store n \<and> (case store n (ftp_remote_path c path) of Some v \<Rightarrow> r = Inr v | None \<Rightarrow> \<exists>e. r = Inl e)"
proof -
  from assms(1) have reach: "ftp_reachable fc c store" and f: "ftp_files fc store" by (simp_all add: ftp_serves_def)
  obtain s n2 where s: "ftp_connect fc c n = (Inr s, n2)" "store n2 = store n" by (rule ftp_connected [OF reach])
  let ?p = "ftp_remote_path c path"
  show ?thesis
  proof (cases "store n2 ?p")
    case None
    with ftp_filesD(6) [OF f] obtain e n3 where "fc_retr fc s ?p n2 = (Inl e, n3)" "store n3 = store n2" by blast
    with assms(2) s None show ?thesis by (auto simp: ftp_download_def Let_def)
  next
    case (Some v)
    with ftp_filesD(5) [OF f] obtain t n3 n4 n5 where
      "fc_retr fc s ?p n2 = (Inr t, n3)" "fc_read_to_end fc t n3 = (Inr v, n4)" "fc_finalize fc s t n4 = (Inr (), n5)" "store n5 = store n2"
      by blast
    with assms(2) s Some ftp_filesD(2) [OF f] show ?thesis
      by (auto simp: ftp_download_def Let_def andthen_def call_def ignoring_def)
  qed
qed

lemma ftp_delete_store:
  assumes "ftp_serves c (fc, store)" and "ftp_delete fc c path n = (r, n1)"
  shows "store n1 = (case r of Inr _ \<Rightarrow> (store n)(ftp_remote_path c path := None) | Inl _ \<Rightarrow> store n)"
proof -
  from assms(1) have reach: "ftp_reachable fc c store" and f: "ftp_files fc store" by (simp_all add: ftp_serves_def)
  obtain s n2 where s: "ftp_connect fc c n = (Inr s, n2)" "store n2 = store n" by (rule ftp_connected [OF reach])
  obtain x n3 where x: "fc_rm fc s (ftp_remote_path c path) n2 = (x, n3)" by fastforce
  show ?thesis
  proof (cases x)
    case (Inr u)
    with ftp_filesD(7) [OF f x [unfolded Inr]] assms(2) s x ftp_filesD(2) [OF f] show ?thesis
      by (auto simp: ftp_delete_def Let_def ignoring_def)
  next
    case (Inl e)
    note gone = ftp_filesD(8) [OF f x [unfolded Inl]]
    show ?thesis
    proof (cases "contains_str ''550'' e")
      case True
      with gone s have "store n3 = store n" "(store n)(ftp_remote_path c path := None) = store n" by auto
      with True assms(2) s x Inl ftp_filesD(2) [OF f] show ?thesis by (auto simp: ftp_delete_def Let_def ignoring_def)
    next
      case False
      with gone assms(2) s x Inl ftp_filesD(2) [OF f] show ?thesis by (auto simp: ftp_delete_def Let_def ignoring_def)
    qed
  qed
qed

lemma ftp_remote_path_inj: "ftp_remote_path c p = ftp_remote_path c q \<longleftrightarrow> p = q"
  by (simp add: ftp_remote_path_def object_name_inj)

interpretation ftp: object_backend "ftp_serves c" snd "\<lambda>path. True" "ftp_remote_path c"
    "\<lambda>h. ftp_upload (fst h) c" "\<lambda>h. ftp_download (fst h) c" "\<lambda>h. ftp_delete (fst h) c" for c
proof (unfold_locales, goal_cases)
  case (1 p q)
  then show ?case by (simp add: ftp_remote_path_inj)
next
  case (2 h p v n n1)
  then show ?case using ftp_upload_store [of c "fst h" "snd h" p v n] by simp
next
  case (3 h p v n e n1 k)
  then show ?case using ftp_upload_store [of c "fst h" "snd h" p v n] by simp
next
  case (4 h p n x n1)
  then show ?case using ftp_download_store [of c "fst h" "snd h" p n] by simp
next
  case (5 h p n n1)
  then show ?case using ftp_delete_store [of c "fst h" "snd h" p n] by simp
next
  case (6 h p n e n1 k)
  then show ?case using ftp_delete_store [of c "fst h" "snd h" p n] by simp
qed

section \<open>SFTP\<close>

text \<open>
  \<open>'h\<close> is an SSH connection, \<open>'c\<close> a channel on it, \<open>'s\<close> an SFTP session and \<open>'f\<close> an open file. The
  handler accepts every server key, so the key is no part of the model.
\<close>

record ('h, 'c, 's, 'f, 'n) sftp_client =
  tc_connect :: "string \<Rightarrow> 'n \<Rightarrow> (string + 'h) \<times> 'n"
  tc_authenticate :: "'h \<Rightarrow> string \<Rightarrow> string \<Rightarrow> 'n \<Rightarrow> (string + bool) \<times> 'n"
  tc_channel :: "'h \<Rightarrow> 'n \<Rightarrow> (string + 'c) \<times> 'n"
  tc_subsystem :: "'c \<Rightarrow> string \<Rightarrow> 'n \<Rightarrow> (string + unit) \<times> 'n"
  tc_session :: "'c \<Rightarrow> 'n \<Rightarrow> (string + 's) \<times> 'n"
  tc_create_dir :: "'s \<Rightarrow> string \<Rightarrow> 'n \<Rightarrow> (string + unit) \<times> 'n"
  tc_create :: "'s \<Rightarrow> string \<Rightarrow> 'n \<Rightarrow> (string + 'f) \<times> 'n"
  tc_write_all :: "'f \<Rightarrow> bytes \<Rightarrow> 'n \<Rightarrow> (string + unit) \<times> 'n"
  tc_shutdown :: "'f \<Rightarrow> 'n \<Rightarrow> (string + unit) \<times> 'n"
  tc_read :: "'s \<Rightarrow> string \<Rightarrow> 'n \<Rightarrow> (string + bytes) \<times> 'n"
  tc_remove_file :: "'s \<Rightarrow> string \<Rightarrow> 'n \<Rightarrow> (string + unit) \<times> 'n"
  tc_try_exists :: "'s \<Rightarrow> string \<Rightarrow> 'n \<Rightarrow> (string + bool) \<times> 'n"
  tc_read_dir :: "'s \<Rightarrow> string \<Rightarrow> 'n \<Rightarrow> (string + string list) \<times> 'n"

definition sftp_connect :: "('h, 'c, 's, 'f, 'n) sftp_client \<Rightarrow> ftp_config \<Rightarrow> 'n \<Rightarrow> 's app_result \<times> 'n" where
  "sftp_connect sc c =
     andthen (call ''SSH connect failed: '' (tc_connect sc (ftp_host c @ '':'' @ nat_str (ftp_port c)))) (\<lambda>handle.
     andthen (call ''SSH auth failed: '' (tc_authenticate sc handle (ftp_username c) (ftp_password c))) (\<lambda>ok.
       if \<not> ok then result (Inl (Internal ''SSH authentication failed: invalid credentials''))
       else
         andthen (call ''SSH channel open failed: '' (tc_channel sc handle)) (\<lambda>channel.
         andthen (call ''SFTP subsystem request failed: '' (tc_subsystem sc channel ''sftp'')) (\<lambda>_.
           call ''SFTP session init failed: '' (tc_session sc channel)))))"

definition sftp_ensure_parent_dirs :: "('h, 'c, 's, 'f, 'n) sftp_client \<Rightarrow> 's \<Rightarrow> string \<Rightarrow> 'n \<Rightarrow> 'n" where
  "sftp_ensure_parent_dirs sc s remote = make_dirs (tc_create_dir sc s) (parent_dirs remote)"

definition sftp_upload :: "('h, 'c, 's, 'f, 'n) sftp_client \<Rightarrow> ftp_config \<Rightarrow> string \<Rightarrow> bytes \<Rightarrow> 'n \<Rightarrow> unit app_result \<times> 'n" where
  "sftp_upload sc c path data =
     (let remote = ftp_remote_path c path
      in andthen (sftp_connect sc c) (\<lambda>s n.
           andthen (call ''SFTP create file failed: '' (tc_create sc s remote)) (\<lambda>f.
           andthen (call ''SFTP write failed: '' (tc_write_all sc f data)) (\<lambda>_.
             call ''SFTP close file failed: '' (tc_shutdown sc f)))
           (sftp_ensure_parent_dirs sc s remote n)))"

definition sftp_missing :: "string \<Rightarrow> bool" where
  "sftp_missing e \<longleftrightarrow> contains_str ''No such file'' e \<or> contains_str ''no such file'' e"

definition sftp_download :: "('h, 'c, 's, 'f, 'n) sftp_client \<Rightarrow> ftp_config \<Rightarrow> string \<Rightarrow> 'n \<Rightarrow> bytes app_result \<times> 'n" where
  "sftp_download sc c path =
     andthen (sftp_connect sc c) (\<lambda>s n.
       (case tc_read sc s (ftp_remote_path c path) n of
          (Inl e, n1) \<Rightarrow>
            (Inl (if sftp_missing e then NotFound (''File not found on SFTP: '' @ path)
                  else Internal (''SFTP download failed: '' @ e)), n1)
        | (Inr data, n1) \<Rightarrow> (Inr data, n1)))"

definition sftp_delete :: "('h, 'c, 's, 'f, 'n) sftp_client \<Rightarrow> ftp_config \<Rightarrow> string \<Rightarrow> 'n \<Rightarrow> unit app_result \<times> 'n" where
  "sftp_delete sc c path =
     andthen (sftp_connect sc c) (\<lambda>s n.
       (case tc_remove_file sc s (ftp_remote_path c path) n of
          (Inr _, n1) \<Rightarrow> (Inr (), n1)
        | (Inl e, n1) \<Rightarrow> (if sftp_missing e then Inr () else Inl (Internal (''SFTP delete failed: '' @ e)), n1)))"

definition sftp_exists :: "('h, 'c, 's, 'f, 'n) sftp_client \<Rightarrow> ftp_config \<Rightarrow> string \<Rightarrow> 'n \<Rightarrow> bool app_result \<times> 'n" where
  "sftp_exists sc c path =
     andthen (sftp_connect sc c) (\<lambda>s. call ''SFTP exists check failed: '' (tc_try_exists sc s (ftp_remote_path c path)))"

definition sftp_list :: "('h, 'c, 's, 'f, 'n) sftp_client \<Rightarrow> ftp_config \<Rightarrow> string \<Rightarrow> 'n \<Rightarrow> string list app_result \<times> 'n" where
  "sftp_list sc c pre =
     andthen (sftp_connect sc c) (\<lambda>s.
     andthen (call ''SFTP list failed: '' (tc_read_dir sc s (list_dir (ftp_base_path c)))) (\<lambda>names.
       result (Inr (keep_prefixed pre names))))"

section \<open>The SFTP backend is an object store\<close>

text \<open>Creating a file empties it; writing and closing it leave what was written.\<close>

definition sftp_reachable :: "('h, 'c, 's, 'f, 'n) sftp_client \<Rightarrow> ftp_config \<Rightarrow> ('n \<Rightarrow> string \<Rightarrow> bytes option) \<Rightarrow> bool" where
  "sftp_reachable sc c store \<longleftrightarrow>
     (\<forall>n. \<exists>h ch s n1 n2 n3 n4 n5. tc_connect sc (ftp_host c @ '':'' @ nat_str (ftp_port c)) n = (Inr h, n1) \<and>
        tc_authenticate sc h (ftp_username c) (ftp_password c) n1 = (Inr True, n2) \<and> tc_channel sc h n2 = (Inr ch, n3) \<and>
        tc_subsystem sc ch ''sftp'' n3 = (Inr (), n4) \<and> tc_session sc ch n4 = (Inr s, n5) \<and> store n5 = store n)"

definition sftp_files :: "('h, 'c, 's, 'f, 'n) sftp_client \<Rightarrow> ('n \<Rightarrow> string \<Rightarrow> bytes option) \<Rightarrow> bool" where
  "sftp_files sc store \<longleftrightarrow>
     (\<forall>s dir n. store (snd (tc_create_dir sc s dir n)) = store n) \<and>
     (\<forall>s p n r n1 q. tc_create sc s p n = (r, n1) \<longrightarrow> q \<noteq> p \<longrightarrow> store n1 q = store n q) \<and>
     (\<forall>s p n f n1 v r n2 q. tc_create sc s p n = (Inr f, n1) \<longrightarrow> tc_write_all sc f v n1 = (r, n2) \<longrightarrow> q \<noteq> p \<longrightarrow> store n2 q = store n q) \<and>
     (\<forall>s p n f n1 v n2 r n3 q. tc_create sc s p n = (Inr f, n1) \<longrightarrow> tc_write_all sc f v n1 = (Inr (), n2) \<longrightarrow>
        tc_shutdown sc f n2 = (r, n3) \<longrightarrow> q \<noteq> p \<longrightarrow> store n3 q = store n q) \<and>
     (\<forall>s p n f n1 v n2 n3. tc_create sc s p n = (Inr f, n1) \<longrightarrow> tc_write_all sc f v n1 = (Inr (), n2) \<longrightarrow>
        tc_shutdown sc f n2 = (Inr (), n3) \<longrightarrow> store n3 p = Some v) \<and>
     (\<forall>s p n v. store n p = Some v \<longrightarrow> (\<exists>n1. tc_read sc s p n = (Inr v, n1) \<and> store n1 = store n)) \<and>
     (\<forall>s p n. store n p = None \<longrightarrow> (\<exists>e n1. tc_read sc s p n = (Inl e, n1) \<and> store n1 = store n)) \<and>
     (\<forall>s p n u n1. tc_remove_file sc s p n = (Inr u, n1) \<longrightarrow> store n1 = (store n)(p := None)) \<and>
     (\<forall>s p n e n1. tc_remove_file sc s p n = (Inl e, n1) \<longrightarrow> store n1 = store n \<and> (sftp_missing e \<longrightarrow> store n p = None))"

definition sftp_serves :: "ftp_config \<Rightarrow> ('h, 'c, 's, 'f, 'n) sftp_client \<times> ('n \<Rightarrow> string \<Rightarrow> bytes option) \<Rightarrow> bool" where
  "sftp_serves c h \<longleftrightarrow> sftp_reachable (fst h) c (snd h) \<and> sftp_files (fst h) (snd h)"

lemma sftp_filesD:
  assumes "sftp_files sc store"
  shows "store (snd (tc_create_dir sc s dir n)) = store n"
    and "tc_create sc s p n = (r, n1) \<Longrightarrow> q \<noteq> p \<Longrightarrow> store n1 q = store n q"
    and "tc_create sc s p n = (Inr f, n1) \<Longrightarrow> tc_write_all sc f v n1 = (x, n2) \<Longrightarrow> q \<noteq> p \<Longrightarrow> store n2 q = store n q"
    and "tc_create sc s p n = (Inr f, n1) \<Longrightarrow> tc_write_all sc f v n1 = (Inr (), n2) \<Longrightarrow> tc_shutdown sc f n2 = (y, n3) \<Longrightarrow>
      q \<noteq> p \<Longrightarrow> store n3 q = store n q"
    and "tc_create sc s p n = (Inr f, n1) \<Longrightarrow> tc_write_all sc f v n1 = (Inr (), n2) \<Longrightarrow> tc_shutdown sc f n2 = (Inr (), n3) \<Longrightarrow>
      store n3 p = Some v"
    and "store n p = Some v \<Longrightarrow> \<exists>n1. tc_read sc s p n = (Inr v, n1) \<and> store n1 = store n"
    and "store n p = None \<Longrightarrow> \<exists>e n1. tc_read sc s p n = (Inl e, n1) \<and> store n1 = store n"
    and "tc_remove_file sc s p n = (Inr u, n1) \<Longrightarrow> store n1 = (store n)(p := None)"
    and "tc_remove_file sc s p n = (Inl e, n1) \<Longrightarrow> store n1 = store n \<and> (sftp_missing e \<longrightarrow> store n p = None)"
  using assms unfolding sftp_files_def by meson+

lemma sftp_connected:
  assumes "sftp_reachable sc c store"
  obtains s n1 where "sftp_connect sc c n = (Inr s, n1)" and "store n1 = store n"
proof -
  from assms obtain h ch s n1 n2 n3 n4 n5 where "tc_connect sc (ftp_host c @ '':'' @ nat_str (ftp_port c)) n = (Inr h, n1)"
    "tc_authenticate sc h (ftp_username c) (ftp_password c) n1 = (Inr True, n2)" "tc_channel sc h n2 = (Inr ch, n3)"
    "tc_subsystem sc ch ''sftp'' n3 = (Inr (), n4)" "tc_session sc ch n4 = (Inr s, n5)" "store n5 = store n"
    unfolding sftp_reachable_def by blast
  then have "sftp_connect sc c n = (Inr s, n5)" "store n5 = store n" by (simp_all add: sftp_connect_def andthen_def call_def)
  then show thesis by (rule that)
qed

lemma sftp_upload_store:
  assumes "sftp_serves c (sc, store)" and "sftp_upload sc c path data n = (r, n1)"
  shows "(q \<noteq> ftp_remote_path c path \<longrightarrow> store n1 q = store n q) \<and> (r = Inr () \<longrightarrow> store n1 (ftp_remote_path c path) = Some data)"
proof -
  from assms(1) have reach: "sftp_reachable sc c store" and f: "sftp_files sc store" by (simp_all add: sftp_serves_def)
  let ?p = "ftp_remote_path c path"
  obtain s n2 where s: "sftp_connect sc c n = (Inr s, n2)" "store n2 = store n" by (rule sftp_connected [OF reach])
  define n3 where "n3 = sftp_ensure_parent_dirs sc s ?p n2"
  have n3: "store n3 = store n"
    using s(2) make_dirs_store [of store "tc_create_dir sc s"] sftp_filesD(1) [OF f] by (simp add: n3_def sftp_ensure_parent_dirs_def)
  have up: "andthen (call ''SFTP create file failed: '' (tc_create sc s ?p)) (\<lambda>fl.
      andthen (call ''SFTP write failed: '' (tc_write_all sc fl data)) (\<lambda>_. call ''SFTP close file failed: '' (tc_shutdown sc fl))) n3 = (r, n1)"
    using assms(2) s(1) by (simp add: sftp_upload_def Let_def n3_def)
  obtain x n4 where x: "tc_create sc s ?p n3 = (x, n4)" by fastforce
  show ?thesis
  proof (cases x)
    case (Inl e)
    with up x sftp_filesD(2) [OF f x] n3 show ?thesis by (auto simp: call_def andthen_def)
  next
    case (Inr fl)
    obtain y n5 where y: "tc_write_all sc fl data n4 = (y, n5)" by fastforce
    show ?thesis
    proof (cases y)
      case (Inl e)
      with up x Inr y sftp_filesD(3) [OF f x [unfolded Inr] y] n3 show ?thesis by (auto simp: call_def andthen_def)
    next
      case (Inr u)
      note w = x [unfolded \<open>x = Inr fl\<close>] y [unfolded Inr]
      obtain z n6 where z: "tc_shutdown sc fl n5 = (z, n6)" by fastforce
      with sftp_filesD(4) [OF f w(1) _ z, of data q] sftp_filesD(5) [OF f w(1), of data n5 n6] w n3 up show ?thesis
        by (cases z) (auto simp: call_def andthen_def)
    qed
  qed
qed

lemma sftp_download_store:
  assumes "sftp_serves c (sc, store)" and "sftp_download sc c path n = (r, n1)"
  shows "store n1 = store n \<and> (case store n (ftp_remote_path c path) of Some v \<Rightarrow> r = Inr v | None \<Rightarrow> \<exists>e. r = Inl e)"
proof -
  from assms(1) have reach: "sftp_reachable sc c store" and f: "sftp_files sc store" by (simp_all add: sftp_serves_def)
  obtain s n2 where s: "sftp_connect sc c n = (Inr s, n2)" "store n2 = store n" by (rule sftp_connected [OF reach])
  let ?p = "ftp_remote_path c path"
  show ?thesis
  proof (cases "store n2 ?p")
    case None
    with sftp_filesD(7) [OF f] obtain e n3 where "tc_read sc s ?p n2 = (Inl e, n3)" "store n3 = store n2" by blast
    with assms(2) s None show ?thesis by (auto simp: sftp_download_def)
  next
    case (Some v)
    with sftp_filesD(6) [OF f] obtain n3 where "tc_read sc s ?p n2 = (Inr v, n3)" "store n3 = store n2" by blast
    with assms(2) s Some show ?thesis by (auto simp: sftp_download_def)
  qed
qed

lemma sftp_delete_store:
  assumes "sftp_serves c (sc, store)" and "sftp_delete sc c path n = (r, n1)"
  shows "store n1 = (case r of Inr _ \<Rightarrow> (store n)(ftp_remote_path c path := None) | Inl _ \<Rightarrow> store n)"
proof -
  from assms(1) have reach: "sftp_reachable sc c store" and f: "sftp_files sc store" by (simp_all add: sftp_serves_def)
  obtain s n2 where s: "sftp_connect sc c n = (Inr s, n2)" "store n2 = store n" by (rule sftp_connected [OF reach])
  obtain x n3 where x: "tc_remove_file sc s (ftp_remote_path c path) n2 = (x, n3)" by fastforce
  show ?thesis
  proof (cases x)
    case (Inr u)
    with sftp_filesD(8) [OF f x [unfolded Inr]] assms(2) s x show ?thesis by (auto simp: sftp_delete_def)
  next
    case (Inl e)
    with sftp_filesD(9) [OF f x [unfolded Inl]] assms(2) s x show ?thesis
      by (auto simp: sftp_delete_def fun_upd_idem split: if_splits)
  qed
qed

interpretation sftp: object_backend "sftp_serves c" snd "\<lambda>path. True" "ftp_remote_path c"
    "\<lambda>h. sftp_upload (fst h) c" "\<lambda>h. sftp_download (fst h) c" "\<lambda>h. sftp_delete (fst h) c" for c
proof (unfold_locales, goal_cases)
  case (1 p q)
  then show ?case by (simp add: ftp_remote_path_inj)
next
  case (2 h p v n n1)
  then show ?case using sftp_upload_store [of c "fst h" "snd h" p v n] by (auto simp: fun_eq_iff)
next
  case (3 h p v n e n1 k)
  then show ?case using sftp_upload_store [of c "fst h" "snd h" p v n] by simp
next
  case (4 h p n x n1)
  then show ?case using sftp_download_store [of c "fst h" "snd h" p n] by simp
next
  case (5 h p n n1)
  then show ?case using sftp_delete_store [of c "fst h" "snd h" p n] by simp
next
  case (6 h p n e n1 k)
  then show ?case using sftp_delete_store [of c "fst h" "snd h" p n] by simp
qed

section \<open>SMB\<close>

text \<open>
  \<open>pavao\<close> is synchronous: the calls run on a blocking thread, whose own failure is not modelled. A file
  is opened with flags; \<open>'c\<close> is a connection and \<open>'f\<close> an open file.
\<close>

record open_flags =
  of_create :: bool
  of_read :: bool
  of_write :: bool

record ('c, 'f, 'n) smb_client =
  mc_connect :: "string \<Rightarrow> string \<Rightarrow> string \<Rightarrow> string \<Rightarrow> string \<Rightarrow> 'n \<Rightarrow> (string + 'c) \<times> 'n"
  mc_mkdir :: "'c \<Rightarrow> string \<Rightarrow> nat \<Rightarrow> 'n \<Rightarrow> (string + unit) \<times> 'n"
  mc_open :: "'c \<Rightarrow> string \<Rightarrow> open_flags \<Rightarrow> 'n \<Rightarrow> (string + 'f) \<times> 'n"
  mc_write :: "'c \<Rightarrow> 'f \<Rightarrow> bytes \<Rightarrow> 'n \<Rightarrow> (string + nat) \<times> 'n"
  mc_read :: "'c \<Rightarrow> 'f \<Rightarrow> 'n \<Rightarrow> (string + bytes) \<times> 'n"
  mc_close :: "'c \<Rightarrow> 'f \<Rightarrow> 'n \<Rightarrow> (string + unit) \<times> 'n"
  mc_unlink :: "'c \<Rightarrow> string \<Rightarrow> 'n \<Rightarrow> (string + unit) \<times> 'n"
  mc_stat :: "'c \<Rightarrow> string \<Rightarrow> 'n \<Rightarrow> (string + nat) \<times> 'n"
  mc_readdir :: "'c \<Rightarrow> string \<Rightarrow> 'n \<Rightarrow> (string + string list) \<times> 'n"

definition smb_uri :: "samba_config \<Rightarrow> string" where
  "smb_uri c = ''smb://'' @ smb_host c @ ''/'' @ smb_share c"

definition smb_file_url :: "samba_config \<Rightarrow> string \<Rightarrow> string" where
  "smb_file_url c path = smb_uri c @ ''/'' @ samba_remote_path c path"

definition smb_connect :: "('c, 'f, 'n) smb_client \<Rightarrow> samba_config \<Rightarrow> 'n \<Rightarrow> 'c app_result \<times> 'n" where
  "smb_connect mc c =
     call ''SMB connect failed: ''
       (mc_connect mc (''smb://'' @ smb_host c) (smb_share c) (smb_username c) (smb_password c) (smb_workgroup c))"

definition smb_ensure_parent_dirs :: "('c, 'f, 'n) smb_client \<Rightarrow> samba_config \<Rightarrow> 'c \<Rightarrow> string \<Rightarrow> 'n \<Rightarrow> 'n" where
  "smb_ensure_parent_dirs mc c s remote =
     make_dirs (\<lambda>current. mc_mkdir mc s (smb_uri c @ ''/'' @ current) 493) (parent_dirs remote)"

text \<open>A new file is created where there is none; an existing one is opened as it is.\<close>

definition samba_upload :: "('c, 'f, 'n) smb_client \<Rightarrow> samba_config \<Rightarrow> string \<Rightarrow> bytes \<Rightarrow> 'n \<Rightarrow> unit app_result \<times> 'n" where
  "samba_upload mc c path data =
     andthen (smb_connect mc c) (\<lambda>s n.
       andthen (call ''SMB open for write failed: '' (mc_open mc s (smb_file_url c path) \<lparr>of_create = True, of_read = False, of_write = True\<rparr>)) (\<lambda>fd.
       andthen (call ''SMB write failed: '' (mc_write mc s fd data)) (\<lambda>_.
         call ''SMB close failed: '' (mc_close mc s fd)))
       (smb_ensure_parent_dirs mc c s (samba_remote_path c path) n))"

definition smb_missing :: "string \<Rightarrow> bool" where
  "smb_missing e \<longleftrightarrow> contains_str ''No such file'' e \<or> contains_str ''not found'' e"

definition samba_download :: "('c, 'f, 'n) smb_client \<Rightarrow> samba_config \<Rightarrow> string \<Rightarrow> 'n \<Rightarrow> bytes app_result \<times> 'n" where
  "samba_download mc c path =
     andthen (smb_connect mc c) (\<lambda>s n.
       (case mc_open mc s (smb_file_url c path) \<lparr>of_create = False, of_read = True, of_write = False\<rparr> n of
          (Inl e, n1) \<Rightarrow>
            (Inl (if smb_missing e then NotFound (''File not found on SMB: '' @ path)
                  else Internal (''SMB open for read failed: '' @ e)), n1)
        | (Inr fd, n1) \<Rightarrow>
            andthen (call ''SMB read failed: '' (mc_read mc s fd)) (\<lambda>data n2. (Inr data, ignoring (mc_close mc s fd) n2)) n1))"

definition samba_delete :: "('c, 'f, 'n) smb_client \<Rightarrow> samba_config \<Rightarrow> string \<Rightarrow> 'n \<Rightarrow> unit app_result \<times> 'n" where
  "samba_delete mc c path =
     andthen (smb_connect mc c) (\<lambda>s n.
       (case mc_unlink mc s (smb_file_url c path) n of
          (Inr _, n1) \<Rightarrow> (Inr (), n1)
        | (Inl e, n1) \<Rightarrow> (if smb_missing e then Inr () else Inl (Internal (''SMB delete failed: '' @ e)), n1)))"

definition samba_exists :: "('c, 'f, 'n) smb_client \<Rightarrow> samba_config \<Rightarrow> string \<Rightarrow> 'n \<Rightarrow> bool app_result \<times> 'n" where
  "samba_exists mc c path =
     andthen (smb_connect mc c) (\<lambda>s n.
       (let (r, n1) = mc_stat mc s (smb_file_url c path) n in (Inr (case r of Inr _ \<Rightarrow> True | Inl _ \<Rightarrow> False), n1)))"

definition samba_list :: "('c, 'f, 'n) smb_client \<Rightarrow> samba_config \<Rightarrow> string \<Rightarrow> 'n \<Rightarrow> string list app_result \<times> 'n" where
  "samba_list mc c pre =
     (let dir_url = (if smb_base_path c = [] then smb_uri c else smb_uri c @ ''/'' @ smb_base_path c)
      in andthen (smb_connect mc c) (\<lambda>s.
         andthen (call ''SMB list failed: '' (mc_readdir mc s dir_url)) (\<lambda>names.
           result (Inr (keep_prefixed pre (filter (\<lambda>name. name \<noteq> ''.'' \<and> name \<noteq> ''..'') names))))))"

text \<open>
  A share on which a file opened to be created is the existing one when there is one, and a write goes to
  its start and leaves what lies behind.
\<close>

definition smb_files :: "('c, 'f, 'n) smb_client \<Rightarrow> ('n \<Rightarrow> string \<Rightarrow> bytes option) \<Rightarrow> bool" where
  "smb_files mc store \<longleftrightarrow>
     (\<forall>h sh u p w n. store (snd (mc_connect mc h sh u p w n)) = store n) \<and>
     (\<forall>s dir m n. store (snd (mc_mkdir mc s dir m n)) = store n) \<and>
     (\<forall>s fd n. store (snd (mc_close mc s fd n)) = store n) \<and>
     (\<forall>s url fl n fd n1. mc_open mc s url fl n = (Inr fd, n1) \<longrightarrow> of_create fl \<longrightarrow>
        store n1 = (store n)(url \<mapsto> unwrap_or [] (store n url))) \<and>
     (\<forall>s url fl n fd n1 v k n2. mc_open mc s url fl n = (Inr fd, n1) \<longrightarrow> of_write fl \<longrightarrow> mc_write mc s fd v n1 = (Inr k, n2) \<longrightarrow>
        store n2 = (store n1)(url \<mapsto> v @ drop (length v) (unwrap_or [] (store n1 url))))"

lemma smb_filesD:
  assumes "smb_files mc store"
  shows "store (snd (mc_connect mc h sh u p w n)) = store n"
    and "store (snd (mc_mkdir mc s dir m n)) = store n" and "store (snd (mc_close mc s fd n)) = store n"
    and "mc_open mc s url fl n = (Inr fd, n1) \<Longrightarrow> of_create fl \<Longrightarrow> store n1 = (store n)(url \<mapsto> unwrap_or [] (store n url))"
    and "mc_open mc s url fl n = (Inr fd, n1) \<Longrightarrow> of_write fl \<Longrightarrow> mc_write mc s fd v n1 = (Inr k, n2) \<Longrightarrow>
      store n2 = (store n1)(url \<mapsto> v @ drop (length v) (unwrap_or [] (store n1 url)))"
  using assms unfolding smb_files_def by meson+

lemma samba_upload_keeps_tail:
  assumes "smb_files mc store" and "samba_upload mc c path data n = (Inr (), n1)"
  shows "store n1 = (store n)(smb_file_url c path \<mapsto> data @ drop (length data) (unwrap_or [] (store n (smb_file_url c path))))"
proof -
  let ?url = "smb_file_url c path" and ?fl = "\<lparr>of_create = True, of_read = False, of_write = True\<rparr>"
  from assms(2) obtain s n2 fd n3 k n4 where s: "smb_connect mc c n = (Inr s, n2)"
    and o: "mc_open mc s ?url ?fl (smb_ensure_parent_dirs mc c s (samba_remote_path c path) n2) = (Inr fd, n3)"
    and w: "mc_write mc s fd data n3 = (Inr k, n4)" and cl: "mc_close mc s fd n4 = (Inr (), n1)"
    by (auto simp: samba_upload_def andthen_Inr call_Inr)
  from s have "store n2 = store n"
    using smb_filesD(1) [OF assms(1)] by (auto simp: smb_connect_def call_Inr dest!: arg_cong [where f = "store \<circ> snd"])
  moreover have "store (smb_ensure_parent_dirs mc c s (samba_remote_path c path) n2) = store n2"
    unfolding smb_ensure_parent_dirs_def by (rule make_dirs_store) (simp add: smb_filesD(2) [OF assms(1)])
  moreover have "store n1 = store n4" using smb_filesD(3) [OF assms(1), of s fd n4] cl by simp
  ultimately show ?thesis
    using smb_filesD(4) [OF assms(1) o] smb_filesD(5) [OF assms(1) o _ w] by (simp add: unwrap_or_def)
qed

text \<open>So an upload stores what it was given exactly when it is not shorter than the file it replaces.\<close>

lemma samba_upload_exact_iff:
  assumes "smb_files mc store" and "samba_upload mc c path data n = (Inr (), n1)"
  shows "store n1 (smb_file_url c path) = Some data \<longleftrightarrow> length (unwrap_or [] (store n (smb_file_url c path))) \<le> length data"
  by (simp add: samba_upload_keeps_tail [OF assms])

end
