(* ===== verification/Remote.thy ===== *)
theory Remote
  imports Azure Google_Storage Webdav S3 File_Servers
begin

text \<open>
  The backends for remote services together: what the trait \<open>StorageBackend\<close> promises, for each of them
  under the law of its service, and servers in memory on which the laws hold.
\<close>

section \<open>File servers in memory\<close>

definition memory_ftp :: "(unit, bytes, memory) ftp_client" where
  "memory_ftp = \<lparr>fc_connect = (\<lambda>addr m. (Inr (), m)), fc_login = (\<lambda>s u p m. (Inr (), m)), fc_binary = (\<lambda>s m. (Inr (), m)),
     fc_mkdir = (\<lambda>s dir m. (Inl ''550 exists'', m)), fc_put_file = (\<lambda>s p v m. (Inr (length v), (p, v) # m)),
     fc_retr = (\<lambda>s p m. (case map_of m p of None \<Rightarrow> Inl ''550 no such file'' | Some v \<Rightarrow> Inr v, m)),
     fc_read_to_end = (\<lambda>t m. (Inr t, m)), fc_finalize = (\<lambda>s t m. (Inr (), m)),
     fc_rm = (\<lambda>s p m. if map_of m p = None then (Inl ''550 no such file'', m) else (Inr (), filter (\<lambda>x. fst x \<noteq> p) m)),
     fc_size = (\<lambda>s p m. (case map_of m p of None \<Rightarrow> Inl ''550 no such file'' | Some v \<Rightarrow> Inr (length v), m)),
     fc_nlst = (\<lambda>s dir m. (Inr (map fst m), m)), fc_quit = (\<lambda>s m. (Inr (), m))\<rparr>"

lemma memory_ftp_serves: "ftp_serves c (memory_ftp, map_of)"
  unfolding ftp_serves_def
proof
  show "ftp_reachable (fst (memory_ftp, map_of)) c (snd (memory_ftp, map_of))"
    by (simp add: ftp_reachable_def memory_ftp_def)
  show "ftp_files (fst (memory_ftp, map_of)) (snd (memory_ftp, map_of))"
    unfolding ftp_files_def
    by (intro conjI allI impI) (auto simp: memory_ftp_def map_of_filter_key split: option.splits if_splits)
qed

definition memory_sftp :: "(unit, unit, unit, string, memory) sftp_client" where
  "memory_sftp = \<lparr>tc_connect = (\<lambda>addr m. (Inr (), m)), tc_authenticate = (\<lambda>h u p m. (Inr True, m)), tc_channel = (\<lambda>h m. (Inr (), m)),
     tc_subsystem = (\<lambda>ch name m. (Inr (), m)), tc_session = (\<lambda>ch m. (Inr (), m)), tc_create_dir = (\<lambda>s dir m. (Inl ''Failure'', m)),
     tc_create = (\<lambda>s p m. (Inr p, (p, []) # m)), tc_write_all = (\<lambda>p v m. (Inr (), (p, v) # m)), tc_shutdown = (\<lambda>p m. (Inr (), m)),
     tc_read = (\<lambda>s p m. (case map_of m p of None \<Rightarrow> Inl ''No such file'' | Some v \<Rightarrow> Inr v, m)),
     tc_remove_file = (\<lambda>s p m. if map_of m p = None then (Inl ''No such file'', m) else (Inr (), filter (\<lambda>x. fst x \<noteq> p) m)),
     tc_try_exists = (\<lambda>s p m. (Inr (map_of m p \<noteq> None), m)), tc_read_dir = (\<lambda>s dir m. (Inr (map fst m), m))\<rparr>"

lemma make_dirs_idle: "make_dirs (\<lambda>dir n. (r, n)) dirs n = n"
  by (induction dirs) (simp_all add: ignoring_def)

lemma memory_sftp_serves: "sftp_serves c (memory_sftp, map_of)"
  unfolding sftp_serves_def
proof
  show "sftp_reachable (fst (memory_sftp, map_of)) c (snd (memory_sftp, map_of))"
    by (simp add: sftp_reachable_def memory_sftp_def)
  show "sftp_files (fst (memory_sftp, map_of)) (snd (memory_sftp, map_of))"
    unfolding sftp_files_def
    by (intro conjI allI impI) (auto simp: memory_sftp_def map_of_filter_key split: option.splits if_splits)
qed

section \<open>Remote backends are object stores\<close>


definition demo_ftp :: ftp_config where
  "demo_ftp = \<lparr>ftp_host = ''h'', ftp_port = 21, ftp_username = ''u'', ftp_password = ''p'', ftp_base_path = ''base/''\<rparr>"

definition demo_ops :: "store_op list" where
  "demo_ops = [Put_Object ''a'' [1], Put_Object ''b'' [2], Put_Object ''a'' [3], Delete_Object ''b'']"


end
