(* ===== verification/Spec2Isabelle.thy ===== *)
theory Spec2Isabelle
  imports Wiring Remote
begin

text \<open>
  A verification development for the storage service of this repository: a server that keeps every file
  once, by the hash of its contents, on several kinds of storage, and serves it to projects. All paths
  below are relative to \<open>src/\<close> of the repository's Rust crate, which is \<open>src/src/\<close> from its top.

  \<^bold>\<open>The program and the theories.\<close> A request passes an extractor and an access check, runs a handler
  (\<open>api/\<close>), which calls a service (\<open>services/\<close>), which reads and writes tables (\<open>db/models.rs\<close>) and calls a
  storage backend (\<open>storage/\<close>). Workers (\<open>workers/\<close>) read the same tables and call the same backends.
  The theories follow these layers.

  \<^item> \<open>Prelude\<close>, \<open>Errors\<close>: identifiers, instants, strings and JSON; the relational operators in which the SQL
    statements are written; the error type (\<open>error.rs\<close>) with its status codes and texts.
  \<^item> \<open>Schema\<close>: the tables and the constraints of the migrations (\<open>schema_ok\<close>). \<open>Models_Project\<close>,
    \<open>Models_File\<close>, \<open>Models_Sync\<close>, \<open>Models_User\<close>, \<open>Models_Link\<close>, \<open>Models_Backup\<close>, \<open>Metadata\<close>: one function per
    query of \<open>db/models.rs\<close>. The upload sessions are in \<open>Uploads\<close>, the nodes in \<open>Api_Admin\<close>, the aggregate
    queries in \<open>Dashboard\<close>.
  \<^item> \<open>Local_Disk\<close> (\<open>storage/local.rs\<close>, the trait of \<open>storage/traits.rs\<close>), \<open>Registry\<close> (\<open>storage/registry.rs\<close>,
    \<open>services/backend_resolver.rs\<close>), \<open>Http\<close>, \<open>Azure\<close>, \<open>Google_Storage\<close>, \<open>Webdav\<close>, \<open>S3\<close>, \<open>File_Servers\<close>
    (\<open>storage/azure.rs\<close>, \<open>gcs.rs\<close>, \<open>hetzner.rs\<close>, \<open>s3.rs\<close>, \<open>ftp.rs\<close>, \<open>sftp.rs\<close>, \<open>samba.rs\<close>), \<open>Remote\<close>.
  \<^item> \<open>File_Service\<close> (\<open>services/file_service.rs\<close>): upload with deduplication, download with its failover, links.
    \<open>Sync_Worker\<close> (\<open>workers/sync_worker.rs\<close>), \<open>Replication\<close> (the two together), \<open>Tiering\<close>
    (\<open>services/tier_service.rs\<close>, \<open>workers/tier_worker.rs\<close>), \<open>Bulk\<close> (\<open>services/bulk_service.rs\<close>, \<open>api/bulk.rs\<close>).
  \<^item> \<open>Crypto\<close>, \<open>Access\<close>, \<open>Auth\<close> (\<open>services/auth_service.rs\<close>, \<open>api/auth.rs\<close>, \<open>api/auth_routes.rs\<close>), \<open>Shared_Links\<close>
    (\<open>services/shared_link_service.rs\<close>, \<open>api/shared_links.rs\<close>), \<open>Uploads\<close> (\<open>api/uploads.rs\<close>,
    \<open>workers/upload_cleanup_worker.rs\<close>), \<open>Api_Files\<close> (\<open>api/files.rs\<close>), \<open>Backups\<close>
    (\<open>services/backup_service.rs\<close>, \<open>workers/backup_worker.rs\<close>, \<open>api/backups.rs\<close>), \<open>Config\<close> (\<open>config.rs\<close>),
    \<open>Api_Admin\<close> (\<open>api/projects.rs\<close>, \<open>api/storages.rs\<close>, \<open>api/mod.rs\<close>, \<open>main.rs\<close>), \<open>Dashboard\<close> (\<open>api/dashboard.rs\<close>).
  \<^item> \<open>Service\<close>: the step relation \<open>request\<close> of the whole server, with a rule for every request that changes
    something, every round of a worker and the clock, and its refinement into single statements (\<open>db_step\<close>).
  \<^item> \<open>Wiring\<close> (\<open>main.rs\<close>): the services, workers and the node name an instance makes of its configuration.

  \<^bold>\<open>State.\<close> The database is the record \<open>db\<close>: a list of rows per table, in the order of insertion, the instant
  \<open>NOW()\<close> returns, and the supply \<open>uuid_generate_v4()\<close> draws from. A statement returns its result and
  the database; a statement that violates a constraint returns the error and leaves the rows. The
  registry of backends belongs to one process (\<open>registry\<close>); the storages are the record \<open>phys\<close>: the local
  file tree and a state of the network. A handler or a worker step takes these and returns them
  changed, with a result \<open>error + 'a\<close>. What was done before an error stays done, as in the source; one SQL
  statement is one atomic step. Identifiers and unsigned counters are
  natural numbers, signed ones integers, with saturation or wrap-around where the source has it; a sum the
  database cannot represent is its error; bytes are 8-bit words, and a string is the list of its UTF-8
  bytes. Instants are microseconds since 1970, in UTC. A panic is \<open>None\<close>, or \<open>panic_error\<close> where a request
  dies of it.

  \<^bold>\<open>Parameters.\<close> What is not in the repository is an argument, with the behaviour the code relies on as a
  named law: the records \<open>crypto\<close> (hashes, tokens, base64; \<open>jwt_law\<close> and the like), \<open>env\<close> (the backends over
  a network and the library calls of the services; \<open>reads_back\<close>, \<open>containers_keep_data\<close>), \<open>dump_env\<close> and
  \<open>cron\<close> (\<open>pg_dump\<close>, compression, schedules), \<open>http_client\<close> (\<open>reqwest\<close>; \<open>object_server\<close> describes a service behind
  it), \<open>s3_client\<close>, \<open>ftp_client\<close>, \<open>sftp_client\<close> and \<open>smb_client\<close>, the archive library and the JSON parser.
  The outcome of an advisory lock and random bytes are arguments of the step that asks for them. Each law
  holds for a concrete instance: an \<open>env\<close> without a network, servers in memory (\<open>Remote\<close>), keyed hashes that
  pair their arguments (\<open>Crypto\<close>); the witnesses run on them.

  \<^bold>\<open>Interfaces.\<close> \<open>db_statement\<close> (\<open>Schema\<close>) is what a loop of statements may assume of one; \<open>blob_store\<close>
  (\<open>Local_Disk\<close>), \<open>object_backend\<close> and \<open>atomic_backend\<close> (\<open>Http\<close>) are the storage trait, interpreted by the
  local disk, FTP, SFTP, Azure, Google, S3 and WebDAV; \<open>guarded\<close> (\<open>Access\<close>) is a request behind a check,
  interpreted by the handlers for files, uploads, projects, storages and nodes.

  \<^bold>\<open>What is shown.\<close>
  \<^item> Contents: an upload can be downloaded again, is queued for every other storage, and survives the loss of
    its first storage once it is copied; a failed first upload is not noticed by the next one. A
    resumable upload is the concatenation of its chunks. The local disk and every remote backend keep what
    they acknowledge, the SMB backend excepted. Uploads in parts end exactly if the part size is positive.
  \<^item> Queue and tiers: a polling round settles what it claims, claims one after the other are disjoint, a
    scan of the tier worker never makes a file unreadable and archives overdue files, a
    synchronisation of everything is complete.
  \<^item> Search and deletion: the compiled SQL condition selects what a filter means and its text does not
    depend on user data, a bulk delete removes what its preview counts and the files left without reference.
  \<^item> Access: the checks are exactly the stated rights, requests without them change nothing, links keep their
    limit under every interleaving, tokens are bound to their link, user and lifetime.
  \<^item> Backups: a completed backup can be restored, retention keeps the newest, schedules are followed, a
    configuration in the database is well formed.
  \<^item> Administration: the registry agrees with the database, with the exceptions stated; the dashboard's charts
    and counters agree and its timelines are bounded.

  Many properties assume \<open>schema_ok\<close>, the constraints of the migrations, and \<open>supply_fresh\<close>, that identifiers
  are new when they are drawn. Both hold in every database the server can reach from an empty one
  (\<open>reachable_databases_ok\<close> below): every request is a sequence of statements (collection
  \<open>operation_runs\<close>), and every statement keeps them (collection \<open>schema_intros\<close>). Defects and deviations from
  the documentation are stated as theorems where they can be.

  \<^bold>\<open>Loops.\<close> Most loops are over lists or end by a measure: block-wise hashing and compression, the splitting of
  listings, the containment of JSON values. Three can be kept from ending by a configuration or a
  service: the parts of an upload to S3 and the pages of the listings of S3 and Google. They are partial functions
  and their termination is characterised. The removal of empty parent directories gets
  the length of the path as fuel and shortens the path in every step. A filter deeper than 32 levels is refused, as in the source.

  \<^bold>\<open>Not modelled.\<close> The pool, the migrations and the Citus functions of \<open>db/mod.rs\<close> are calls of the database driver.
  \<open>lib.rs\<close> and the \<open>configure\<close> functions register routes; the rest of \<open>main.rs\<close> starts threads and the server. The endless loops around a
  worker's round and their sleeping do not change state. A shutdown lets a round finish its statement and drops the
  rest; what that leaves is stated for backups (\<open>interrupted_backup_blocks\<close>) and covered by the invariants, which hold
  after every statement. \<open>config.rs\<close> reads its file through a library. Logging has no
  effect here. Column widths, failures of the database other than violated constraints and the failure of a
  blocking thread are left out; statements of different requests are interleaved only where a theory says
  so (claiming of tasks, downloads of links, exports, refresh tokens). The web front end is not in the language
  of the model.
\<close>

section \<open>Every database the server can reach\<close>

text \<open>
  C2: Every database the server reaches is in order. Starting with an empty database, whatever requests are
  served by whatever processes and whatever the workers do in between, also when they fail half-way: the
  constraints of the schema hold, no link counts more downloads than its limit, every task, location,
  upload and backup is in a state the program knows, and identifiers are new when they are drawn. These are
  the conditions the other properties assume.
\<close>

theorem reachable_databases_ok:
  assumes "inj g" and "(request x de tr)\<^sup>*\<^sup>* (empty_db t g, w0) (d, w)"
  shows "schema_ok d \<and> states_ok d \<and> supply_fresh d (drawn_ids d) \<and> t \<le> now d"
proof -
  from requests_run [OF assms(2)] have r: "runs (empty_db t g) d" by simp
  from empty_db_ok [OF assms(1), of t] show ?thesis
    using runs_schema [OF r] runs_states [OF r] runs_fresh [OF r] runs_clock [OF r] by (simp add: empty_db_def)
qed

theorem reachable_databases_ok_witness:
  "\<exists>d w. (request demo_env demo_dump_env demo_tar)\<^sup>*\<^sup>* (empty_db 0 Suc, demo_phys) (d, w) \<and> length (file_locations d) = 1 \<and>
     schema_ok d \<and> states_ok d \<and> supply_fresh d (drawn_ids d)"
proof -
  obtain r d w where u: "demo_uploaded = (r, d, w)" by (rule prod_cases3)
  have "(request demo_env demo_dump_env demo_tar)\<^sup>*\<^sup>* (empty_db 0 Suc, demo_phys) (d, w)"
    using demo_history unfolding u snd_conv .
  moreover have "length (file_locations d) = 1" using demo_uploaded_rows unfolding u by simp
  ultimately show ?thesis using reachable_databases_ok [OF inj_Suc] by blast
qed

end
